(* ===== verification/Rsi_Prelude.thy ===== *)
theory Rsi_Prelude
  imports Main "HOL-Library.Word"
begin

text \<open>
  Shared vocabulary of the driver model.

  \<^item> The kernel's integer types are words of their width: \<open>u8\<close>, \<open>u16\<close>, \<open>u32\<close> and
    \<open>u64\<close> (the driver's \<open>unsigned long\<close>, on a 64-bit kernel). A C \<open>int\<close> that carries
    a status (0, or minus an error number) is an \<open>int\<close>.
  \<^item> A \<open>u8 *\<close> that the code reads through is a \<open>ptr\<close>: a function from the offset to the
    byte found there. Reading past the end of the object it points into is therefore
    modelled as what it is in C: some byte, of which nothing is known.
  \<^item> \<open>bytes_at p off n\<close> is the copy \<open>memcpy(dst, p + off, n)\<close> makes.
  \<^item> Little-endian fields are read and written by \<open>get_le16\<close>, \<open>put_le16\<close> and their 32-bit
    versions (the driver runs on little-endian hosts or converts with \<open>cpu_to_le16\<close>).

  The collection \<open>rsi_defs\<close> holds the unfolding equations of small definitions that the
  component proofs open routinely.
\<close>

unbundle bit_operations_syntax

named_theorems rsi_defs \<open>definitions the component proofs unfold routinely\<close>

section \<open>Integers, error numbers and bytes\<close>

type_synonym u8 = "8 word"
type_synonym u16 = "16 word"
type_synonym u32 = "32 word"
type_synonym u64 = "64 word"
type_synonym ptr = "nat \<Rightarrow> u8"

text \<open>The error numbers of the kernel's \<open>errno.h\<close> the driver returns, negated.\<close>

abbreviation (input) EPERM :: int where "EPERM \<equiv> 1"
abbreviation (input) EIO :: int where "EIO \<equiv> 5"
abbreviation (input) ENOMEM :: int where "ENOMEM \<equiv> 12"
abbreviation (input) ENODEV :: int where "ENODEV \<equiv> 19"
abbreviation (input) EINVAL :: int where "EINVAL \<equiv> 22"
abbreviation (input) ENOSPC :: int where "ENOSPC \<equiv> 28"
abbreviation (input) ETIME :: int where "ETIME \<equiv> 62"

text \<open>The kernel's \<open>BIT(n)\<close>.\<close>

definition BIT :: "nat \<Rightarrow> 'a::len word" where
  [rsi_defs]: "BIT n = push_bit n 1"

definition bytes_at :: "ptr \<Rightarrow> nat \<Rightarrow> nat \<Rightarrow> u8 list" where
  "bytes_at p off n = map (\<lambda>i. p (off + i)) [0..<n]"

definition ptr_add :: "ptr \<Rightarrow> nat \<Rightarrow> ptr" where
  "ptr_add p k = (\<lambda>i. p (k + i))"

text \<open>A pointer to the bytes of a list; the offsets past its end read as \<open>fill\<close>.\<close>

definition ptr_of :: "(nat \<Rightarrow> u8) \<Rightarrow> u8 list \<Rightarrow> ptr" where
  "ptr_of fill xs = (\<lambda>i. if i < length xs then xs ! i else fill i)"

definition get_le16 :: "ptr \<Rightarrow> nat \<Rightarrow> u16" where
  "get_le16 p i = ucast (p i) OR push_bit 8 (ucast (p (i + 1)))"

definition get_le32 :: "ptr \<Rightarrow> nat \<Rightarrow> u32" where
  "get_le32 p i = ucast (p i) OR push_bit 8 (ucast (p (i + 1)))
                  OR push_bit 16 (ucast (p (i + 2))) OR push_bit 24 (ucast (p (i + 3)))"

definition put_le16 :: "u16 \<Rightarrow> u8 list" where
  "put_le16 w = [ucast w, ucast (drop_bit 8 w)]"

definition put_le32 :: "u32 \<Rightarrow> u8 list" where
  "put_le32 w = [ucast w, ucast (drop_bit 8 w), ucast (drop_bit 16 w), ucast (drop_bit 24 w)]"

definition put_le64 :: "u64 \<Rightarrow> u8 list" where
  "put_le64 w = put_le32 (ucast w) @ put_le32 (ucast (drop_bit 32 w))"

subsection \<open>Lemmas on copies\<close>

lemma length_bytes_at [simp]: "length (bytes_at p off n) = n"
  by (simp add: bytes_at_def)

lemma bytes_at_0 [simp]: "bytes_at p off 0 = []"
  by (simp add: bytes_at_def)

lemma nth_bytes_at [simp]: "i < n \<Longrightarrow> bytes_at p off n ! i = p (off + i)"
  by (simp add: bytes_at_def)

lemma bytes_at_append: "bytes_at p off m @ bytes_at p (off + m) n = bytes_at p off (m + n)"
  by (rule nth_equalityI) (auto simp: nth_append)

lemma bytes_at_ptr_add [simp]: "bytes_at (ptr_add p k) off n = bytes_at p (k + off) n"
  by (simp add: bytes_at_def ptr_add_def add.assoc)

lemma ptr_add_0 [simp]: "ptr_add p 0 = p"
  by (simp add: ptr_add_def)

lemma ptr_add_add [simp]: "ptr_add (ptr_add p j) k = ptr_add p (j + k)"
  by (simp add: ptr_add_def add.assoc)

lemma bytes_at_ptr_of: "n \<le> length xs \<Longrightarrow> bytes_at (ptr_of fill xs) 0 n = take n xs"
  by (rule nth_equalityI) (auto simp: ptr_of_def)

subsection \<open>Bits of the masks and flags the code uses\<close>

lemma bit_0xFF [simp]: "bit (0xFF :: int) n \<longleftrightarrow> n < 8"
  using bit_mask_iff [where 'a = int, of 8 n] by (simp add: mask_eq_exp_minus_1)

lemma bit_0xFFFF [simp]: "bit (0xFFFF :: int) n \<longleftrightarrow> n < 16"
  using bit_mask_iff [where 'a = int, of 16 n] by (simp add: mask_eq_exp_minus_1)

lemma bit_0x10000 [simp]: "bit (0x10000 :: int) n \<longleftrightarrow> n = 16"
  using bit_exp_iff [where 'a = int, of 16 n] by auto

text \<open>Clearing a bit that is set makes a word smaller: what a loop over flag bits counts down on.\<close>

lemma xor_bit_less:
  fixes x b :: "'a::len word"
  assumes "x AND b = b" "b \<noteq> 0"
  shows "x XOR b < x"
proof -
  have "bit x n" if "bit b n" for n
    using assms(1) that by (metis bit_and_iff)
  then have "x XOR b = x AND NOT b"
    by (intro bit_word_eqI) (auto simp: bit_simps)
  moreover have "x AND NOT b \<le> x" by (rule word_and_le2)
  moreover have "x AND NOT b \<noteq> x"
    using assms by (metis and.assoc and.commute bit.conj_cancel_left and_zero_eq)
  ultimately show ?thesis by simp
qed

lemma bit_BIT: "bit (BIT k :: 'a::len word) n \<longleftrightarrow> n = k \<and> k < LENGTH('a)"
  by (auto simp: BIT_def bit_simps)

lemma xor_BIT_less [simp]: "bit x k \<Longrightarrow> x XOR BIT k < (x :: 'a::len word)"
proof (rule xor_bit_less)
  assume "bit x k"
  then show "x AND BIT k = BIT k"
    by (intro bit_word_eqI) (auto simp: bit_simps bit_BIT)
  from \<open>bit x k\<close> have "bit (BIT k :: 'a word) k"
    by (simp add: bit_BIT bit_imp_le_length)
  then show "BIT k \<noteq> (0 :: 'a word)" by auto
qed

text \<open>A word with one bit: \<open>x & (x - 1)\<close> is zero for these and for zero only.\<close>

lemma bit_pred:
  fixes n :: nat
  assumes "bit n i" "i < j" "bit n j"
  shows "bit (n - 1) j"
proof -
  have "n mod 2 ^ j \<noteq> 0"
  proof
    assume "n mod 2 ^ j = 0"
    then obtain q where "n = 2 ^ j * q" by (auto simp: mod_eq_0_iff_dvd)
    also have "(2 :: nat) ^ j = 2 ^ (i + Suc (j - Suc i))" using assms(2) by simp
    also have "2 ^ (i + Suc (j - Suc i)) * q = 2 ^ i * (2 * (2 ^ (j - Suc i) * q))" by (simp only: power_add power_Suc mult.assoc)
    finally have "n div 2 ^ i = 2 * (2 ^ (j - Suc i) * q)" by simp
    with assms(1) show False by (simp add: bit_iff_odd)
  qed
  moreover have n: "n = 2 ^ j * (n div 2 ^ j) + n mod 2 ^ j" by simp
  ultimately have "n - 1 = 2 ^ j * (n div 2 ^ j) + (n mod 2 ^ j - 1)" "n mod 2 ^ j - 1 < 2 ^ j"
    by (linarith, meson less_imp_diff_less mod_less_divisor zero_less_numeral zero_less_power)
  then have "(n - 1) div 2 ^ j = n div 2 ^ j" by simp
  then show ?thesis using assms(3) by (simp add: bit_iff_odd)
qed

lemma one_bit:
  fixes x :: "'a::len word"
  assumes "x AND (x - 1) = 0" "x \<noteq> 0"
  shows "\<exists>k<LENGTH('a). x = BIT k"
proof -
  obtain i where i: "bit x i" using assms(2) by (metis bit_0_eq bit_eq_iff bot_apply bot_bool_def)
  have "\<not> bit x j" if "i < j" "bit x i" for i j
  proof
    assume "bit x j"
    have "0 < unat x" using assms(2) by (simp add: unat_gt_0)
    then have m: "unat (x - 1) = unat x - 1" using assms(2) by (simp add: unat_minus_one)
    have "bit (unat x) i" "bit (unat x) j" using that(2) \<open>bit x j\<close> by (simp_all add: bit_unsigned_iff)
    then have "bit (unat (x - 1)) j" unfolding m using bit_pred that(1) by blast
    then have "bit (x - 1) j" by (simp add: bit_unsigned_iff)
    with \<open>bit x j\<close> have "bit (x AND (x - 1)) j" by (simp add: bit_simps)
    then show False using assms(1) by simp
  qed
  then have "x = BIT i" using i by (intro bit_word_eqI) (metis bit_BIT bit_imp_le_length linorder_neqE_nat)
  then show ?thesis using i by (auto dest: bit_imp_le_length)
qed

lemma BIT_and_pred: "k < LENGTH('a) \<Longrightarrow> (BIT k :: 'a::len word) AND (BIT k - 1) = 0"
proof -
  have "(BIT k :: 'a word) - 1 = mask k" by (simp add: BIT_def mask_eq_exp_minus_1 push_bit_eq_mult)
  then show ?thesis by (intro bit_word_eqI) (auto simp: bit_simps bit_BIT)
qed

lemma find_BIT: "k < n \<Longrightarrow> n \<le> LENGTH('a) \<Longrightarrow> List.find (bit (BIT k :: 'a::len word)) [0..<n] = Some k"
  unfolding find_Some_iff by (intro exI [of _ k]) (simp add: bit_BIT)

lemma low_bits_div:
  fixes x :: "'a::len word"
  assumes "unat x < 2 ^ k"
  shows "bit x n \<Longrightarrow> n < k"
proof (rule ccontr)
  assume "bit x n" "\<not> n < k"
  then have "bit (unat x) n" "unat x < 2 ^ n"
    using order.strict_trans2 [OF assms power_increasing [of k n "2 :: nat"]]
    by (auto simp: bit_unsigned_iff dest: bit_imp_le_length)
  then show False by (simp add: bit_iff_odd)
qed

subsection \<open>Conversions between widths\<close>

lemma unat_ucast: "unat (ucast (w :: 'a::len word) :: 'b::len word) = unat w mod 2 ^ LENGTH('b)"
  by (simp add: unsigned_ucast_eq take_bit_eq_mod)

lemma unat_of_nat_small: "n < 2 ^ LENGTH('a) \<Longrightarrow> unat (of_nat n :: 'a::len word) = n"
  by (simp add: unsigned_of_nat take_bit_nat_eq_self)

lemma ucast_u16_u32_u16 [simp]: "ucast (ucast (w :: u16) :: u32) = w"
  by (rule bit_word_eqI) (auto simp: bit_simps)

lemma unat_u8_bound: "unat (w :: u8) < 256"
  using unsigned_less [of w] by simp

lemma unat_u16_bound: "unat (w :: u16) < 65536"
  using unsigned_less [of w] by simp

lemma unat_u32_bound: "unat (w :: u32) < 4294967296"
  using unsigned_less [of w] by simp

subsection \<open>Rounding up\<close>

lemma ceil_div:
  fixes n b :: nat
  assumes "0 < b"
  shows "(n + (b - 1)) div b = (if n mod b = 0 then n div b else n div b + 1)"
proof -
  have "(n + (b - 1)) div b = n div b + (n mod b + (b - 1)) div b"
    using assms div_add1_eq [of n "b - 1" b] by simp
  moreover have "(n mod b + (b - 1)) div b = (if n mod b = 0 then 0 else 1)"
    using mod_less_divisor [OF assms, of n] assms by (cases "n mod b") (auto simp: div_add_self2)
  ultimately show ?thesis by auto
qed

subsection \<open>Round trips of the little-endian fields\<close>

lemma get_put_le16: "get_le16 (ptr_of fill (put_le16 w @ rest)) 0 = w"
  unfolding get_le16_def put_le16_def ptr_of_def
  by (simp, rule bit_word_eqI) (auto simp: bit_simps)

lemma get_put_le32: "get_le32 (ptr_of fill (put_le32 w @ rest)) 0 = w"
proof (rule bit_word_eqI)
  fix n assume "n < LENGTH(32)"
  then show "bit (get_le32 (ptr_of fill (put_le32 w @ rest)) 0) n = bit w n"
    unfolding get_le32_def put_le32_def ptr_of_def
    by (cases "n < 8"; cases "n < 16"; cases "n < 24")
      (auto simp: bit_simps numeral_2_eq_2 numeral_3_eq_3)
qed

lemma length_put_le16 [simp]: "length (put_le16 w) = 2"
  by (simp add: put_le16_def)

lemma length_put_le32 [simp]: "length (put_le32 w) = 4"
  by (simp add: put_le32_def)

lemma length_concat_const: "(\<And>x. x \<in> set xs \<Longrightarrow> length (f x) = n) \<Longrightarrow> length (concat (map f xs)) = n * length xs"
  by (induction xs) simp_all

section \<open>Descriptors\<close>

text \<open>
  Every packet exchanged with the device starts with a descriptor of eight 16-bit words
  (\<open>desc_word\<close>): word 0 holds the length of what follows in its low 12 bits and the device's
  queue in the upper 4, word 1 the type of the packet in its low byte.
\<close>

abbreviation (input) FRAME_DESC_SZ :: nat where "FRAME_DESC_SZ \<equiv> 16"
abbreviation (input) RSI_COEX_Q :: u16 where "RSI_COEX_Q \<equiv> 0"
abbreviation (input) RSI_WIFI_MGMT_Q :: u16 where "RSI_WIFI_MGMT_Q \<equiv> 4"
abbreviation (input) RSI_WIFI_DATA_Q :: u16 where "RSI_WIFI_DATA_Q \<equiv> 5"
abbreviation (input) RSI_BT_MGMT_Q :: u16 where "RSI_BT_MGMT_Q \<equiv> 6"
abbreviation (input) RSI_BT_DATA_Q :: u16 where "RSI_BT_DATA_Q \<equiv> 7"

definition put_words :: "u16 list \<Rightarrow> u8 list" where
  "put_words ws = concat (map put_le16 ws)"

definition get_words :: "u8 list \<Rightarrow> nat \<Rightarrow> u16" where
  "get_words d i = ucast (d ! (2 * i)) OR push_bit 8 (ucast (d ! (2 * i + 1)))"

text \<open>Word 0 for a packet with \<open>len\<close> bytes behind the descriptor.\<close>

definition len_queue :: "nat \<Rightarrow> u16 \<Rightarrow> u16" where
  "len_queue len q = of_nat len OR push_bit 12 q"

lemma length_put_words [simp]: "length (put_words ws) = 2 * length ws"
  by (induction ws) (simp_all add: put_words_def)

lemma put_words_Cons: "put_words (w # ws) = put_le16 w @ put_words ws"
  by (simp add: put_words_def)

lemma get_put_words: "i < length ws \<Longrightarrow> get_words (put_words ws @ rest) i = ws ! i"
proof (induction ws arbitrary: i)
  case (Cons w ws)
  show ?case
  proof (cases i)
    case 0
    then show ?thesis
      unfolding get_words_def put_words_Cons put_le16_def
      by (simp, intro bit_word_eqI) (auto simp: bit_simps)
  next
    case (Suc j)
    then have "get_words (put_words (w # ws) @ rest) i = get_words (put_words ws @ rest) j"
      by (simp add: get_words_def put_words_Cons put_le16_def)
    with Cons Suc show ?thesis by simp
  qed
qed simp

text \<open>The length and the queue can be read back exactly when the length has 12 bits and the queue 4.\<close>

lemma len_queue_fields:
  assumes "len < 4096" "unat q < 16"
  shows "unat (len_queue len q AND 0xFFF) = len" "drop_bit 12 (len_queue len q) = q"
proof -
  let ?l = "of_nat len :: u16"
  have l: "unat ?l = len" using assms(1) by (intro unat_of_nat_small) simp
  have lb: "n < 12" if "bit len n" for n
  proof (rule ccontr)
    assume "\<not> n < 12"
    then have "len < 2 ^ n" using assms(1) power_increasing [of 12 n "2 :: nat"] by simp
    with that show False by (simp add: bit_iff_odd)
  qed
  have qb: "bit q n \<Longrightarrow> n < 4" for n using low_bits_div [of q 4 n] assms(2) by simp
  have m: "len_queue len q AND 0xFFF = take_bit 12 (len_queue len q)"
    by (simp add: take_bit_eq_mask mask_eq_exp_minus_1)
  have "take_bit 12 (len_queue len q) = ?l"
    by (rule bit_word_eqI) (auto simp: len_queue_def bit_simps dest: lb)
  with m l show "unat (len_queue len q AND 0xFFF) = len" by simp
  show "drop_bit 12 (len_queue len q) = q"
    by (rule bit_word_eqI) (auto simp: len_queue_def bit_simps dest: lb qb)
qed

text \<open>The change \<open>rsi_send_internal_mgmt_frame\<close> makes to a frame: bit 7 of byte 1 asks for an immediate wake-up.\<close>

definition internal_mgmt_bytes :: "u8 list \<Rightarrow> u8 list" where
  "internal_mgmt_bytes d = d[1 := d ! 1 OR BIT 7]"

lemma length_internal_mgmt_bytes [simp]: "length (internal_mgmt_bytes d) = length d"
  by (simp add: internal_mgmt_bytes_def)

lemma nth_internal_mgmt_bytes [simp]: "i \<noteq> 1 \<Longrightarrow> internal_mgmt_bytes d ! i = d ! i"
  by (simp add: internal_mgmt_bytes_def)

lemma drop_internal_mgmt_bytes [simp]: "1 < n \<Longrightarrow> drop n (internal_mgmt_bytes d) = drop n d"
  by (simp add: internal_mgmt_bytes_def)

lemma get_words_internal [simp]: "0 < i \<Longrightarrow> get_words (internal_mgmt_bytes d) i = get_words d i"
  by (simp add: get_words_def)

lemma put_words_nth_type: "1 < length ws \<Longrightarrow> (put_words ws @ rest) ! 2 = ucast (ws ! 1)"
  by (cases ws; cases "tl ws") (auto simp: put_words_Cons put_le16_def)

end
