(* ===== verification/Host_Intf.thy ===== *)
theory Host_Intf
  imports Rsi_Prelude
begin

text \<open>
  The interface between the hardware-independent half of the driver and a bus: the table
  \<open>struct rsi_host_intf_ops\<close> of rsi/rsi_main.h, which rsi/rsi_91x_sdio.c and
  rsi/rsi_91x_usb.c each fill with their functions and through which rsi/rsi_91x_hal.c
  loads the firmware and sends packets.

  The locale \<open>host_intf\<close> states what the callers rely on: what a successful bulk load and a
  successful register write have put on the bus, and that register reads put nothing there.
  It is interpreted on the SDIO functions in theory \<open>Sdio_Bus\<close> and on the USB functions in
  theory \<open>Usb_Bus\<close>; theory \<open>Bootloader\<close> proves the firmware loader inside it.
\<close>

section \<open>Device models and host interfaces\<close>

datatype host_intf = RSI_HOST_INTF_SDIO | RSI_HOST_INTF_USB

datatype rsi_dev_model = RSI_DEV_9113 | RSI_DEV_9116 | RSI_DEV_9117 | RSI_DEV_917

text \<open>The code compares device models with \<open>>=\<close> on the values of the enumeration.\<close>

fun dev_model_num :: "rsi_dev_model \<Rightarrow> nat" where
  "dev_model_num RSI_DEV_9113 = 0"
| "dev_model_num RSI_DEV_9116 = 1"
| "dev_model_num RSI_DEV_9117 = 2"
| "dev_model_num RSI_DEV_917 = 3"

lemma dev_model_num_inj: "dev_model_num a = dev_model_num b \<Longrightarrow> a = b"
  by (cases a; cases b) simp_all

instantiation rsi_dev_model :: linorder
begin

definition less_eq_rsi_dev_model :: "rsi_dev_model \<Rightarrow> rsi_dev_model \<Rightarrow> bool" where
  [simp]: "less_eq_rsi_dev_model a b = (dev_model_num a \<le> dev_model_num b)"

definition less_rsi_dev_model :: "rsi_dev_model \<Rightarrow> rsi_dev_model \<Rightarrow> bool" where
  [simp]: "less_rsi_dev_model a b = (dev_model_num a < dev_model_num b)"

instance
  by standard (auto dest: dev_model_num_inj)

end

text \<open>\<open>DEV_MODEL_9116\<close> of rsi/rsi_main.h: true for the 9116 and everything after it.\<close>

definition DEV_MODEL_9116 :: "rsi_dev_model \<Rightarrow> bool" where
  "DEV_MODEL_9116 m = (RSI_DEV_9116 \<le> m)"

lemma DEV_MODEL_9116_iff [simp]: "DEV_MODEL_9116 m \<longleftrightarrow> m \<noteq> RSI_DEV_9113"
  by (cases m) (simp_all add: DEV_MODEL_9116_def)

section \<open>The operations table\<close>

text \<open>
  Each operation takes the state of the bus and returns the C return value and the new
  state; \<open>master_reg_read\<close> also returns the value it stores through its pointer argument
  (\<open>None\<close> when it leaves it alone). The entries the USB table leaves NULL are options.
\<close>

record 's rsi_host_intf_ops =
  read_pkt :: "('s \<Rightarrow> u32 \<Rightarrow> int \<times> u8 list \<times> 's) option"
  write_pkt :: "'s \<Rightarrow> ptr \<Rightarrow> u32 \<Rightarrow> int \<times> 's"
  master_access_msword :: "('s \<Rightarrow> u16 \<Rightarrow> int \<times> 's) option"
  write_reg_multiple :: "'s \<Rightarrow> u32 \<Rightarrow> ptr \<Rightarrow> u16 \<Rightarrow> int \<times> 's"
  master_reg_read :: "'s \<Rightarrow> u32 \<Rightarrow> u16 \<Rightarrow> int \<times> u32 option \<times> 's"
  master_reg_write :: "'s \<Rightarrow> u64 \<Rightarrow> u64 \<Rightarrow> u16 \<Rightarrow> int \<times> 's"
  load_data_master_write :: "'s \<Rightarrow> u32 \<Rightarrow> u32 \<Rightarrow> u16 \<Rightarrow> ptr \<Rightarrow> int \<times> 's"
  ta_reset_ops :: "('s \<Rightarrow> int \<times> 's) option"
  check_hw_queue_status :: "'s \<Rightarrow> u8 \<Rightarrow> int \<times> 's"

section \<open>What a bulk load must put on the bus\<close>

text \<open>
  The specification of \<open>load_data_master_write\<close>: \<open>sz\<close> bytes from \<open>p\<close> in blocks of \<open>bs\<close>
  bytes at consecutive device addresses from \<open>base\<close>, the last block short.
\<close>

definition load_chunks :: "u32 \<Rightarrow> nat \<Rightarrow> nat \<Rightarrow> ptr \<Rightarrow> (u32 \<times> u8 list) list" where
  "load_chunks base sz bs p =
     map (\<lambda>i. (base + of_nat (i * bs), bytes_at p (i * bs) bs)) [0..<sz div bs] @
     (if sz mod bs = 0 then []
      else [(base + of_nat (sz div bs * bs), bytes_at p (sz div bs * bs) (sz mod bs))])"

lemma concat_full_chunks:
  "concat (map (\<lambda>i. bytes_at p (i * bs) bs) [0..<k]) = bytes_at p 0 (k * bs)"
proof (induction k)
  case 0
  show ?case by simp
next
  case (Suc k)
  then show ?case by (simp add: bytes_at_append [where off = 0, simplified] add.commute)
qed

lemma load_chunks_bytes: "concat (map snd (load_chunks base sz bs p)) = bytes_at p 0 sz"
proof -
  have "sz div bs * bs + sz mod bs = sz" by simp
  then show ?thesis
    using bytes_at_append [of p 0 "sz div bs * bs" "sz mod bs"]
    by (auto simp: load_chunks_def concat_full_chunks comp_def)
qed

text \<open>Each block starts where the one before it ended.\<close>

lemma load_chunks_addr:
  "i < length (load_chunks base sz bs p) \<Longrightarrow>
   fst (load_chunks base sz bs p ! i) = base + of_nat (i * bs)"
  by (auto simp: load_chunks_def nth_append less_Suc_eq split: if_splits)

lemma load_chunks_Suc_block:
  assumes "0 < bs" "bs \<le> sz"
  shows "load_chunks base sz bs p =
    (base, bytes_at p 0 bs) # load_chunks (base + of_nat bs) (sz - bs) bs (ptr_add p bs)"
proof -
  define k where "k = (sz - bs) div bs"
  have k: "sz div bs = Suc k"
    using assms unfolding k_def by (simp add: le_div_geq)
  have r: "(sz - bs) mod bs = sz mod bs"
    using assms by (simp add: le_mod_geq)
  have upt: "[0..<Suc k] = 0 # map Suc [0..<k]"
    by (simp add: map_Suc_upt upt_conv_Cons)
  show ?thesis
    unfolding load_chunks_def k r upt k_def [symmetric] by (simp add: algebra_simps)
qed

section \<open>The contract of a host interface\<close>

text \<open>
  \<open>issued s\<close> is what the driver has written into the device's memory so far, as (address,
  bytes) in order; \<open>alive s\<close> says that the bus has not been given up after a failed write.
\<close>

locale host_intf =
  fixes ops :: "'s rsi_host_intf_ops"
    and issued :: "'s \<Rightarrow> (u32 \<times> u8 list) list"
    and alive :: "'s \<Rightarrow> bool"
  assumes load_ok:
    "alive s \<Longrightarrow> 0 < bs \<Longrightarrow> bs \<le> 256 \<Longrightarrow> unat sz div unat bs < 2 ^ 16 \<Longrightarrow>
     load_data_master_write ops s base sz bs p = (0, s') \<Longrightarrow>
     issued s' = issued s @ load_chunks base (unat sz) (unat bs) p \<and> alive s'"
  and load_neg: "fst (load_data_master_write ops s base sz bs p) \<le> 0"
  and reg_write_ok:
    "alive s \<Longrightarrow> addr < 2 ^ 32 \<Longrightarrow> len = 2 \<or> len = 4 \<Longrightarrow>
     master_reg_write ops s addr data len = (st, s') \<Longrightarrow> 0 \<le> st \<Longrightarrow>
     (\<exists>bytes. issued s' = issued s @ [(ucast addr, bytes)] \<and>
        take (unat len) bytes = take (unat len) (put_le32 (ucast data))) \<and> alive s'"
  and reg_read_frame:
    "master_reg_read ops s addr32 len = (st, v, s') \<Longrightarrow> issued s' = issued s \<and> alive s' = alive s"

end
