(* ===== verification/Bootloader.thy ===== *)
theory Bootloader
  imports Host_Intf "HOL-Library.Monad_Syntax"
begin

text \<open>
  Talking to the device's boot loader and loading its firmware: the second half of
  rsi/rsi_91x_hal.c, from \<open>bl_cmd_timeout\<close> on, over any host interface.

  The boot loader is driven through two registers, REGIN (commands) and REGOUT (responses),
  under a timer. Time is the clock \<open>clock\<close> in milliseconds: \<open>mdelay\<close> advances it by at least
  its argument (\<open>lag\<close> says by how much more), and a pending timer whose time has come then
  fires. The two polling loops are \<open>partial_function (option)\<close>: a wait that never ended would
  be None; that every command returns is proved.

  \<open>fw_files\<close> stands for the firmware files of the system (\<open>request_firmware\<close>): the bytes of a
  file, readable past its end like any C pointer, and its size. \<open>fw_stack\<close> is what lies
  behind the local copy of the boot descriptor.
\<close>

section \<open>State\<close>

record version_info =
  ver_major :: u16
  ver_minor :: u16
  security_version :: u16
  build_id :: u16
  patch_id :: u16
  chip_id :: u16
  release_num :: u8
  customer_id :: u8
  patch_num :: u8
  fw_ver :: "u8 list"

record 's bl_hw =
  hw_dev :: 's
  host_intf_ops :: "'s rsi_host_intf_ops"
  rsi_host_intf :: host_intf
  device_model :: rsi_dev_model
  coex_mode :: u8
  oper_mode :: u16
  blcmd_timer_expired :: bool
  bl_cmd_timer :: "nat option"      \<comment> \<open>when the pending timer expires\<close>
  clock :: nat
  lag :: "nat \<Rightarrow> nat"
  flash_capacity :: u32
  chip_rev :: u8
  fw_file_name :: string
  lmac_ver :: version_info
  fw_files :: "string \<Rightarrow> (ptr \<times> u32) option"
  fw_stack :: "nat \<Rightarrow> u8"
  hw_alloc :: "nat \<Rightarrow> bool"
  card_ready_wait :: bool           \<comment> \<open>\<open>common_hal_fsm\<close> is \<open>COMMAN_HAL_WAIT_FOR_CARD_READY\<close>\<close>

abbreviation (input) PING_BUFFER_ADDRESS_9116 :: u32 where "PING_BUFFER_ADDRESS_9116 \<equiv> 0x18004"
abbreviation (input) PING_BUFFER_ADDRESS :: u32 where "PING_BUFFER_ADDRESS \<equiv> 0x19000"
abbreviation (input) PONG_BUFFER_ADDRESS :: u32 where "PONG_BUFFER_ADDRESS \<equiv> 0x1a000"
abbreviation (input) FLASH_WRITE_CHUNK_SIZE :: u32 where "FLASH_WRITE_CHUNK_SIZE \<equiv> 4096"
abbreviation (input) SWBL_REGIN :: u32 where "SWBL_REGIN \<equiv> 0x41050034"
abbreviation (input) SWBL_REGOUT :: u32 where "SWBL_REGOUT \<equiv> 0x4105003c"
abbreviation (input) PING_WRITE :: u8 where "PING_WRITE \<equiv> 1"
abbreviation (input) PONG_WRITE :: u8 where "PONG_WRITE \<equiv> 2"
abbreviation (input) BL_CMD_TIMEOUT :: nat where "BL_CMD_TIMEOUT \<equiv> 2000"
abbreviation (input) BL_BURN_TIMEOUT :: nat where "BL_BURN_TIMEOUT \<equiv> 50 * 1000"
abbreviation (input) REGIN_VALID :: u32 where "REGIN_VALID \<equiv> 0xA"
abbreviation (input) REGIN_INPUT :: u32 where "REGIN_INPUT \<equiv> 0xA0"
abbreviation (input) REGOUT_VALID :: u32 where "REGOUT_VALID \<equiv> 0xAB"
abbreviation (input) REGOUT_INVALID :: u64 where "REGOUT_INVALID \<equiv> NOT 0xAB"
abbreviation (input) CMD_PASS :: u8 where "CMD_PASS \<equiv> 0xAA"
abbreviation (input) CMD_FAIL :: u16 where "CMD_FAIL \<equiv> 0xCC"
abbreviation (input) LOAD_HOSTED_FW :: u8 where "LOAD_HOSTED_FW \<equiv> 65"
abbreviation (input) BURN_HOSTED_FW :: u8 where "BURN_HOSTED_FW \<equiv> 66"
abbreviation (input) PING_VALID :: u8 where "PING_VALID \<equiv> 73"
abbreviation (input) PONG_VALID :: u8 where "PONG_VALID \<equiv> 79"
abbreviation (input) PING_AVAIL :: u8 where "PING_AVAIL \<equiv> 73"
abbreviation (input) PONG_AVAIL :: u8 where "PONG_AVAIL \<equiv> 79"
abbreviation (input) EOF_REACHED :: u8 where "EOF_REACHED \<equiv> 69"
abbreviation (input) CHECK_CRC :: u8 where "CHECK_CRC \<equiv> 75"
abbreviation (input) POLLING_MODE :: u8 where "POLLING_MODE \<equiv> 80"
abbreviation (input) CONFIG_AUTO_READ_MODE :: u8 where "CONFIG_AUTO_READ_MODE \<equiv> 82"
abbreviation (input) JUMP_TO_ZERO_PC :: u8 where "JUMP_TO_ZERO_PC \<equiv> 74"
abbreviation (input) FW_LOADING_SUCCESSFUL :: u8 where "FW_LOADING_SUCCESSFUL \<equiv> 83"
abbreviation (input) LOADING_INITIATED :: u8 where "LOADING_INITIATED \<equiv> 49"
abbreviation (input) IMAGE_STORED_IN_DUMP :: u8 where "IMAGE_STORED_IN_DUMP \<equiv> 0xF7"
abbreviation (input) SEND_RPS_FILE :: u8 where "SEND_RPS_FILE \<equiv> 50"
abbreviation (input) RSI_FW_UPGRADE :: u8 where "RSI_FW_UPGRADE \<equiv> 110"
abbreviation (input) MEM_ACCESS_CTRL_FROM_HOST :: u64 where "MEM_ACCESS_CTRL_FROM_HOST \<equiv> 0x41300000"
abbreviation (input) FW_IMAGE_MIN_ADDRESS :: u32 where "FW_IMAGE_MIN_ADDRESS \<equiv> 68 * 1024"
abbreviation (input) MAX_FLASH_FILE_SIZE :: u32 where "MAX_FLASH_FILE_SIZE \<equiv> 400 * 1024"
abbreviation (input) FLASH_SECTOR_SIZE :: u32 where "FLASH_SECTOR_SIZE \<equiv> 4 * 1024"
abbreviation (input) LMAC_VER_OFFSET :: nat where "LMAC_VER_OFFSET \<equiv> 0x820 + 0x200"
abbreviation (input) RSI_BL_CTRL_LEN_MASK :: u32 where "RSI_BL_CTRL_LEN_MASK \<equiv> 0xFFFFFF"

definition RAM_384K_ACCESS_FROM_TA :: u64 where
  "RAM_384K_ACCESS_FROM_TA = BIT 2 OR BIT 3 OR BIT 4 OR BIT 5 OR BIT 20 OR BIT 21 OR BIT 22 OR BIT 23 OR BIT 24 OR BIT 25"

section \<open>The host interface, called on the hardware state\<close>

definition hif_reg_read :: "'s bl_hw \<Rightarrow> u32 \<Rightarrow> u16 \<Rightarrow> int \<times> u32 \<times> 's bl_hw" where
  "hif_reg_read a addr len =
     (let (st, v, d) = master_reg_read (host_intf_ops a) (hw_dev a) addr len
      in (st, case v of None \<Rightarrow> 0 | Some x \<Rightarrow> x, a\<lparr>hw_dev := d\<rparr>))"

definition hif_reg_write :: "'s bl_hw \<Rightarrow> u64 \<Rightarrow> u64 \<Rightarrow> u16 \<Rightarrow> int \<times> 's bl_hw" where
  "hif_reg_write a addr data len =
     (let (st, d) = master_reg_write (host_intf_ops a) (hw_dev a) addr data len in (st, a\<lparr>hw_dev := d\<rparr>))"

definition hif_load :: "'s bl_hw \<Rightarrow> u32 \<Rightarrow> u32 \<Rightarrow> u16 \<Rightarrow> ptr \<Rightarrow> int \<times> 's bl_hw" where
  "hif_load a base sz bs p =
     (let (st, d) = load_data_master_write (host_intf_ops a) (hw_dev a) base sz bs p in (st, a\<lparr>hw_dev := d\<rparr>))"

definition hif_write_multiple :: "'s bl_hw \<Rightarrow> u32 \<Rightarrow> ptr \<Rightarrow> u16 \<Rightarrow> int \<times> 's bl_hw" where
  "hif_write_multiple a addr p n =
     (let (st, d) = write_reg_multiple (host_intf_ops a) (hw_dev a) addr p n in (st, a\<lparr>hw_dev := d\<rparr>))"

text \<open>A call through an entry the table leaves NULL does not return (None).\<close>

definition hif_msword :: "'s bl_hw \<Rightarrow> u16 \<Rightarrow> (int \<times> 's bl_hw) option" where
  "hif_msword a ms =
     (case master_access_msword (host_intf_ops a) of
        None \<Rightarrow> None
      | Some f \<Rightarrow> (let (st, d) = f (hw_dev a) ms in Some (st, a\<lparr>hw_dev := d\<rparr>)))"

definition hif_ta_reset :: "'s bl_hw \<Rightarrow> (int \<times> 's bl_hw) option" where
  "hif_ta_reset a =
     (case ta_reset_ops (host_intf_ops a) of
        None \<Rightarrow> None
      | Some f \<Rightarrow> (let (st, d) = f (hw_dev a) in Some (st, a\<lparr>hw_dev := d\<rparr>)))"

section \<open>The command timer\<close>

definition bl_cmd_timeout :: "'s bl_hw \<Rightarrow> 's bl_hw" where
  [rsi_defs]: "bl_cmd_timeout a = a\<lparr>blcmd_timer_expired := True, bl_cmd_timer := None\<rparr>"

definition mdelay :: "nat \<Rightarrow> 's bl_hw \<Rightarrow> 's bl_hw" where
  "mdelay ms a =
     (let a1 = a\<lparr>clock := clock a + ms + lag a (clock a)\<rparr>
      in case bl_cmd_timer a1 of
           None \<Rightarrow> a1
         | Some expires \<Rightarrow> if expires \<le> clock a1 then bl_cmd_timeout a1 else a1)"

definition bl_start_cmd_timer :: "'s bl_hw \<Rightarrow> nat \<Rightarrow> 's bl_hw" where
  [rsi_defs]: "bl_start_cmd_timer a timeout =
     a\<lparr>blcmd_timer_expired := False, bl_cmd_timer := Some (clock a + timeout)\<rparr>"

definition bl_stop_cmd_timer :: "'s bl_hw \<Rightarrow> 's bl_hw" where
  [rsi_defs]: "bl_stop_cmd_timer a = a\<lparr>blcmd_timer_expired := False, bl_cmd_timer := None\<rparr>"

section \<open>Commands\<close>

text \<open>
  The polling loops: read the register \<open>reg\<close> until \<open>found\<close> holds of its value. The result is
  False when a read failed, else the last value read; the caller looks at
  \<open>blcmd_timer_expired\<close> afterwards, as the code does.
\<close>

partial_function (option) wait_reg :: "u32 \<Rightarrow> (u32 \<Rightarrow> bool) \<Rightarrow> u32 \<Rightarrow> 's bl_hw \<Rightarrow> (bool \<times> u32 \<times> 's bl_hw) option" where
  "wait_reg reg found val a =
     (if blcmd_timer_expired a then Some (True, val, a)
      else
        let (st, v, a1) = hif_reg_read a reg 2
        in if st < 0 then Some (False, v, a1)
           else let a2 = mdelay 1 a1 in if found v then Some (True, v, a2) else wait_reg reg found v a2)"

definition wait_regin :: "u32 \<Rightarrow> 's bl_hw \<Rightarrow> (bool \<times> u32 \<times> 's bl_hw) option" where
  "wait_regin regin_val a = wait_reg SWBL_REGIN (\<lambda>v. drop_bit 12 v \<noteq> REGIN_VALID) regin_val a"

definition wait_regout :: "u32 \<Rightarrow> 's bl_hw \<Rightarrow> (bool \<times> u32 \<times> 's bl_hw) option" where
  "wait_regout regout_val a = wait_reg SWBL_REGOUT (\<lambda>v. drop_bit 8 v = REGOUT_VALID) regout_val a"

text \<open>The write of the command into REGIN.\<close>

definition issue_cmd :: "'s bl_hw \<Rightarrow> u8 \<Rightarrow> int \<times> 's bl_hw" where
  "issue_cmd a cmd =
     (let regin_input = REGIN_INPUT OR ucast (coex_mode a)
      in if cmd = CHECK_CRC \<and> DEV_MODEL_9116 (device_model a)
         then hif_reg_write a (ucast SWBL_REGIN) (ucast (ucast cmd OR push_bit 8 (regin_input OR push_bit 8 1))) 4
         else hif_reg_write a (ucast SWBL_REGIN) (ucast (ucast cmd OR push_bit 8 regin_input)) 2)"

text \<open>
  \<open>bl_write_cmd\<close> also returns what it stores in \<open>*cmd_resp\<close>, which both callers have set to 0.
\<close>

definition bl_write_cmd :: "'s bl_hw \<Rightarrow> u8 \<Rightarrow> u8 \<Rightarrow> (int \<times> u16 \<times> 's bl_hw) option" where
  "bl_write_cmd a cmd exp_resp = do {
     (ok, regin_val, a1) \<leftarrow> wait_regin 0 a;
     if \<not> ok \<or> blcmd_timer_expired a1 then Some (- EINVAL, 0, a1)
     else do {
       let (st, a2) = issue_cmd a1 cmd;
       if st < 0 then Some (- EINVAL, 0, a2)
       else do {
         let a3 = mdelay 1 a2;
         if cmd = LOAD_HOSTED_FW \<or> cmd = JUMP_TO_ZERO_PC then Some (0, 0, a3)
         else do {
           (ok2, regout_val, a4) \<leftarrow> wait_regout 0 a3;
           if \<not> ok2 \<or> blcmd_timer_expired a4 then Some (- EINVAL, 0, a4)
           else do {
             let cmd_resp = (ucast regout_val :: u16);
             let output = (ucast regout_val :: u8);
             let (st2, a5) = hif_reg_write a4 (ucast SWBL_REGOUT) (ucast cmd OR push_bit 8 REGOUT_INVALID) 2;
             if st2 < 0 then Some (- EINVAL, cmd_resp, a5)
             else do {
               let a6 = mdelay 1 a5;
               if output = exp_resp \<or> cmd = EOF_REACHED \<and> output = IMAGE_STORED_IN_DUMP
               then Some (0, cmd_resp, a6) else Some (- EINVAL, cmd_resp, a6)
             }
           }
         }
       }
     }
   }"

definition bl_cmd :: "'s bl_hw \<Rightarrow> u8 \<Rightarrow> u8 \<Rightarrow> (int \<times> 's bl_hw) option" where
  "bl_cmd a cmd exp_resp = do {
     let timeout = (if cmd = EOF_REACHED \<or> cmd = PING_VALID \<or> cmd = PONG_VALID then BL_BURN_TIMEOUT else BL_CMD_TIMEOUT);
     (st, resp, a1) \<leftarrow> bl_write_cmd (bl_start_cmd_timer a timeout) cmd exp_resp;
     Some (if st < 0 then - EINVAL else 0, bl_stop_cmd_timer a1)
   }"

section \<open>Writing an image to flash\<close>

definition bl_header :: "'s bl_hw \<Rightarrow> ptr \<Rightarrow> u8 list" where
  "bl_header a flash_content =
     put_le32 0 @ put_le32 (ucast (coex_mode a)) @ put_le32 (get_le32 flash_content 20) @
     put_le32 (get_le32 flash_content 16) @ put_le32 (get_le32 flash_content 8)"

text \<open>The write of a header to a boot loader address, the same for both device families.\<close>

definition write_header_at :: "'s bl_hw \<Rightarrow> u32 \<Rightarrow> ptr \<Rightarrow> u16 \<Rightarrow> (int \<times> 's bl_hw) option" where
  "write_header_at a addr hdr write_len =
     (if rsi_host_intf a = RSI_HOST_INTF_USB
      then let (st, a1) = hif_write_multiple a addr hdr write_len
           in Some (if st < 0 then - EINVAL else 0, a1)
      else do {
        (st, a1) \<leftarrow> hif_msword a (ucast (drop_bit 16 addr));
        if st < 0 then Some (- EINVAL, a1)
        else do {
          let (st2, a2) = hif_write_multiple a1 (0x10000 OR (addr AND 0xFFFF)) hdr write_len;
          Some (if st2 < 0 then - EINVAL else 0, a2)
        }
      })"

definition bl_write_header :: "'s bl_hw \<Rightarrow> ptr \<Rightarrow> (int \<times> 's bl_hw) option" where
  "bl_write_header a flash_content =
     (if device_model a = RSI_DEV_9113
      then (if \<not> hw_alloc a (clock a) then Some (- ENOMEM, a)
            else write_header_at a PING_BUFFER_ADDRESS (ptr_of (\<lambda>_. 0) (bl_header a flash_content)) 20)
      else (if rsi_host_intf a \<noteq> RSI_HOST_INTF_USB \<and> \<not> hw_alloc a (clock a) then Some (- ENOMEM, a)
            else write_header_at a PING_BUFFER_ADDRESS_9116 flash_content 0x40))"

definition read_flash_capacity :: "'s bl_hw \<Rightarrow> u32 \<times> 's bl_hw" where
  "read_flash_capacity a =
     (let (st, flash_sz, a1) = hif_reg_read a 0x04000016 2
      in if st < 0 then (0, a1) else (flash_sz * 1024, a1))"

definition load_block_size :: "'s bl_hw \<Rightarrow> u16" where
  "load_block_size a = (if rsi_host_intf a = RSI_HOST_INTF_SDIO then 256 else 252)"

definition ping_pong_write :: "'s bl_hw \<Rightarrow> u8 \<Rightarrow> ptr \<Rightarrow> u32 \<Rightarrow> (int \<times> 's bl_hw) option" where
  "ping_pong_write a cmd addr sz = do {
     let (cmd_addr, cmd_resp, cmd_req) =
       (if cmd = PING_WRITE then (PING_BUFFER_ADDRESS, PONG_AVAIL, PING_VALID)
        else (PONG_BUFFER_ADDRESS, PING_AVAIL, PONG_VALID));
     let (st, a1) = hif_load a cmd_addr sz (load_block_size a) addr;
     if st \<noteq> 0 then Some (- EINVAL, a1)
     else do {
       (st2, a2) \<leftarrow> bl_cmd a1 cmd_req cmd_resp;
       if st2 < 0 then Some (- EINVAL, bl_stop_cmd_timer a2) else Some (0, a2)
     }
   }"

text \<open>
  The loop of \<open>auto_fw_upgrade\<close>, from \<open>index\<close> on, with the number of rounds still to do; the
  last round writes what is left over from whole chunks, if anything.
\<close>

primrec flash_loop :: "nat \<Rightarrow> nat \<Rightarrow> nat \<Rightarrow> u32 \<Rightarrow> ptr \<Rightarrow> 's bl_hw \<Rightarrow> (int \<times> 's bl_hw) option" where
  "flash_loop 0 index num_flash content_total flash_content a = Some (0, a)"
| "flash_loop (Suc k) index num_flash content_total flash_content a =
     (let sz = (if index \<noteq> num_flash then FLASH_WRITE_CHUNK_SIZE else content_total mod FLASH_WRITE_CHUNK_SIZE)
      in if index = num_flash \<and> sz = 0 then Some (0, a)
         else do {
           (st, a1) \<leftarrow> ping_pong_write a (if index mod 2 \<noteq> 0 then PING_WRITE else PONG_WRITE) flash_content sz;
           if st \<noteq> 0 then Some (- EINVAL, a1)
           else flash_loop k (Suc index) num_flash content_total (ptr_add flash_content (unat sz)) a1
         })"

text \<open>The checks that come before anything is written.\<close>

definition flash_image_ok :: "'s bl_hw \<Rightarrow> ptr \<Rightarrow> u32 \<Rightarrow> bool" where
  "flash_image_ok a flash_content content_size \<longleftrightarrow>
     (let flash_start_address = get_le32 flash_content 16
      in content_size \<le> MAX_FLASH_FILE_SIZE \<and> FW_IMAGE_MIN_ADDRESS \<le> flash_start_address \<and>
         flash_start_address mod FLASH_SECTOR_SIZE = 0 \<and>
         flash_start_address + content_size \<le> flash_capacity a)"

definition auto_fw_upgrade :: "'s bl_hw \<Rightarrow> ptr \<Rightarrow> u32 \<Rightarrow> (int \<times> 's bl_hw) option" where
  "auto_fw_upgrade a flash_content content_size =
     (if \<not> flash_image_ok a flash_content content_size then Some (- EINVAL, a)
      else do {
        let num_flash = unat (content_size div FLASH_WRITE_CHUNK_SIZE);
        (st, a1) \<leftarrow> flash_loop (Suc num_flash) 0 num_flash content_size flash_content a;
        if st \<noteq> 0 then Some (- EINVAL, a1)
        else do {
          (st2, a2) \<leftarrow> bl_cmd a1 EOF_REACHED FW_LOADING_SUCCESSFUL;
          if st2 < 0 then Some (- EINVAL, bl_stop_cmd_timer a2) else Some (0, a2)
        }
      })"

text \<open>
  The secure load of a 9117 (\<open>CONFIG_SECURE_FW_LOAD\<close>): blocks of 4096 bytes to the address
  that equals the block size, alternating PING and PONG. \<open>no_of_blocks\<close> is decremented after
  each block, so an empty file makes it wrap around.
\<close>

partial_function (option) secure_loop :: "u32 \<Rightarrow> bool \<Rightarrow> ptr \<Rightarrow> 's bl_hw \<Rightarrow> (int \<times> 's bl_hw) option" where
  "secure_loop no_of_blocks ping firmware_ptr a = do {
     let (st, a1) = hif_write_multiple a 4096 firmware_ptr 4096;
     if st < 0 then Some (- EINVAL, a1)
     else do {
       (st2, a2) \<leftarrow> bl_cmd a1 (if ping then PING_VALID else PONG_VALID) (if ping then PONG_AVAIL else PING_AVAIL);
       if st2 < 0 then Some (- EINVAL, bl_stop_cmd_timer a2)
       else if no_of_blocks - 1 = 0 then Some (0, a2)
       else secure_loop (no_of_blocks - 1) (\<not> ping) (ptr_add firmware_ptr 4096) a2
     }
   }"

definition rsi_secure_firmware_load :: "'s bl_hw \<Rightarrow> ptr \<Rightarrow> u32 \<Rightarrow> (int \<times> 's bl_hw) option" where
  "rsi_secure_firmware_load a firmware_ptr fw_sz = do {
     (st, a1) \<leftarrow> bl_cmd a RSI_FW_UPGRADE SEND_RPS_FILE;
     if st \<noteq> 0 then Some (- EINVAL, a1)
     else if \<not> hw_alloc a1 (clock a1) then Some (- ENOMEM, a1)
     else do {
       let no_of_blocks = fw_sz div 4096 + (if fw_sz mod 4096 \<noteq> 0 then 1 else 0);
       (st2, a2) \<leftarrow> secure_loop no_of_blocks True firmware_ptr a1;
       if st2 \<noteq> 0 then Some (st2, a2)
       else do {
         (st3, a3) \<leftarrow> bl_cmd a2 EOF_REACHED CMD_PASS;
         if st3 < 0 then Some (- EINVAL, bl_stop_cmd_timer a3)
         else do {
           (st4, a4) \<leftarrow> bl_cmd a3 JUMP_TO_ZERO_PC CMD_PASS;
           Some (if st4 < 0 then - EINVAL else 0, a4)
         }
       }
     }
   }"

section \<open>Loading the TA firmware of a 9116 or later\<close>

text \<open>The tables of file names, indexed by \<open>coex_mode\<close>; every address in them is 0.\<close>

definition ta_metadata :: "string list" where
  "ta_metadata = [''pmemdata_dummy'', ''pmemdata'', ''pmemdata_wlan_bt_classic'', ''pmemdata_wlan_zigb'',
     ''pmemdata_wlan_bt_classic'', ''pmemdata_dummy'', ''pmemdata_zigb_coordinator'', ''pmemdata_zigb_router'']"

definition ta_metadata_1p5 :: "string list" where
  "ta_metadata_1p5 = [''pmemdata_dummy'', ''pmemdata_1p5'', ''pmemdata_wlan_bt_classic_1p5'', ''pmemdata_dummy'',
     ''pmemdata_wlan_bt_classic_1p5'', ''pmemdata_dummy'', ''pmemdata_dummy'', ''pmemdata_dummy'']"

definition ta_metadata_9117 :: string where
  "ta_metadata_9117 = ''pmemdata_wlan_bt_9117''"

definition metadata_flash_content :: "string list" where
  "metadata_flash_content = [''flash_content'', ''RS9113_WLAN_QSPI.rps'', ''RS9113_WLAN_BT_DUAL_MODE.rps'',
     ''RS9113_WLAN_ZIGBEE.rps'', ''RS9113_AP_BT_DUAL_MODE.rps'', ''RS9113_WLAN_QSPI.rps'',
     ''RS9113_ZIGBEE_COORDINATOR.rps'', ''RS9113_ZIGBEE_ROUTER.rps'']"

text \<open>Which file to load; for a 9116 it depends on the chip revision, read from the device.\<close>

definition select_firmware :: "'s bl_hw \<Rightarrow> int \<times> string \<times> 's bl_hw" where
  "select_firmware a =
     (if RSI_DEV_9117 \<le> device_model a then (0, ta_metadata_9117, a)
      else
        let (st, rev, a1) = hif_reg_read a 0x04000437 2
        in if st < 0 then (- EIO, [], a1)
           else
             let a2 = a1\<lparr>chip_rev := ucast (rev AND 0xFF)\<rparr>
             in (0, (if chip_rev a2 = 0x15 then ta_metadata_1p5 else ta_metadata) ! unat (coex_mode a2), a2))"

text \<open>The version fields of the image: eight bytes whose place depends on the device model.\<close>

definition lmac_ver_offset :: "rsi_dev_model \<Rightarrow> nat" where
  "lmac_ver_offset model =
     (if model = RSI_DEV_9117 then 0x22c0 + 0x80 else if model = RSI_DEV_917 then 0x40 else 0x22c0)"

definition note_version :: "'s bl_hw \<Rightarrow> ptr \<Rightarrow> 's bl_hw" where
  "note_version a v =
     a\<lparr>lmac_ver := (lmac_ver a)\<lparr>ver_major := ucast (v 3), ver_minor := ucast (v 2), security_version := ucast (v 4),
         build_id := ucast (v 0), patch_id := ucast (v 1),
         chip_id := push_bit 8 (ucast (v 7)) OR ucast (v 6), customer_id := v 5\<rparr>\<rparr>"

text \<open>The size is rounded up to a multiple of 4.\<close>

definition round4 :: "u32 \<Rightarrow> u32" where
  "round4 n = (if n mod 4 \<noteq> 0 then n + (4 - n mod 4) else n)"

text \<open>
  The loop over the entries of the boot descriptor \<open>ds\<close>, from entry \<open>ii\<close> on. \<open>status\<close> is
  overwritten by every chunk, so what the caller sees is the status of the last one.
\<close>

partial_function (option) load_chunks_loop :: "ptr \<Rightarrow> nat \<Rightarrow> ptr \<Rightarrow> 's bl_hw \<Rightarrow> (int \<times> 's bl_hw) option" where
  "load_chunks_loop ds ii firmware_ptr a =
     (let control = get_le32 ds (8 + 8 * ii);
          dst_addr = get_le32 ds (12 + 8 * ii);
          len = control AND RSI_BL_CTRL_LEN_MASK;
          (status, a1) = hif_load a dst_addr len (load_block_size a) firmware_ptr
      in if bit control 31 then Some (status, a1)
         else load_chunks_loop ds (Suc ii) (ptr_add firmware_ptr (unat len)) a1)"

definition load_image :: "'s bl_hw \<Rightarrow> ptr \<Rightarrow> u32 \<Rightarrow> (int \<times> 's bl_hw) option" where
  "load_image a firmware_ptr instructions_sz =
     (if get_le16 firmware_ptr 0 = 0x5aa5
      then load_chunks_loop (ptr_of (fw_stack a) (bytes_at firmware_ptr 0 64)) 0
             (ptr_add firmware_ptr (unat (get_le16 firmware_ptr 2))) a
      else Some (hif_load a 0 instructions_sz (load_block_size a) firmware_ptr))"

definition rsi_load_9116_firmware :: "'s bl_hw \<Rightarrow> (int \<times> 's bl_hw) option" where
  "rsi_load_9116_firmware a =
     (let (st, a1) = hif_reg_write a MEM_ACCESS_CTRL_FROM_HOST RAM_384K_ACCESS_FROM_TA 4
      in if st < 0 then Some (- EIO, a1)
         else
           let (st2, name, a2) = select_firmware a1
           in if st2 < 0 then Some (st2, a2)
              else
                let a3 = a2\<lparr>fw_file_name := name\<rparr>
                in case fw_files a3 name of
                     None \<Rightarrow> Some (- EINVAL, a3)
                   | Some (data, sz) \<Rightarrow> do {
                       let a4 = note_version a3 (ptr_add data (lmac_ver_offset (device_model a3)));
                       (status, a5) \<leftarrow> load_image a4 data (round4 sz);
                       if status \<noteq> 0 then Some (status, a5)
                       else if rsi_host_intf a5 = RSI_HOST_INTF_SDIO
                       then do { (st5, a6) \<leftarrow> hif_ta_reset a5; Some (status, a6) }
                       else Some (status, a5)
                     })"

section \<open>Loading the firmware of any device\<close>

definition load_image_cmd :: "'s bl_hw \<Rightarrow> (int \<times> 's bl_hw) option" where
  "load_image_cmd a = do {
     (st, a1) \<leftarrow> bl_cmd a LOAD_HOSTED_FW LOADING_INITIATED;
     Some (if st < 0 then - EINVAL else 0, a1)
   }"

text \<open>The label \<open>fw_upgrade\<close>: after a failed upgrade the function still ends in success.\<close>

definition fw_upgrade :: "'s bl_hw \<Rightarrow> ptr \<Rightarrow> u32 \<Rightarrow> (int \<times> 's bl_hw) option" where
  "fw_upgrade a data content_size = do {
     (st, a1) \<leftarrow> bl_cmd a BURN_HOSTED_FW SEND_RPS_FILE;
     if st < 0 then Some (- EINVAL, a1)
     else do {
       (st2, a2) \<leftarrow> auto_fw_upgrade a1 data content_size;
       if st2 = 0 then load_image_cmd a2
       else do {
         (st3, a3) \<leftarrow> bl_cmd a2 CONFIG_AUTO_READ_MODE CMD_PASS;
         Some (if st3 < 0 then - EINVAL else 0, a3)
       }
     }
   }"

text \<open>From \<open>bl_write_header\<close> to \<open>success\<close>, with the image at hand.\<close>

definition check_and_load :: "'s bl_hw \<Rightarrow> ptr \<Rightarrow> u32 \<Rightarrow> (int \<times> 's bl_hw) option" where
  "check_and_load a data content_size = do {
     (st, a1) \<leftarrow> bl_write_header a data;
     if st \<noteq> 0 then Some (- EINVAL, a1)
     else do {
       (st2, resp, a2) \<leftarrow> bl_write_cmd (bl_start_cmd_timer a1 BL_CMD_TIMEOUT) CHECK_CRC CMD_PASS;
       let a3 = bl_stop_cmd_timer a2;
       if st2 < 0 \<and> resp AND 0xFF = CMD_FAIL then fw_upgrade a3 data content_size
       else do {
         (st4, a4) \<leftarrow> bl_cmd a3 POLLING_MODE CMD_PASS;
         if st4 < 0 then Some (- EINVAL, a4) else load_image_cmd a4
       }
     }
   }"

definition note_version_9113 :: "'s bl_hw \<Rightarrow> ptr \<Rightarrow> 's bl_hw" where
  "note_version_9113 a data =
     a\<lparr>lmac_ver := (lmac_ver a)\<lparr>fw_ver := (fw_ver (lmac_ver a))[0 := data LMAC_VER_OFFSET, 1 := data (LMAC_VER_OFFSET + 1)],
         ver_major := ucast (data (LMAC_VER_OFFSET + 2)), release_num := data (LMAC_VER_OFFSET + 3),
         ver_minor := ucast (data (LMAC_VER_OFFSET + 4)), patch_num := 0\<rparr>\<rparr>"

definition load_9113 :: "'s bl_hw \<Rightarrow> (int \<times> 's bl_hw) option" where
  "load_9113 a = do {
     (st, a1) \<leftarrow> bl_cmd a CONFIG_AUTO_READ_MODE CMD_PASS;
     if st < 0 then Some (- EINVAL, a1)
     else do {
       let (cap, a2) = read_flash_capacity a1;
       let a3 = a2\<lparr>flash_capacity := cap\<rparr>;
       if cap \<le> 0 then Some (- EINVAL, a3)
       else do {
         let name = metadata_flash_content ! unat (coex_mode a3);
         let a4 = a3\<lparr>fw_file_name := name\<rparr>;
         case fw_files a4 name of
           None \<Rightarrow> Some (- EINVAL, a4)
         | Some (data, sz) \<Rightarrow> check_and_load (note_version_9113 a4 data) data sz
       }
     }
   }"

definition load_9116 :: "'s bl_hw \<Rightarrow> (int \<times> 's bl_hw) option" where
  "load_9116 a = do {
     (st, a1) \<leftarrow> (if rsi_host_intf a = RSI_HOST_INTF_USB then bl_cmd a POLLING_MODE CMD_PASS else Some (0, a));
     if st < 0 then Some (- EINVAL, a1)
     else do {
       (status, a2) \<leftarrow> rsi_load_9116_firmware a1;
       if rsi_host_intf a2 = RSI_HOST_INTF_USB
       then do { (st3, a3) \<leftarrow> bl_cmd a2 JUMP_TO_ZERO_PC CMD_PASS; Some (status, a3) }
       else Some (status, a2)
     }
   }"

definition rsi_load_firmware :: "'s bl_hw \<Rightarrow> (int \<times> 's bl_hw) option" where
  "rsi_load_firmware a = do {
     (ok, regout_val, a1) \<leftarrow> wait_regout 0 (bl_start_cmd_timer a BL_CMD_TIMEOUT);
     if \<not> ok \<or> blcmd_timer_expired a1 then Some (- EINVAL, bl_stop_cmd_timer a1)
     else do {
       let (st, a2) = hif_reg_write (bl_stop_cmd_timer a1) (ucast SWBL_REGOUT)
                        (REGOUT_INVALID OR push_bit 8 REGOUT_INVALID) 2;
       if st < 0 then Some (- EINVAL, a2)
       else do {
         let a3 = mdelay 1 a2;
         if DEV_MODEL_9116 (device_model a3) then load_9116 a3 else load_9113 a3
       }
     }
   }"

section \<open>Frames and time\<close>

text \<open>What the boot loader dialogue leaves alone.\<close>

definition same_hw :: "'s bl_hw \<Rightarrow> 's bl_hw \<Rightarrow> bool" where
  "same_hw a a' \<longleftrightarrow> host_intf_ops a' = host_intf_ops a \<and> rsi_host_intf a' = rsi_host_intf a \<and>
     device_model a' = device_model a \<and> coex_mode a' = coex_mode a \<and> fw_files a' = fw_files a \<and>
     flash_capacity a' = flash_capacity a \<and> clock a \<le> clock a'"

lemma same_hw_refl [simp, intro]: "same_hw a a"
  by (simp add: same_hw_def)

lemma same_hw_trans [trans]: "same_hw a b \<Longrightarrow> same_hw b c \<Longrightarrow> same_hw a c"
  by (auto simp: same_hw_def)

text \<open>A wait for the device ends: the timer is running, or has fired.\<close>

definition timed :: "'s bl_hw \<Rightarrow> bool" where
  "timed a \<longleftrightarrow> blcmd_timer_expired a \<or> bl_cmd_timer a \<noteq> None"

lemma hif_reg_read_same: "hif_reg_read a r n = (st, v, a') \<Longrightarrow> same_hw a a' \<and> clock a' = clock a \<and>
    bl_cmd_timer a' = bl_cmd_timer a \<and> blcmd_timer_expired a' = blcmd_timer_expired a \<and> lag a' = lag a"
  by (auto simp: hif_reg_read_def same_hw_def split: prod.splits)

lemma hif_reg_write_same: "hif_reg_write a r v n = (st, a') \<Longrightarrow> same_hw a a' \<and>
    bl_cmd_timer a' = bl_cmd_timer a \<and> blcmd_timer_expired a' = blcmd_timer_expired a"
  by (auto simp: hif_reg_write_def same_hw_def split: prod.splits)

lemma hif_load_same: "hif_load a base sz bs p = (st, a') \<Longrightarrow> same_hw a a'"
  by (auto simp: hif_load_def same_hw_def split: prod.splits)

lemma mdelay_same [simp]: "same_hw a (mdelay n a)"
  by (auto simp: mdelay_def same_hw_def Let_def bl_cmd_timeout_def split: option.split)

lemma mdelay_dev [simp]: "hw_dev (mdelay n a) = hw_dev a"
  by (auto simp: mdelay_def Let_def bl_cmd_timeout_def split: option.split)

lemma mdelay_timed: "timed a \<Longrightarrow> timed (mdelay n a)"
  by (auto simp: mdelay_def timed_def Let_def bl_cmd_timeout_def split: option.split)

lemma start_timer [simp]: "timed (bl_start_cmd_timer a n)" "same_hw a (bl_start_cmd_timer a n)"
    "hw_dev (bl_start_cmd_timer a n) = hw_dev a"
  by (simp_all add: timed_def same_hw_def bl_start_cmd_timer_def)

lemma stop_timer [simp]: "same_hw a (bl_stop_cmd_timer a)" "hw_dev (bl_stop_cmd_timer a) = hw_dev a"
    "bl_cmd_timer (bl_stop_cmd_timer a) = None" "\<not> blcmd_timer_expired (bl_stop_cmd_timer a)"
  by (simp_all add: same_hw_def bl_stop_cmd_timer_def)

text \<open>One round of a wait: the timer fires now, or its remaining time goes down.\<close>

lemma mdelay_progress:
  assumes "bl_cmd_timer a = Some e"
  shows "blcmd_timer_expired (mdelay 1 a) \<or> bl_cmd_timer (mdelay 1 a) = Some e \<and> e - clock (mdelay 1 a) < e - clock a"
  using assms by (auto simp: mdelay_def Let_def bl_cmd_timeout_def)

text \<open>The wait ends, and keeps whatever reads of the register and delays keep.\<close>

lemma wait_reg_returns:
  assumes rd: "\<And>a st v a'. Q a \<Longrightarrow> hif_reg_read a reg 2 = (st, v, a') \<Longrightarrow> Q a'"
    and dl: "\<And>a. Q a \<Longrightarrow> Q (mdelay 1 a)"
  shows "timed a \<Longrightarrow> Q a \<Longrightarrow>
    \<exists>ok v a'. wait_reg reg found v0 a = Some (ok, v, a') \<and> timed a' \<and> same_hw a a' \<and> Q a'"
proof (induction "case bl_cmd_timer a of None \<Rightarrow> 0 | Some e \<Rightarrow> e - clock a" arbitrary: a v0 rule: less_induct)
  case less
  show ?case
  proof (cases "blcmd_timer_expired a")
    case True
    then show ?thesis using less.prems by (subst wait_reg.simps) auto
  next
    case False
    then obtain e where e: "bl_cmd_timer a = Some e" using less.prems by (auto simp: timed_def)
    obtain st v a1 where r: "hif_reg_read a reg 2 = (st, v, a1)" by (metis prod_cases3)
    note s = hif_reg_read_same [OF r]
    have q1: "Q a1" by (rule rd [OF less.prems(2) r])
    have t: "timed a1" using s less.prems by (simp add: timed_def)
    define a2 where "a2 = mdelay 1 a1"
    have q2: "Q a2" unfolding a2_def by (rule dl [OF q1])
    have t2: "timed a2" "same_hw a a2"
      using t s same_hw_trans [OF _ mdelay_same] by (auto simp: a2_def mdelay_timed simp del: One_nat_def)
    have rec: "\<exists>ok v' a'. wait_reg reg found v a2 = Some (ok, v', a') \<and> timed a' \<and> same_hw a2 a' \<and> Q a'"
    proof (cases "blcmd_timer_expired a2")
      case True
      then show ?thesis using t2 q2 by (subst wait_reg.simps) auto
    next
      case False
      have "bl_cmd_timer a1 = Some e" using s e by simp
      with mdelay_progress [OF this] False s e t2 q2 show ?thesis
        by (intro less.hyps) (auto simp: a2_def simp del: One_nat_def)
    qed
    show ?thesis
      using False r s t t2 q1 q2 rec same_hw_trans [OF t2(2)]
      by (subst wait_reg.simps) (auto simp: Let_def a2_def [symmetric] simp del: One_nat_def)
  qed
qed

lemma wait_returns:
  assumes "timed a"
  shows "\<exists>ok v a'. wait_regin v0 a = Some (ok, v, a') \<and> timed a' \<and> same_hw a a'"
    "\<exists>ok v a'. wait_regout v0 a = Some (ok, v, a') \<and> timed a' \<and> same_hw a a'"
  using assms wait_reg_returns [of "\<lambda>_. True"] by (simp_all add: wait_regin_def wait_regout_def)

section \<open>Every command returns\<close>

lemma issue_cmd_same:
  "issue_cmd a c = (st, a') \<Longrightarrow> same_hw a a' \<and>
    bl_cmd_timer a' = bl_cmd_timer a \<and> blcmd_timer_expired a' = blcmd_timer_expired a"
  by (auto simp: issue_cmd_def Let_def split: if_splits dest: hif_reg_write_same)

lemma bl_write_cmd_returns:
  assumes "timed a"
  shows "\<exists>st resp a'. bl_write_cmd a c e = Some (st, resp, a') \<and> st \<in> {0, - EINVAL} \<and> same_hw a a'"
proof -
  obtain ok v a1 where 1: "wait_regin 0 a = Some (ok, v, a1)" "timed a1" "same_hw a a1"
    using wait_returns(1) [OF assms] by blast
  obtain st a2 where 2: "issue_cmd a1 c = (st, a2)" by fastforce
  note two = issue_cmd_same [OF 2]
  have t3: "timed (mdelay 1 a2)" using 1 two by (intro mdelay_timed) (auto simp: timed_def)
  have s3: "same_hw a a2" "same_hw a (mdelay 1 a2)"
    using same_hw_trans [OF 1(3)] two same_hw_trans [OF _ mdelay_same] by blast+
  obtain ok2 w a4 where 4: "wait_regout 0 (mdelay 1 a2) = Some (ok2, w, a4)" "same_hw (mdelay 1 a2) a4"
    using wait_returns(2) [OF t3] by blast
  obtain st2 a5 where 5: "hif_reg_write a4 (ucast SWBL_REGOUT) (ucast c OR push_bit 8 REGOUT_INVALID) 2 = (st2, a5)"
    by fastforce
  have s4: "same_hw a a4" "same_hw a a5" "same_hw a (mdelay 1 a5)"
    using same_hw_trans [OF s3(2) 4(2)] hif_reg_write_same [OF 5] same_hw_trans mdelay_same by blast+
  show ?thesis
    using 1 2 4 5 s3 s4 by (simp add: bl_write_cmd_def Let_def del: One_nat_def)
qed

text \<open>
  Every boot loader command returns, whatever the device answers and whether or not it
  answers: with 0 or \<open>-EINVAL\<close>, and with its timer stopped.
\<close>

theorem bl_cmd_returns:
  "\<exists>st a'. bl_cmd a c e = Some (st, a') \<and> st \<in> {0, - EINVAL} \<and> same_hw a a' \<and>
     bl_cmd_timer a' = None \<and> \<not> blcmd_timer_expired a'"
proof -
  define t where "t = (if c = EOF_REACHED \<or> c = PING_VALID \<or> c = PONG_VALID then BL_BURN_TIMEOUT else BL_CMD_TIMEOUT)"
  obtain st resp a1 where w: "bl_write_cmd (bl_start_cmd_timer a t) c e = Some (st, resp, a1)"
      "same_hw (bl_start_cmd_timer a t) a1"
    using bl_write_cmd_returns [OF start_timer(1)] by blast
  have "same_hw a (bl_stop_cmd_timer a1)"
    by (rule same_hw_trans [OF start_timer(2) same_hw_trans [OF w(2) stop_timer(1)]])
  with w show ?thesis by (simp add: bl_cmd_def t_def [symmetric])
qed

section \<open>The upgrade returns\<close>

lemma ping_pong_returns: "\<exists>st a'. ping_pong_write a c p n = Some (st, a') \<and> st \<in> {0, - EINVAL} \<and> same_hw a a'"
proof -
  obtain ca cr cq where sel: "(if c = PING_WRITE then (PING_BUFFER_ADDRESS, PONG_AVAIL, PING_VALID)
        else (PONG_BUFFER_ADDRESS, PING_AVAIL, PONG_VALID)) = (ca, cr, cq)" by (metis prod_cases3)
  obtain st a1 where l: "hif_load a ca n (load_block_size a) p = (st, a1)" by fastforce
  obtain st2 a2 where b: "bl_cmd a1 cq cr = Some (st2, a2)" "st2 \<in> {0, - EINVAL}" "same_hw a1 a2"
    using bl_cmd_returns by blast
  have "same_hw a a1" "same_hw a a2" "same_hw a (bl_stop_cmd_timer a2)"
    using hif_load_same [OF l] same_hw_trans b(3) stop_timer(1) by blast+
  then show ?thesis
    using l b by (simp add: ping_pong_write_def sel)
qed

lemma flash_loop_returns:
  "\<exists>st a'. flash_loop k i m tot p a = Some (st, a') \<and> st \<in> {0, - EINVAL} \<and> same_hw a a'"
proof (induction k arbitrary: i p a)
  case 0
  show ?case by simp
next
  case (Suc k)
  define n where "n = (if i \<noteq> m then FLASH_WRITE_CHUNK_SIZE else tot mod FLASH_WRITE_CHUNK_SIZE)"
  obtain st a1 where w: "ping_pong_write a (if i mod 2 \<noteq> 0 then PING_WRITE else PONG_WRITE) p n = Some (st, a1)"
      "same_hw a a1"
    using ping_pong_returns by blast
  obtain st2 a2 where r: "flash_loop k (Suc i) m tot (ptr_add p (unat n)) a1 = Some (st2, a2)"
      "st2 \<in> {0, - EINVAL}" "same_hw a1 a2"
    using Suc.IH by blast
  show ?case
    using w r same_hw_trans [OF w(2) r(3)] unfolding flash_loop.simps n_def [symmetric] Let_def by auto
qed

text \<open>
  A flash upgrade returns on every device and for every image, with 0 or \<open>-EINVAL\<close>. An
  image that fails the checks is refused before anything is written.
\<close>

theorem auto_fw_upgrade_returns:
  "(\<exists>st a'. auto_fw_upgrade a p n = Some (st, a') \<and> st \<in> {0, - EINVAL} \<and> same_hw a a') \<and>
   (flash_image_ok a p n \<or> auto_fw_upgrade a p n = Some (- EINVAL, a))"
proof (cases "flash_image_ok a p n")
  case False
  then show ?thesis by (simp add: auto_fw_upgrade_def)
next
  case True
  define m where "m = unat (n div FLASH_WRITE_CHUNK_SIZE)"
  obtain st a1 where l: "flash_loop (Suc m) 0 m n p a = Some (st, a1)" "same_hw a a1"
    using flash_loop_returns by blast
  obtain st2 a2 where b: "bl_cmd a1 EOF_REACHED FW_LOADING_SUCCESSFUL = Some (st2, a2)" "st2 \<in> {0, - EINVAL}"
      "same_hw a1 a2"
    using bl_cmd_returns by blast
  have "same_hw a a2" "same_hw a (bl_stop_cmd_timer a2)"
    using same_hw_trans l(2) b(3) stop_timer(1) by blast+
  then show ?thesis
    using True l b unfolding auto_fw_upgrade_def Let_def m_def [symmetric] by (auto simp del: flash_loop.simps)
qed

section \<open>What reaches the device: the dialogue with the boot loader\<close>

text \<open>
  The abstract view of the writes: of a register write, the two bytes the boot loader reads;
  of a buffer write, everything.
\<close>

definition bl_reg :: "u32 \<Rightarrow> bool" where
  "bl_reg addr \<longleftrightarrow> addr = SWBL_REGIN \<or> addr = SWBL_REGOUT"

definition bl_view :: "(u32 \<times> u8 list) list \<Rightarrow> (u32 \<times> u8 list) list" where
  "bl_view ws = map (\<lambda>(addr, bytes). (addr, if bl_reg addr then take 2 bytes else bytes)) ws"

text \<open>One command: its number and the input flags into REGIN, then, if a response is awaited, REGOUT invalidated.\<close>

definition cmd_trace :: "u8 \<Rightarrow> u8 \<Rightarrow> (u32 \<times> u8 list) list" where
  "cmd_trace coex c =
     (SWBL_REGIN, [c, 0xA0 OR coex]) #
     (if c = LOAD_HOSTED_FW \<or> c = JUMP_TO_ZERO_PC then [] else [(SWBL_REGOUT, [c, 0x54])])"

text \<open>One chunk of an upgrade, the whole upgrade.\<close>

definition chunk_trace :: "u8 \<Rightarrow> nat \<Rightarrow> nat \<Rightarrow> nat \<Rightarrow> ptr \<Rightarrow> (u32 \<times> u8 list) list" where
  "chunk_trace coex bs i n p =
     load_chunks (if i mod 2 \<noteq> 0 then PING_BUFFER_ADDRESS else PONG_BUFFER_ADDRESS) n bs p @
     cmd_trace coex (if i mod 2 \<noteq> 0 then PING_VALID else PONG_VALID)"

definition upgrade_trace :: "u8 \<Rightarrow> nat \<Rightarrow> nat \<Rightarrow> ptr \<Rightarrow> (u32 \<times> u8 list) list" where
  "upgrade_trace coex bs n p =
     concat (map (\<lambda>i. chunk_trace coex bs i (min 4096 (n - 4096 * i)) (ptr_add p (4096 * i))) [0..<(n + 4095) div 4096]) @
     cmd_trace coex EOF_REACHED"

lemma bl_view_append [simp]: "bl_view (xs @ ys) = bl_view xs @ bl_view ys"
  by (simp add: bl_view_def)

lemma load_chunks_addr_bound:
  assumes "w \<in> set (load_chunks base n bs p)"
  shows "\<exists>k \<le> n. fst w = base + of_nat k"
proof -
  obtain i where i: "i < length (load_chunks base n bs p)" "w = load_chunks base n bs p ! i"
    using assms by (metis in_set_conv_nth)
  have "i \<le> n div bs" using i(1) by (auto simp: load_chunks_def split: if_splits)
  then have "i * bs \<le> n" by (metis div_times_less_eq_dividend le_trans mult_le_mono1)
  with load_chunks_addr [OF i(1)] i(2) show ?thesis by blast
qed

lemma chunks_not_reg:
  assumes "n \<le> 4096" "base = PING_BUFFER_ADDRESS \<or> base = PONG_BUFFER_ADDRESS"
    and "w \<in> set (load_chunks base n bs p)"
  shows "\<not> bl_reg (fst w)"
proof -
  obtain k where k: "k \<le> n" "fst w = base + of_nat k" using load_chunks_addr_bound [OF assms(3)] by blast
  have u: "unat (of_nat k :: u32) = k" using k(1) assms(1) by (intro unat_of_nat_small) simp
  have "unat (base + of_nat k) = unat base + k"
    using u assms k(1) by (auto simp: unat_word_ariths)
  then have "unat (fst w) < 0x20000" using k assms by auto
  then show ?thesis by (auto simp: bl_reg_def)
qed

lemma bl_view_chunks:
  assumes "n \<le> 4096" "base = PING_BUFFER_ADDRESS \<or> base = PONG_BUFFER_ADDRESS"
  shows "bl_view (load_chunks base n bs p) = load_chunks base n bs p"
  using chunks_not_reg [OF assms, where bs = bs and p = p]
  by (auto simp: bl_view_def intro!: map_idI)

text \<open>The bytes that go into the buffers: of an upgrade, exactly the image.\<close>

definition payload :: "(u32 \<times> u8 list) list \<Rightarrow> u8 list" where
  "payload ws = concat (map snd (filter (\<lambda>w. \<not> bl_reg (fst w)) ws))"

lemma payload_append [simp]: "payload (xs @ ys) = payload xs @ payload ys"
  by (simp add: payload_def)

lemma payload_cmd [simp]: "payload (cmd_trace coex c) = []"
  by (simp add: payload_def cmd_trace_def bl_reg_def)

lemma payload_chunk:
  assumes "n \<le> 4096"
  shows "payload (chunk_trace coex bs i n p) = bytes_at p 0 n"
proof -
  have "filter (\<lambda>w. \<not> bl_reg (fst w)) (load_chunks base n bs p) = load_chunks base n bs p"
    if "base = PING_BUFFER_ADDRESS \<or> base = PONG_BUFFER_ADDRESS" for base
    using chunks_not_reg [OF assms that] by (intro filter_True) blast
  then show ?thesis
    by (simp add: chunk_trace_def payload_def [of "load_chunks _ _ _ _"] load_chunks_bytes)
qed

lemma payload_chunks:
  "payload (concat (map (\<lambda>i. chunk_trace coex bs i (min 4096 (n - 4096 * i)) (ptr_add p (4096 * i))) [0..<k])) =
   bytes_at p 0 (min n (4096 * k))"
proof (induction k)
  case 0
  then show ?case by (simp add: payload_def)
next
  case (Suc k)
  have "bytes_at p 0 (min n (4096 * k)) @ bytes_at p (4096 * k) (min 4096 (n - 4096 * k)) = bytes_at p 0 (min n (4096 * Suc k))"
  proof (cases "4096 * k \<le> n")
    case True
    then have "4096 * k + min 4096 (n - 4096 * k) = min n (4096 * Suc k)" by (simp add: min_def) arith
    with True bytes_at_append [of p 0 "4096 * k" "min 4096 (n - 4096 * k)"] show ?thesis by simp
  qed simp
  with Suc show ?case by (simp add: payload_chunk)
qed

lemma payload_upgrade: "payload (upgrade_trace coex bs n p) = bytes_at p 0 n"
proof -
  have "n \<le> 4096 * ((n + 4095) div 4096)"
    using mult_div_mod_eq [of 4096 "n + 4095"] mod_less_divisor [of 4096 "n + 4095"] by linarith
  then show ?thesis by (simp add: upgrade_trace_def payload_chunks)
qed

text \<open>The two low bytes of a word put together from two bytes, whatever width it passed through.\<close>

lemma low_bytes:
  fixes c :: u8 and v :: u32 and w :: u64
  shows "take 2 (put_le32 (ucast (ucast (ucast c OR push_bit 8 v :: u32) :: u64))) = [c, ucast v]"
    "take 2 (put_le32 (ucast (ucast c OR push_bit 8 w :: u64))) = [c, ucast w]"
proof -
  have "(ucast (ucast (ucast (ucast c OR push_bit 8 v :: u32) :: u64) :: u32) :: u8) = c"
    "(ucast (drop_bit 8 (ucast (ucast (ucast c OR push_bit 8 v :: u32) :: u64) :: u32)) :: u8) = ucast v"
    "(ucast (ucast (ucast c OR push_bit 8 w :: u64) :: u32) :: u8) = c"
    "(ucast (drop_bit 8 (ucast (ucast c OR push_bit 8 w :: u64) :: u32)) :: u8) = ucast w"
    by (rule bit_word_eqI; auto simp: bit_simps dest: bit_imp_le_length)+
  then show "take 2 (put_le32 (ucast (ucast (ucast c OR push_bit 8 v :: u32) :: u64))) = [c, ucast v]"
    "take 2 (put_le32 (ucast (ucast c OR push_bit 8 w :: u64))) = [c, ucast w]"
    by (simp_all add: put_le32_def numeral_2_eq_2)
qed

lemma input_flags:
  fixes coex :: u8
  shows "(ucast (REGIN_INPUT OR ucast coex) :: u8) = 0xA0 OR coex"
    "(ucast (REGIN_INPUT OR ucast coex OR push_bit 8 1) :: u8) = 0xA0 OR coex"
    "(ucast REGOUT_INVALID :: u8) = 0x54"
proof -
  have "(256 :: u8) = 0" by (simp add: word_unat_eq_iff)
  then have z: "x OR 256 = x" for x :: u8 by (metis or.right_neutral)
  have c: "(ucast (ucast coex :: u32) :: u8) = coex"
    by (rule bit_word_eqI) (auto simp: bit_simps)
  show "(ucast (REGIN_INPUT OR ucast coex) :: u8) = 0xA0 OR coex"
    "(ucast (REGIN_INPUT OR ucast coex OR push_bit 8 1) :: u8) = 0xA0 OR coex"
    by (simp_all add: unsigned_or_eq c z)
  show "(ucast REGOUT_INVALID :: u8) = 0x54" by simp
qed

text \<open>
  The dialogue needs no more than the contract of the host interface, and that a reset of the
  TA processor takes back nothing that has been written.
\<close>

locale boot_loader = host_intf ops issued alive
  for ops :: "'s rsi_host_intf_ops" and issued and alive +
  assumes ta_reset_extends:
    "ta_reset_ops ops = Some f \<Longrightarrow> f s = (st, s') \<Longrightarrow> \<exists>ws. issued s' = issued s @ ws"
begin

lemma hif_reg_write_ok:
  assumes "host_intf_ops a = ops" "alive (hw_dev a)" "hif_reg_write a addr data len = (st, a')" "0 \<le> st"
    and "addr < 2 ^ 32" "len = 2 \<or> len = 4"
  shows "\<exists>bytes. issued (hw_dev a') = issued (hw_dev a) @ [(ucast addr, bytes)] \<and>
      take 2 bytes = take 2 (put_le32 (ucast data)) \<and> alive (hw_dev a')"
proof -
  obtain d where d: "master_reg_write ops (hw_dev a) addr data len = (st, d)" "a' = a\<lparr>hw_dev := d\<rparr>"
    using assms(1,3) by (auto simp: hif_reg_write_def split: prod.splits)
  from reg_write_ok [OF assms(2,5,6) d(1) assms(4)] obtain bytes where
    b: "issued d = issued (hw_dev a) @ [(ucast addr, bytes)]" "alive d"
      "take (unat len) bytes = take (unat len) (put_le32 (ucast data))" by auto
  from b(3) have "take 2 (take (unat len) bytes) = take 2 (take (unat len) (put_le32 (ucast data)))" by simp
  with assms(6) have "take 2 bytes = take 2 (put_le32 (ucast data))" by auto
  with b d(2) show ?thesis by auto
qed

text \<open>The hardware as the dialogue started from \<open>a\<close> leaves it: nothing new written.\<close>

definition quiet :: "'s bl_hw \<Rightarrow> 's bl_hw \<Rightarrow> bool" where
  "quiet a a' \<longleftrightarrow> same_hw a a' \<and> issued (hw_dev a') = issued (hw_dev a) \<and> alive (hw_dev a') = alive (hw_dev a)"

lemma quiet_refl: "quiet a a"
  by (simp add: quiet_def)

lemma quiet_read:
  assumes "host_intf_ops a0 = ops" "quiet a0 a" "hif_reg_read a reg n = (st, v, a')"
  shows "quiet a0 a'"
proof -
  have o: "host_intf_ops a = ops" using assms(1,2) by (simp add: quiet_def same_hw_def)
  obtain w d where d: "master_reg_read ops (hw_dev a) reg n = (st, w, d)" "a' = a\<lparr>hw_dev := d\<rparr>"
    using assms(3) o by (auto simp: hif_reg_read_def split: prod.splits)
  with reg_read_frame [OF d(1)] assms(2) show ?thesis
    by (simp add: quiet_def same_hw_def)
qed

lemma quiet_delay: "quiet a0 a \<Longrightarrow> quiet a0 (mdelay n a)"
  using same_hw_trans [OF _ mdelay_same] by (auto simp: quiet_def)

lemma wait_quiet:
  assumes "host_intf_ops a = ops" "timed a"
  shows "wait_regin v0 a = Some (ok, v, a') \<Longrightarrow> quiet a a' \<and> timed a'"
    "wait_regout v0 a = Some (ok, v, a') \<Longrightarrow> quiet a a' \<and> timed a'"
proof -
  have w: "\<exists>ok v a'. wait_reg reg found v0 a = Some (ok, v, a') \<and> timed a' \<and> same_hw a a' \<and> quiet a a'"
    for reg found v0
    by (rule wait_reg_returns [OF _ _ assms(2)])
      (auto intro: quiet_read [OF assms(1)] quiet_delay quiet_refl simp del: One_nat_def)
  show "wait_regin v0 a = Some (ok, v, a') \<Longrightarrow> quiet a a' \<and> timed a'"
    using w [of SWBL_REGIN "\<lambda>v. drop_bit 12 v \<noteq> REGIN_VALID" v0] by (auto simp: wait_regin_def)
  show "wait_regout v0 a = Some (ok, v, a') \<Longrightarrow> quiet a a' \<and> timed a'"
    using w [of SWBL_REGOUT "\<lambda>v. drop_bit 8 v = REGOUT_VALID" v0] by (auto simp: wait_regout_def)
qed

lemma issue_cmd_ok:
  assumes "host_intf_ops a = ops" "alive (hw_dev a)" "issue_cmd a c = (st, a')" "0 \<le> st"
  shows "bl_view (issued (hw_dev a')) = bl_view (issued (hw_dev a)) @ [(SWBL_REGIN, [c, 0xA0 OR coex_mode a])]
    \<and> alive (hw_dev a')"
proof -
  define x y where "x = REGIN_INPUT OR ucast (coex_mode a)" and "y = REGIN_INPUT OR ucast (coex_mode a) OR push_bit 8 (1 :: u32)"
  have len: "(2 :: u16) = 2 \<or> (2 :: u16) = 4" "(4 :: u16) = 2 \<or> (4 :: u16) = 4" by simp_all
  have addr: "(ucast SWBL_REGIN :: u64) < 2 ^ 32" "(ucast (ucast SWBL_REGIN :: u64) :: u32) = SWBL_REGIN" by simp_all
  have "hif_reg_write a (ucast SWBL_REGIN) (ucast (ucast c OR push_bit 8 x)) 2 = (st, a') \<or>
      hif_reg_write a (ucast SWBL_REGIN) (ucast (ucast c OR push_bit 8 y)) 4 = (st, a')"
    using assms(3) unfolding issue_cmd_def x_def y_def Let_def by (auto simp only: or.assoc split: if_splits)
  then obtain v len where w: "hif_reg_write a (ucast SWBL_REGIN) (ucast (ucast c OR push_bit 8 v)) len = (st, a')"
      "len = 2 \<or> len = 4" "v = x \<or> v = y" by blast
  have v: "ucast v = 0xA0 OR coex_mode a" using w(3) input_flags(1,2) unfolding x_def y_def by blast
  from hif_reg_write_ok [OF assms(1,2) w(1) assms(4) addr(1) w(2)] low_bytes(1) [of c v] v
  show ?thesis unfolding addr(2) by (auto simp: bl_view_def bl_reg_def)
qed

lemma bl_write_cmd_ok:
  assumes "host_intf_ops a = ops" "alive (hw_dev a)" "timed a" "bl_write_cmd a c e = Some (0, resp, a')"
  shows "bl_view (issued (hw_dev a')) = bl_view (issued (hw_dev a)) @ cmd_trace (coex_mode a) c \<and> alive (hw_dev a')"
proof -
  obtain v a1 where 1: "wait_regin 0 a = Some (True, v, a1)" "\<not> blcmd_timer_expired a1"
    using assms(4) by (auto simp: bl_write_cmd_def split: bind_splits if_splits)
  note q1 = wait_quiet(1) [OF assms(1,3) 1(1)]
  obtain st a2 where 2: "issue_cmd a1 c = (st, a2)" "0 \<le> st"
    using assms(4) 1 by (auto simp: bl_write_cmd_def split: bind_splits if_splits prod.splits)
  have 3: "host_intf_ops a1 = ops" "alive (hw_dev a1)" "coex_mode a1 = coex_mode a"
    using q1 assms(1,2) by (auto simp: quiet_def same_hw_def)
  note i2 = issue_cmd_ok [OF 3(1,2) 2]
  have t2: "timed (mdelay 1 a2)" "host_intf_ops (mdelay 1 a2) = ops"
  proof -
    have "timed a2" using issue_cmd_same [OF 2(1)] q1 by (auto simp: timed_def)
    then show "timed (mdelay 1 a2)" by (rule mdelay_timed)
    show "host_intf_ops (mdelay 1 a2) = ops"
      using issue_cmd_same [OF 2(1)] mdelay_same [of a2 1] 3(1) by (simp add: same_hw_def del: mdelay_same)
  qed
  show ?thesis
  proof (cases "c = LOAD_HOSTED_FW \<or> c = JUMP_TO_ZERO_PC")
    case True
    then have "a' = mdelay 1 a2"
      using assms(4) 1 2 by (auto simp: bl_write_cmd_def)
    with i2 q1 3 True show ?thesis by (auto simp: cmd_trace_def quiet_def)
  next
    case False
    then obtain w a4 st2 a5 where 4: "wait_regout 0 (mdelay 1 a2) = Some (True, w, a4)"
      and 5: "hif_reg_write a4 (ucast SWBL_REGOUT) (ucast c OR push_bit 8 REGOUT_INVALID) 2 = (st2, a5)" "0 \<le> st2"
      and a': "a' = mdelay 1 a5"
      using assms(4) 1 2 by (auto simp: bl_write_cmd_def Let_def split: bind_splits if_splits prod.splits)
    note q4 = wait_quiet(2) [OF t2(2,1) 4]
    have 6: "host_intf_ops a4 = ops" "alive (hw_dev a4)"
      using q4 t2 i2 by (auto simp: quiet_def same_hw_def)
    have addr: "(ucast SWBL_REGOUT :: u64) < 2 ^ 32" "(ucast (ucast SWBL_REGOUT :: u64) :: u32) = SWBL_REGOUT" by simp_all
    have r: "take 2 (put_le32 (ucast (ucast c OR push_bit 8 REGOUT_INVALID :: u64))) = [c, 0x54]"
      unfolding low_bytes(2) input_flags(3) ..
    from hif_reg_write_ok [OF 6 5 addr(1)] r obtain b where
      "issued (hw_dev a5) = issued (hw_dev a4) @ [(SWBL_REGOUT, b)]" "take 2 b = [c, 0x54]" "alive (hw_dev a5)"
      unfolding addr(2) by auto
    with i2 q1 q4 3 False a' show ?thesis
      by (auto simp: cmd_trace_def quiet_def bl_view_def bl_reg_def)
  qed
qed

lemma bl_cmd_ok:
  assumes "host_intf_ops a = ops" "alive (hw_dev a)" "bl_cmd a c e = Some (st, a')" "\<not> st < 0"
  shows "bl_view (issued (hw_dev a')) = bl_view (issued (hw_dev a)) @ cmd_trace (coex_mode a) c \<and> alive (hw_dev a')"
proof -
  define t where "t = (if c = EOF_REACHED \<or> c = PING_VALID \<or> c = PONG_VALID then BL_BURN_TIMEOUT else BL_CMD_TIMEOUT)"
  define a0 where "a0 = bl_start_cmd_timer a t"
  have a0: "host_intf_ops a0 = ops" "alive (hw_dev a0)" "timed a0" "coex_mode a0 = coex_mode a" "hw_dev a0 = hw_dev a"
    using assms(1,2) by (simp_all add: a0_def timed_def bl_start_cmd_timer_def)
  obtain st1 resp a1 where w: "bl_write_cmd a0 c e = Some (st1, resp, a1)" "st1 \<in> {0, - EINVAL}"
    using bl_write_cmd_returns [OF a0(3)] by blast
  have "bl_cmd a c e = Some (if st1 < 0 then - EINVAL else 0, bl_stop_cmd_timer a1)"
    using w(1) by (simp add: bl_cmd_def t_def [symmetric] a0_def [symmetric])
  with assms(3,4) w(2) have "st1 = 0" "a' = bl_stop_cmd_timer a1" by auto
  with bl_write_cmd_ok [OF a0(1,2,3)] w(1) a0(4,5) show ?thesis by auto
qed

lemma ping_pong_ok:
  assumes "host_intf_ops a = ops" "alive (hw_dev a)" "n \<le> 4096"
    and "ping_pong_write a (if i mod 2 \<noteq> 0 then PING_WRITE else PONG_WRITE) p n = Some (0, a')"
  shows "bl_view (issued (hw_dev a')) = bl_view (issued (hw_dev a)) @
      chunk_trace (coex_mode a) (unat (load_block_size a)) i (unat n) p \<and> alive (hw_dev a') \<and> same_hw a a'"
proof -
  define base cr cq where "base = (if i mod 2 \<noteq> 0 then PING_BUFFER_ADDRESS else PONG_BUFFER_ADDRESS)"
    and "cr = (if i mod 2 \<noteq> 0 then PONG_AVAIL else PING_AVAIL)" and "cq = (if i mod 2 \<noteq> 0 then PING_VALID else PONG_VALID)"
  define bs where "bs = load_block_size a"
  have bs: "0 < bs" "bs \<le> 256" "252 \<le> unat bs" by (simp_all add: bs_def load_block_size_def)
  obtain a1 st2 where l: "hif_load a base n bs p = (0, a1)"
    and b: "bl_cmd a1 cq cr = Some (st2, a')" "\<not> st2 < 0"
    using assms(4) unfolding base_def cr_def cq_def bs_def
    by (auto simp: ping_pong_write_def Let_def split: if_splits prod.splits bind_splits)
  from l obtain d where d: "load_data_master_write ops (hw_dev a) base n bs p = (0, d)" "a1 = a\<lparr>hw_dev := d\<rparr>"
    using assms(1) by (auto simp: hif_load_def split: prod.splits)
  have n: "unat n \<le> 4096" using assms(3) by (simp add: word_le_nat_alt)
  then have "unat n div unat bs \<le> 4096" by (rule order_trans [OF div_le_dividend])
  then have "unat n div unat bs < 2 ^ 16" by simp
  note ld = load_ok [OF assms(2) bs(1,2) this d(1)]
  have a1: "host_intf_ops a1 = ops" "alive (hw_dev a1)" "coex_mode a1 = coex_mode a" "same_hw a a1"
    using d(2) assms(1) ld by (simp_all add: same_hw_def)
  have same: "same_hw a a'" using a1(4) same_hw_trans bl_cmd_returns [of a1 cq cr] b(1) by fastforce
  have "bl_view (issued d) = bl_view (issued (hw_dev a)) @ load_chunks base (unat n) (unat bs) p"
    using ld bl_view_chunks [of "unat n" base "unat bs" p] n by (auto simp: base_def)
  with bl_cmd_ok [OF a1(1,2) b] d(2) a1(3) same show ?thesis
    unfolding chunk_trace_def base_def [symmetric] cq_def [symmetric] bs_def [symmetric] by auto
qed

text \<open>The chunks from \<open>i\<close> on.\<close>

lemma flash_loop_ok:
  assumes "host_intf_ops a = ops" "alive (hw_dev a)" "m = unat tot div 4096" "i + k = Suc m"
    and "flash_loop k i m tot p a = Some (0, a')"
  shows "bl_view (issued (hw_dev a')) = bl_view (issued (hw_dev a)) @
      concat (map (\<lambda>j. chunk_trace (coex_mode a) (unat (load_block_size a)) j (min 4096 (unat tot - 4096 * j))
                       (ptr_add p (4096 * (j - i)))) [i..<(unat tot + 4095) div 4096]) \<and>
    alive (hw_dev a') \<and> same_hw a a'"
  using assms
proof (induction k arbitrary: i p a)
  case 0
  then have "(unat tot + 4095) div 4096 \<le> i"
    using ceil_div [of 4096 "unat tot"] by auto
  with 0 show ?case by simp
next
  case (Suc k)
  have i: "i \<le> m" using Suc.prems(4) by simp
  define n where "n = (if i \<noteq> m then FLASH_WRITE_CHUNK_SIZE else tot mod FLASH_WRITE_CHUNK_SIZE)"
  have un: "unat n = (if i \<noteq> m then 4096 else unat tot mod 4096)"
    by (simp add: n_def unat_mod)
  have top: "(unat tot + 4095) div 4096 = (if unat tot mod 4096 = 0 then m else Suc m)"
    using ceil_div [of 4096 "unat tot"] Suc.prems(3) by simp
  show ?case
  proof (cases "i = m \<and> n = 0")
    case True
    then have "unat tot mod 4096 = 0" using un by (simp add: unat_eq_0 split: if_splits)
    with True Suc.prems(2,5) top show ?thesis
      unfolding flash_loop.simps n_def [symmetric] Let_def by auto
  next
    case False
    obtain a1 where w: "ping_pong_write a (if i mod 2 \<noteq> 0 then PING_WRITE else PONG_WRITE) p n = Some (0, a1)"
      and r: "flash_loop k (Suc i) m tot (ptr_add p (unat n)) a1 = Some (0, a')"
      using Suc.prems(5) False unfolding flash_loop.simps n_def [symmetric] Let_def
      by (auto split: bind_splits if_splits)
    have n4: "n \<le> 4096" using un mod_less_divisor [of 4096 "unat tot"] by (simp add: word_le_nat_alt)
    note pp = ping_pong_ok [OF Suc.prems(1,2) n4 w]
    have a1: "host_intf_ops a1 = ops" "alive (hw_dev a1)" "coex_mode a1 = coex_mode a"
        "load_block_size a1 = load_block_size a"
      using pp Suc.prems(1) by (auto simp: same_hw_def load_block_size_def)
    note ih = Suc.IH [OF a1(1,2) Suc.prems(3) _ r]
    have lt: "i < (unat tot + 4095) div 4096"
    proof (cases "i = m")
      case True
      with False have "unat n \<noteq> 0" by (simp add: unat_eq_0)
      with True un top show ?thesis by (simp split: if_splits)
    next
      case False
      with top i show ?thesis by simp
    qed
    have m0: "4096 * m + unat tot mod 4096 = unat tot" using Suc.prems(3) by simp
    have len: "min 4096 (unat tot - 4096 * i) = unat n"
    proof (cases "i = m")
      case True
      have "unat tot mod 4096 < 4096" by simp
      moreover have "unat tot - 4096 * m = unat tot mod 4096" using m0 by (metis add_diff_cancel_left')
      ultimately show ?thesis using un True by simp
    next
      case False
      then have "4096 * Suc i \<le> 4096 * m" using i by simp
      then show ?thesis using un False m0 by simp
    qed
    have shift: "map (\<lambda>j. chunk_trace (coex_mode a) (unat (load_block_size a)) j (min 4096 (unat tot - 4096 * j))
          (ptr_add p (4096 * (j - i)))) [Suc i..<(unat tot + 4095) div 4096] =
       map (\<lambda>j. chunk_trace (coex_mode a) (unat (load_block_size a)) j (min 4096 (unat tot - 4096 * j))
          (ptr_add (ptr_add p (unat n)) (4096 * (j - Suc i)))) [Suc i..<(unat tot + 4095) div 4096]"
    proof (rule map_cong [OF refl])
      fix j assume j: "j \<in> set [Suc i..<(unat tot + 4095) div 4096]"
      then have "i \<noteq> m" using top i by (auto split: if_splits)
      then have "unat n = 4096" using un by simp
      moreover have "4096 * (j - i) = 4096 + 4096 * (j - Suc i)" using j by (auto simp: algebra_simps Suc_diff_Suc)
      ultimately show "chunk_trace (coex_mode a) (unat (load_block_size a)) j (min 4096 (unat tot - 4096 * j))
          (ptr_add p (4096 * (j - i))) = chunk_trace (coex_mode a) (unat (load_block_size a)) j (min 4096 (unat tot - 4096 * j))
          (ptr_add (ptr_add p (unat n)) (4096 * (j - Suc i)))" by simp
    qed
    from ih pp a1(3,4) Suc.prems(4) show ?thesis
      unfolding upt_conv_Cons [OF lt] list.map(2) concat.simps shift len by (auto intro: same_hw_trans)
  qed
qed

lemma auto_fw_upgrade_ok:
  assumes "host_intf_ops a = ops" "alive (hw_dev a)" "auto_fw_upgrade a p n = Some (0, a')"
  shows "bl_view (issued (hw_dev a')) =
    bl_view (issued (hw_dev a)) @ upgrade_trace (coex_mode a) (unat (load_block_size a)) (unat n) p"
proof -
  define m where "m = unat (n div FLASH_WRITE_CHUNK_SIZE)"
  have m: "m = unat n div 4096" by (simp add: m_def unat_div)
  obtain a1 st2 a2 where l: "flash_loop (Suc m) 0 m n p a = Some (0, a1)"
    and b: "bl_cmd a1 EOF_REACHED FW_LOADING_SUCCESSFUL = Some (st2, a2)" "\<not> st2 < 0" "a' = a2"
    using assms(3) unfolding auto_fw_upgrade_def Let_def m_def [symmetric]
    by (auto split: bind_splits if_splits simp del: flash_loop.simps)
  note lo = flash_loop_ok [OF assms(1,2) m _ l]
  then have "host_intf_ops a1 = ops" "alive (hw_dev a1)" "coex_mode a1 = coex_mode a"
    using assms(1) by (auto simp: same_hw_def)
  from bl_cmd_ok [OF this(1,2) b(1,2)] lo b(3) this(3) show ?thesis
    by (simp add: upgrade_trace_def)
qed

lemma load_9116_plain:
  assumes "host_intf_ops a = ops" "alive (hw_dev a)" "rsi_load_9116_firmware a = Some (0, a')"
  shows "\<exists>name data sz. fw_files a name = Some (data, sz) \<and>
    (get_le16 data 0 \<noteq> 0x5aa5 \<and> unat (round4 sz) div 252 < 2 ^ 16 \<longrightarrow> fw_file_name a' = name \<and>
     (\<exists>access ws. issued (hw_dev a') = issued (hw_dev a) @ (0x41300000, access) #
        load_chunks 0 (unat (round4 sz)) (unat (load_block_size a)) data @ ws))"
proof -
  obtain st a1 where 1: "hif_reg_write a MEM_ACCESS_CTRL_FROM_HOST RAM_384K_ACCESS_FROM_TA 4 = (st, a1)" "0 \<le> st"
    using assms(3) by (auto simp: rsi_load_9116_firmware_def Let_def not_less split: prod.splits if_splits)
  obtain st2 name a2 where 2: "select_firmware a1 = (st2, name, a2)" "\<not> st2 < 0"
    using assms(3) 1 by (auto simp: rsi_load_9116_firmware_def Let_def split: prod.splits if_splits)
  obtain data sz where f: "fw_files a2 name = Some (data, sz)"
    using assms(3) 1 2 by (auto simp: rsi_load_9116_firmware_def Let_def split: option.splits)
  define a4 where "a4 = note_version (a2\<lparr>fw_file_name := name\<rparr>) (ptr_add data (lmac_ver_offset (device_model a2)))"
  obtain a5 where 5: "load_image a4 data (round4 sz) = Some (0, a5)"
    and fin: "if rsi_host_intf a5 = RSI_HOST_INTF_SDIO then \<exists>st6. hif_ta_reset a5 = Some (st6, a') else a' = a5"
    using assms(3) 1 2 f
    by (auto simp: rsi_load_9116_firmware_def Let_def a4_def [symmetric] split: bind_splits if_splits)
  obtain access where w: "issued (hw_dev a1) = issued (hw_dev a) @ [(0x41300000, access)]" "alive (hw_dev a1)"
    using hif_reg_write_ok [OF assms(1,2) 1] by auto
  have o1: "host_intf_ops a1 = ops" "same_hw a a1" using hif_reg_write_same [OF 1(1)] assms(1) by (auto simp: same_hw_def)
  have q2: "quiet a1 a2"
    using 2(1) quiet_read [OF o1(1) quiet_refl]
    by (auto simp: select_firmware_def Let_def quiet_def same_hw_def split: if_splits prod.splits)
  have q4: "issued (hw_dev a4) = issued (hw_dev a1)" "alive (hw_dev a4)" "host_intf_ops a4 = ops" "same_hw a a4"
      "fw_file_name a4 = name" "load_block_size a4 = load_block_size a"
    using q2 w o1 by (auto simp: a4_def note_version_def quiet_def same_hw_def load_block_size_def)
  have f0: "fw_files a name = Some (data, sz)"
    using f q2 o1 by (simp add: quiet_def same_hw_def)
  have "fw_file_name a' = name \<and>
      (\<exists>ws. issued (hw_dev a') = issued (hw_dev a4) @ load_chunks 0 (unat (round4 sz)) (unat (load_block_size a)) data @ ws)"
    if "get_le16 data 0 \<noteq> 0x5aa5" "unat (round4 sz) div 252 < 2 ^ 16"
  proof -
    have bs: "0 < load_block_size a" "load_block_size a \<le> 256" "252 \<le> unat (load_block_size a)"
      by (simp_all add: load_block_size_def)
    from 5 that(1) have "hif_load a4 0 (round4 sz) (load_block_size a) data = (0, a5)"
      using q4(6) by (simp add: load_image_def)
    then obtain d where d: "load_data_master_write ops (hw_dev a4) 0 (round4 sz) (load_block_size a) data = (0, d)"
        "a5 = a4\<lparr>hw_dev := d\<rparr>"
      using q4(3) by (auto simp: hif_load_def split: prod.splits)
    have "unat (round4 sz) div unat (load_block_size a) < 2 ^ 16"
      using that(2) div_le_mono2 [of 252 "unat (load_block_size a)" "unat (round4 sz)"] bs(3) by simp
    from load_ok [OF q4(2) bs(1,2) this d(1)]
    have ld: "issued d = issued (hw_dev a4) @ load_chunks 0 (unat (round4 sz)) (unat (load_block_size a)) data" by simp
    show ?thesis
    proof (cases "rsi_host_intf a5 = RSI_HOST_INTF_SDIO")
      case False
      with fin d(2) ld q4(5) show ?thesis by simp
    next
      case True
      with fin d(2) q4(3) obtain g st6 d6 where "ta_reset_ops ops = Some g" "g d = (st6, d6)" "a' = a5\<lparr>hw_dev := d6\<rparr>"
        by (auto simp: hif_ta_reset_def split: option.splits prod.splits)
      with ta_reset_extends ld d(2) q4(5) show ?thesis by fastforce
    qed
  qed
  with f0 q4(1) w show ?thesis by fastforce
qed

end

end
