(* ===== verification/Hal_Init.thy ===== *)
theory Hal_Init
  imports Bootloader
begin

text \<open>
  Choosing the operating mode and bringing the device up: \<open>rsi_validate_oper_mode\<close>,
  \<open>rsi_opermode_instances\<close> and \<open>rsi_hal_device_init\<close> of rsi/rsi_91x_hal.c. The build
  options these functions test are a parameter, \<open>build_config\<close>.
\<close>

record build_config =
  CONFIG_RS9116_PURISM :: bool
  CONFIG_CARACALLA_BOARD :: bool
  CONFIG_RSI_BT_ALONE :: bool
  CONFIG_RSI_COEX_MODE :: bool
  CONFIG_RSI_ZIGB :: bool
  CONFIG_RSI_MULTI_MODE :: bool

abbreviation (input) DEV_OPMODE_WIFI_ALONE :: u16 where "DEV_OPMODE_WIFI_ALONE \<equiv> 1"
abbreviation (input) DEV_OPMODE_AP_ALONE :: u16 where "DEV_OPMODE_AP_ALONE \<equiv> 2"
abbreviation (input) DEV_OPMODE_CONCURRENT_MODE :: u16 where "DEV_OPMODE_CONCURRENT_MODE \<equiv> 3"
abbreviation (input) DEV_OPMODE_BT_ALONE :: u16 where "DEV_OPMODE_BT_ALONE \<equiv> 4"
abbreviation (input) DEV_OPMODE_BT_LE_ALONE :: u16 where "DEV_OPMODE_BT_LE_ALONE \<equiv> 8"
abbreviation (input) DEV_OPMODE_BT_DUAL :: u16 where "DEV_OPMODE_BT_DUAL \<equiv> 12"
abbreviation (input) DEV_OPMODE_STA_BT :: u16 where "DEV_OPMODE_STA_BT \<equiv> 5"
abbreviation (input) DEV_OPMODE_STA_BT_LE :: u16 where "DEV_OPMODE_STA_BT_LE \<equiv> 9"
abbreviation (input) DEV_OPMODE_STA_BT_DUAL :: u16 where "DEV_OPMODE_STA_BT_DUAL \<equiv> 13"
abbreviation (input) DEV_OPMODE_AP_BT :: u16 where "DEV_OPMODE_AP_BT \<equiv> 6"
abbreviation (input) DEV_OPMODE_AP_BT_LE :: u16 where "DEV_OPMODE_AP_BT_LE \<equiv> 10"
abbreviation (input) DEV_OPMODE_AP_BT_DUAL :: u16 where "DEV_OPMODE_AP_BT_DUAL \<equiv> 14"
abbreviation (input) DEV_OPMODE_ZB_ALONE :: u16 where "DEV_OPMODE_ZB_ALONE \<equiv> 16"
abbreviation (input) DEV_OPMODE_STA_ZB :: u16 where "DEV_OPMODE_STA_ZB \<equiv> 17"
abbreviation (input) DEV_OPMODE_ZB_COORDINATOR :: u16 where "DEV_OPMODE_ZB_COORDINATOR \<equiv> 32"
abbreviation (input) DEV_OPMODE_ZB_ROUTER :: u16 where "DEV_OPMODE_ZB_ROUTER \<equiv> 48"

section \<open>Operating modes\<close>

definition rsi_validate_oper_mode :: "build_config \<Rightarrow> u16 \<Rightarrow> int" where
  "rsi_validate_oper_mode cfg m =
     (if CONFIG_RS9116_PURISM cfg then (if m = 13 \<or> m = 14 then 0 else - EINVAL)
      else if m \<in> {DEV_OPMODE_WIFI_ALONE, DEV_OPMODE_AP_ALONE, DEV_OPMODE_CONCURRENT_MODE}
      then (if CONFIG_RSI_BT_ALONE cfg then - EINVAL else 0)
      else if m \<in> {DEV_OPMODE_BT_ALONE, DEV_OPMODE_BT_LE_ALONE, DEV_OPMODE_BT_DUAL}
      then (if \<not> CONFIG_RSI_BT_ALONE cfg then - EINVAL else 0)
      else if m \<in> {DEV_OPMODE_STA_BT, DEV_OPMODE_AP_BT, DEV_OPMODE_STA_BT_LE, DEV_OPMODE_AP_BT_LE,
                   DEV_OPMODE_STA_BT_DUAL, DEV_OPMODE_AP_BT_DUAL}
      then (if \<not> CONFIG_RSI_COEX_MODE cfg then - EINVAL else 0)
      else if m \<in> {DEV_OPMODE_ZB_ALONE, DEV_OPMODE_STA_ZB, DEV_OPMODE_ZB_COORDINATOR, DEV_OPMODE_ZB_ROUTER}
      then (if \<not> CONFIG_RSI_COEX_MODE cfg \<or> \<not> CONFIG_RSI_ZIGB cfg then - EINVAL
            else if CONFIG_RSI_MULTI_MODE cfg then - EINVAL else 0)
      else if CONFIG_RSI_MULTI_MODE cfg \<and> m = 0xFF then 0xFF
      else - EINVAL)"

text \<open>
  The driver instances (\<open>CONFIG_RSI_MULTI_MODE\<close>): \<open>drv_instances\<close> holds the operating mode of
  each of the five instances, 0 when it is free; \<open>dev_oper_mode\<close> the user's choice, its first
  element the number of instances asked for.
\<close>

record multi_mode =
  drv_instances :: "u16 list"
  dev_oper_mode :: "u16 list"
  instance_oper_mode :: u16
  drv_instance_index :: nat

definition MAX_INSTANCES :: nat where "MAX_INSTANCES = 5"

fun opermode_scan :: "build_config \<Rightarrow> nat list \<Rightarrow> multi_mode \<Rightarrow> int \<times> multi_mode" where
  "opermode_scan cfg [] s = (- EINVAL, s)"
| "opermode_scan cfg (i # is) s =
     (if drv_instances s ! (i - 1) \<noteq> 0 then opermode_scan cfg is s
      else
        let err = rsi_validate_oper_mode cfg (dev_oper_mode s ! i)
        in if err < 0 then (- EINVAL, s)
           else
             let modes = (if err = 0xFF then (dev_oper_mode s)[i := dev_oper_mode s ! 1] else dev_oper_mode s)
             in (0, s\<lparr>dev_oper_mode := modes, drv_instances := (drv_instances s)[i - 1 := modes ! i],
                      instance_oper_mode := modes ! i, drv_instance_index := i\<rparr>))"

definition rsi_opermode_instances :: "build_config \<Rightarrow> multi_mode \<Rightarrow> int \<times> multi_mode" where
  "rsi_opermode_instances cfg s =
     (if MAX_INSTANCES < unat (dev_oper_mode s ! 0) then (- EINVAL, s)
      else opermode_scan cfg [1..<Suc MAX_INSTANCES] s)"

section \<open>Bringing the device up\<close>

definition select_coex_mode :: "build_config \<Rightarrow> rsi_dev_model \<Rightarrow> u16 \<Rightarrow> u16 \<times> u8" where
  "select_coex_mode cfg model m =
     (if \<not> CONFIG_RSI_COEX_MODE cfg \<and> \<not> CONFIG_RSI_BT_ALONE cfg \<and> \<not> CONFIG_RSI_ZIGB cfg then (m, 1)
      else if m \<in> {DEV_OPMODE_STA_BT_DUAL, DEV_OPMODE_STA_BT, DEV_OPMODE_STA_BT_LE, DEV_OPMODE_BT_ALONE,
                   DEV_OPMODE_BT_LE_ALONE, DEV_OPMODE_BT_DUAL} then (m, 2)
      else if m \<in> {DEV_OPMODE_AP_BT_DUAL, DEV_OPMODE_AP_BT_LE, DEV_OPMODE_AP_BT}
      then (m, if DEV_MODEL_9116 model then 2 else 4)
      else if m = DEV_OPMODE_WIFI_ALONE then (m, 1)
      else if m \<in> {DEV_OPMODE_ZB_ALONE, DEV_OPMODE_STA_ZB} then (m, 3)
      else if m = DEV_OPMODE_ZB_COORDINATOR then (m, 6)
      else if m = DEV_OPMODE_ZB_ROUTER then (m, 7)
      else if \<not> CONFIG_CARACALLA_BOARD cfg \<or> \<not> CONFIG_RS9116_PURISM cfg then (1, 1)
      else (DEV_OPMODE_STA_BT_DUAL, 2))"

definition rsi_hal_device_init :: "build_config \<Rightarrow> 's bl_hw \<Rightarrow> (int \<times> 's bl_hw) option" where
  "rsi_hal_device_init cfg a = do {
     let (m, coex) = select_coex_mode cfg (device_model a) (oper_mode a);
     (st, a1) \<leftarrow> rsi_load_firmware (a\<lparr>oper_mode := m, coex_mode := coex\<rparr>);
     if st \<noteq> 0 then Some (- EINVAL, a1) else Some (0, a1\<lparr>card_ready_wait := True\<rparr>)
   }"

section \<open>Properties\<close>

lemma coex_mode_cases: "snd (select_coex_mode cfg model m) \<in> {1, 2, 3, 4, 6, 7}"
  by (simp add: select_coex_mode_def)

text \<open>
  Whatever the build options, the device and the operating mode, the coexistence mode
  chosen is an index of all three tables of firmware names, and never of an entry that
  names the placeholder file of the 9116 table.
\<close>

theorem coex_mode_indexes_tables:
  "unat (snd (select_coex_mode cfg model m)) < length ta_metadata \<and>
   unat (snd (select_coex_mode cfg model m)) < length ta_metadata_1p5 \<and>
   unat (snd (select_coex_mode cfg model m)) < length metadata_flash_content \<and>
   ta_metadata ! unat (snd (select_coex_mode cfg model m)) \<noteq> ''pmemdata_dummy''"
  using coex_mode_cases [of cfg model m]
  by (auto simp: ta_metadata_def ta_metadata_1p5_def metadata_flash_content_def)

text \<open>Instance \<open>i\<close> has been granted: it was free and now holds its mode; the others are as before.\<close>

definition granted :: "build_config \<Rightarrow> multi_mode \<Rightarrow> multi_mode \<Rightarrow> nat \<Rightarrow> bool" where
  "granted cfg s s' i \<longleftrightarrow> drv_instances s ! (i - 1) = 0 \<and> drv_instance_index s' = i \<and>
     drv_instances s' = (drv_instances s)[i - 1 := instance_oper_mode s'] \<and>
     instance_oper_mode s' = (if rsi_validate_oper_mode cfg (dev_oper_mode s ! i) = 0xFF
                              then dev_oper_mode s ! 1 else dev_oper_mode s ! i)"

lemma opermode_scan_first:
  assumes "opermode_scan cfg [k..<6] s = (0, s')" "length (dev_oper_mode s) = 6"
  shows "\<exists>i \<in> {k..5}. granted cfg s s' i \<and> (\<forall>j \<in> {k..<i}. drv_instances s ! (j - 1) \<noteq> 0)"
  using assms(1)
proof (induction "6 - k" arbitrary: k)
  case 0
  then show ?case by simp
next
  case (Suc n)
  then have up: "[k..<6] = k # [Suc k..<6]" by (simp add: upt_conv_Cons)
  show ?case
  proof (cases "drv_instances s ! (k - 1) = 0")
    case True
    with Suc.prems Suc.hyps(2) show ?thesis
      unfolding up by (intro bexI [of _ k]) (auto simp: granted_def Let_def assms(2) split: if_splits)
  next
    case False
    with Suc.prems have r: "opermode_scan cfg [Suc k..<6] s = (0, s')" unfolding up by simp
    have "n = 6 - Suc k" using Suc.hyps(2) by simp
    from Suc.hyps(1) [OF this r] obtain i where i: "i \<in> {Suc k..5}" "granted cfg s s' i"
      "\<forall>j \<in> {Suc k..<i}. drv_instances s ! (j - 1) \<noteq> 0" by auto
    have "\<forall>j \<in> {k..<i}. drv_instances s ! (j - 1) \<noteq> 0"
      using i(3) False by (metis Suc_leI atLeastLessThan_iff le_neq_implies_less)
    with i show ?thesis by (intro bexI [of _ i]) auto
  qed
qed

text \<open>
  Instances are handed out in order: a call that succeeds takes the first free instance,
  gives it its mode (the first instance's mode when the user gave none) and leaves the
  others alone.
\<close>

theorem opermode_instances_first_free:
  assumes "rsi_opermode_instances cfg s = (0, s')" "length (dev_oper_mode s) = 6"
  shows "\<exists>i \<in> {1..5}. granted cfg s s' i \<and> (\<forall>j \<in> {1..<i}. drv_instances s ! (j - 1) \<noteq> 0)"
  using assms opermode_scan_first [of cfg 1 s s']
  by (auto simp: rsi_opermode_instances_def MAX_INSTANCES_def split: if_splits)

theorem opermode_instances_first_free_witness:
  "let cfg = \<lparr>CONFIG_RS9116_PURISM = False, CONFIG_CARACALLA_BOARD = False, CONFIG_RSI_BT_ALONE = False,
              CONFIG_RSI_COEX_MODE = True, CONFIG_RSI_ZIGB = False, CONFIG_RSI_MULTI_MODE = True\<rparr>;
       s = \<lparr>drv_instances = [1, 0, 0, 0, 0], dev_oper_mode = [2, 1, 0xFF, 0xFF, 0xFF, 0xFF],
            instance_oper_mode = 0, drv_instance_index = 0\<rparr>
   in \<exists>s'. rsi_opermode_instances cfg s = (0, s') \<and> drv_instances s' = [1, 1, 0, 0, 0]"
proof -
  let ?cfg = "\<lparr>CONFIG_RS9116_PURISM = False, CONFIG_CARACALLA_BOARD = False, CONFIG_RSI_BT_ALONE = False,
              CONFIG_RSI_COEX_MODE = True, CONFIG_RSI_ZIGB = False, CONFIG_RSI_MULTI_MODE = True\<rparr>"
  let ?s = "\<lparr>drv_instances = [1, 0, 0, 0, 0], dev_oper_mode = [2, 1, 0xFF, 0xFF, 0xFF, 0xFF],
            instance_oper_mode = 0, drv_instance_index = 0\<rparr>"
  obtain s' where r: "rsi_opermode_instances ?cfg ?s = (0, s')"
    by (simp add: rsi_opermode_instances_def MAX_INSTANCES_def rsi_validate_oper_mode_def upt_rec Let_def)
  from opermode_instances_first_free [OF r] obtain i where
    i: "granted ?cfg ?s s' i" "\<forall>j \<in> {1..<i}. drv_instances ?s ! (j - 1) \<noteq> 0" "i \<in> {1..5}" by auto
  have "i \<noteq> 1" using i(1) by (auto simp: granted_def)
  moreover have "\<not> 2 < i" using i(2) by (auto dest: bspec [of _ _ 2])
  ultimately have "i = 2" using i(3) by auto
  with i(1) r show ?thesis by (auto simp: granted_def rsi_validate_oper_mode_def Let_def)
qed

end
