(* ===== verification/Sdio_Bus.thy ===== *)
theory Sdio_Bus
  imports Host_Intf
begin

text \<open>
  The SDIO provider of the host interface: rsi/rsi_91x_sdio.c and rsi/rsi_91x_sdio_ops.c.

  The kernel's SDIO host (\<open>sdio_writeb\<close>, \<open>sdio_writesb\<close>, \<open>sdio_f0_readb\<close>, \<open>sdio_readsb\<close>) and
  its allocator are the environment: the record \<open>sdio_env\<close> says what the n-th call of each
  returns, and every theorem holds for every environment. Every call is recorded in the
  log of the device state, which is what the properties talk about. Claiming and releasing
  the SDIO host, debug output and freeing of temporary buffers are left out.

  A block write through the master window goes to the device address whose upper half was
  last written to the two MS-word registers (\<open>SDIO_MASTER_ACCESS_MSBYTE\<close> holds its low byte,
  \<open>SDIO_MASTER_ACCESS_LSBYTE\<close> its high byte); \<open>ahb_writes\<close> reads the log that way.
\<close>

section \<open>State\<close>

record sdio_env =
  env_writeb :: "nat \<Rightarrow> int"          \<comment> \<open>status of a byte write\<close>
  env_writesb :: "nat \<Rightarrow> int"         \<comment> \<open>status of a block write\<close>
  env_readb :: "nat \<Rightarrow> int \<times> u8"      \<comment> \<open>status and byte of a byte read\<close>
  env_readsb :: "nat \<Rightarrow> int \<times> ptr"     \<comment> \<open>status and bytes of a block read\<close>
  env_alloc :: "nat \<Rightarrow> bool"          \<comment> \<open>whether an allocation succeeds\<close>
  env_heap :: "nat \<Rightarrow> u8"             \<comment> \<open>what lies behind a driver buffer\<close>

datatype sdio_op =
    WriteB u8 u32 u8          \<comment> \<open>function, address, byte\<close>
  | WriteSB u32 "u8 list"     \<comment> \<open>address, bytes\<close>
  | ReadB u32
  | ReadSB u32 u16

record sdio_receive_info =
  buffer_full :: bool
  semi_buffer_full :: bool
  mgmt_buffer_full :: bool
  mgmt_buf_full_counter :: u32
  buf_semi_full_counter :: u32
  sdio_intr_status_zero :: u32
  sdio_int_counter :: u32
  total_sdio_msdu_pending_intr :: u32
  total_sdio_unknown_intr :: u32
  buf_full_counter :: u32

text \<open>
  \<open>bs_counter\<close> is the \<open>static int counter\<close> of \<open>rsi_sdio_check_buffer_status\<close>; \<open>rx_q_head\<close> and
  \<open>num_rx_pkts\<close> are the fields of \<open>rx_q\<close>.
\<close>

record rsi_91x_sdiodev =
  rx_info :: sdio_receive_info
  prev_desc :: "u8 list"
  tx_blk_size :: u32
  write_fail :: u8
  buff_status_updated :: u8
  num_rx_pkts :: u8
  rx_q_head :: "u8 list list"
  next_read_delay :: u32
  sdio_high_speed_enable :: u32
  bs_counter :: int
  bus_env :: sdio_env
  bus_now :: nat
  bus_log :: "sdio_op list"

section \<open>The kernel's SDIO host\<close>

definition bus_step :: "'a rsi_91x_sdiodev_scheme \<Rightarrow> sdio_op \<Rightarrow> 'a rsi_91x_sdiodev_scheme" where
  "bus_step d e = d\<lparr>bus_now := Suc (bus_now d), bus_log := bus_log d @ [e]\<rparr>"

definition sdio_writeb_call :: "'a rsi_91x_sdiodev_scheme \<Rightarrow> u8 \<Rightarrow> u32 \<Rightarrow> u8 \<Rightarrow> int \<times> 'a rsi_91x_sdiodev_scheme" where
  [rsi_defs]: "sdio_writeb_call d func addr byte =
     (env_writeb (bus_env d) (bus_now d), bus_step d (WriteB func addr byte))"

definition sdio_writesb_call :: "'a rsi_91x_sdiodev_scheme \<Rightarrow> u32 \<Rightarrow> u8 list \<Rightarrow> int \<times> 'a rsi_91x_sdiodev_scheme" where
  [rsi_defs]: "sdio_writesb_call d addr bytes =
     (env_writesb (bus_env d) (bus_now d), bus_step d (WriteSB addr bytes))"

definition sdio_readb_call :: "'a rsi_91x_sdiodev_scheme \<Rightarrow> u32 \<Rightarrow> int \<times> u8 \<times> 'a rsi_91x_sdiodev_scheme" where
  [rsi_defs]: "sdio_readb_call d addr =
     (let (status, byte) = env_readb (bus_env d) (bus_now d)
      in (status, byte, bus_step d (ReadB addr)))"

definition sdio_readsb_call :: "'a rsi_91x_sdiodev_scheme \<Rightarrow> u32 \<Rightarrow> u16 \<Rightarrow> int \<times> u8 list \<times> 'a rsi_91x_sdiodev_scheme" where
  [rsi_defs]: "sdio_readsb_call d addr count =
     (let (status, bytes) = env_readsb (bus_env d) (bus_now d)
      in (status, bytes_at bytes 0 (unat count), bus_step d (ReadSB addr count)))"

definition kzalloc_ok :: "'a rsi_91x_sdiodev_scheme \<Rightarrow> bool" where
  [rsi_defs]: "kzalloc_ok d = env_alloc (bus_env d) (bus_now d)"

section \<open>Register access\<close>

abbreviation (input) SD_REQUEST_MASTER :: u32 where "SD_REQUEST_MASTER \<equiv> 0x10000"
abbreviation (input) SDIO_MASTER_ACCESS_MSBYTE :: u32 where "SDIO_MASTER_ACCESS_MSBYTE \<equiv> 0xFA"
abbreviation (input) SDIO_MASTER_ACCESS_LSBYTE :: u32 where "SDIO_MASTER_ACCESS_LSBYTE \<equiv> 0xFB"
abbreviation (input) SDIO_FUN1_INTR_CLR_REG :: u32 where "SDIO_FUN1_INTR_CLR_REG \<equiv> 8"

definition rsi_sdio_read_register :: "'a rsi_91x_sdiodev_scheme \<Rightarrow> u32 \<Rightarrow> int \<times> u8 \<times> 'a rsi_91x_sdiodev_scheme" where
  [rsi_defs]: "rsi_sdio_read_register d addr = sdio_readb_call d addr"

definition rsi_sdio_write_register :: "'a rsi_91x_sdiodev_scheme \<Rightarrow> u8 \<Rightarrow> u32 \<Rightarrow> u8 \<Rightarrow> int \<times> 'a rsi_91x_sdiodev_scheme" where
  [rsi_defs]: "rsi_sdio_write_register d func addr byte = sdio_writeb_call d func addr byte"

definition rsi_sdio_ack_intr :: "'a rsi_91x_sdiodev_scheme \<Rightarrow> u8 \<Rightarrow> 'a rsi_91x_sdiodev_scheme" where
  [rsi_defs]: "rsi_sdio_ack_intr d int_bit =
     snd (rsi_sdio_write_register d 1 (SDIO_FUN1_INTR_CLR_REG OR SD_REQUEST_MASTER) int_bit)"

definition rsi_sdio_read_register_multiple ::
  "'a rsi_91x_sdiodev_scheme \<Rightarrow> u32 \<Rightarrow> u16 \<Rightarrow> int \<times> u8 list \<times> 'a rsi_91x_sdiodev_scheme" where
  [rsi_defs]: "rsi_sdio_read_register_multiple d addr count = sdio_readsb_call d addr count"

text \<open>
  A failed block write latches \<open>write_fail\<close> at 2; from then on this function returns 0
  without touching the bus. The value \<open>-84\<close> (an SDIO CRC error) is taken for success, since
  the Makefile builds with \<open>COMMAND_84_ERROR_WAR\<close>.
\<close>

definition rsi_sdio_write_register_multiple ::
  "'a rsi_91x_sdiodev_scheme \<Rightarrow> u32 \<Rightarrow> ptr \<Rightarrow> u16 \<Rightarrow> int \<times> 'a rsi_91x_sdiodev_scheme" where
  "rsi_sdio_write_register_multiple d addr data count =
     (if 1 < write_fail d then (0, d)
      else
        let d1 = (if write_fail d = 1 then d\<lparr>write_fail := write_fail d + 1\<rparr> else d);
            (status, d2) = sdio_writesb_call d1 addr (bytes_at data 0 (unat count))
        in if status \<noteq> 0 \<and> status \<noteq> -84 then (status, d2\<lparr>write_fail := 2\<rparr>)
           else (0, d2\<lparr>prev_desc := bytes_at data 0 16\<rparr>))"

definition rsi_sdio_master_access_msword :: "'a rsi_91x_sdiodev_scheme \<Rightarrow> u16 \<Rightarrow> int \<times> 'a rsi_91x_sdiodev_scheme" where
  "rsi_sdio_master_access_msword d ms_word =
     (let (status, d1) = rsi_sdio_write_register d 0 SDIO_MASTER_ACCESS_MSBYTE (ucast (ms_word AND 0xFF))
      in if status \<noteq> 0 then (-1, d1)
         else rsi_sdio_write_register d1 0 SDIO_MASTER_ACCESS_LSBYTE (ucast (drop_bit 8 ms_word)))"

subsection \<open>Bulk load\<close>

text \<open>
  The \<open>for\<close> loop of \<open>rsi_sdio_load_data_master_write\<close> over the blocks still to write; it
  yields None when a write fails (\<open>goto err\<close>), with the device state reached, and otherwise
  the address and the offset behind the last block.
\<close>

primrec sdio_load_blocks ::
  "nat \<Rightarrow> 'a rsi_91x_sdiodev_scheme \<Rightarrow> u32 \<Rightarrow> u16 \<Rightarrow> nat \<Rightarrow> u16 \<Rightarrow> ptr \<Rightarrow> (u32 \<times> nat) option \<times> 'a rsi_91x_sdiodev_scheme" where
  "sdio_load_blocks 0 d base_address msb_address offset block_size fw = (Some (base_address, offset), d)"
| "sdio_load_blocks (Suc n) d base_address msb_address offset block_size fw =
     (let (st, d1) = rsi_sdio_write_register_multiple d
                       (ucast (ucast base_address :: u16) OR SD_REQUEST_MASTER)
                       (ptr_add fw offset) block_size
      in if st \<noteq> 0 then (None, d1)
         else
           let base' = base_address + ucast block_size in
           if drop_bit 16 base' \<noteq> ucast msb_address
           then let (st2, d2) = rsi_sdio_master_access_msword d1 (msb_address + 1)
                in if st2 \<noteq> 0 then (None, d2)
                   else sdio_load_blocks n d2 base' (msb_address + 1) (offset + unat block_size) block_size fw
           else sdio_load_blocks n d1 base' msb_address (offset + unat block_size) block_size fw)"

definition rsi_sdio_load_data_master_write ::
  "'a rsi_91x_sdiodev_scheme \<Rightarrow> u32 \<Rightarrow> u32 \<Rightarrow> u16 \<Rightarrow> ptr \<Rightarrow> int \<times> 'a rsi_91x_sdiodev_scheme" where
  "rsi_sdio_load_data_master_write d base_address instructions_sz block_size fw =
     (if \<not> kzalloc_ok d then (- ENOMEM, d)
      else
        let num_blocks = unat instructions_sz div unat block_size;
            msb_address = ucast (drop_bit 16 base_address);
            (st, d1) = rsi_sdio_master_access_msword d msb_address
        in if st \<noteq> 0 then (- EIO, d1)
           else case sdio_load_blocks num_blocks d1 base_address msb_address 0 block_size fw of
             (None, d2) \<Rightarrow> (- EIO, d2)
           | (Some (base', offset), d2) \<Rightarrow>
               if unat instructions_sz mod unat block_size = 0 then (0, d2)
               else
                 let (st3, d3) = rsi_sdio_write_register_multiple d2
                                   (ucast (ucast base' :: u16) OR SD_REQUEST_MASTER)
                                   (ptr_add fw offset)
                                   (of_nat (unat instructions_sz mod unat block_size))
                 in if st3 \<noteq> 0 then (- EIO, d3) else (0, d3))"

section \<open>The device after probe\<close>

text \<open>
  The state \<open>rsi_init_sdio_interface\<close> allocates (zeroed) and \<open>rsi_setupcard\<close> completes with
  the block size; \<open>quiet_env\<close> is an environment in which every call succeeds and every
  register reads as 0.
\<close>

definition sdio_probed :: "sdio_env \<Rightarrow> rsi_91x_sdiodev" where
  "sdio_probed env =
     \<lparr>rx_info = \<lparr>buffer_full = False, semi_buffer_full = False, mgmt_buffer_full = False,
        mgmt_buf_full_counter = 0, buf_semi_full_counter = 0, sdio_intr_status_zero = 0,
        sdio_int_counter = 0, total_sdio_msdu_pending_intr = 0, total_sdio_unknown_intr = 0,
        buf_full_counter = 0\<rparr>,
      prev_desc = replicate 16 0, tx_blk_size = 256, write_fail = 0, buff_status_updated = 0,
      num_rx_pkts = 0, rx_q_head = [], next_read_delay = 0, sdio_high_speed_enable = 0,
      bs_counter = 4, bus_env = env, bus_now = 0, bus_log = []\<rparr>"

definition quiet_env :: sdio_env where
  "quiet_env = \<lparr>env_writeb = (\<lambda>_. 0), env_writesb = (\<lambda>_. 0), env_readb = (\<lambda>_. (0, 0)),
     env_readsb = (\<lambda>_. (0, \<lambda>_. 0)), env_alloc = (\<lambda>_. True), env_heap = (\<lambda>_. 0)\<rparr>"

lemma sdio_probed_simps [simp]:
  "write_fail (sdio_probed env) = 0" "tx_blk_size (sdio_probed env) = 256"
  "bus_env (sdio_probed env) = env" "bus_log (sdio_probed env) = []" "bus_now (sdio_probed env) = 0"
  "bs_counter (sdio_probed env) = 4"
  by (simp_all add: sdio_probed_def)

section \<open>What a log has done to the device's memory\<close>

text \<open>
  The window is the 16-bit MS word, kept as the device does, in two byte registers of
  function 0. A block write with the \<open>SD_REQUEST_MASTER\<close> bit goes to the 32-bit address made of
  the window and the low half of the bus address.
\<close>

fun ahb_step :: "(u8 \<times> u8) \<times> (u32 \<times> u8 list) list \<Rightarrow> sdio_op \<Rightarrow> (u8 \<times> u8) \<times> (u32 \<times> u8 list) list" where
  "ahb_step ((lo, hi), ws) (WriteB func addr byte) =
     (if func = 0 \<and> addr = SDIO_MASTER_ACCESS_MSBYTE then ((byte, hi), ws)
      else if func = 0 \<and> addr = SDIO_MASTER_ACCESS_LSBYTE then ((lo, byte), ws)
      else ((lo, hi), ws))"
| "ahb_step ((lo, hi), ws) (WriteSB addr bytes) =
     (if bit addr 16
      then ((lo, hi), ws @ [(push_bit 24 (ucast hi) OR push_bit 16 (ucast lo) OR (addr AND 0xFFFF), bytes)])
      else ((lo, hi), ws))"
| "ahb_step acc _ = acc"

definition ahb_run :: "sdio_op list \<Rightarrow> (u8 \<times> u8) \<times> (u32 \<times> u8 list) list" where
  "ahb_run log = foldl ahb_step ((0, 0), []) log"

definition ahb_writes :: "'a rsi_91x_sdiodev_scheme \<Rightarrow> (u32 \<times> u8 list) list" where
  "ahb_writes d = snd (ahb_run (bus_log d))"

definition ahb_window :: "'a rsi_91x_sdiodev_scheme \<Rightarrow> u8 \<times> u8" where
  "ahb_window d = fst (ahb_run (bus_log d))"

text \<open>The window that selects the 64 KB page of an address.\<close>

definition page_window :: "u16 \<Rightarrow> u8 \<times> u8" where
  "page_window ms = (ucast (ms AND 0xFF), ucast (drop_bit 8 ms))"

lemma ahb_run_snoc: "ahb_run (log @ [e]) = ahb_step (ahb_run log) e"
  by (simp add: ahb_run_def)

lemma ahb_frame [simp]:
  "ahb_writes (d\<lparr>write_fail := w\<rparr>) = ahb_writes d" "ahb_window (d\<lparr>write_fail := w\<rparr>) = ahb_window d"
  "ahb_writes (d\<lparr>prev_desc := p\<rparr>) = ahb_writes d" "ahb_window (d\<lparr>prev_desc := p\<rparr>) = ahb_window d"
  by (simp_all add: ahb_writes_def ahb_window_def)

lemma ahb_bus_step:
  "ahb_writes (bus_step d e) = snd (ahb_step (ahb_window d, ahb_writes d) e)"
  "ahb_window (bus_step d e) = fst (ahb_step (ahb_window d, ahb_writes d) e)"
  by (simp_all add: ahb_writes_def ahb_window_def bus_step_def ahb_run_snoc)

lemma bus_step_simps [simp]:
  "write_fail (bus_step d e) = write_fail d" "bus_env (bus_step d e) = bus_env d"
  "bus_now (bus_step d e) = Suc (bus_now d)" "bus_log (bus_step d e) = bus_log d @ [e]"
  "rx_info (bus_step d e) = rx_info d" "tx_blk_size (bus_step d e) = tx_blk_size d"
  "buff_status_updated (bus_step d e) = buff_status_updated d"
  "bs_counter (bus_step d e) = bs_counter d"
  by (simp_all add: bus_step_def)

subsection \<open>Word facts of the master window\<close>

lemma page_address:
  fixes base :: u32
  assumes "(lo, hi) = page_window (ucast (drop_bit 16 base))"
  shows "push_bit 24 (ucast hi) OR push_bit 16 (ucast lo) OR
         ((ucast (ucast base :: u16) OR SD_REQUEST_MASTER) AND 0xFFFF) = base"
proof (rule bit_word_eqI)
  fix n assume "n < LENGTH(32)"
  then show "bit (push_bit 24 (ucast hi) OR push_bit 16 (ucast lo) OR
      ((ucast (ucast base :: u16) OR SD_REQUEST_MASTER) AND 0xFFFF)) n = bit base n"
    using assms unfolding page_window_def
    by (cases "n < 16"; cases "n < 24")
      (auto simp: bit_simps)
qed

lemma next_page:
  fixes base :: u32 and bs :: u16
  assumes "drop_bit 16 (base + ucast bs) \<noteq> ucast (ucast (drop_bit 16 base) :: u16)"
  shows "ucast (drop_bit 16 (base + ucast bs)) = (ucast (drop_bit 16 base) :: u16) + 1"
proof -
  have hi: "ucast (ucast (drop_bit 16 x) :: u16) = drop_bit 16 x" for x :: u32
    by (rule bit_word_eqI) (auto simp: bit_simps dest: bit_imp_le_length)
  define U where "U = unat base"
  define B where "B = unat bs"
  have U: "U < 2 ^ 32" and B: "B < 2 ^ 16"
    unfolding U_def B_def using unsigned_less [of base] unsigned_less [of bs] by simp_all
  have div_eq: "unat (drop_bit 16 x) = unat x div 2 ^ 16" for x :: u32
    by (simp add: unat_drop_bit_eq drop_bit_eq_div unat_div)
  have sum: "unat (base + ucast bs) = (U + B) mod 2 ^ 32"
    unfolding U_def B_def using B U by (simp add: unat_word_ariths unat_ucast B_def)
  have ne: "(U + B) mod 2 ^ 32 div 2 ^ 16 \<noteq> U div 2 ^ 16"
  proof
    assume "(U + B) mod 2 ^ 32 div 2 ^ 16 = U div 2 ^ 16"
    then have "unat (drop_bit 16 (base + ucast bs)) = unat (drop_bit 16 base)"
      unfolding div_eq sum U_def .
    with assms hi [of base] show False by (simp add: word_unat_eq_iff)
  qed
  have page: "x mod 2 ^ 32 div 2 ^ 16 = x div 2 ^ 16 mod 2 ^ 16" for x :: nat
    using mod_mult2_eq [of x "2 ^ 16" "2 ^ 16"] by simp
  have "(U + B) div 2 ^ 16 = U div 2 ^ 16 + (U mod 2 ^ 16 + B) div 2 ^ 16"
    using B div_add1_eq [of U B "2 ^ 16"] by simp
  moreover have "(U mod 2 ^ 16 + B) div 2 ^ 16 = 0 \<or> (U mod 2 ^ 16 + B) div 2 ^ 16 = 1"
    using B mod_less_divisor [of "2 ^ 16" U] div_less_iff_less_mult [of "2 ^ 16" "U mod 2 ^ 16 + B" 2]
    by linarith
  moreover have "U div 2 ^ 16 mod 2 ^ 16 = U div 2 ^ 16"
    using U by (simp add: div_less_iff_less_mult)
  ultimately have step: "(U + B) mod 2 ^ 32 div 2 ^ 16 = (U div 2 ^ 16 + 1) mod 2 ^ 16"
    using ne by (metis page add_0_right)
  have "unat (ucast (drop_bit 16 (base + ucast bs)) :: u16) = (U + B) mod 2 ^ 32 div 2 ^ 16 mod 2 ^ 16"
    by (simp only: unat_ucast div_eq sum) simp
  moreover have "unat ((ucast (drop_bit 16 base) :: u16) + 1) = (U div 2 ^ 16 + 1) mod 2 ^ 16"
    by (simp add: unat_word_ariths unat_ucast div_eq U_def mod_Suc_eq)
  ultimately show ?thesis
    unfolding word_unat_eq_iff step by simp
qed

subsection \<open>A successful bulk load\<close>

lemma msword_ok:
  assumes "rsi_sdio_master_access_msword d ms = (0, d')"
  shows "ahb_window d' = page_window ms" "ahb_writes d' = ahb_writes d" "write_fail d' = write_fail d"
  using assms
  by (cases "ahb_window d"; auto simp: rsi_sdio_master_access_msword_def rsi_defs ahb_bus_step
      page_window_def split: if_splits)+

lemma block_write_ok:
  assumes "write_fail d = 0" "ahb_window d = page_window (ucast (drop_bit 16 base))"
    and "rsi_sdio_write_register_multiple d (ucast (ucast base :: u16) OR SD_REQUEST_MASTER) p n = (0, d')"
  shows "ahb_writes d' = ahb_writes d @ [(base, bytes_at p 0 (unat n))]"
    "ahb_window d' = ahb_window d" "write_fail d' = 0"
proof -
  obtain lo hi where w: "ahb_window d = (lo, hi)" by fastforce
  have bit: "bit (ucast (ucast base :: u16) OR SD_REQUEST_MASTER) 16" by (simp add: bit_simps)
  have addr: "push_bit 24 (ucast hi) OR push_bit 16 (ucast lo) OR
         ((ucast (ucast base :: u16) OR SD_REQUEST_MASTER) AND 0xFFFF) = base"
    using assms(2) w by (intro page_address) simp
  show "ahb_writes d' = ahb_writes d @ [(base, bytes_at p 0 (unat n))]"
    "ahb_window d' = ahb_window d" "write_fail d' = 0"
    using assms(1,3) w bit addr
    by (auto simp: rsi_sdio_write_register_multiple_def rsi_defs ahb_bus_step Let_def split: if_splits)
qed


lemma load_blocks_ok:
  assumes "sdio_load_blocks n d base (ucast (drop_bit 16 base)) off bs fw = (Some (base', off'), d')"
    and "write_fail d = 0" "ahb_window d = page_window (ucast (drop_bit 16 base))"
  shows "base' = base + of_nat (n * unat bs)" "off' = off + n * unat bs"
    "write_fail d' = 0" "ahb_window d' = page_window (ucast (drop_bit 16 base'))"
    "ahb_writes d' = ahb_writes d @
       map (\<lambda>i. (base + of_nat (i * unat bs), bytes_at fw (off + i * unat bs) (unat bs))) [0..<n]"
proof -
  have "base' = base + of_nat (n * unat bs) \<and> off' = off + n * unat bs \<and> write_fail d' = 0 \<and>
    ahb_window d' = page_window (ucast (drop_bit 16 base')) \<and>
    ahb_writes d' = ahb_writes d @
       map (\<lambda>i. (base + of_nat (i * unat bs), bytes_at fw (off + i * unat bs) (unat bs))) [0..<n]"
    using assms
  proof (induction n arbitrary: d base off)
    case 0
    then show ?case by simp
  next
    case (Suc n)
    define nxt where "nxt = base + ucast bs"
    obtain d1 where d1: "rsi_sdio_write_register_multiple d (ucast (ucast base :: u16) OR SD_REQUEST_MASTER)
        (ptr_add fw off) bs = (0, d1)"
      using Suc.prems(1) by (auto simp: Let_def split: prod.splits if_splits)
    note w = block_write_ok [OF Suc.prems(2,3) d1]
    obtain d2 where d2: "ahb_window d2 = page_window (ucast (drop_bit 16 nxt))" "write_fail d2 = 0"
        "ahb_writes d2 = ahb_writes d1"
      and rec: "sdio_load_blocks n d2 nxt (ucast (drop_bit 16 nxt)) (off + unat bs) bs fw = (Some (base', off'), d')"
    proof (cases "drop_bit 16 nxt = ucast (ucast (drop_bit 16 base) :: u16)")
      case True
      then have "(ucast (drop_bit 16 nxt) :: u16) = ucast (drop_bit 16 base)"
        by simp
      with True Suc.prems(1,3) d1 w show thesis
        by (intro that [of d1]) (auto simp: Let_def nxt_def)
    next
      case False
      have pg: "(ucast (drop_bit 16 nxt) :: u16) = ucast (drop_bit 16 base) + 1"
        using next_page False unfolding nxt_def by blast
      with False Suc.prems(1) d1 obtain d2 where
        m: "rsi_sdio_master_access_msword d1 (ucast (drop_bit 16 nxt)) = (0, d2)"
        and r: "sdio_load_blocks n d2 nxt (ucast (drop_bit 16 nxt)) (off + unat bs) bs fw = (Some (base', off'), d')"
        by (auto simp: Let_def nxt_def split: prod.splits if_splits)
      show thesis using msword_ok [OF m] w r by (intro that [of d2]) auto
    qed
    have shift: "map (\<lambda>i. (base + of_nat (i * unat bs), bytes_at fw (off + i * unat bs) (unat bs))) [0..<Suc n] =
      (base, bytes_at fw off (unat bs)) #
      map (\<lambda>i. (nxt + of_nat (i * unat bs), bytes_at fw (off + unat bs + i * unat bs) (unat bs))) [0..<n]"
      by (simp add: upt_conv_Cons map_Suc_upt [symmetric] nxt_def algebra_simps del: upt_Suc)
    from Suc.IH [OF rec d2(2,1)] show ?case
      unfolding shift using w d2 by (auto simp: nxt_def algebra_simps)
  qed
  then show "base' = base + of_nat (n * unat bs)" "off' = off + n * unat bs"
    "write_fail d' = 0" "ahb_window d' = page_window (ucast (drop_bit 16 base'))"
    "ahb_writes d' = ahb_writes d @
       map (\<lambda>i. (base + of_nat (i * unat bs), bytes_at fw (off + i * unat bs) (unat bs))) [0..<n]"
    by blast+
qed

lemma sdio_load_ok:
  assumes "write_fail d = 0" "0 < bs"
    and "rsi_sdio_load_data_master_write d base sz bs fw = (0, d')"
  shows "ahb_writes d' = ahb_writes d @ load_chunks base (unat sz) (unat bs) fw" "write_fail d' = 0"
proof -
  have bs: "0 < unat bs" using assms(2) by (simp add: unat_gt_0)
  have rem: "unat (of_nat (unat sz mod unat bs) :: u16) = unat sz mod unat bs"
    using mod_less_divisor [OF bs, of "unat sz"] unat_u16_bound [of bs]
    by (intro unat_of_nat_small) simp
  from assms(3) obtain d1 base' off d2 where
    d1: "rsi_sdio_master_access_msword d (ucast (drop_bit 16 base)) = (0, d1)"
    and d2: "sdio_load_blocks (unat sz div unat bs) d1 base (ucast (drop_bit 16 base)) 0 bs fw = (Some (base', off), d2)"
    and tl: "if unat sz mod unat bs = 0 then d' = d2
             else rsi_sdio_write_register_multiple d2 (ucast (ucast base' :: u16) OR SD_REQUEST_MASTER)
                    (ptr_add fw off) (of_nat (unat sz mod unat bs)) = (0, d')"
    by (auto simp: rsi_sdio_load_data_master_write_def Let_def split: prod.splits if_splits option.splits)
  note m = msword_ok [OF d1]
  have wf1: "write_fail d1 = 0" using m assms(1) by simp
  note lb = load_blocks_ok [OF d2 wf1 m(1)]
  show "ahb_writes d' = ahb_writes d @ load_chunks base (unat sz) (unat bs) fw" "write_fail d' = 0"
    using tl lb m block_write_ok [OF lb(3,4)] rem
    by (auto simp: load_chunks_def split: if_splits)
qed

section \<open>Registers behind the master window\<close>

abbreviation (input) FLASH_SIZE_ADDR :: u32 where "FLASH_SIZE_ADDR \<equiv> 0x04000016"
abbreviation (input) SDIO_BLOCK_SIZE :: u16 where "SDIO_BLOCK_SIZE \<equiv> 256"

text \<open>The value a read of \<open>len\<close> bytes at the low address bits picks out of the aligned word.\<close>

definition sdio_extract :: "u32 \<Rightarrow> u32 \<Rightarrow> u16 \<Rightarrow> u32" where
  "sdio_extract data addr len =
     (if len = 2 then (if addr AND 3 = 0 then data else drop_bit 16 data) AND 0xFFFF
      else if len = 1 then
        (if addr AND 3 = 0 then data
         else if addr AND 3 = 1 then drop_bit 8 data
         else if addr AND 3 = 2 then drop_bit 16 data
         else drop_bit 24 data) AND 0xFF
      else data)"

definition rsi_sdio_master_reg_read ::
  "'a rsi_91x_sdiodev_scheme \<Rightarrow> u32 \<Rightarrow> u16 \<Rightarrow> int \<times> u32 option \<times> 'a rsi_91x_sdiodev_scheme" where
  "rsi_sdio_master_reg_read d addr len =
     (if \<not> kzalloc_ok d then (- ENOMEM, None, d)
      else
        let (st, d1) = rsi_sdio_master_access_msword d (ucast (drop_bit 16 addr))
        in if st \<noteq> 0 then (- EIO, None, d1)
           else
             let addr1 = addr AND 0xFFFF;
                 page = addr1 AND 0xFF000000;
                 addr_on_bus = (if page = FLASH_SIZE_ADDR AND 0xFF000000 \<or> page = 0
                                then addr1 AND NOT 3 else addr1);
                 (st2, bytes, d2) = rsi_sdio_read_register_multiple d1
                                      (addr_on_bus OR SD_REQUEST_MASTER) SDIO_BLOCK_SIZE
             in if st2 \<noteq> 0 then (- EIO, None, d2)
                else (0, Some (sdio_extract (get_le32 (ptr_of (\<lambda>_. 0) bytes) 0) addr1 len), d2))"

text \<open>A 2-byte or 1-byte value is repeated over the 4 bytes that are always written.\<close>

definition sdio_replicate :: "u64 \<Rightarrow> u16 \<Rightarrow> u64" where
  "sdio_replicate data len =
     (if len = 2 then push_bit 16 data OR (data AND 0xFFFF)
      else if len = 1 then
        let t = ucast (data AND 0xFF) :: u32
        in ucast (push_bit 24 t OR push_bit 16 t OR push_bit 8 t OR t)
      else data)"

definition rsi_sdio_master_reg_write ::
  "'a rsi_91x_sdiodev_scheme \<Rightarrow> u64 \<Rightarrow> u64 \<Rightarrow> u16 \<Rightarrow> int \<times> 'a rsi_91x_sdiodev_scheme" where
  "rsi_sdio_master_reg_write d addr data len =
     (if \<not> kzalloc_ok d then (- ENOMEM, d)
      else
        let buf = ptr_of (env_heap (bus_env d)) (put_le64 (sdio_replicate data len) @ replicate 4 0);
            (st, d1) = rsi_sdio_master_access_msword d (ucast (drop_bit 16 addr))
        in if st \<noteq> 0 then (- EIO, d1)
           else
             let (st2, d2) = rsi_sdio_write_register_multiple d1
                               (ucast ((addr AND 0xFFFF) OR ucast SD_REQUEST_MASTER)) buf 4
             in if st2 \<noteq> 0 then (- EIO, d2) else (0, d2))"

section \<open>Packets\<close>

abbreviation (input) RSI_COEX_Q :: u8 where "RSI_COEX_Q \<equiv> 0"
abbreviation (input) RSI_ZIGB_Q :: u8 where "RSI_ZIGB_Q \<equiv> 1"
abbreviation (input) RSI_BT_Q :: u8 where "RSI_BT_Q \<equiv> 2"
abbreviation (input) RSI_WLAN_Q :: u8 where "RSI_WLAN_Q \<equiv> 3"
abbreviation (input) RSI_WIFI_MGMT_Q :: u8 where "RSI_WIFI_MGMT_Q \<equiv> 4"
abbreviation (input) RSI_WIFI_DATA_Q :: u8 where "RSI_WIFI_DATA_Q \<equiv> 5"
abbreviation (input) RSI_BT_MGMT_Q :: u8 where "RSI_BT_MGMT_Q \<equiv> 6"
abbreviation (input) RSI_BT_DATA_Q :: u8 where "RSI_BT_DATA_Q \<equiv> 7"

text \<open>
  A packet is written in whole blocks; the bus address carries the padded length in its low
  12 bits and the queue number above them.
\<close>

definition sdio_pkt_queue :: "ptr \<Rightarrow> u8" where
  "sdio_pkt_queue pkt =
     (let q = drop_bit 4 (pkt 1) AND 0xF
      in if q = RSI_BT_DATA_Q \<or> q = RSI_BT_MGMT_Q then RSI_BT_Q else q)"

definition sdio_pkt_blocks :: "u32 \<Rightarrow> u32 \<Rightarrow> u32" where
  "sdio_pkt_blocks len block_size =
     (let n = len div block_size in if len mod block_size \<noteq> 0 then n + 1 else n)"

definition rsi_sdio_host_intf_write_pkt ::
  "'a rsi_91x_sdiodev_scheme \<Rightarrow> ptr \<Rightarrow> u32 \<Rightarrow> int \<times> 'a rsi_91x_sdiodev_scheme" where
  "rsi_sdio_host_intf_write_pkt d pkt len =
     (let block_size = tx_blk_size d;
          num_blocks = sdio_pkt_blocks len block_size;
          address = num_blocks * block_size OR push_bit 12 (ucast (sdio_pkt_queue pkt));
          count = num_blocks * block_size
      in rsi_sdio_write_register_multiple d address pkt (ucast count))"

definition rsi_sdio_host_intf_read_pkt ::
  "'a rsi_91x_sdiodev_scheme \<Rightarrow> u32 \<Rightarrow> int \<times> u8 list \<times> 'a rsi_91x_sdiodev_scheme" where
  "rsi_sdio_host_intf_read_pkt d pkt_len =
     (if pkt_len = 0 then (- EINVAL, [], d)
      else rsi_sdio_read_register_multiple d pkt_len (ucast pkt_len))"

section \<open>Taking the TA processor out of reset\<close>

abbreviation (input) TA_SOFT_RESET_REG :: u32 where "TA_SOFT_RESET_REG \<equiv> 0x0004"
abbreviation (input) TA_TH0_PC_REG :: u32 where "TA_TH0_PC_REG \<equiv> 0x0400"
abbreviation (input) TA_HOLD_THREAD_REG :: u32 where "TA_HOLD_THREAD_REG \<equiv> 0x0844"
abbreviation (input) TA_RELEASE_THREAD_REG :: u32 where "TA_RELEASE_THREAD_REG \<equiv> 0x0848"

text \<open>One of the four register writes, from the 4-byte buffer \<open>data\<close>.\<close>

definition ta_write :: "'a rsi_91x_sdiodev_scheme \<Rightarrow> u32 \<Rightarrow> u32 \<Rightarrow> int \<times> 'a rsi_91x_sdiodev_scheme" where
  "ta_write d reg v = rsi_sdio_write_register_multiple d (reg OR SD_REQUEST_MASTER)
     (ptr_of (env_heap (bus_env d)) (put_le32 v)) 4"

definition rsi_sdio_ta_reset_ops :: "'a rsi_91x_sdiodev_scheme \<Rightarrow> int \<times> 'a rsi_91x_sdiodev_scheme" where
  "rsi_sdio_ta_reset_ops d =
     (if \<not> kzalloc_ok d then (- ENOMEM, d)
      else
        let (s1, d1) = rsi_sdio_master_access_msword d 0x2200 in
        if s1 < 0 then (- EINVAL, d1) else
        let (s2, d2) = ta_write d1 TA_HOLD_THREAD_REG 0xF in
        if s2 < 0 then (- EINVAL, d2) else
        let (s3, d3) = ta_write d2 TA_SOFT_RESET_REG 0 in
        if s3 < 0 then (- EINVAL, d3) else
        let (s4, d4) = ta_write d3 TA_TH0_PC_REG 0 in
        if s4 < 0 then (- EINVAL, d4) else
        let (s5, d5) = ta_write d4 TA_RELEASE_THREAD_REG 0xF in
        if s5 < 0 then (- EINVAL, d5) else
        let (s6, d6) = rsi_sdio_master_access_msword d5 0x4105 in
        if s6 < 0 then (- EINVAL, d6) else (0, d6))"

section \<open>A bus that has failed\<close>

lemma load_blocks_bus_env: "sdio_load_blocks n d base ms off bs fw = (r, d') \<Longrightarrow> bus_env d' = bus_env d"
proof (induction n arbitrary: d base ms off)
  case 0
  then show ?case by simp
next
  case (Suc n)
  obtain st1 d1 where w: "rsi_sdio_write_register_multiple d (ucast (ucast base :: u16) OR SD_REQUEST_MASTER)
      (ptr_add fw off) bs = (st1, d1)" by fastforce
  obtain st2 d2 where m: "rsi_sdio_master_access_msword d1 (ms + 1) = (st2, d2)" by fastforce
  have e: "bus_env d1 = bus_env d" "bus_env d2 = bus_env d1"
    using w m by (auto simp: rsi_sdio_write_register_multiple_def rsi_sdio_master_access_msword_def rsi_defs Let_def
        split: if_splits)
  from Suc.prems w m e show ?case by (auto simp: Let_def split: if_splits dest!: Suc.IH)
qed

lemma load_bus_env:
  assumes "rsi_sdio_load_data_master_write d base sz bs fw = (st, d')"
  shows "bus_env d' = bus_env d"
proof -
  have w: "bus_env d2 = bus_env d1" if "rsi_sdio_write_register_multiple d1 a p n = (s, d2)" for d1 a p n s and d2 :: "'a rsi_91x_sdiodev_scheme"
    using that by (auto simp: rsi_sdio_write_register_multiple_def rsi_defs Let_def split: if_splits)
  have m: "bus_env d2 = bus_env d1" if "rsi_sdio_master_access_msword d1 ms = (s, d2)" for d1 ms s and d2 :: "'a rsi_91x_sdiodev_scheme"
    using that by (auto simp: rsi_sdio_master_access_msword_def rsi_defs split: if_splits)
  show ?thesis
    using assms
    by (auto simp: rsi_sdio_load_data_master_write_def Let_def split: if_splits prod.splits option.splits
        dest!: w m load_blocks_bus_env)
qed

text \<open>Once a block write has failed, nothing reaches the device through the block path, and no call says so.\<close>

lemma dead_block_write:
  "write_fail d = 2 \<Longrightarrow> rsi_sdio_write_register_multiple d addr p n = (0, d)"
  by (simp add: rsi_sdio_write_register_multiple_def)

lemma dead_msword:
  "rsi_sdio_master_access_msword d ms = (st, d') \<Longrightarrow> write_fail d' = write_fail d \<and> ahb_writes d' = ahb_writes d"
  by (cases "ahb_window d") (auto simp: rsi_sdio_master_access_msword_def rsi_defs ahb_bus_step split: if_splits prod.splits)

lemma dead_load_blocks:
  "write_fail d = 2 \<Longrightarrow> sdio_load_blocks n d base ms off bs fw = (r, d') \<Longrightarrow>
   write_fail d' = 2 \<and> ahb_writes d' = ahb_writes d"
proof (induction n arbitrary: d base ms off)
  case 0
  then show ?case by simp
next
  case (Suc n)
  show ?case
  proof (cases "drop_bit 16 (base + ucast bs) = (ucast ms :: u32)")
    case True
    with Suc show ?thesis by (auto simp: dead_block_write Let_def)
  next
    case False
    obtain st d1 where m: "rsi_sdio_master_access_msword d (ms + 1) = (st, d1)" by fastforce
    with dead_msword Suc.prems(1) have "write_fail d1 = 2" "ahb_writes d1 = ahb_writes d" by force+
    with Suc False m show ?thesis
      by (auto simp: dead_block_write Let_def split: if_splits)
  qed
qed

lemma dead_load:
  assumes "write_fail d = 2" "rsi_sdio_load_data_master_write d base sz bs fw = (st, d')"
  shows "write_fail d' = 2 \<and> ahb_writes d' = ahb_writes d"
proof (cases "kzalloc_ok d")
  case False
  with assms show ?thesis by (simp add: rsi_sdio_load_data_master_write_def)
next
  case True
  obtain st1 d1 where m: "rsi_sdio_master_access_msword d (ucast (drop_bit 16 base)) = (st1, d1)" by fastforce
  obtain r d2 where l: "sdio_load_blocks (unat sz div unat bs) d1 base (ucast (drop_bit 16 base)) 0 bs fw = (r, d2)"
    by fastforce
  have 1: "write_fail d1 = 2" "ahb_writes d1 = ahb_writes d" using dead_msword [OF m] assms(1) by auto
  have 2: "write_fail d2 = 2" "ahb_writes d2 = ahb_writes d" using dead_load_blocks [OF 1(1) l] 1 by auto
  show ?thesis
    using True assms m l 1 2
    by (auto simp: rsi_sdio_load_data_master_write_def Let_def dead_block_write split: if_splits option.splits)
qed

lemma msword_all_ok:
  "(\<And>k. env_writeb (bus_env d) k = 0) \<Longrightarrow>
   \<exists>d'. rsi_sdio_master_access_msword d ms = (0, d') \<and> bus_env d' = bus_env d \<and> write_fail d' = write_fail d"
  by (auto simp: rsi_sdio_master_access_msword_def rsi_defs)

lemma dead_load_blocks_succeed:
  "write_fail d = 2 \<Longrightarrow> (\<And>k. env_writeb (bus_env d) k = 0) \<Longrightarrow>
   \<exists>x d'. sdio_load_blocks n d base ms off bs fw = (Some x, d') \<and> write_fail d' = 2"
proof (induction n arbitrary: d base ms off)
  case 0
  then show ?case by simp
next
  case (Suc n)
  obtain d' where m: "rsi_sdio_master_access_msword d (ms + 1) = (0, d')" "bus_env d' = bus_env d" "write_fail d' = 2"
    using msword_all_ok [OF Suc.prems(2)] Suc.prems(1) by metis
  show ?case
    using Suc.IH [OF Suc.prems] Suc.IH [of d'] Suc.prems m by (simp add: dead_block_write Let_def)
qed

lemma dead_load_succeeds:
  assumes "write_fail d = 2" "\<And>k. env_writeb (bus_env d) k = 0" "kzalloc_ok d"
    and "rsi_sdio_load_data_master_write d base sz bs fw = (st, d')"
  shows "st = 0"
proof -
  obtain d1 where m: "rsi_sdio_master_access_msword d (ucast (drop_bit 16 base)) = (0, d1)"
      "bus_env d1 = bus_env d" "write_fail d1 = 2"
    using msword_all_ok [OF assms(2)] assms(1) by metis
  obtain x d2 where l: "sdio_load_blocks (unat sz div unat bs) d1 base (ucast (drop_bit 16 base)) 0 bs fw = (Some x, d2)"
      "write_fail d2 = 2"
    using dead_load_blocks_succeed [OF m(3)] assms(2) m(2) by metis
  show ?thesis
    using assms(3,4) m l
    by (auto simp: rsi_sdio_load_data_master_write_def Let_def dead_block_write split: if_splits prod.splits)
qed

text \<open>
  After a block write has failed, a bulk firmware load writes nothing into the device's
  memory, and it still returns 0 when the byte writes that select its pages succeed.
\<close>

theorem dead_bus_load:
  assumes "write_fail d = 0" "rsi_sdio_write_register_multiple d addr p n = (st, d1)" "st \<noteq> 0"
    and "rsi_sdio_load_data_master_write d1 base sz bs fw = (st2, d2)"
  shows "ahb_writes d2 = ahb_writes d1 \<and>
    ((\<forall>k. env_writeb (bus_env d) k = 0) \<and> kzalloc_ok d1 \<longrightarrow> st2 = 0)"
proof -
  have d1: "write_fail d1 = 2" "bus_env d1 = bus_env d"
    using assms(1-3) by (auto simp: rsi_sdio_write_register_multiple_def rsi_defs Let_def split: if_splits)
  show ?thesis
    using dead_load [OF d1(1) assms(4)] dead_load_succeeds [OF d1(1) _ _ assms(4)] d1(2) by auto
qed

theorem dead_bus_load_witness:
  "\<exists>d2 :: rsi_91x_sdiodev.
     rsi_sdio_load_data_master_write
       (snd (rsi_sdio_write_register_multiple (sdio_probed (quiet_env\<lparr>env_writesb := \<lambda>_. -1\<rparr>)) 0 (\<lambda>_. 0) 4))
       0x20003000 0x100 0x100 (\<lambda>_. 0) = (0, d2) \<and> ahb_writes d2 = []"
proof -
  let ?d = "sdio_probed (quiet_env\<lparr>env_writesb := \<lambda>_. -1\<rparr>)"
  let ?w = "rsi_sdio_write_register_multiple ?d 0 (\<lambda>_. 0) 4"
  obtain st2 d2 where l: "rsi_sdio_load_data_master_write (snd ?w) 0x20003000 0x100 0x100 (\<lambda>_. 0) = (st2, d2)"
    by fastforce
  have w: "?w = (-1, snd ?w)" and "kzalloc_ok (snd ?w)" "ahb_writes (snd ?w) = []"
    by (simp_all add: rsi_sdio_write_register_multiple_def rsi_defs quiet_env_def ahb_writes_def ahb_run_def)
  with dead_bus_load [OF _ w _ l] l show ?thesis
    by (auto simp: quiet_env_def)
qed

section \<open>Packet addresses\<close>

definition pkt_addr_length :: "u32 \<Rightarrow> u32" where "pkt_addr_length a = a AND 0xFFF"
definition pkt_addr_queue :: "u32 \<Rightarrow> u32" where "pkt_addr_queue a = drop_bit 12 a"

lemma sdio_pkt_blocks_unat:
  assumes "unat len \<le> 65280"
  shows "unat (sdio_pkt_blocks len 256 * 256) = (unat len + 255) div 256 * 256"
proof -
  have d: "unat (len div 256) = unat len div 256" and m: "(len mod 256 = 0) = (unat len mod 256 = 0)"
    by (simp_all add: unat_div unat_mod word_unat_eq_iff)
  have b: "unat len div 256 \<le> 255" using assms by linarith
  have s: "unat (len div 256 + 1) = unat len div 256 + 1"
    using b d by (simp add: unat_word_ariths)
  have v: "unat (sdio_pkt_blocks len 256) = (unat len + 255) div 256"
    using ceil_div [of 256 "unat len"] m d s by (simp add: sdio_pkt_blocks_def Let_def)
  have "(unat len + 255) div 256 \<le> 255" using assms by linarith
  then have "unat (sdio_pkt_blocks len 256) \<le> 255" using v by linarith
  then show ?thesis using v by (simp add: unat_word_ariths)
qed

lemma pkt_addr_fields:
  assumes c: "\<And>n. bit c n \<Longrightarrow> n < 12" and q: "\<And>n. bit q n \<Longrightarrow> n < 8"
  shows "pkt_addr_length (c OR push_bit 12 q) = c" "pkt_addr_queue (c OR push_bit 12 q) = q"
proof -
  have m: "(0xFFF :: u32) = mask 12" by (simp add: mask_eq_exp_minus_1)
  show "pkt_addr_length (c OR push_bit 12 q) = c"
    unfolding pkt_addr_length_def m
    by (rule bit_word_eqI) (auto simp: bit_and_iff bit_or_iff bit_push_bit_iff bit_mask_iff dest: c)
  show "pkt_addr_queue (c OR push_bit 12 q) = q"
    unfolding pkt_addr_queue_def
    by (rule bit_word_eqI) (auto simp: bit_or_iff bit_push_bit_iff bit_drop_bit_eq dest: c q)
qed

text \<open>
  A packet is written with one block write of the packet's bytes, padded with what
  follows to whole blocks. The bus address tells its padded length and its queue exactly
  when the packet is at most 3840 bytes long.
\<close>

theorem sdio_write_pkt_address:
  assumes "tx_blk_size d = 256" "write_fail d = 0" "0 < unat len" "unat len \<le> 65280"
    and "rsi_sdio_host_intf_write_pkt d pkt len = (0, d')"
  shows "\<exists>a. bus_log d' = bus_log d @ [WriteSB a (bytes_at pkt 0 ((unat len + 255) div 256 * 256))] \<and>
    (unat (pkt_addr_length a) = (unat len + 255) div 256 * 256 \<and>
     pkt_addr_queue a = ucast (sdio_pkt_queue pkt) \<longleftrightarrow> unat len \<le> 3840)"
proof -
  define padded where "padded = (unat len + 255) div 256 * 256"
  define c :: u32 where "c = sdio_pkt_blocks len 256 * 256"
  define q :: u32 where "q = ucast (sdio_pkt_queue pkt)"
  define a where "a = c OR push_bit 12 q"
  have c: "unat c = padded" unfolding c_def padded_def by (rule sdio_pkt_blocks_unat [OF assms(4)])
  have p16: "padded < 65536" unfolding padded_def using assms(4) by linarith
  have w: "unat (ucast c :: u16) = padded"
    using c p16 by (simp add: unat_ucast)
  have log: "bus_log d' = bus_log d @ [WriteSB a (bytes_at pkt 0 padded)]"
    using assms(1,2,5) w
    by (auto simp: rsi_sdio_host_intf_write_pkt_def rsi_sdio_write_register_multiple_def rsi_defs Let_def
        a_def c_def q_def bus_step_def split: if_splits)
  have le: "padded < 4096 \<longleftrightarrow> unat len \<le> 3840"
  proof -
    have "padded < 4096 \<longleftrightarrow> (unat len + 255) div 256 < 16" by (auto simp: padded_def)
    also have "\<dots> \<longleftrightarrow> unat len + 255 < 16 * 256" by (rule div_less_iff_less_mult) simp
    finally show ?thesis by auto
  qed
  have "unat (pkt_addr_length a) = padded \<and> pkt_addr_queue a = q \<longleftrightarrow> padded < 4096"
  proof
    assume "unat (pkt_addr_length a) = padded \<and> pkt_addr_queue a = q"
    moreover have "unat (pkt_addr_length a) < 4096"
      unfolding pkt_addr_length_def using word_and_le1 [of a "0xFFF"] by (simp add: word_le_nat_alt)
    ultimately show "padded < 4096" by simp
  next
    assume "padded < 4096"
    then have "\<not> bit c n" if "12 \<le> n" for n
      using low_bits_div [of c 12 n] c that by auto
    then have cb: "n < 12" if "bit c n" for n using that by (meson not_le)
    have qb: "n < 8" if "bit q n" for n
      using that bit_imp_le_length [of "sdio_pkt_queue pkt" n] by (auto simp: q_def bit_simps)
    have "pkt_addr_length a = c" "pkt_addr_queue a = q"
      unfolding a_def by (rule pkt_addr_fields [of c q, OF cb qb]; assumption)+
    with c show "unat (pkt_addr_length a) = padded \<and> pkt_addr_queue a = q" by simp
  qed
  with log le show ?thesis unfolding padded_def q_def by auto
qed

theorem sdio_write_pkt_address_witness:
  "\<exists>a d'. rsi_sdio_host_intf_write_pkt (sdio_probed quiet_env) (\<lambda>_. 0x40) 100 = (0, d') \<and>
     bus_log d' = [WriteSB a (replicate 256 0x40)] \<and>
     unat (pkt_addr_length a) = 256 \<and> pkt_addr_queue a = 4"
proof -
  obtain st d' where w: "rsi_sdio_host_intf_write_pkt (sdio_probed quiet_env) (\<lambda>_. 0x40) 100 = (st, d')"
    by fastforce
  then have "st = 0"
    by (auto simp: rsi_sdio_host_intf_write_pkt_def rsi_sdio_write_register_multiple_def rsi_defs quiet_env_def Let_def)
  with w sdio_write_pkt_address [of "sdio_probed quiet_env" 100 "\<lambda>_. 0x40" d']
  show ?thesis by (auto simp: bytes_at_def map_replicate_const sdio_pkt_queue_def)
qed

end
