(* ===== verification/Sdio_Irq.thy ===== *)
theory Sdio_Irq
  imports Sdio_Bus
begin

text \<open>
  The interrupt side of the SDIO provider, rsi/rsi_91x_sdio_ops.c: the slave registers, the
  device's buffer status (the transmit flow control), the receive of one aggregate from the
  card and the interrupt handler.

  The state extends the SDIO device with the fields of \<open>rsi_hw\<close> and \<open>rsi_common\<close> these
  functions touch. \<open>rx_lock_depth\<close> counts \<open>mutex_lock\<close> minus \<open>mutex_unlock\<close> on
  \<open>common->rx_lock\<close>, so that a well-locked function leaves it as it found it. \<open>tx_event\<close> and
  \<open>rx_event\<close> say that the transmit and the receive thread have been signalled.
\<close>

section \<open>State\<close>

record sdio_adapter = rsi_91x_sdiodev +
  interrupt_status :: u32
  isr_pending :: u32
  card_not_ready :: bool       \<comment> \<open>\<open>fsm_state\<close> has been set to \<open>FSM_CARD_NOT_READY\<close>\<close>
  suspend_in_prog :: bool
  rx_in_prog :: bool
  rx_lock_depth :: int
  tx_event :: bool
  rx_event :: bool

abbreviation (input) RSI_DEVICE_BUFFER_STATUS_REGISTER :: u32 where "RSI_DEVICE_BUFFER_STATUS_REGISTER \<equiv> 0xF3"
abbreviation (input) RSI_FN1_INT_REGISTER :: u32 where "RSI_FN1_INT_REGISTER \<equiv> 0xF9"
abbreviation (input) SDIO_RX_NUM_BLOCKS_REG :: u32 where "SDIO_RX_NUM_BLOCKS_REG \<equiv> 0xF1"
abbreviation (input) SDIO_FW_STATUS_REG :: u32 where "SDIO_FW_STATUS_REG \<equiv> 0xF2"
abbreviation (input) SDIO_NXT_RD_DELAY2 :: u32 where "SDIO_NXT_RD_DELAY2 \<equiv> 0xF5"
abbreviation (input) SDIO_REG_HIGH_SPEED :: u32 where "SDIO_REG_HIGH_SPEED \<equiv> 0x13"
abbreviation (input) SDIO_READ_START_LVL :: u32 where "SDIO_READ_START_LVL \<equiv> 0xFC"
abbreviation (input) SDIO_READ_FIFO_CTL :: u32 where "SDIO_READ_FIFO_CTL \<equiv> 0xFD"
abbreviation (input) SDIO_WRITE_FIFO_CTL :: u32 where "SDIO_WRITE_FIFO_CTL \<equiv> 0xFE"

text \<open>Bit numbers of the interrupt and of the buffer status register.\<close>

abbreviation (input) PKT_BUFF_SEMI_FULL :: nat where "PKT_BUFF_SEMI_FULL \<equiv> 0"
abbreviation (input) PKT_BUFF_FULL :: nat where "PKT_BUFF_FULL \<equiv> 1"
abbreviation (input) PKT_MGMT_BUFF_FULL :: nat where "PKT_MGMT_BUFF_FULL \<equiv> 2"
abbreviation (input) MSDU_PKT_PENDING :: nat where "MSDU_PKT_PENDING \<equiv> 3"
abbreviation (input) PKT_BUFF_AVAILABLE :: nat where "PKT_BUFF_AVAILABLE \<equiv> 1"
abbreviation (input) FW_ASSERT_IND :: nat where "FW_ASSERT_IND \<equiv> 2"

abbreviation (input) QUEUE_FULL :: int where "QUEUE_FULL \<equiv> 0"
abbreviation (input) QUEUE_NOT_FULL :: int where "QUEUE_NOT_FULL \<equiv> 1"
abbreviation (input) EVENT_WAIT_FOREVER :: int where "EVENT_WAIT_FOREVER \<equiv> 0"
abbreviation (input) SDIO_MGMT_SOFT_Q :: u8 where "SDIO_MGMT_SOFT_Q \<equiv> 4"

section \<open>Slave registers\<close>

definition slave_reg_write :: "(int \<times> 'a rsi_91x_sdiodev_scheme) \<Rightarrow> bool \<Rightarrow> u32 \<Rightarrow> u8 \<Rightarrow> int \<times> 'a rsi_91x_sdiodev_scheme" where
  "slave_reg_write acc wanted reg byte =
     (let (st, d) = acc in
      if st \<noteq> 0 \<or> \<not> wanted then (st, d)
      else let (s1, d1) = rsi_sdio_write_register d 0 reg byte
           in (if s1 \<noteq> 0 then -1 else 0, d1))"

definition rsi_init_sdio_slave_regs :: "'a rsi_91x_sdiodev_scheme \<Rightarrow> int \<times> 'a rsi_91x_sdiodev_scheme" where
  "rsi_init_sdio_slave_regs d =
     slave_reg_write (slave_reg_write (slave_reg_write (slave_reg_write (slave_reg_write (0, d)
       (next_read_delay d \<noteq> 0) SDIO_NXT_RD_DELAY2 (ucast (next_read_delay d)))
       (sdio_high_speed_enable d \<noteq> 0) SDIO_REG_HIGH_SPEED 3)
       True SDIO_READ_START_LVL 0x24)
       True SDIO_READ_FIFO_CTL (128 - 32))
       True SDIO_WRITE_FIFO_CTL 32"

section \<open>Buffer status\<close>

text \<open>The three blocks that copy a bit of the status register into \<open>rx_info\<close>.\<close>

definition note_buf_status :: "sdio_receive_info \<Rightarrow> u8 \<Rightarrow> sdio_receive_info" where
  "note_buf_status r buf_status =
     (let r1 = (if bit buf_status PKT_MGMT_BUFF_FULL
                then r\<lparr>mgmt_buf_full_counter := mgmt_buf_full_counter r + (if mgmt_buffer_full r then 0 else 1),
                       mgmt_buffer_full := True\<rparr>
                else r\<lparr>mgmt_buffer_full := False\<rparr>);
          r2 = (if bit buf_status PKT_BUFF_FULL
                then r1\<lparr>buf_full_counter := buf_full_counter r1 + (if buffer_full r1 then 0 else 1),
                        buffer_full := True\<rparr>
                else r1\<lparr>buffer_full := False\<rparr>)
      in (if bit buf_status PKT_BUFF_SEMI_FULL
          then r2\<lparr>buf_semi_full_counter := buf_semi_full_counter r2 + (if semi_buffer_full r2 then 0 else 1),
                  semi_buffer_full := True\<rparr>
          else r2\<lparr>semi_buffer_full := False\<rparr>))"

text \<open>The tail at the label \<open>out\<close>.\<close>

definition queue_verdict :: "sdio_receive_info \<Rightarrow> u8 \<Rightarrow> int" where
  "queue_verdict r q_num =
     (if q_num = SDIO_MGMT_SOFT_Q \<and> mgmt_buffer_full r then QUEUE_FULL
      else if q_num < SDIO_MGMT_SOFT_Q \<and> buffer_full r then QUEUE_FULL
      else QUEUE_NOT_FULL)"

definition rsi_sdio_check_buffer_status ::
  "'a rsi_91x_sdiodev_scheme \<Rightarrow> u8 \<Rightarrow> int \<times> 'a rsi_91x_sdiodev_scheme" where
  "rsi_sdio_check_buffer_status d q_num =
     (if buff_status_updated d = 0 \<and> bs_counter d \<noteq> 0
      then (queue_verdict (rx_info d) q_num, d\<lparr>bs_counter := bs_counter d - 1\<rparr>)
      else
        let d1 = d\<lparr>buff_status_updated := 0\<rparr>;
            (status, buf_status, d2) = rsi_sdio_read_register d1 RSI_DEVICE_BUFFER_STATUS_REGISTER
        in if status \<noteq> 0 then (-1, d2)
           else
             let r = note_buf_status (rx_info d2) buf_status;
                 d3 = d2\<lparr>rx_info := r, bs_counter := (if semi_buffer_full r then 1 else 4)\<rparr>
             in (queue_verdict r q_num, d3))"

definition rsi_sdio_determine_event_timeout :: "'a rsi_91x_sdiodev_scheme \<Rightarrow> int" where
  "rsi_sdio_determine_event_timeout d = (if buffer_full (rx_info d) then 2 else EVENT_WAIT_FOREVER)"

section \<open>Receiving from the card\<close>

abbreviation (input) RSI_SDIO_MAX_RX_PKTS :: u8 where "RSI_SDIO_MAX_RX_PKTS \<equiv> 100"

definition rsi_read_intr_status_reg :: "'a sdio_adapter_scheme \<Rightarrow> int \<times> 'a sdio_adapter_scheme" where
  "rsi_read_intr_status_reg a =
     (let (status, isr, a1) = rsi_sdio_read_register a RSI_FN1_INT_REGISTER
      in (0, if bit (isr AND 0xE) MSDU_PKT_PENDING then a1\<lparr>isr_pending := 1\<rparr> else a1))"

text \<open>\<open>DROP_PKT\<close>: the data is read into a scratch buffer so that the card can go on.\<close>

definition drop_pkt :: "'a sdio_adapter_scheme \<Rightarrow> u32 \<Rightarrow> int \<times> 'a sdio_adapter_scheme" where
  "drop_pkt a rcv_pkt_len =
     (let (st, bytes, a1) = rsi_sdio_host_intf_read_pkt a rcv_pkt_len in (0, a1\<lparr>rx_event := True\<rparr>))"

text \<open>The number of blocks is in the interrupt status, or, when that says 0, in a register.\<close>

definition rx_num_blocks :: "'a sdio_adapter_scheme \<Rightarrow> int \<times> u8 \<times> 'a sdio_adapter_scheme" where
  "rx_num_blocks a =
     (let n0 = ucast ((interrupt_status a AND 1) OR push_bit 1 (drop_bit 4 (interrupt_status a))) :: u8
      in if n0 = 0
         then let (st, v, a1) = rsi_sdio_read_register a SDIO_RX_NUM_BLOCKS_REG in (st, v AND 0x1F, a1)
         else (0, n0, a))"

definition rsi_process_pkt :: "'a sdio_adapter_scheme \<Rightarrow> int \<times> 'a sdio_adapter_scheme" where
  "rsi_process_pkt a =
     (let (st, num_blks, a1) = rx_num_blocks a
      in if st \<noteq> 0 then (st, a1)
         else
           let a2 = (if write_fail a1 = 2 then rsi_sdio_ack_intr a1 (BIT MSDU_PKT_PENDING) else a1)
           in if num_blks = 0 then (-1, a2\<lparr>write_fail := 2\<rparr>)
              else
                let rcv_pkt_len = ucast num_blks * 256 :: u32
                in if RSI_SDIO_MAX_RX_PKTS \<le> num_rx_pkts a2 then drop_pkt a2 rcv_pkt_len
                   else if \<not> kzalloc_ok a2 then drop_pkt a2 rcv_pkt_len
                   else
                     let (st2, bytes, a3) = rsi_sdio_host_intf_read_pkt a2 rcv_pkt_len
                     in if st2 \<noteq> 0 then (st2, a3)
                        else (0, a3\<lparr>rx_q_head := rx_q_head a3 @ [bytes],
                                    num_rx_pkts := num_rx_pkts a3 + 1, rx_event := True\<rparr>))"

section \<open>The interrupt handler\<close>

text \<open>The cases of the \<open>switch\<close> on the interrupt type, in the order \<open>RSI_GET_SDIO_INTERRUPT_TYPE\<close> tests them.\<close>

definition on_buffer_available :: "'a sdio_adapter_scheme \<Rightarrow> 'a sdio_adapter_scheme" where
  "on_buffer_available a =
     (let a1 = rsi_sdio_ack_intr a (BIT PKT_BUFF_AVAILABLE);
          (status, a2) = rsi_sdio_check_buffer_status a1 0
      in if status < 0 then a2 else a2\<lparr>tx_event := True, buff_status_updated := 1\<rparr>)"

definition on_msdu_pending :: "'a sdio_adapter_scheme \<Rightarrow> int \<times> 'a sdio_adapter_scheme" where
  "on_msdu_pending a =
     rsi_process_pkt (a\<lparr>rx_info := (rx_info a)\<lparr>total_sdio_msdu_pending_intr :=
                                     total_sdio_msdu_pending_intr (rx_info a) + 1\<rparr>\<rparr>)"

definition on_fw_assert :: "'a sdio_adapter_scheme \<Rightarrow> 'a sdio_adapter_scheme" where
  "on_fw_assert a =
     (let (status, fw_status, a1) = rsi_sdio_read_register a SDIO_FW_STATUS_REG;
          a2 = (if status \<noteq> 0 then a1 else rsi_sdio_ack_intr a1 (BIT FW_ASSERT_IND))
      in a2\<lparr>card_not_ready := True\<rparr>)"

definition on_unknown_intr :: "'a sdio_adapter_scheme \<Rightarrow> u8 \<Rightarrow> 'a sdio_adapter_scheme" where
  "on_unknown_intr a isr_status =
     (let a1 = rsi_sdio_ack_intr a isr_status
      in a1\<lparr>rx_info := (rx_info a1)\<lparr>total_sdio_unknown_intr := total_sdio_unknown_intr (rx_info a1) + 1\<rparr>\<rparr>)"

text \<open>
  The inner \<open>do ... while (isr_status)\<close>: one round serves one interrupt type and clears its
  bit. The result is True when a failed receive makes the handler return at once. In the
  \<open>default\<close> case \<open>isr_status\<close> is set to 0 and then XORed with \<open>BIT(13)\<close>, which an 8-bit
  variable does not hold, so the loop ends.
\<close>

function intr_loop :: "u8 \<Rightarrow> 'a sdio_adapter_scheme \<Rightarrow> bool \<times> 'a sdio_adapter_scheme" where
  "intr_loop isr_status a =
     (if bit isr_status PKT_BUFF_AVAILABLE
      then let a1 = on_buffer_available a; isr = isr_status XOR BIT PKT_BUFF_AVAILABLE
           in if isr = 0 then (False, a1) else intr_loop isr a1
      else if bit isr_status MSDU_PKT_PENDING
      then let (status, a1) = on_msdu_pending a; isr = isr_status XOR BIT MSDU_PKT_PENDING
           in if status \<noteq> 0 then (True, a1) else if isr = 0 then (False, a1) else intr_loop isr a1
      else if bit isr_status FW_ASSERT_IND
      then let a1 = on_fw_assert a; isr = isr_status XOR BIT FW_ASSERT_IND
           in if isr = 0 then (False, a1) else intr_loop isr a1
      else (False, on_unknown_intr a isr_status))"
  by pat_completeness auto
termination
  by (relation "measure (\<lambda>(isr, a). unat isr)") (auto simp: word_less_nat_alt [symmetric])

declare intr_loop.simps [simp del]

definition rx_unlock :: "'a sdio_adapter_scheme \<Rightarrow> 'a sdio_adapter_scheme" where
  [rsi_defs]: "rx_unlock a = a\<lparr>rx_lock_depth := rx_lock_depth a - 1\<rparr>"

text \<open>
  The outer \<open>do ... while (1)\<close>, left when the status register cannot be read, when it shows no
  interrupt, or when a receive fails. Whether it is left at all is up to the device.
\<close>

partial_function (option) intr_outer :: "'a sdio_adapter_scheme \<Rightarrow> 'a sdio_adapter_scheme option" where
  "intr_outer a =
     (let (status, isr0, a1) = rsi_sdio_read_register a RSI_FN1_INT_REGISTER in
      if status \<noteq> 0 then Some ((rx_unlock a1)\<lparr>rx_in_prog := False\<rparr>)
      else
        let a2 = a1\<lparr>interrupt_status := ucast isr0\<rparr>; isr = isr0 AND 0xE in
        if isr = 0
        then Some ((rx_unlock (a2\<lparr>tx_event := True,
                     rx_info := (rx_info a2)\<lparr>sdio_intr_status_zero := sdio_intr_status_zero (rx_info a2) + 1\<rparr>\<rparr>))
                   \<lparr>rx_in_prog := False\<rparr>)
        else
          let (early, a3) = intr_loop isr a2 in
          if early then Some ((rx_unlock a3)\<lparr>rx_in_prog := False\<rparr>)
          else intr_outer (rx_unlock a3))"

definition rsi_interrupt_handler :: "'a sdio_adapter_scheme \<Rightarrow> 'a sdio_adapter_scheme option" where
  "rsi_interrupt_handler a =
     (let a1 = a\<lparr>rx_info := (rx_info a)\<lparr>sdio_int_counter := sdio_int_counter (rx_info a) + 1\<rparr>\<rparr>;
          a2 = a1\<lparr>rx_lock_depth := rx_lock_depth a1 + 1\<rparr>;
          a3 = a2\<lparr>rx_in_prog := \<not> suspend_in_prog a2\<rparr>
      in intr_outer (rx_unlock a3))"

section \<open>Flow control\<close>

lemma check_buffer_bus_mono: "bus_now d \<le> bus_now (snd (rsi_sdio_check_buffer_status d q))"
  by (auto simp: rsi_sdio_check_buffer_status_def rsi_defs Let_def split: prod.splits)

lemma check_buffer_counter_range:
  "0 \<le> bs_counter d \<Longrightarrow> bs_counter d \<le> 4 \<Longrightarrow>
   0 \<le> bs_counter (snd (rsi_sdio_check_buffer_status d q)) \<and>
   bs_counter (snd (rsi_sdio_check_buffer_status d q)) \<le> 4"
  by (auto simp: rsi_sdio_check_buffer_status_def rsi_defs Let_def split: prod.splits)

text \<open>Either the register is read, or the counter goes down.\<close>

lemma check_buffer_progress:
  assumes "0 \<le> bs_counter d"
  shows "bus_now d < bus_now (snd (rsi_sdio_check_buffer_status d q)) \<or>
    (bs_counter d \<noteq> 0 \<and> bs_counter (snd (rsi_sdio_check_buffer_status d q)) = bs_counter d - 1)"
  by (auto simp: rsi_sdio_check_buffer_status_def rsi_defs Let_def split: prod.splits)

lemma check_buffer_run_mono:
  "bus_now d \<le> bus_now (foldl (\<lambda>d q. snd (rsi_sdio_check_buffer_status d q)) d qs)"
  by (induction qs arbitrary: d) (auto intro: order_trans [OF check_buffer_bus_mono])

lemma check_buffer_run_reads:
  "0 \<le> bs_counter d \<Longrightarrow> bs_counter d < int (length qs) \<Longrightarrow>
   bus_now d < bus_now (foldl (\<lambda>d q. snd (rsi_sdio_check_buffer_status d q)) d qs)"
proof (induction qs arbitrary: d)
  case Nil
  then show ?case by simp
next
  case (Cons q qs)
  let ?d1 = "snd (rsi_sdio_check_buffer_status d q)"
  show ?case
  proof (cases "bus_now d < bus_now ?d1")
    case True
    then show ?thesis using check_buffer_run_mono [of ?d1 qs] by simp
  next
    case False
    with check_buffer_progress [OF Cons.prems(1), of q]
    have "bs_counter ?d1 = bs_counter d - 1" "bs_counter d \<noteq> 0" by auto
    with Cons.prems have "bus_now ?d1 < bus_now (foldl (\<lambda>d q. snd (rsi_sdio_check_buffer_status d q)) ?d1 qs)"
      by (intro Cons.IH) auto
    with check_buffer_bus_mono [of d q] show ?thesis by simp
  qed
qed

section \<open>Frames of the interrupt path\<close>

text \<open>What serving one interrupt leaves alone: the lock and the environment; bus time only grows.\<close>

definition irq_frame :: "'a sdio_adapter_scheme \<Rightarrow> 'a sdio_adapter_scheme \<Rightarrow> bool" where
  "irq_frame a a' \<longleftrightarrow> rx_lock_depth a' = rx_lock_depth a \<and> bus_env a' = bus_env a \<and> bus_now a \<le> bus_now a'"

lemma irq_frame_trans [trans]: "irq_frame a b \<Longrightarrow> irq_frame b c \<Longrightarrow> irq_frame a c"
  by (auto simp: irq_frame_def)

lemma ack_frame [simp]: "irq_frame a (rsi_sdio_ack_intr a b)"
  by (simp add: irq_frame_def rsi_defs bus_step_def)

lemma check_buffer_frame: "irq_frame a (snd (rsi_sdio_check_buffer_status a q))"
  by (auto simp: irq_frame_def rsi_sdio_check_buffer_status_def rsi_defs Let_def bus_step_def split: prod.splits)

lemma read_register_frame: "rsi_sdio_read_register a r = (st, v, a') \<Longrightarrow> irq_frame a a'"
  by (auto simp: irq_frame_def rsi_defs bus_step_def split: prod.splits)

lemma read_pkt_frame: "rsi_sdio_host_intf_read_pkt a n = (st, bs, a') \<Longrightarrow> irq_frame a a'"
  by (auto simp: irq_frame_def rsi_sdio_host_intf_read_pkt_def rsi_defs bus_step_def split: prod.splits if_splits)

lemma irq_frame_refl [simp]: "irq_frame a a"
  by (simp add: irq_frame_def)

lemma irq_frame_updates [simp]:
  "irq_frame a (b\<lparr>write_fail := w\<rparr>) = irq_frame a b"
  "irq_frame a (b\<lparr>rx_event := e\<rparr>) = irq_frame a b"
  "irq_frame a (b\<lparr>rx_q_head := q, num_rx_pkts := k\<rparr>) = irq_frame a b"
  by (simp_all add: irq_frame_def)

lemma drop_pkt_frame: "irq_frame a (snd (drop_pkt a n))"
  using read_pkt_frame by (fastforce simp: drop_pkt_def split: prod.split)

lemma process_pkt_frame: "irq_frame a (snd (rsi_process_pkt a))"
proof -
  obtain st nb a1 where first: "rx_num_blocks a = (st, nb, a1)" by (metis prod_cases3)
  then have f1: "irq_frame a a1"
    by (auto simp: rx_num_blocks_def Let_def split: if_splits prod.splits dest: read_register_frame)
  define a2 where "a2 = (if write_fail a1 = 2 then rsi_sdio_ack_intr a1 (BIT MSDU_PKT_PENDING) else a1)"
  have f2: "irq_frame a a2"
    using f1 by (auto simp: a2_def intro: irq_frame_trans [OF _ ack_frame])
  obtain st2 bs a3 where rd: "rsi_sdio_host_intf_read_pkt a2 (ucast nb * 256) = (st2, bs, a3)"
    by (metis prod_cases3)
  note f3 = irq_frame_trans [OF f2 read_pkt_frame [OF rd]]
  note fd = irq_frame_trans [OF f2 drop_pkt_frame]
  show ?thesis
    unfolding rsi_process_pkt_def first
    by (simp add: Let_def a2_def [symmetric] rd f1 f2 f3 fd)
qed

lemma on_buffer_available_frame: "irq_frame a (on_buffer_available a)"
proof -
  have "irq_frame a (snd (rsi_sdio_check_buffer_status (rsi_sdio_ack_intr a (BIT PKT_BUFF_AVAILABLE)) 0))"
    using ack_frame check_buffer_frame by (rule irq_frame_trans)
  then show ?thesis
    by (auto simp: on_buffer_available_def irq_frame_def Let_def split: prod.splits)
qed

lemma on_fw_assert_frame: "irq_frame a (on_fw_assert a)"
  by (auto simp: irq_frame_def on_fw_assert_def Let_def rsi_defs bus_step_def split: prod.splits)

lemma on_unknown_intr_frame: "irq_frame a (on_unknown_intr a b)"
  by (auto simp: irq_frame_def on_unknown_intr_def Let_def rsi_defs bus_step_def)

lemma on_msdu_pending_frame: "irq_frame a (snd (on_msdu_pending a))"
  using process_pkt_frame
    [of "a\<lparr>rx_info := (rx_info a)\<lparr>total_sdio_msdu_pending_intr := total_sdio_msdu_pending_intr (rx_info a) + 1\<rparr>\<rparr>"]
  by (simp add: irq_frame_def on_msdu_pending_def)

lemmas irq_frames = on_buffer_available_frame on_fw_assert_frame on_unknown_intr_frame on_msdu_pending_frame

lemma intr_loop_frame: "irq_frame a (snd (intr_loop isr a))"
proof (induction isr a rule: intr_loop.induct)
  case (1 isr a)
  consider (avail) "bit isr PKT_BUFF_AVAILABLE"
    | (msdu) "\<not> bit isr PKT_BUFF_AVAILABLE" "bit isr MSDU_PKT_PENDING"
    | (fw) "\<not> bit isr PKT_BUFF_AVAILABLE" "\<not> bit isr MSDU_PKT_PENDING" "bit isr FW_ASSERT_IND"
    | (unknown) "\<not> bit isr PKT_BUFF_AVAILABLE" "\<not> bit isr MSDU_PKT_PENDING" "\<not> bit isr FW_ASSERT_IND"
    by blast
  then show ?case
  proof cases
    case avail
    with "1.IH"(1) [OF avail refl refl] show ?thesis
      by (subst intr_loop.simps) (auto simp: Let_def irq_frames intro: irq_frame_trans [OF irq_frames(1)])
  next
    case msdu
    obtain st a1 where m: "on_msdu_pending a = (st, a1)" by fastforce
    have f: "irq_frame a a1" using irq_frames(4) [of a] m by simp
    show ?thesis
      using msdu f "1.IH"(2) [OF msdu m [symmetric] refl refl]
      by (subst intr_loop.simps) (auto simp: Let_def m intro: irq_frame_trans [OF f])
  next
    case fw
    with "1.IH"(3) [OF fw refl refl] show ?thesis
      by (subst intr_loop.simps) (auto simp: Let_def irq_frames intro: irq_frame_trans [OF irq_frames(2)])
  next
    case unknown
    then show ?thesis by (subst intr_loop.simps) (simp add: irq_frames)
  qed
qed

lemma irq_frame_unlock: "irq_frame a a' \<Longrightarrow> rx_lock_depth (rx_unlock a') = rx_lock_depth a - 1"
  by (simp add: irq_frame_def rsi_defs)

section \<open>The operations table\<close>

definition sdio_host_intf_ops :: "'a rsi_91x_sdiodev_scheme rsi_host_intf_ops" where
  "sdio_host_intf_ops =
     \<lparr>read_pkt = Some rsi_sdio_host_intf_read_pkt, write_pkt = rsi_sdio_host_intf_write_pkt,
      master_access_msword = Some rsi_sdio_master_access_msword,
      write_reg_multiple = rsi_sdio_write_register_multiple,
      master_reg_read = rsi_sdio_master_reg_read, master_reg_write = rsi_sdio_master_reg_write,
      load_data_master_write = rsi_sdio_load_data_master_write, ta_reset_ops = Some rsi_sdio_ta_reset_ops,
      check_hw_queue_status = rsi_sdio_check_buffer_status\<rparr>"

lemma sdio_load_neg: "fst (rsi_sdio_load_data_master_write d base sz bs p) \<le> 0"
  by (auto simp: rsi_sdio_load_data_master_write_def Let_def split: prod.splits option.splits)

lemma sdio_master_reg_read_frame:
  assumes "rsi_sdio_master_reg_read d addr len = (st, v, d')"
  shows "ahb_writes d' = ahb_writes d" "write_fail d' = write_fail d"
proof -
  obtain st1 d1 where m: "rsi_sdio_master_access_msword d (ucast (drop_bit 16 addr)) = (st1, d1)"
    by fastforce
  have f: "ahb_writes d1 = ahb_writes d" "write_fail d1 = write_fail d"
    using m by (cases "ahb_window d"; auto simp: rsi_sdio_master_access_msword_def rsi_defs ahb_bus_step
        split: if_splits prod.splits)+
  have r: "ahb_writes d2 = ahb_writes d1 \<and> write_fail d2 = write_fail d1"
    if "rsi_sdio_read_register_multiple d1 a n = (s, b, d2)" for a n s b d2
    using that by (cases "ahb_window d1") (auto simp: rsi_defs ahb_bus_step split: prod.splits)
  show "ahb_writes d' = ahb_writes d" "write_fail d' = write_fail d"
    using assms m f by (auto simp: rsi_sdio_master_reg_read_def Let_def split: if_splits prod.splits dest!: r)
qed

lemma bytes_at_put_le64: "bytes_at (ptr_of fill (put_le64 w @ rest)) 0 4 = put_le32 (ucast w)"
  by (simp add: bytes_at_ptr_of put_le64_def take_Suc_conv_app_nth)

lemma ucast_addr_split:
  fixes addr :: u64
  shows "(ucast ((addr AND 0xFFFF) OR ucast SD_REQUEST_MASTER) :: u32)
    = ucast (ucast (ucast addr :: u32) :: u16) OR SD_REQUEST_MASTER"
    "(ucast (drop_bit 16 addr) :: u16) = ucast (drop_bit 16 (ucast addr :: u32))"
  by (rule bit_word_eqI; auto simp: bit_simps)+

lemma sdio_reg_write_ok:
  assumes "write_fail d = 0" "len = 2 \<or> len = 4"
    and "rsi_sdio_master_reg_write d addr data len = (st, d')" "0 \<le> st"
  shows "ahb_writes d' = ahb_writes d @ [(ucast addr, put_le32 (ucast (sdio_replicate data len)))]"
    "write_fail d' = 0"
proof -
  obtain st1 d1 where m: "rsi_sdio_master_access_msword d (ucast (drop_bit 16 addr)) = (st1, d1)"
    by fastforce
  define buf where "buf = ptr_of (env_heap (bus_env d)) (put_le64 (sdio_replicate data len) @ replicate 4 0)"
  have buf4: "bytes_at buf 0 (unat (4 :: u16)) = put_le32 (ucast (sdio_replicate data len))"
    unfolding buf_def by (simp add: bytes_at_put_le64)
  from assms(3,4) m have m0: "rsi_sdio_master_access_msword d (ucast (drop_bit 16 (ucast addr :: u32))) = (0, d1)"
    and w: "rsi_sdio_write_register_multiple d1
              (ucast (ucast (ucast addr :: u32) :: u16) OR SD_REQUEST_MASTER) buf 4 = (0, d')"
    unfolding rsi_sdio_master_reg_write_def buf_def [symmetric] ucast_addr_split
    by (auto simp: Let_def split: if_splits prod.splits)
  note k = msword_ok [OF m0]
  have "write_fail d1 = 0" using k assms(1) by simp
  from block_write_ok [OF this k(1) w] k buf4
  show "ahb_writes d' = ahb_writes d @ [(ucast addr, put_le32 (ucast (sdio_replicate data len)))]"
    "write_fail d' = 0" by simp_all
qed

lemma sdio_replicate_low:
  assumes "len = 2 \<or> len = 4"
  shows "take (unat len) (put_le32 (ucast (sdio_replicate data len))) = take (unat len) (put_le32 (ucast data))"
proof -
  have lo: "(ucast (drop_bit k (ucast (push_bit 16 data OR (data AND 0xFFFF)) :: u32)) :: u8)
            = ucast (drop_bit k (ucast data :: u32))" if "k = 0 \<or> k = 8" for k
    using that by (intro bit_word_eqI) (auto simp: bit_simps)
  show ?thesis
    using assms lo [of 0] lo [of 8]
    by (auto simp: sdio_replicate_def put_le32_def)
qed

interpretation sdio: host_intf sdio_host_intf_ops ahb_writes "\<lambda>d. write_fail d = 0"
proof unfold_locales
  fix addr :: u64 and len :: u16 and s s' :: "'a rsi_91x_sdiodev_scheme" and data st
  assume "write_fail s = 0" "len = 2 \<or> len = 4" "master_reg_write sdio_host_intf_ops s addr data len = (st, s')" "0 \<le> st"
  then show "(\<exists>bytes. ahb_writes s' = ahb_writes s @ [(ucast addr, bytes)] \<and>
        take (unat len) bytes = take (unat len) (put_le32 (ucast data))) \<and> write_fail s' = 0"
    using sdio_reg_write_ok [of s len addr data st s'] sdio_replicate_low [of len data]
    by (simp add: sdio_host_intf_ops_def)
qed (auto simp: sdio_host_intf_ops_def sdio_load_ok sdio_load_neg dest: sdio_master_reg_read_frame)

text \<open>
  C17. A bulk load that returns 0 on a bus that has not failed has written the whole image,
  byte for byte, at consecutive addresses from the base address on, whatever 64 KB pages of
  the device it crosses.
\<close>

theorem sdio_bulk_load:
  assumes "write_fail d = 0" "0 < bs" "bs \<le> 256" "unat sz div unat bs < 2 ^ 16"
    and "rsi_sdio_load_data_master_write d base sz bs fw = (0, d')"
  shows "\<exists>ws. ahb_writes d' = ahb_writes d @ ws \<and> concat (map snd ws) = bytes_at fw 0 (unat sz) \<and>
    (\<forall>i < length ws. fst (ws ! i) = base + of_nat (i * unat bs))"
  using sdio.load_ok [of d bs sz base fw d'] assms load_chunks_bytes load_chunks_addr
  by (fastforce simp: sdio_host_intf_ops_def)

theorem sdio_bulk_load_witness:
  "\<exists>ws d'. rsi_sdio_load_data_master_write (sdio_probed quiet_env) 0x1FFFF 3 2 (\<lambda>i. of_nat i) = (0, d') \<and>
     ahb_writes d' = ws \<and> concat (map snd ws) = [0, 1, 2]"
proof -
  obtain st d' where l: "rsi_sdio_load_data_master_write (sdio_probed quiet_env) 0x1FFFF 3 2 (\<lambda>i. of_nat i) = (st, d')"
    by fastforce
  then have "st = 0"
    by (auto simp: rsi_sdio_load_data_master_write_def rsi_sdio_master_access_msword_def
        rsi_sdio_write_register_multiple_def rsi_defs quiet_env_def Let_def split: if_splits option.splits)
  with l have l0: "rsi_sdio_load_data_master_write (sdio_probed quiet_env) 0x1FFFF 3 2 (\<lambda>i. of_nat i) = (0, d')"
    by simp
  then show ?thesis
    using sdio_bulk_load [OF _ _ _ _ l0] by (auto simp: ahb_writes_def ahb_run_def bytes_at_def upt_rec)
qed

section \<open>The flow control contract\<close>

text \<open>The bit of the status register that stops a queue; the beacon queue is never stopped.\<close>

definition queue_stopped :: "u8 \<Rightarrow> u8 \<Rightarrow> bool" where
  "queue_stopped buf_status q \<longleftrightarrow>
     (if q = SDIO_MGMT_SOFT_Q then bit buf_status PKT_MGMT_BUFF_FULL
      else q < SDIO_MGMT_SOFT_Q \<and> bit buf_status PKT_BUFF_FULL)"

lemma queue_verdict_note: "queue_verdict (note_buf_status r s) q = (if queue_stopped s q then QUEUE_FULL else QUEUE_NOT_FULL)"
  by (auto simp: queue_verdict_def note_buf_status_def queue_stopped_def Let_def)

lemma check_buffer_cached:
  "buff_status_updated d = 0 \<Longrightarrow> bs_counter d \<noteq> 0 \<Longrightarrow>
   rsi_sdio_check_buffer_status d q = (queue_verdict (rx_info d) q, d\<lparr>bs_counter := bs_counter d - 1\<rparr>)"
  by (simp add: rsi_sdio_check_buffer_status_def)

text \<open>The queries served from the cache only count down.\<close>

lemma check_buffer_run_cached:
  "buff_status_updated d = 0 \<Longrightarrow> int (length qs) \<le> bs_counter d \<Longrightarrow>
   foldl (\<lambda>d q. snd (rsi_sdio_check_buffer_status d q)) d qs = d\<lparr>bs_counter := bs_counter d - int (length qs)\<rparr>"
proof (induction qs arbitrary: d)
  case Nil
  then show ?case by simp
next
  case (Cons q qs)
  have "bs_counter d \<noteq> 0" using Cons.prems(2) by auto
  then show ?case using Cons.prems by (simp add: check_buffer_cached Cons.IH)
qed

text \<open>The number of answers that the cache gives after a read.\<close>

definition cached_answers :: "u8 \<Rightarrow> nat" where
  "cached_answers buf_status = (if bit buf_status PKT_BUFF_SEMI_FULL then 1 else 4)"

lemma check_buffer_read:
  assumes "buff_status_updated d \<noteq> 0 \<or> bs_counter d = 0"
    and "env_readb (bus_env d) (bus_now d) = (0, buf_status)"
  shows "\<exists>d'. rsi_sdio_check_buffer_status d q = (if queue_stopped buf_status q then QUEUE_FULL else QUEUE_NOT_FULL, d') \<and>
    buff_status_updated d' = 0 \<and> bs_counter d' = int (cached_answers buf_status) \<and>
    (\<forall>q'. queue_verdict (rx_info d') q' = (if queue_stopped buf_status q' then QUEUE_FULL else QUEUE_NOT_FULL))"
proof -
  define d2 where "d2 = bus_step (d\<lparr>buff_status_updated := 0\<rparr>) (ReadB RSI_DEVICE_BUFFER_STATUS_REGISTER)"
  have rd: "rsi_sdio_read_register (d\<lparr>buff_status_updated := 0\<rparr>) RSI_DEVICE_BUFFER_STATUS_REGISTER = (0, buf_status, d2)"
    using assms(2) by (simp add: rsi_defs d2_def Let_def)
  have semi: "semi_buffer_full (note_buf_status r buf_status) = bit buf_status PKT_BUFF_SEMI_FULL" for r
    by (simp add: note_buf_status_def Let_def)
  have upd: "buff_status_updated d2 = 0" by (simp add: d2_def bus_step_def)
  have "rsi_sdio_check_buffer_status d q =
      (queue_verdict (note_buf_status (rx_info d2) buf_status) q,
       d2\<lparr>rx_info := note_buf_status (rx_info d2) buf_status, bs_counter := int (cached_answers buf_status)\<rparr>)"
    using assms(1) by (auto simp: rsi_sdio_check_buffer_status_def rd semi cached_answers_def Let_def)
  then show ?thesis by (simp add: queue_verdict_note upd)
qed

text \<open>The card after a sequence of queries.\<close>

definition after_queries :: "'a rsi_91x_sdiodev_scheme \<Rightarrow> u8 list \<Rightarrow> 'a rsi_91x_sdiodev_scheme" where
  "after_queries d qs = foldl (\<lambda>d q. snd (rsi_sdio_check_buffer_status d q)) d qs"

text \<open>
  C24. A query that reads the status register (because the interrupt handler asked for it or
  the counter has run out) answers from the bits just read. The queries that follow it, one when the
  device reported that it is half full and four otherwise, are answered from these bits too,
  without a bus access; the query after them reads the register again. An interrupt in between sets
  \<open>buff_status_updated\<close>, so that the next query is again a reading one.
\<close>

theorem check_buffer_fresh:
  assumes "buff_status_updated d \<noteq> 0 \<or> bs_counter d = 0"
    and "env_readb (bus_env d) (bus_now d) = (0, buf_status)"
  shows "fst (rsi_sdio_check_buffer_status d q) = (if queue_stopped buf_status q then QUEUE_FULL else QUEUE_NOT_FULL)
    \<and> (length qs < cached_answers buf_status \<longrightarrow>
         fst (rsi_sdio_check_buffer_status (after_queries d (q # qs)) q')
           = (if queue_stopped buf_status q' then QUEUE_FULL else QUEUE_NOT_FULL)
         \<and> bus_now (after_queries d (q # qs @ [q'])) = bus_now (after_queries d [q]))
    \<and> (length qs = cached_answers buf_status \<longrightarrow>
         bus_now (after_queries d (q # qs)) < bus_now (after_queries d (q # qs @ [q'])))"
proof -
  obtain d' where r: "rsi_sdio_check_buffer_status d q = (if queue_stopped buf_status q then QUEUE_FULL else QUEUE_NOT_FULL, d')"
      "buff_status_updated d' = 0" "bs_counter d' = int (cached_answers buf_status)"
      "\<And>q'. queue_verdict (rx_info d') q' = (if queue_stopped buf_status q' then QUEUE_FULL else QUEUE_NOT_FULL)"
    using check_buffer_read [OF assms, of q] by blast
  have run: "after_queries d (q # qs) = d'\<lparr>bs_counter := int (cached_answers buf_status) - int (length qs)\<rparr>"
    if "length qs \<le> cached_answers buf_status" for qs
    using check_buffer_run_cached [of d' qs] that r by (simp add: after_queries_def)
  have read: "bus_now e < bus_now (snd (rsi_sdio_check_buffer_status e q'))" if "bs_counter e = 0"
    for e :: "'a rsi_91x_sdiodev_scheme"
    using check_buffer_run_reads [of e "[q']"] that by simp
  have snoc: "after_queries d (q # qs @ [q']) = snd (rsi_sdio_check_buffer_status (after_queries d (q # qs)) q')"
    by (simp add: after_queries_def)
  have last_read: "bus_now (after_queries d (q # qs)) < bus_now (snd (rsi_sdio_check_buffer_status (after_queries d (q # qs)) q'))"
    if "length qs = cached_answers buf_status"
    by (rule read) (use that in \<open>simp add: run\<close>)
  show ?thesis
    unfolding snoc using run [of "[]"] run [of qs] r last_read by (auto simp: check_buffer_cached)
qed

theorem check_buffer_fresh_witness:
  "let d = sdio_probed (quiet_env\<lparr>env_readb := \<lambda>_. (0, 2)\<rparr>)\<lparr>buff_status_updated := 1\<rparr>
   in fst (rsi_sdio_check_buffer_status d 1) = QUEUE_FULL \<and>
      fst (rsi_sdio_check_buffer_status (after_queries d [1, 0, 1, 4]) 4) = QUEUE_NOT_FULL"
  using check_buffer_fresh
    [of "sdio_probed (quiet_env\<lparr>env_readb := \<lambda>_. (0, 2)\<rparr>)\<lparr>buff_status_updated := 1\<rparr>" 2 1 "[0, 1, 4]" 4]
  by (simp add: queue_stopped_def cached_answers_def)

text \<open>
  Flow control cannot go stale: of any five consecutive queries at least one reads the
  device's status register again.
\<close>

theorem check_buffer_staleness:
  assumes "bs_counter d \<in> {0..4}" "length qs = 5"
  shows "bus_now d < bus_now (foldl (\<lambda>d q. snd (rsi_sdio_check_buffer_status d q)) d qs)"
  using assms by (intro check_buffer_run_reads) auto

theorem check_buffer_staleness_witness:
  "0 < bus_now (foldl (\<lambda>d q. snd (rsi_sdio_check_buffer_status d q)) (sdio_probed quiet_env) [0, 1, 2, 3, 4])"
  using check_buffer_staleness [of "sdio_probed quiet_env" "[0, 1, 2, 3, 4]"] by simp

section \<open>The lock and the end of the interrupt handler\<close>

lemma intr_outer_lock:
  assumes "intr_outer a = Some a'"
  shows "rx_lock_depth a' < rx_lock_depth a"
proof (rule intr_outer.raw_induct [OF _ assms])
  fix f :: "'a sdio_adapter_scheme \<Rightarrow> 'a sdio_adapter_scheme option" and a a'
  assume IH: "\<And>x y. f x = Some y \<Longrightarrow> rx_lock_depth y < rx_lock_depth x"
    and step: "(let (status, isr0, a1) = rsi_sdio_read_register a RSI_FN1_INT_REGISTER in
      if status \<noteq> 0 then Some ((rx_unlock a1)\<lparr>rx_in_prog := False\<rparr>)
      else
        let a2 = a1\<lparr>interrupt_status := ucast isr0\<rparr>; isr = isr0 AND 0xE in
        if isr = 0
        then Some ((rx_unlock (a2\<lparr>tx_event := True,
                     rx_info := (rx_info a2)\<lparr>sdio_intr_status_zero := sdio_intr_status_zero (rx_info a2) + 1\<rparr>\<rparr>))
                   \<lparr>rx_in_prog := False\<rparr>)
        else
          let (early, a3) = intr_loop isr a2 in
          if early then Some ((rx_unlock a3)\<lparr>rx_in_prog := False\<rparr>)
          else f (rx_unlock a3)) = Some a'"
  obtain st isr a1 where r: "rsi_sdio_read_register a RSI_FN1_INT_REGISTER = (st, isr, a1)" by (metis prod_cases3)
  have f: "rx_lock_depth a1 = rx_lock_depth a" using read_register_frame [OF r] by (simp add: irq_frame_def)
  define a2 where "a2 = a1\<lparr>interrupt_status := ucast isr\<rparr>"
  obtain early a3 where l: "intr_loop (isr AND 0xE) a2 = (early, a3)" by fastforce
  have f3: "rx_lock_depth a3 = rx_lock_depth a"
    using intr_loop_frame [of a2 "isr AND 0xE"] l f by (simp add: irq_frame_def a2_def)
  show "rx_lock_depth a' < rx_lock_depth a"
    using step f f3 IH [of "rx_unlock a3" a'] l unfolding r
    by (auto simp: Let_def a2_def [symmetric] rx_unlock_def split: if_splits) (auto simp: a2_def)
qed

lemma intr_outer_ends:
  assumes "\<And>k. T \<le> k \<Longrightarrow> fst (env_readb (bus_env a) k) \<noteq> 0 \<or> snd (env_readb (bus_env a) k) AND 0xE = 0"
  shows "\<exists>a'. intr_outer a = Some a'"
  using assms
proof (induction "T - bus_now a" arbitrary: a rule: less_induct)
  case less
  obtain st isr a1 where r: "rsi_sdio_read_register a RSI_FN1_INT_REGISTER = (st, isr, a1)" by (metis prod_cases3)
  have e: "env_readb (bus_env a) (bus_now a) = (st, isr)" and n: "bus_now a1 = Suc (bus_now a)" "bus_env a1 = bus_env a"
    using r by (auto simp: rsi_defs split: prod.splits)
  define a2 where "a2 = a1\<lparr>interrupt_status := ucast isr\<rparr>"
  obtain early a3 where l: "intr_loop (isr AND 0xE) a2 = (early, a3)" by fastforce
  have f3: "bus_env a3 = bus_env a" "Suc (bus_now a) \<le> bus_now a3"
    using intr_loop_frame [of a2 "isr AND 0xE"] l n by (simp_all add: irq_frame_def a2_def)
  show ?case
  proof (cases "st \<noteq> 0 \<or> isr AND 0xE = 0 \<or> early")
    case True
    then show ?thesis
      using r l by (subst intr_outer.simps) (auto simp: Let_def a2_def [symmetric])
  next
    case False
    with less.prems e have "bus_now a < T" by (metis fst_conv snd_conv not_le)
    with less f3 have "\<exists>a'. intr_outer (rx_unlock a3) = Some a'"
      by (intro less.hyps) (auto simp: rx_unlock_def)
    with False r l show ?thesis
      by (subst intr_outer.simps) (auto simp: Let_def a2_def [symmetric])
  qed
qed

text \<open>
  C40. The handler returns whenever the device falls quiet: if from some bus time on every
  read of the interrupt register fails or shows none of the three interrupts, the handler
  ends.
\<close>

theorem intr_handler_returns:
  assumes "\<And>k. T \<le> k \<Longrightarrow> fst (env_readb (bus_env a) k) \<noteq> 0 \<or> snd (env_readb (bus_env a) k) AND 0xE = 0"
  shows "\<exists>a'. rsi_interrupt_handler a = Some a'"
  unfolding rsi_interrupt_handler_def Let_def
  by (rule intr_outer_ends [of T]) (use assms in \<open>simp add: rx_unlock_def\<close>)

definition sdio_adapter_probed :: "sdio_env \<Rightarrow> sdio_adapter" where
  "sdio_adapter_probed env = rsi_91x_sdiodev.extend (sdio_probed env)
     \<lparr>interrupt_status = 0, isr_pending = 0, card_not_ready = False, suspend_in_prog = False,
      rx_in_prog = False, rx_lock_depth = 0, tx_event = False, rx_event = False\<rparr>"

lemma sdio_adapter_probed_simps [simp]:
  "bus_env (sdio_adapter_probed env) = env" "rx_lock_depth (sdio_adapter_probed env) = 0"
  by (simp_all add: sdio_adapter_probed_def rsi_91x_sdiodev.defs sdio_probed_def)

theorem intr_handler_returns_witness:
  "\<exists>a'. rsi_interrupt_handler
     (sdio_adapter_probed (quiet_env\<lparr>env_readb := \<lambda>k. (0, if k < 10 then 8 else 0)\<rparr>)) = Some a'"
  by (rule intr_handler_returns [of 10]) simp

text \<open>
  Every return of the handler leaves \<open>rx_lock\<close> unlocked more often than it was locked:
  the lock is released right after \<open>rx_in_prog\<close> is set, and again on every way out and after
  every round.
\<close>

theorem intr_handler_overunlocks:
  assumes "rsi_interrupt_handler a = Some a'"
  shows "rx_lock_depth a' < rx_lock_depth a"
  using assms intr_outer_lock
  by (fastforce simp: rsi_interrupt_handler_def rx_unlock_def Let_def)

theorem intr_handler_overunlocks_witness:
  "\<exists>a'. rsi_interrupt_handler (sdio_adapter_probed quiet_env) = Some a' \<and> rx_lock_depth a' < 0"
proof -
  obtain a' where a': "rsi_interrupt_handler (sdio_adapter_probed quiet_env) = Some a'"
    by (auto simp: rsi_interrupt_handler_def Let_def rx_unlock_def rsi_defs quiet_env_def intr_outer.simps)
  with intr_handler_overunlocks [OF a'] show ?thesis by simp
qed

end
