(* ===== verification/Usb_Bus.thy ===== *)
theory Usb_Bus
  imports Host_Intf
begin

text \<open>
  The USB provider of the host interface: rsi/rsi_91x_usb.c and rsi/rsi_91x_usb_ops.c.

  The USB core is the environment, as in theory \<open>Sdio_Bus\<close>: \<open>usb_env\<close> says what the n-th
  control or bulk message returns (\<open>usb_control_msg\<close> a negative error or the number of bytes
  transferred, \<open>usb_bulk_msg_rsi\<close> 0 or a negative error), what a read puts into the buffer
  and which allocations succeed; the log records the messages sent.
\<close>

section \<open>State\<close>

record usb_env =
  uenv_ctrl_out :: "nat \<Rightarrow> int"
  uenv_ctrl_in :: "nat \<Rightarrow> int \<times> ptr"
  uenv_bulk :: "nat \<Rightarrow> int"
  uenv_alloc :: "nat \<Rightarrow> bool"
  uenv_submit :: "nat \<Rightarrow> int"
  uenv_skb_data :: "nat \<Rightarrow> nat"      \<comment> \<open>address of the data of a fresh skb\<close>

datatype usb_op =
    CtrlOut u16 u16 "u8 list"   \<comment> \<open>wValue, wIndex, data: a vendor register write\<close>
  | CtrlIn u16 u16 u16          \<comment> \<open>wValue, wIndex, length: a vendor register read\<close>
  | BulkOut u8 "u8 list"        \<comment> \<open>endpoint address, data\<close>

text \<open>An skb handed to the USB core: address and length of its data.\<close>

record usb_skb =
  skb_addr :: nat
  skb_bytes :: nat

record rsi_91x_usbdev =
  usb_write_fail :: u8
  bulkin_size :: "u16 list"
  bulkin_endpoint_addr :: "u8 list"
  bulkout_size :: "u16 list"
  bulkout_endpoint_addr :: "u8 list"
  usb_tx_blk_size :: u32
  rx_cb_skb :: "nat \<Rightarrow> usb_skb option"     \<comment> \<open>\<open>rx_cb[i].rx_skb\<close>\<close>
  usb_rx_q :: "nat \<Rightarrow> (nat \<times> nat) list"   \<comment> \<open>\<open>rx_q[i]\<close>: address and length of each packet\<close>
  usb_rx_event :: bool
  tx_pending_urbs :: int
  zb_device_ready :: bool
  usb_device_model :: rsi_dev_model
  sniffer_mode :: bool
  usb_full_speed :: bool
  usb_env :: usb_env
  usb_now :: nat
  usb_log :: "usb_op list"

section \<open>The kernel's USB core\<close>

definition usb_step :: "'a rsi_91x_usbdev_scheme \<Rightarrow> usb_op \<Rightarrow> 'a rsi_91x_usbdev_scheme" where
  "usb_step d e = d\<lparr>usb_now := Suc (usb_now d), usb_log := usb_log d @ [e]\<rparr>"

definition usb_ctrl_out :: "'a rsi_91x_usbdev_scheme \<Rightarrow> u16 \<Rightarrow> u16 \<Rightarrow> u8 list \<Rightarrow> int \<times> 'a rsi_91x_usbdev_scheme" where
  [rsi_defs]: "usb_ctrl_out d reg_value index data =
     (uenv_ctrl_out (usb_env d) (usb_now d), usb_step d (CtrlOut reg_value index data))"

definition usb_ctrl_in :: "'a rsi_91x_usbdev_scheme \<Rightarrow> u16 \<Rightarrow> u16 \<Rightarrow> u16 \<Rightarrow> int \<times> ptr \<times> 'a rsi_91x_usbdev_scheme" where
  [rsi_defs]: "usb_ctrl_in d reg_value index len =
     (let (st, buf) = uenv_ctrl_in (usb_env d) (usb_now d) in (st, buf, usb_step d (CtrlIn reg_value index len)))"

definition usb_bulk_msg_rsi :: "'a rsi_91x_usbdev_scheme \<Rightarrow> u8 \<Rightarrow> u8 list \<Rightarrow> int \<times> 'a rsi_91x_usbdev_scheme" where
  [rsi_defs]: "usb_bulk_msg_rsi d ep data = (uenv_bulk (usb_env d) (usb_now d), usb_step d (BulkOut ep data))"

definition kmalloc_ok :: "'a rsi_91x_usbdev_scheme \<Rightarrow> bool" where
  [rsi_defs]: "kmalloc_ok d = uenv_alloc (usb_env d) (usb_now d)"

text \<open>The two halves of a register address, as \<open>((u16 *)&reg)[1]\<close> and \<open>[0]\<close> read them.\<close>

definition reg_hi :: "'a::len word \<Rightarrow> u16" where [rsi_defs]: "reg_hi reg = ucast (drop_bit 16 reg)"
definition reg_lo :: "'a::len word \<Rightarrow> u16" where [rsi_defs]: "reg_lo reg = ucast reg"

section \<open>Register access\<close>

definition rsi_usb_reg_read :: "'a rsi_91x_usbdev_scheme \<Rightarrow> u32 \<Rightarrow> u16 \<Rightarrow> int \<times> u32 option \<times> 'a rsi_91x_usbdev_scheme" where
  "rsi_usb_reg_read d reg len =
     (if \<not> kmalloc_ok d then (- ENOMEM, None, d)
      else
        let (status, buf, d1) = usb_ctrl_in d (reg_hi reg) (reg_lo reg) 2
        in (status, Some (ucast (buf 0) OR push_bit 8 (ucast (buf 1))), d1))"

definition rsi_usb_reg_write :: "'a rsi_91x_usbdev_scheme \<Rightarrow> u64 \<Rightarrow> u64 \<Rightarrow> u16 \<Rightarrow> int \<times> 'a rsi_91x_usbdev_scheme" where
  "rsi_usb_reg_write d reg val len =
     (if \<not> kmalloc_ok d then (- ENOMEM, d)
      else
        let usb_reg_buf = [ucast (val AND 0xFF), ucast (drop_bit 8 (val AND 0xFF00)),
                           ucast (drop_bit 16 (val AND 0xFF0000)), ucast (drop_bit 24 (val AND 0xFF000000))]
        in usb_ctrl_out d (reg_hi reg) (reg_lo reg) (bytes_at (ptr_of (\<lambda>_. 0) usb_reg_buf) 0 (unat len)))"

text \<open>
  The two transfer loops cut the data into pieces of at most 4096 bytes. \<open>addr\<close> is advanced
  in the code, but the message keeps the halves computed before the loop.
\<close>

function usb_read_loop ::
  "'a rsi_91x_usbdev_scheme \<Rightarrow> u16 \<Rightarrow> u16 \<Rightarrow> u16 \<Rightarrow> int \<Rightarrow> u8 list \<Rightarrow> int \<times> u8 list \<times> 'a rsi_91x_usbdev_scheme" where
  "usb_read_loop d reg_val index count status data =
     (if count = 0 then (status, data, d)
      else
        let transfer = min count 4096;
            (st, buf, d1) = usb_ctrl_in d reg_val index transfer
        in if st < 0 then (st, data, d1)
           else usb_read_loop d1 reg_val index (count - transfer) st (data @ bytes_at buf 0 (unat transfer)))"
  by pat_completeness auto
termination
  by (relation "measure (\<lambda>(d, rv, i, count, st, data). unat count)")
    (auto simp: min_def word_less_nat_alt unat_sub_if' word_le_nat_alt unat_gt_0)

declare usb_read_loop.simps [simp del]

definition rsi_usb_read_register_multiple ::
  "'a rsi_91x_usbdev_scheme \<Rightarrow> u32 \<Rightarrow> u16 \<Rightarrow> int \<times> u8 list \<times> 'a rsi_91x_usbdev_scheme" where
  "rsi_usb_read_register_multiple d addr count =
     (if addr = 0 then (- EINVAL, [], d)
      else if \<not> kmalloc_ok d then (- ENOMEM, [], d)
      else usb_read_loop d (reg_hi addr) (reg_lo addr) count 0 [])"

function usb_write_loop ::
  "'a rsi_91x_usbdev_scheme \<Rightarrow> u16 \<Rightarrow> u16 \<Rightarrow> u16 \<Rightarrow> int \<Rightarrow> ptr \<Rightarrow> int \<times> 'a rsi_91x_usbdev_scheme" where
  "usb_write_loop d reg_val index count status data =
     (if count = 0 then (status, d)
      else
        let transfer = min count 4096;
            (st, d1) = usb_ctrl_out d reg_val index (bytes_at data 0 (unat transfer))
        in if st < 0 then (st, d1)
           else usb_write_loop d1 reg_val index (count - transfer) st (ptr_add data (unat transfer)))"
  by pat_completeness auto
termination
  by (relation "measure (\<lambda>(d, rv, i, count, st, data). unat count)")
    (auto simp: min_def word_less_nat_alt unat_sub_if' word_le_nat_alt unat_gt_0)

declare usb_write_loop.simps [simp del]

definition rsi_usb_write_register_multiple ::
  "'a rsi_91x_usbdev_scheme \<Rightarrow> u32 \<Rightarrow> ptr \<Rightarrow> u16 \<Rightarrow> int \<times> 'a rsi_91x_usbdev_scheme" where
  "rsi_usb_write_register_multiple d addr data count =
     (if \<not> kmalloc_ok d then (- ENOMEM, d)
      else usb_write_loop d (reg_hi addr) (reg_lo addr) count 0 data)"

definition rsi_usb_master_reg_read ::
  "'a rsi_91x_usbdev_scheme \<Rightarrow> u32 \<Rightarrow> u16 \<Rightarrow> int \<times> u32 option \<times> 'a rsi_91x_usbdev_scheme" where
  [rsi_defs]: "rsi_usb_master_reg_read d reg len = rsi_usb_reg_read d reg len"

definition rsi_usb_master_reg_write ::
  "'a rsi_91x_usbdev_scheme \<Rightarrow> u64 \<Rightarrow> u64 \<Rightarrow> u16 \<Rightarrow> int \<times> 'a rsi_91x_usbdev_scheme" where
  [rsi_defs]: "rsi_usb_master_reg_write d reg val len = rsi_usb_reg_write d reg val len"

section \<open>Bulk load\<close>

primrec usb_load_blocks ::
  "nat \<Rightarrow> 'a rsi_91x_usbdev_scheme \<Rightarrow> u32 \<Rightarrow> u16 \<Rightarrow> ptr \<Rightarrow> (u32 \<times> ptr) option \<times> 'a rsi_91x_usbdev_scheme" where
  "usb_load_blocks 0 d base_address block_size fw = (Some (base_address, fw), d)"
| "usb_load_blocks (Suc n) d base_address block_size fw =
     (let (st, d1) = rsi_usb_write_register_multiple d base_address fw block_size
      in if st < 0 then (None, d1)
         else usb_load_blocks n d1 (base_address + ucast block_size) block_size (ptr_add fw (unat block_size)))"

text \<open>\<open>num_blocks\<close> is a \<open>u16\<close> in this function.\<close>

definition rsi_usb_load_data_master_write ::
  "'a rsi_91x_usbdev_scheme \<Rightarrow> u32 \<Rightarrow> u32 \<Rightarrow> u16 \<Rightarrow> ptr \<Rightarrow> int \<times> 'a rsi_91x_usbdev_scheme" where
  "rsi_usb_load_data_master_write d base_address instructions_sz block_size fw =
     (let num_blocks = of_nat (unat instructions_sz div unat block_size) :: u16
      in case usb_load_blocks (unat num_blocks) d base_address block_size fw of
           (None, d1) \<Rightarrow> (- EIO, d1)
         | (Some (base', rest), d1) \<Rightarrow>
             let tail = unat instructions_sz mod unat block_size in
             if tail = 0 then (0, d1)
             else let (st, d2) = rsi_usb_write_register_multiple d1 base' rest (of_nat tail)
                  in if st < 0 then (- EIO, d2) else (0, d2))"

section \<open>Packets\<close>

abbreviation (input) MGMT_EP :: u32 where "MGMT_EP \<equiv> 1"
abbreviation (input) DATA_EP :: u32 where "DATA_EP \<equiv> 2"
abbreviation (input) ZIGB_EP :: u32 where "ZIGB_EP \<equiv> 3"

definition rsi_usb_card_write ::
  "'a rsi_91x_usbdev_scheme \<Rightarrow> ptr \<Rightarrow> u16 \<Rightarrow> u32 \<Rightarrow> int \<times> 'a rsi_91x_usbdev_scheme" where
  "rsi_usb_card_write d buf len endpoint =
     (let ep = bulkout_endpoint_addr d ! unat (endpoint - 1);
          raw = (zb_device_ready d \<and>
                 (if DEV_MODEL_9116 (usb_device_model d) then endpoint = ZIGB_EP else endpoint = DATA_EP));
          seg = (if raw then bytes_at buf 0 (unat len) else replicate 128 0 @ bytes_at buf 0 (unat len));
          len1 = (if raw then len else len + 128);
          d1 = d\<lparr>tx_pending_urbs := tx_pending_urbs d + 1\<rparr>;
          (status, d2) = usb_bulk_msg_rsi d1 ep (take (unat len1) seg)
      in if status < 0 then (status, d2\<lparr>usb_write_fail := 1\<rparr>)
         else (status, d2\<lparr>tx_pending_urbs := tx_pending_urbs d2 - 1\<rparr>))"

definition rsi_write_multiple ::
  "'a rsi_91x_usbdev_scheme \<Rightarrow> u32 \<Rightarrow> ptr \<Rightarrow> u32 \<Rightarrow> int \<times> 'a rsi_91x_usbdev_scheme" where
  "rsi_write_multiple d addr data count =
     (if addr = 0 then (-1, d)
      else if usb_write_fail d \<noteq> 0 then (-1, d)
      else rsi_usb_card_write d data (ucast count) addr)"

definition usb_pkt_endpoint :: "rsi_dev_model \<Rightarrow> ptr \<Rightarrow> u32" where
  "usb_pkt_endpoint model pkt =
     (let queueno = drop_bit 4 (pkt 1) AND 7
      in if DEV_MODEL_9116 model \<and> queueno = 1 then ZIGB_EP
         else if queueno = 4 \<or> queueno = 0 \<or> queueno = 5 then MGMT_EP else DATA_EP)"

definition rsi_usb_host_intf_write_pkt ::
  "'a rsi_91x_usbdev_scheme \<Rightarrow> ptr \<Rightarrow> u32 \<Rightarrow> int \<times> 'a rsi_91x_usbdev_scheme" where
  "rsi_usb_host_intf_write_pkt d pkt len =
     rsi_write_multiple d (usb_pkt_endpoint (usb_device_model d) pkt) pkt len"

definition rsi_usb_check_queue_status :: "'a rsi_91x_usbdev_scheme \<Rightarrow> u8 \<Rightarrow> int \<times> 'a rsi_91x_usbdev_scheme" where
  [rsi_defs]: "rsi_usb_check_queue_status d q_num = (1, d)"

definition usb_host_intf_ops :: "'a rsi_91x_usbdev_scheme rsi_host_intf_ops" where
  "usb_host_intf_ops =
     \<lparr>read_pkt = None, write_pkt = rsi_usb_host_intf_write_pkt,
      master_access_msword = None,
      write_reg_multiple = rsi_usb_write_register_multiple,
      master_reg_read = rsi_usb_master_reg_read, master_reg_write = rsi_usb_master_reg_write,
      load_data_master_write = rsi_usb_load_data_master_write, ta_reset_ops = None,
      check_hw_queue_status = rsi_usb_check_queue_status\<rparr>"

section \<open>Endpoints and receive buffers\<close>

text \<open>The part of an endpoint descriptor the driver looks at.\<close>

record usb_endpoint_descriptor =
  bEndpointAddress :: u8
  bmAttributes :: u8
  wMaxPacketSize :: u16

abbreviation (input) USB_DIR_IN :: u8 where "USB_DIR_IN \<equiv> 0x80"
abbreviation (input) USB_ENDPOINT_XFERTYPE_MASK :: u8 where "USB_ENDPOINT_XFERTYPE_MASK \<equiv> 3"
abbreviation (input) USB_ENDPOINT_XFER_BULK :: u8 where "USB_ENDPOINT_XFER_BULK \<equiv> 2"
abbreviation (input) USB_FULL_SPEED_SIZE :: u16 where "USB_FULL_SPEED_SIZE \<equiv> 64"
abbreviation (input) MAX_BULK_EP :: nat where "MAX_BULK_EP \<equiv> 8"

definition is_bulk :: "usb_endpoint_descriptor \<Rightarrow> bool" where
  [rsi_defs]: "is_bulk e = (bmAttributes e AND USB_ENDPOINT_XFERTYPE_MASK = USB_ENDPOINT_XFER_BULK)"

definition is_in :: "usb_endpoint_descriptor \<Rightarrow> bool" where
  [rsi_defs]: "is_in e = (bEndpointAddress e AND USB_DIR_IN \<noteq> 0)"

text \<open>The scan over the endpoints of the interface, with \<open>bin_found\<close> and \<open>bout_found\<close>.\<close>

fun find_endpoints ::
  "usb_endpoint_descriptor list \<Rightarrow> nat \<Rightarrow> nat \<Rightarrow> 'a rsi_91x_usbdev_scheme \<Rightarrow> 'a rsi_91x_usbdev_scheme" where
  "find_endpoints [] bin_found bout_found d = d"
| "find_endpoints (e # es) bin_found bout_found d =
     (let (d1, b) =
            (if bulkin_endpoint_addr d ! bin_found = 0 \<and> is_in e \<and> is_bulk e
             then (d\<lparr>bulkin_size := (bulkin_size d)[bin_found := wMaxPacketSize e],
                     bulkin_endpoint_addr := (bulkin_endpoint_addr d)[bin_found := bEndpointAddress e]\<rparr>,
                   bin_found + 1)
             else (d, bin_found));
          (d2, c) =
            (if bulkout_endpoint_addr d1 ! bout_found = 0 \<and> \<not> is_in e \<and> is_bulk e
             then (d1\<lparr>usb_full_speed := usb_full_speed d1 \<or> wMaxPacketSize e = USB_FULL_SPEED_SIZE,
                      bulkout_size := (bulkout_size d1)[bout_found := wMaxPacketSize e],
                      bulkout_endpoint_addr := (bulkout_endpoint_addr d1)[bout_found := bEndpointAddress e]\<rparr>,
                   bout_found + 1)
             else (d1, bout_found))
      in if MAX_BULK_EP \<le> b \<or> MAX_BULK_EP \<le> c then d2 else find_endpoints es b c d2)"

definition rsi_find_bulk_in_and_out_endpoints ::
  "'a rsi_91x_usbdev_scheme \<Rightarrow> usb_endpoint_descriptor list \<Rightarrow> int \<times> 'a rsi_91x_usbdev_scheme" where
  "rsi_find_bulk_in_and_out_endpoints d endpoints =
     (let d1 = find_endpoints endpoints 0 0 d
      in if bulkin_endpoint_addr d1 ! 0 = 0 \<and> bulkout_endpoint_addr d1 ! 0 \<noteq> 0 then (- EINVAL, d1)
         else (0, d1))"

text \<open>
  A receive buffer: 64 bytes of headroom, and the data pointer moved down to a multiple of 64.
\<close>

definition rsi_rx_urb_submit :: "'a rsi_91x_usbdev_scheme \<Rightarrow> u8 \<Rightarrow> int \<times> 'a rsi_91x_usbdev_scheme" where
  "rsi_rx_urb_submit d ep_num =
     (let total_len = (if sniffer_mode d then 2000 * 4 else 2000) in
      if \<not> kmalloc_ok d then (- ENOMEM, d)
      else
        let data = uenv_skb_data (usb_env d) (usb_now d) + 64;
            dword_align_bytes = data mod 64;
            skb = \<lparr>skb_addr = data - dword_align_bytes, skb_bytes = total_len - 64 + dword_align_bytes\<rparr>;
            d1 = d\<lparr>rx_cb_skb := (rx_cb_skb d)(unat (ep_num - 1) := Some skb)\<rparr>
        in (uenv_submit (usb_env d1) (usb_now d1), d1\<lparr>usb_now := Suc (usb_now d1)\<rparr>))"

text \<open>
  The completion of a receive. A failed URB, and one with an impossible length, is not
  submitted again.
\<close>

definition rsi_rx_done_handler ::
  "'a rsi_91x_usbdev_scheme \<Rightarrow> u8 \<Rightarrow> int \<Rightarrow> int \<Rightarrow> 'a rsi_91x_usbdev_scheme" where
  "rsi_rx_done_handler d ep_num urb_status actual_length =
     (case rx_cb_skb d (unat (ep_num - 1)) of
        None \<Rightarrow> d
      | Some skb \<Rightarrow>
          if urb_status \<noteq> 0 then d\<lparr>rx_cb_skb := (rx_cb_skb d)(unat (ep_num - 1) := None)\<rparr>
          else if actual_length \<le> 0 \<or> int (skb_bytes skb) < actual_length then d
          else
            let d1 = d\<lparr>usb_rx_q := (usb_rx_q d)(unat (ep_num - 1) :=
                         usb_rx_q d (unat (ep_num - 1)) @ [(skb_addr skb, nat actual_length)]),
                       usb_rx_event := True\<rparr>
            in snd (rsi_rx_urb_submit d1 ep_num))"

section \<open>Resetting the card\<close>

abbreviation (input) RF_SPI_PROG_REG_BASE_ADDR :: u64 where "RF_SPI_PROG_REG_BASE_ADDR \<equiv> 0x40080000"
abbreviation (input) NWP_AHB_BASE_ADDR :: u64 where "NWP_AHB_BASE_ADDR \<equiv> 0x41300000"
abbreviation (input) SWBL_REGOUT_USB :: u64 where "SWBL_REGOUT_USB \<equiv> 0x4105003c"
abbreviation (input) TA_HOLD_REG :: u64 where "TA_HOLD_REG \<equiv> 0x22000844"

definition rsi_usb_gspi_init :: "'a rsi_91x_usbdev_scheme \<Rightarrow> int \<times> 'a rsi_91x_usbdev_scheme" where
  "rsi_usb_gspi_init d =
     rsi_usb_master_reg_write d RF_SPI_PROG_REG_BASE_ADDR (0x4 OR 0x10 OR 0x40 OR 0x100 OR 0x000 OR 0x000) 2"

text \<open>\<open>data\<close> is the 32-bit value the caller puts in \<open>temp\<close>: \<open>data[0]\<close> its low, \<open>data[1]\<close> its high half.\<close>

definition usb_ulp_read_write ::
  "'a rsi_91x_usbdev_scheme \<Rightarrow> u16 \<Rightarrow> u32 \<Rightarrow> u16 \<Rightarrow> int \<times> 'a rsi_91x_usbdev_scheme" where
  "usb_ulp_read_write d addr data len_in_bits =
     (let (s1, d1) = rsi_usb_master_reg_write d (RF_SPI_PROG_REG_BASE_ADDR + 6)
                       (push_bit 6 (ucast addr) OR (ucast (drop_bit 16 data) AND 0x3F)) 2 in
      if s1 < 0 then (-1, d1) else
      let (s2, d2) = rsi_usb_master_reg_write d1 (RF_SPI_PROG_REG_BASE_ADDR + 4) (ucast (data AND 0xFFFF)) 2 in
      if s2 < 0 then (-1, d2) else
      let (s3, d3) = rsi_usb_gspi_init d2 in
      if s3 < 0 then (-1, d3) else
      let (s4, d4) = rsi_usb_master_reg_write d3 (RF_SPI_PROG_REG_BASE_ADDR + 2)
                       ((ucast len_in_bits - 1) OR BIT 7) 2 in
      if s4 < 0 then (-1, d4) else (0, d4))"

text \<open>The writes of the watchdog registers in order; the first that fails ends the sequence.\<close>

fun usb_ulp_writes :: "'a rsi_91x_usbdev_scheme \<Rightarrow> (u16 \<times> u32) list \<Rightarrow> int \<times> 'a rsi_91x_usbdev_scheme" where
  "usb_ulp_writes d [] = (0, d)"
| "usb_ulp_writes d ((addr, v) # ws) =
     (let (st, d1) = usb_ulp_read_write d addr v 32 in if st < 0 then (-1, d1) else usb_ulp_writes d1 ws)"

fun usb_reg_writes :: "'a rsi_91x_usbdev_scheme \<Rightarrow> (u64 \<times> u64) list \<Rightarrow> int \<times> 'a rsi_91x_usbdev_scheme" where
  "usb_reg_writes d [] = (0, d)"
| "usb_reg_writes d ((addr, v) # ws) =
     (let (st, d1) = rsi_usb_master_reg_write d addr v 4 in if st < 0 then (-1, d1) else usb_reg_writes d1 ws)"

definition rsi_reset_card :: "'a rsi_91x_usbdev_scheme \<Rightarrow> int \<times> 'a rsi_91x_usbdev_scheme" where
  "rsi_reset_card d =
     (let (s1, d1) = rsi_usb_master_reg_write d SWBL_REGOUT_USB 0x69 2 in
      if s1 < 0 then (-1, d1)
      else
        let (s2, d2) = rsi_usb_master_reg_write d1 TA_HOLD_REG 0xE 4 in
        if usb_device_model d2 < RSI_DEV_9116
        then usb_ulp_writes d2 [(0x16c, 2), (0x16d, 0), (0x16e, 50), (0x16f, 0),
                                (0x170, 0xaa000 OR BIT 11 OR BIT 1)]
        else usb_reg_writes d2 [(NWP_AHB_BASE_ADDR + 0x300, 5), (NWP_AHB_BASE_ADDR + 0x304, 4),
                                (NWP_AHB_BASE_ADDR + 0x310, 0xAA0001)])"

text \<open>
  The state \<open>rsi_init_usb_interface\<close> allocates (zeroed), with the endpoints of a device that
  has two bulk pairs.
\<close>

definition usb_probed :: "usb_env \<Rightarrow> rsi_91x_usbdev" where
  "usb_probed env =
     \<lparr>usb_write_fail = 0, bulkin_size = [512, 512, 0, 0, 0, 0, 0, 0],
      bulkin_endpoint_addr = [0x81, 0x82, 0, 0, 0, 0, 0, 0], bulkout_size = [512, 512, 0, 0, 0, 0, 0, 0],
      bulkout_endpoint_addr = [1, 2, 0, 0, 0, 0, 0, 0], usb_tx_blk_size = 252, rx_cb_skb = (\<lambda>_. None),
      usb_rx_q = (\<lambda>_. []), usb_rx_event = False, tx_pending_urbs = 0, zb_device_ready = False,
      usb_device_model = RSI_DEV_9116, sniffer_mode = False, usb_full_speed = False, usb_env = env,
      usb_now = 0, usb_log = []\<rparr>"

definition usb_quiet_env :: usb_env where
  "usb_quiet_env = \<lparr>uenv_ctrl_out = (\<lambda>_. 0), uenv_ctrl_in = (\<lambda>_. (0, \<lambda>_. 0)), uenv_bulk = (\<lambda>_. 0),
     uenv_alloc = (\<lambda>_. True), uenv_submit = (\<lambda>_. 0), uenv_skb_data = (\<lambda>n. 4096 * n + 8)\<rparr>"

section \<open>What a log has done to the device's memory\<close>

fun usb_write_of :: "usb_op \<Rightarrow> (u32 \<times> u8 list) option" where
  "usb_write_of (CtrlOut v i data) = Some (push_bit 16 (ucast v) OR ucast i, data)"
| "usb_write_of _ = None"

definition usb_writes :: "'a rsi_91x_usbdev_scheme \<Rightarrow> (u32 \<times> u8 list) list" where
  "usb_writes d = List.map_filter usb_write_of (usb_log d)"

lemma usb_step_simps [simp]:
  "usb_env (usb_step d e) = usb_env d" "usb_now (usb_step d e) = Suc (usb_now d)"
  "usb_log (usb_step d e) = usb_log d @ [e]" "usb_write_fail (usb_step d e) = usb_write_fail d"
  "tx_pending_urbs (usb_step d e) = tx_pending_urbs d"
  by (simp_all add: usb_step_def)

lemma usb_writes_step:
  "usb_writes (usb_step d e) = usb_writes d @ (case usb_write_of e of None \<Rightarrow> [] | Some w \<Rightarrow> [w])"
  by (simp add: usb_writes_def List.map_filter_def split: option.split)

lemma reg_halves:
  fixes a :: u32 and b :: u64
  shows "push_bit 16 (ucast (reg_hi a)) OR ucast (reg_lo a) = a"
    "(push_bit 16 (ucast (reg_hi b)) OR ucast (reg_lo b) :: u32) = ucast b"
  by (rule bit_word_eqI; auto simp: rsi_defs bit_simps dest: bit_imp_le_length)+

text \<open>A transfer of at most 4096 bytes is one message.\<close>

lemma usb_write_once:
  assumes "0 < count" "count \<le> 4096"
  shows "usb_write_loop d v i count st0 p =
    (let (st, d1) = usb_ctrl_out d v i (bytes_at p 0 (unat count)) in (st, d1))"
  using assms
  by (subst usb_write_loop.simps) (auto simp: usb_write_loop.simps [of _ _ _ 0] min_def split: prod.splits)

lemma usb_write_reg_ok:
  assumes "0 < count" "count \<le> 4096" "rsi_usb_write_register_multiple d addr p count = (st, d')" "0 \<le> st"
  shows "usb_writes d' = usb_writes d @ [(addr, bytes_at p 0 (unat count))]"
  using assms reg_halves(1) [of addr]
  by (auto simp: rsi_usb_write_register_multiple_def usb_write_once rsi_defs usb_writes_step split: if_splits)

lemma usb_load_blocks_ok:
  assumes "usb_load_blocks n d base bs fw = (Some (base', rest), d')" "0 < bs" "bs \<le> 256"
  shows "base' = base + of_nat (n * unat bs) \<and> rest = ptr_add fw (n * unat bs) \<and>
    usb_writes d' = usb_writes d @ map (\<lambda>i. (base + of_nat (i * unat bs), bytes_at fw (i * unat bs) (unat bs))) [0..<n]"
  using assms
proof (induction n arbitrary: d base fw)
  case 0
  then show ?case by simp
next
  case (Suc n)
  from Suc.prems obtain st d1 where w: "rsi_usb_write_register_multiple d base fw bs = (st, d1)" "0 \<le> st"
    and r: "usb_load_blocks n d1 (base + ucast bs) bs (ptr_add fw (unat bs)) = (Some (base', rest), d')"
    by (auto split: prod.splits if_splits)
  have "bs \<le> 4096" using Suc.prems(3) by (simp add: word_le_nat_alt)
  note wo = usb_write_reg_ok [OF Suc.prems(2) this w]
  have shift: "map (\<lambda>i. (base + of_nat (i * unat bs), bytes_at fw (i * unat bs) (unat bs))) [0..<Suc n] =
      (base, bytes_at fw 0 (unat bs)) #
      map (\<lambda>i. (base + ucast bs + of_nat (i * unat bs), bytes_at (ptr_add fw (unat bs)) (i * unat bs) (unat bs))) [0..<n]"
    by (simp add: upt_conv_Cons map_Suc_upt [symmetric] algebra_simps del: upt_Suc)
  from Suc.IH [OF r Suc.prems(2,3)] wo show ?case
    unfolding shift by (simp add: algebra_simps)
qed

lemma usb_load_ok:
  assumes "0 < bs" "bs \<le> 256" "unat sz div unat bs < 2 ^ 16"
    and "rsi_usb_load_data_master_write d base sz bs fw = (0, d')"
  shows "usb_writes d' = usb_writes d @ load_chunks base (unat sz) (unat bs) fw"
proof -
  define tail where "tail = unat sz mod unat bs"
  have bs: "0 < unat bs" "unat bs \<le> 256" using assms(1,2) by (simp_all add: unat_gt_0 word_le_nat_alt)
  have nb: "unat (of_nat (unat sz div unat bs) :: u16) = unat sz div unat bs"
    using assms(3) by (intro unat_of_nat_small) simp
  have tl: "tail < unat bs" unfolding tail_def using bs by simp
  then have tu: "unat (of_nat tail :: u16) = tail" using bs by (intro unat_of_nat_small) simp
  obtain base' rest d1 where l: "usb_load_blocks (unat sz div unat bs) d base bs fw = (Some (base', rest), d1)"
    and t: "if tail = 0 then d' = d1 else \<exists>st. 0 \<le> st \<and> rsi_usb_write_register_multiple d1 base' rest (of_nat tail) = (st, d')"
    using assms(4) nb
    by (auto simp: rsi_usb_load_data_master_write_def Let_def tail_def split: prod.splits if_splits option.splits)
  note lb = usb_load_blocks_ok [OF l assms(1,2)]
  show ?thesis
  proof (cases "tail = 0")
    case True
    with t lb show ?thesis by (simp add: load_chunks_def tail_def)
  next
    case False
    with t obtain st where w: "rsi_usb_write_register_multiple d1 base' rest (of_nat tail) = (st, d')" "0 \<le> st" by auto
    have "0 < (of_nat tail :: u16)" "(of_nat tail :: u16) \<le> 4096"
      using False tu tl bs by (simp_all add: word_le_nat_alt word_less_nat_alt)
    from usb_write_reg_ok [OF this w] tu lb False show ?thesis
      by (simp add: load_chunks_def tail_def)
  qed
qed

lemma usb_load_nonpos: "fst (rsi_usb_load_data_master_write d base sz bs p) \<le> 0"
  by (auto simp: rsi_usb_load_data_master_write_def Let_def split: prod.splits option.splits)

lemma usb_reg_write_bytes:
  "[ucast (v AND 0xFF), ucast (drop_bit 8 (v AND 0xFF00)), ucast (drop_bit 16 (v AND 0xFF0000)),
    ucast (drop_bit 24 (v AND 0xFF000000))] = put_le32 (ucast (v :: u64))"
proof -
  have m: "(0xFF :: u64) = push_bit 0 (mask 8)" "(0xFF00 :: u64) = push_bit 8 (mask 8)"
    "(0xFF0000 :: u64) = push_bit 16 (mask 8)" "(0xFF000000 :: u64) = push_bit 24 (mask 8)"
    by (simp_all add: mask_eq_exp_minus_1 push_bit_eq_mult)
  have "(ucast (drop_bit k (v AND push_bit k (mask 8))) :: u8) = ucast (drop_bit k (ucast v :: u32))" if "k \<le> 24" for k
    using that by (intro bit_word_eqI) (auto simp: bit_simps bit_push_bit_iff bit_mask_iff)
  from this [of 0] this [of 8] this [of 16] this [of 24] show ?thesis
    unfolding m put_le32_def by simp
qed

lemma usb_reg_write_ok:
  assumes "len = 2 \<or> len = 4" "rsi_usb_master_reg_write d addr data len = (st, d')" "0 \<le> st"
  shows "usb_writes d' = usb_writes d @ [(ucast addr, take (unat len) (put_le32 (ucast data)))]"
proof -
  have "unat len \<le> 4" using assms(1) by auto
  then have b: "bytes_at (ptr_of f (put_le32 (ucast data))) 0 (unat len) = take (unat len) (put_le32 (ucast data))" for f
    by (simp add: bytes_at_ptr_of)
  show ?thesis
    using assms(2,3) reg_halves(2) [of addr] b
    unfolding rsi_usb_master_reg_write_def rsi_usb_reg_write_def usb_reg_write_bytes
    by (auto simp: rsi_defs usb_writes_step Let_def split: if_splits)
qed

lemma usb_reg_read_frame:
  "rsi_usb_master_reg_read d addr len = (st, v, d') \<Longrightarrow> usb_writes d' = usb_writes d"
  by (auto simp: rsi_usb_reg_read_def rsi_defs usb_writes_step Let_def split: if_splits prod.splits)

lemma usb_reg_write_law:
  assumes "len = 2 \<or> len = 4" "rsi_usb_master_reg_write d addr data len = (st, d')" "0 \<le> st"
  shows "\<exists>bytes. usb_writes d' = usb_writes d @ [(ucast addr, bytes)] \<and>
    take (unat len) bytes = take (unat len) (put_le32 (ucast data))"
  using usb_reg_write_ok [OF assms] by simp

interpretation usb: host_intf usb_host_intf_ops usb_writes "\<lambda>_. True"
  by unfold_locales
    (simp_all add: usb_host_intf_ops_def usb_load_ok usb_load_nonpos usb_reg_write_law usb_reg_read_frame)

section \<open>Properties of the USB bus\<close>

text \<open>
  A bulk load over USB that returns 0 has written the whole image at consecutive
  addresses, for block sizes up to 256 bytes (the size of the function's stack buffer) and
  images of fewer than 65536 blocks (the range of its block counter).
\<close>

theorem usb_bulk_load:
  assumes "0 < bs" "bs \<le> 256" "unat sz div unat bs < 2 ^ 16"
    and "rsi_usb_load_data_master_write d base sz bs fw = (0, d')"
  shows "\<exists>ws. usb_writes d' = usb_writes d @ ws \<and> concat (map snd ws) = bytes_at fw 0 (unat sz) \<and>
    (\<forall>i < length ws. fst (ws ! i) = base + of_nat (i * unat bs))"
  using usb.load_ok [of bs sz d base fw d'] assms load_chunks_bytes load_chunks_addr
  by (fastforce simp: usb_host_intf_ops_def)

text \<open>A multi-message register write sends all the data, every piece to the same address.\<close>

lemma usb_write_loop_bytes:
  "usb_write_loop d v i count st0 p = (st, d') \<Longrightarrow> 0 \<le> st \<Longrightarrow> 0 \<le> st0 \<Longrightarrow>
   \<exists>ws. usb_log d' = usb_log d @ map (CtrlOut v i) ws \<and> concat ws = bytes_at p 0 (unat count)"
proof (induction d v i count st0 p rule: usb_write_loop.induct)
  case (1 d v i count st0 p)
  show ?case
  proof (cases "count = 0")
    case True
    with "1.prems" show ?thesis by (auto simp: usb_write_loop.simps)
  next
    case False
    define t where "t = min count 4096"
    obtain s1 d1 where w: "usb_ctrl_out d v i (bytes_at p 0 (unat t)) = (s1, d1)" by fastforce
    have ok: "\<not> s1 < 0" and r: "usb_write_loop d1 v i (count - t) s1 (ptr_add p (unat t)) = (st, d')"
      using "1.prems"(1,2) False w
      by (auto simp: usb_write_loop.simps [of d] Let_def t_def [symmetric] split: if_splits)
    obtain ws where ws: "usb_log d' = usb_log d1 @ map (CtrlOut v i) ws"
        "concat ws = bytes_at (ptr_add p (unat t)) 0 (unat (count - t))"
      using "1.IH" [OF False t_def w [symmetric] refl ok r "1.prems"(2)] ok by auto
    have "t \<le> count" by (simp add: t_def)
    then have u: "unat t + unat (count - t) = unat count"
      by (simp add: unat_sub_if' word_le_nat_alt)
    have "usb_log d1 = usb_log d @ [CtrlOut v i (bytes_at p 0 (unat t))]"
      using w by (auto simp: rsi_defs)
    with ws u bytes_at_append [of p 0 "unat t" "unat (count - t)"] show ?thesis
      by (intro exI [of _ "bytes_at p 0 (unat t) # ws"]) simp
  qed
qed

text \<open>
  A multi-byte register write over USB that succeeds has sent exactly the bytes asked
  for, but every message carries the address of the first: from 4096 bytes on, the later
  pieces overwrite the first (the loop advances \<open>addr\<close>, which no message uses).
\<close>

theorem usb_write_register_multiple_address:
  assumes "rsi_usb_write_register_multiple d addr p count = (st, d')" "0 \<le> st"
  shows "\<exists>ws. usb_writes d' = usb_writes d @ map (Pair addr) ws \<and> concat ws = bytes_at p 0 (unat count)"
proof -
  have "usb_write_loop d (reg_hi addr) (reg_lo addr) count 0 p = (st, d')"
    using assms by (auto simp: rsi_usb_write_register_multiple_def split: if_splits)
  from usb_write_loop_bytes [OF this assms(2)] obtain ws where
    "usb_log d' = usb_log d @ map (CtrlOut (reg_hi addr) (reg_lo addr)) ws" "concat ws = bytes_at p 0 (unat count)"
    by auto
  then show ?thesis
    using reg_halves(1) [of addr]
    by (intro exI [of _ ws]) (auto simp: usb_writes_def List.map_filter_def comp_def)
qed

text \<open>
  A failed packet write leaves \<open>tx_pending_urbs\<close> one too high and stops the bus: every
  later packet write returns -1 and sends nothing. A successful one leaves the count as it was.
\<close>

theorem usb_card_write_pending:
  assumes "usb_write_fail d = 0" "rsi_usb_host_intf_write_pkt d pkt len = (st, d')"
  shows "if st < 0 then tx_pending_urbs d' = tx_pending_urbs d + 1 \<and>
      (\<forall>pkt2 len2. rsi_usb_host_intf_write_pkt d' pkt2 len2 = (-1, d'))
    else tx_pending_urbs d' = tx_pending_urbs d \<and> usb_write_fail d' = 0"
proof -
  have ep: "usb_pkt_endpoint m q \<noteq> 0" for m q by (simp add: usb_pkt_endpoint_def Let_def)
  show ?thesis
    using assms
    by (auto simp: rsi_usb_host_intf_write_pkt_def rsi_write_multiple_def rsi_usb_card_write_def ep
        usb_bulk_msg_rsi_def Let_def split: if_splits)
qed

theorem usb_bulk_load_witness:
  "\<exists>d'. rsi_usb_load_data_master_write (usb_probed usb_quiet_env) 0x1FFFF 3 2 (\<lambda>i. of_nat i) = (0, d') \<and>
     concat (map snd (usb_writes d')) = [0, 1, 2]"
proof -
  obtain d' where l: "rsi_usb_load_data_master_write (usb_probed usb_quiet_env) 0x1FFFF 3 2 (\<lambda>i. of_nat i) = (0, d')"
    by (simp add: rsi_usb_load_data_master_write_def rsi_usb_write_register_multiple_def usb_write_once
        rsi_defs usb_quiet_env_def usb_probed_def Let_def usb_step_def)
  then show ?thesis
    using usb_bulk_load [OF _ _ _ l]
    by (auto simp: usb_writes_def List.map_filter_def usb_probed_def bytes_at_def upt_rec)
qed

theorem usb_write_register_multiple_address_witness:
  "\<exists>ws d'. rsi_usb_write_register_multiple (usb_probed usb_quiet_env) 0x1000 (\<lambda>_. 7) 3 = (0, d') \<and>
     usb_writes d' = map (Pair 0x1000) ws \<and> concat ws = [7, 7, 7]"
proof -
  obtain d' where l: "rsi_usb_write_register_multiple (usb_probed usb_quiet_env) 0x1000 (\<lambda>_. 7) 3 = (0, d')"
    by (simp add: rsi_usb_write_register_multiple_def usb_write_once rsi_defs usb_quiet_env_def usb_probed_def usb_step_def)
  then show ?thesis
    using usb_write_register_multiple_address [OF l]
    by (auto simp: usb_writes_def List.map_filter_def usb_probed_def bytes_at_def upt_rec)
qed

theorem usb_card_write_pending_witness:
  "\<exists>d'. rsi_usb_host_intf_write_pkt (usb_probed (usb_quiet_env\<lparr>uenv_bulk := \<lambda>_. -110\<rparr>)) (\<lambda>_. 0x40) 20 = (-110, d') \<and>
     tx_pending_urbs d' = 1 \<and> rsi_usb_host_intf_write_pkt d' (\<lambda>_. 0x40) 20 = (-1, d')"
proof -
  let ?d = "usb_probed (usb_quiet_env\<lparr>uenv_bulk := \<lambda>_. -110\<rparr>)"
  obtain st d' where w: "rsi_usb_host_intf_write_pkt ?d (\<lambda>_. 0x40) 20 = (st, d')" by fastforce
  then have "st = -110"
    by (auto simp: rsi_usb_host_intf_write_pkt_def rsi_write_multiple_def rsi_usb_card_write_def
        usb_pkt_endpoint_def usb_probed_def usb_bulk_msg_rsi_def Let_def usb_step_def)
  with w usb_card_write_pending [OF _ w] show ?thesis
    by (simp add: usb_probed_def)
qed

text \<open>
  A receive buffer handed to the USB core starts at a multiple of 64, lies inside the
  allocation, and no byte of the allocation behind it is left unused.
\<close>

theorem rx_urb_buffer:
  assumes "rsi_rx_urb_submit d ep = (st, d')" "st \<noteq> - ENOMEM"
  defines "base \<equiv> uenv_skb_data (usb_env d) (usb_now d)"
    and "total_len \<equiv> (if sniffer_mode d then 8000 else 2000) :: nat"
  shows "\<exists>skb. rx_cb_skb d' (unat (ep - 1)) = Some skb \<and> skb_addr skb mod 64 = 0 \<and>
    base < skb_addr skb \<and> skb_addr skb + skb_bytes skb = base + total_len"
proof -
  have "base + 64 - base mod 64 = 64 * (base div 64 + 1)"
    using mult_div_mod_eq [of 64 base]
    by (metis add.assoc add.commute add_diff_cancel_left' distrib_left mult.right_neutral)
  then have "(base + 64 - base mod 64) mod 64 = 0" by simp
  moreover have "base mod 64 < 64" by simp
  ultimately have "(base + 64 - (base + 64) mod 64) mod 64 = 0" "(base + 64) mod 64 < 64"
    by simp_all
  then show ?thesis
    using assms by (auto simp: rsi_rx_urb_submit_def Let_def split: if_splits)
qed

theorem rx_urb_buffer_witness:
  "\<exists>skb d'. rsi_rx_urb_submit (usb_probed usb_quiet_env) 1 = (0, d') \<and>
     rx_cb_skb d' 0 = Some skb \<and> skb_addr skb + skb_bytes skb = 2008 \<and> skb_addr skb mod 64 = 0"
  using rx_urb_buffer [of "usb_probed usb_quiet_env" 1 0]
  by (auto simp: rsi_rx_urb_submit_def usb_probed_def usb_quiet_env_def rsi_defs Let_def)

end
