(* ===== verification/Firmware.thy ===== *)
theory Firmware
  imports Hal_Init Sdio_Irq Usb_Bus
begin

text \<open>
  The firmware loader of theory \<open>Bootloader\<close> on the two buses: the locale \<open>boot_loader\<close> is
  interpreted on the SDIO and on the USB operations, and the properties of a whole load are
  stated over them.
\<close>

text \<open>Whatever SDIO operations append to the log, they take nothing back.\<close>

definition log_grows :: "'a rsi_91x_sdiodev_scheme \<Rightarrow> 'a rsi_91x_sdiodev_scheme \<Rightarrow> bool" where
  "log_grows d d' \<longleftrightarrow> (\<exists>es. bus_log d' = bus_log d @ es)"

lemma log_grows_trans: "log_grows d d1 \<Longrightarrow> log_grows d1 d2 \<Longrightarrow> log_grows d d2"
  by (auto simp: log_grows_def)

lemma log_grows_msword: "rsi_sdio_master_access_msword d ms = (st, d') \<Longrightarrow> log_grows d d'"
  by (auto simp: rsi_sdio_master_access_msword_def rsi_defs log_grows_def split: if_splits)

lemma log_grows_ta_write: "ta_write d r v = (st, d') \<Longrightarrow> log_grows d d'"
  by (auto simp: ta_write_def rsi_sdio_write_register_multiple_def rsi_defs Let_def log_grows_def split: if_splits)

lemma log_grows_writes:
  assumes "log_grows d d'"
  shows "\<exists>ws. ahb_writes d' = ahb_writes d @ ws"
proof -
  have "\<exists>ws. snd (ahb_run (log @ es)) = snd (ahb_run log) @ ws" for log es
  proof (induction es rule: rev_induct)
    case Nil
    then show ?case by simp
  next
    case (snoc e es)
    have "\<exists>ws. snd (ahb_step acc e) = snd acc @ ws" for acc
      by (cases acc; cases "fst acc"; cases e) auto
    moreover have "ahb_run (log @ es @ [e]) = ahb_step (ahb_run (log @ es)) e"
      using ahb_run_snoc [of "log @ es" e] by simp
    ultimately show ?case using snoc by (metis append_assoc)
  qed
  then show ?thesis using assms by (auto simp: log_grows_def ahb_writes_def)
qed

lemma ta_reset_grows:
  assumes "rsi_sdio_ta_reset_ops d = (st, d')"
  shows "log_grows d d'"
proof -
  obtain s1 d1 where 1: "rsi_sdio_master_access_msword d 0x2200 = (s1, d1)" by fastforce
  obtain s2 d2 where 2: "ta_write d1 TA_HOLD_THREAD_REG 0xF = (s2, d2)" by fastforce
  obtain s3 d3 where 3: "ta_write d2 TA_SOFT_RESET_REG 0 = (s3, d3)" by fastforce
  obtain s4 d4 where 4: "ta_write d3 TA_TH0_PC_REG 0 = (s4, d4)" by fastforce
  obtain s5 d5 where 5: "ta_write d4 TA_RELEASE_THREAD_REG 0xF = (s5, d5)" by fastforce
  obtain s6 d6 where 6: "rsi_sdio_master_access_msword d5 0x4105 = (s6, d6)" by fastforce
  have g1: "log_grows d d1" by (rule log_grows_msword [OF 1])
  have g2: "log_grows d d2" by (rule log_grows_trans [OF g1 log_grows_ta_write [OF 2]])
  have g3: "log_grows d d3" by (rule log_grows_trans [OF g2 log_grows_ta_write [OF 3]])
  have g4: "log_grows d d4" by (rule log_grows_trans [OF g3 log_grows_ta_write [OF 4]])
  have g5: "log_grows d d5" by (rule log_grows_trans [OF g4 log_grows_ta_write [OF 5]])
  have g6: "log_grows d d6" by (rule log_grows_trans [OF g5 log_grows_msword [OF 6]])
  have "d' \<in> {d, d1, d2, d3, d4, d5, d6}"
    using assms 1 2 3 4 5 6 by (simp add: rsi_sdio_ta_reset_ops_def split: if_splits)
  with g1 g2 g3 g4 g5 g6 show ?thesis by (auto simp: log_grows_def)
qed

interpretation sdio_boot: boot_loader sdio_host_intf_ops ahb_writes "\<lambda>d. write_fail d = 0"
  by unfold_locales (auto simp: sdio_host_intf_ops_def intro: log_grows_writes [OF ta_reset_grows])

interpretation usb_boot: boot_loader usb_host_intf_ops usb_writes "\<lambda>_. True"
  by unfold_locales (simp add: usb_host_intf_ops_def)

section \<open>Flash upgrades\<close>

text \<open>
  C19. A flash upgrade over SDIO that succeeds has had exactly the dialogue the boot loader
  expects: chunks of 4096 bytes into the PONG and the PING buffer in turn, each followed by
  its command, and at the end EOF; the buffers received the image, byte for byte.
\<close>

theorem sdio_flash_upgrade:
  assumes "host_intf_ops a = sdio_host_intf_ops" "write_fail (hw_dev a) = 0"
    and "auto_fw_upgrade a p n = Some (0, a')"
  shows "bl_view (ahb_writes (hw_dev a')) =
      bl_view (ahb_writes (hw_dev a)) @ upgrade_trace (coex_mode a) (unat (load_block_size a)) (unat n) p \<and>
    payload (upgrade_trace (coex_mode a) (unat (load_block_size a)) (unat n) p) = bytes_at p 0 (unat n)"
  using sdio_boot.auto_fw_upgrade_ok [OF assms] payload_upgrade by blast

text \<open>The same over USB.\<close>

theorem usb_flash_upgrade:
  assumes "host_intf_ops a = usb_host_intf_ops" "auto_fw_upgrade a p n = Some (0, a')"
  shows "bl_view (usb_writes (hw_dev a')) =
      bl_view (usb_writes (hw_dev a)) @ upgrade_trace (coex_mode a) (unat (load_block_size a)) (unat n) p \<and>
    payload (upgrade_trace (coex_mode a) (unat (load_block_size a)) (unat n) p) = bytes_at p 0 (unat n)"
  using usb_boot.auto_fw_upgrade_ok [OF assms(1) TrueI assms(2)] payload_upgrade by blast

text \<open>
  An image that passes the checks starts at a sector boundary above the boot loader's
  68 KB and is at most 400 KB long; it ends inside the flash, unless its start address is so
  high that address and size add up past \<open>2 ^ 32\<close>: the addition is a 32-bit one.
\<close>

theorem flash_check_bounds:
  assumes "flash_image_ok a p n"
  shows "unat n \<le> 400 * 1024 \<and> 68 * 1024 \<le> unat (get_le32 p 16) \<and> unat (get_le32 p 16) mod 4096 = 0 \<and>
    (unat (get_le32 p 16) + unat n \<le> unat (flash_capacity a) \<or> 2 ^ 32 \<le> unat (get_le32 p 16) + unat n)"
proof -
  define s where "s = get_le32 p 16"
  have c: "n \<le> MAX_FLASH_FILE_SIZE" "FW_IMAGE_MIN_ADDRESS \<le> s" "s mod FLASH_SECTOR_SIZE = 0" "s + n \<le> flash_capacity a"
    using assms by (simp_all add: flash_image_ok_def Let_def s_def)
  have "unat (s mod 4096) = 0" using c(3) by simp
  then have "unat s mod 4096 = 0" by (simp add: unat_mod)
  moreover have "unat (s + n) = unat s + unat n" if "unat s + unat n < 2 ^ 32"
    using that by (simp add: unat_word_ariths)
  ultimately show ?thesis
    using c unfolding s_def [symmetric] by (auto simp: word_le_nat_alt not_less)
qed

lemma flash_check_wraps:
  "\<exists>p. flash_image_ok (a\<lparr>flash_capacity := 0x400000\<rparr>) p 0x3000 \<and> 0x400000 < unat (get_le32 p 16) + 0x3000"
proof -
  let ?p = "ptr_of (\<lambda>_. 0) (replicate 16 0 @ [0x00, 0xF0, 0xFF, 0xFF])"
  have s: "get_le32 ?p 16 = 0xFFFFF000"
    by (simp add: get_le32_def ptr_of_def nth_append)
  show ?thesis by (rule exI [of _ ?p]) (simp add: flash_image_ok_def s)
qed

section \<open>A whole load returns\<close>

lemma load_chunks_loop_returns:
  assumes "ii \<le> i" "bit (get_le32 ds (8 + 8 * i)) 31"
  shows "\<exists>st a'. load_chunks_loop ds ii p a = Some (st, a') \<and> same_hw a a'"
  using assms
proof (induction "i - ii" arbitrary: ii p a)
  case 0
  obtain st a1 where l: "hif_load a (get_le32 ds (12 + 8 * i)) (get_le32 ds (8 + 8 * i) AND RSI_BL_CTRL_LEN_MASK)
      (load_block_size a) p = (st, a1)" by fastforce
  from 0 have "ii = i" by simp
  with 0 l hif_load_same [OF l] show ?case
    by (subst load_chunks_loop.simps) (simp add: Let_def)
next
  case (Suc n)
  obtain st a1 where l: "hif_load a (get_le32 ds (12 + 8 * ii)) (get_le32 ds (8 + 8 * ii) AND RSI_BL_CTRL_LEN_MASK)
      (load_block_size a) p = (st, a1)" by fastforce
  note s = hif_load_same [OF l]
  have "n = i - Suc ii" "Suc ii \<le> i" using Suc.hyps(2) by simp_all
  from Suc.hyps(1) [OF this Suc.prems(2), of "ptr_add p (unat (get_le32 ds (8 + 8 * ii) AND RSI_BL_CTRL_LEN_MASK))" a1]
  show ?case using l s
    by (subst load_chunks_loop.simps) (auto simp: Let_def intro: same_hw_trans)
qed

text \<open>The descriptor of an image names its last entry among its seven.\<close>

definition descriptor_ends :: "ptr \<Rightarrow> bool" where
  "descriptor_ends data \<longleftrightarrow> (get_le16 data 0 = 0x5aa5 \<longrightarrow> (\<exists>i < 7. bit (get_le32 data (8 + 8 * i)) 31))"

lemma load_image_returns:
  assumes "descriptor_ends data"
  shows "\<exists>st a'. load_image a data sz = Some (st, a') \<and> same_hw a a'"
proof (cases "get_le16 data 0 = 0x5aa5")
  case False
  then show ?thesis using hif_load_same by (auto simp: load_image_def hif_load_def same_hw_def split: prod.splits)
next
  case True
  then obtain i where i: "i < 7" "bit (get_le32 data (8 + 8 * i)) 31"
    using assms by (auto simp: descriptor_ends_def)
  have "get_le32 (ptr_of (fw_stack a) (bytes_at data 0 64)) (8 + 8 * i) = get_le32 data (8 + 8 * i)"
    using i(1) by (simp add: get_le32_def ptr_of_def)
  with i(2) have "bit (get_le32 (ptr_of (fw_stack a) (bytes_at data 0 64)) (8 + 8 * i)) 31" by simp
  from load_chunks_loop_returns [OF le0 this] True show ?thesis by (simp add: load_image_def)
qed

text \<open>The SDIO entries that the loader calls are there, or the bus is USB.\<close>

definition entries_ok :: "'s bl_hw \<Rightarrow> bool" where
  "entries_ok a \<longleftrightarrow> rsi_host_intf a = RSI_HOST_INTF_USB \<or>
     master_access_msword (host_intf_ops a) \<noteq> None \<and> ta_reset_ops (host_intf_ops a) \<noteq> None"

lemma entries_ok_same: "entries_ok a \<Longrightarrow> same_hw a a' \<Longrightarrow> entries_ok a'"
  by (simp add: entries_ok_def same_hw_def)

lemma bl_write_header_returns:
  assumes "entries_ok a"
  shows "\<exists>st a'. bl_write_header a p = Some (st, a') \<and> same_hw a a'"
proof -
  have w: "\<exists>st a'. write_header_at a addr q n = Some (st, a') \<and> same_hw a a'" for addr q n
    using assms
    by (auto simp: write_header_at_def entries_ok_def hif_write_multiple_def hif_msword_def same_hw_def Let_def
        split: prod.splits)
  then show ?thesis by (auto simp: bl_write_header_def)
qed

lemma select_firmware_same: "select_firmware a = (st, name, a') \<Longrightarrow> same_hw a a'"
  by (auto simp: select_firmware_def Let_def same_hw_def split: if_splits prod.splits dest!: hif_reg_read_same)

lemma load_9116_firmware_returns:
  assumes "entries_ok a" "\<And>name data sz. fw_files a name = Some (data, sz) \<Longrightarrow> descriptor_ends data"
  shows "\<exists>st a'. rsi_load_9116_firmware a = Some (st, a') \<and> same_hw a a'"
proof -
  obtain st a1 where 1: "hif_reg_write a MEM_ACCESS_CTRL_FROM_HOST RAM_384K_ACCESS_FROM_TA 4 = (st, a1)" by fastforce
  obtain st2 name a2 where 2: "select_firmware a1 = (st2, name, a2)" by (metis prod_cases3)
  have s2: "same_hw a a1" "same_hw a a2"
    using hif_reg_write_same [OF 1] select_firmware_same [OF 2] by (auto intro: same_hw_trans)
  define a3 where "a3 = a2\<lparr>fw_file_name := name\<rparr>"
  have s3: "same_hw a a3" using s2 by (simp add: a3_def same_hw_def)
  show ?thesis
  proof (cases "fw_files a3 name")
    case None
    with 1 2 s2 s3 show ?thesis
      by (auto simp: rsi_load_9116_firmware_def Let_def a3_def [symmetric])
  next
    case (Some f)
    obtain data sz where f: "f = (data, sz)" by fastforce
    define a4 where "a4 = note_version a3 (ptr_add data (lmac_ver_offset (device_model a3)))"
    have s4: "same_hw a a4" using s3 by (simp add: a4_def note_version_def same_hw_def)
    have "descriptor_ends data" using assms(2) [of name data sz] Some f s3 by (simp add: same_hw_def)
    then obtain st5 a5 where 5: "load_image a4 data (round4 sz) = Some (st5, a5)" "same_hw a4 a5"
      using load_image_returns by blast
    have s5: "same_hw a a5" using s4 5(2) by (rule same_hw_trans)
    have "rsi_host_intf a5 = RSI_HOST_INTF_SDIO \<Longrightarrow> \<exists>st6 a6. hif_ta_reset a5 = Some (st6, a6) \<and> same_hw a a6"
      using entries_ok_same [OF assms(1) s5] s5
      by (auto simp: hif_ta_reset_def entries_ok_def same_hw_def split: prod.splits)
    with 1 2 5(1) s2 s5 Some f show ?thesis
      by (auto simp: rsi_load_9116_firmware_def Let_def a3_def [symmetric] a4_def [symmetric]
          intro: same_hw_trans [OF s5])
  qed
qed

lemma load_image_cmd_returns: "\<exists>st a'. load_image_cmd a = Some (st, a')"
  using bl_cmd_returns [of a LOAD_HOSTED_FW LOADING_INITIATED] by (auto simp: load_image_cmd_def)

lemma fw_upgrade_returns: "\<exists>st a'. fw_upgrade a data n = Some (st, a')"
proof -
  obtain st a1 where 1: "bl_cmd a BURN_HOSTED_FW SEND_RPS_FILE = Some (st, a1)" using bl_cmd_returns by blast
  obtain st2 a2 where 2: "auto_fw_upgrade a1 data n = Some (st2, a2)" using auto_fw_upgrade_returns by blast
  obtain st3 a3 where 3: "bl_cmd a2 CONFIG_AUTO_READ_MODE CMD_PASS = Some (st3, a3)" using bl_cmd_returns by blast
  show ?thesis using 1 2 3 load_image_cmd_returns [of a2] by (auto simp: fw_upgrade_def)
qed

lemma check_and_load_returns:
  assumes "entries_ok a"
  shows "\<exists>st a'. check_and_load a data n = Some (st, a')"
proof -
  obtain st a1 where 1: "bl_write_header a data = Some (st, a1)" using bl_write_header_returns [OF assms] by blast
  obtain st2 resp a2 where 2: "bl_write_cmd (bl_start_cmd_timer a1 BL_CMD_TIMEOUT) CHECK_CRC CMD_PASS = Some (st2, resp, a2)"
    using bl_write_cmd_returns [OF start_timer(1)] by blast
  obtain st4 a4 where 4: "bl_cmd (bl_stop_cmd_timer a2) POLLING_MODE CMD_PASS = Some (st4, a4)" using bl_cmd_returns by blast
  show ?thesis using 1 2 4 load_image_cmd_returns [of a4] fw_upgrade_returns [of "bl_stop_cmd_timer a2" data n]
    by (auto simp: check_and_load_def Let_def)
qed

lemma load_9113_returns:
  assumes "entries_ok a"
  shows "\<exists>st a'. load_9113 a = Some (st, a')"
proof -
  obtain st a1 where 1: "bl_cmd a CONFIG_AUTO_READ_MODE CMD_PASS = Some (st, a1)" "same_hw a a1"
    using bl_cmd_returns by blast
  obtain cap a2 where 2: "read_flash_capacity a1 = (cap, a2)" by fastforce
  have e: "entries_ok (a2\<lparr>flash_capacity := cap, fw_file_name := name\<rparr>)" for name
    using assms 1(2) 2 by (auto simp: entries_ok_def same_hw_def read_flash_capacity_def split: prod.splits if_splits
        dest!: hif_reg_read_same)
  have "entries_ok (note_version_9113 (a2\<lparr>flash_capacity := cap, fw_file_name := name\<rparr>) data)" for name data
    using e [of name] by (simp add: entries_ok_def note_version_9113_def)
  from check_and_load_returns [OF this] have
    "\<exists>st a'. check_and_load (note_version_9113 (a2\<lparr>flash_capacity := cap, fw_file_name := name\<rparr>) data) data n = Some (st, a')"
    for name data n .
  with 1 2 show ?thesis
    by (auto simp: load_9113_def Let_def split: option.split)
qed

text \<open>
  C39. Loading the firmware returns on every device, 9113 to 917, whatever it answers, as
  long as the descriptor of a chunked image has a last entry and the host interface has the
  entries the loader calls.
\<close>

theorem load_firmware_returns:
  assumes "entries_ok a" "\<And>name data sz. fw_files a name = Some (data, sz) \<Longrightarrow> descriptor_ends data"
  shows "\<exists>st a'. rsi_load_firmware a = Some (st, a')"
proof -
  obtain ok v a1 where 1: "wait_regout 0 (bl_start_cmd_timer a BL_CMD_TIMEOUT) = Some (ok, v, a1)"
      "same_hw (bl_start_cmd_timer a BL_CMD_TIMEOUT) a1"
    using wait_returns(2) [OF start_timer(1)] by blast
  obtain st a2 where 2: "hif_reg_write (bl_stop_cmd_timer a1) (ucast SWBL_REGOUT) (REGOUT_INVALID OR push_bit 8 REGOUT_INVALID) 2 = (st, a2)"
    by fastforce
  define a3 where "a3 = mdelay 1 a2"
  have s3: "same_hw a a3"
    using same_hw_trans [OF start_timer(2) same_hw_trans [OF 1(2) same_hw_trans [OF stop_timer(1)
        same_hw_trans [OF conjunct1 [OF hif_reg_write_same [OF 2]] mdelay_same]]]]
    by (simp add: a3_def)
  have e3: "entries_ok a3" by (rule entries_ok_same [OF assms(1) s3])
  have "\<exists>st a'. load_9116 a3 = Some (st, a')"
  proof -
    obtain st4 a4 where 4: "(if rsi_host_intf a3 = RSI_HOST_INTF_USB then bl_cmd a3 POLLING_MODE CMD_PASS else Some (0, a3)) = Some (st4, a4)"
        "same_hw a3 a4"
      using bl_cmd_returns [of a3 POLLING_MODE CMD_PASS] by (cases "rsi_host_intf a3 = RSI_HOST_INTF_USB") auto
    have s4: "same_hw a a4" using s3 4(2) by (rule same_hw_trans)
    obtain st5 a5 where 5: "rsi_load_9116_firmware a4 = Some (st5, a5)"
      using load_9116_firmware_returns [OF entries_ok_same [OF assms(1) s4]] assms(2) s4 by (auto simp: same_hw_def)
    obtain st6 a6 where "bl_cmd a5 JUMP_TO_ZERO_PC CMD_PASS = Some (st6, a6)" using bl_cmd_returns by blast
    with 4 5 show ?thesis by (auto simp: load_9116_def)
  qed
  with 1(1) 2 load_9113_returns [OF e3] show ?thesis
    by (simp add: rsi_load_firmware_def Let_def a3_def [symmetric] del: One_nat_def)
qed

section \<open>Hardware for the witnesses\<close>

definition boot_hw :: "'s \<Rightarrow> 's rsi_host_intf_ops \<Rightarrow> host_intf \<Rightarrow> 's bl_hw" where
  "boot_hw d ops hif =
     \<lparr>hw_dev = d, host_intf_ops = ops, rsi_host_intf = hif, device_model = RSI_DEV_9116, coex_mode = 1,
      oper_mode = 1, blcmd_timer_expired = False, bl_cmd_timer = None, clock = 0, lag = (\<lambda>_. 0),
      flash_capacity = 0x400000, chip_rev = 0, fw_file_name = [],
      lmac_ver = \<lparr>ver_major = 0, ver_minor = 0, security_version = 0, build_id = 0, patch_id = 0, chip_id = 0,
        release_num = 0, customer_id = 0, patch_num = 0, fw_ver = replicate 8 0\<rparr>,
      fw_files = (\<lambda>_. None), fw_stack = (\<lambda>_. 0), hw_alloc = (\<lambda>_. True), card_ready_wait = False\<rparr>"

text \<open>A device that answers an upgrade of one chunk: reads 3 and 7 are REGOUT.\<close>

definition upgrade_usb_env :: usb_env where
  "upgrade_usb_env = usb_quiet_env\<lparr>uenv_ctrl_in := (\<lambda>k. (2, \<lambda>i. if k = 3 then [73, 0xAB] ! i else if k = 7 then [83, 0xAB] ! i else 0))\<rparr>"

definition demo_image :: ptr where
  "demo_image = (\<lambda>i. if i = 17 then 0x20 else if i = 18 then 1 else if i = 16 \<or> i = 19 then 0 else 7)"

lemma wait_reg_now:
  "\<not> blcmd_timer_expired a \<Longrightarrow> \<not> fst (hif_reg_read a reg 2) < 0 \<Longrightarrow> found (fst (snd (hif_reg_read a reg 2))) \<Longrightarrow>
   wait_reg reg found v0 a = Some (True, fst (snd (hif_reg_read a reg 2)), mdelay 1 (snd (snd (hif_reg_read a reg 2))))"
  by (cases "hif_reg_read a reg 2"; subst wait_reg.simps) (simp add: Let_def)

lemma demo_image_start: "get_le32 demo_image 16 = 0x12000"
  by (simp add: get_le32_def demo_image_def)

lemma demo_image_ok: "flash_image_ok (boot_hw d ops hif) demo_image 4"
  by (simp add: flash_image_ok_def boot_hw_def demo_image_start)

theorem usb_flash_upgrade_witness:
  "\<exists>a'. auto_fw_upgrade (boot_hw (usb_probed upgrade_usb_env) usb_host_intf_ops RSI_HOST_INTF_USB) demo_image 4 = Some (0, a') \<and>
     bl_view (usb_writes (hw_dev a')) = upgrade_trace 1 252 4 demo_image"
proof -
  let ?a = "boot_hw (usb_probed upgrade_usb_env) usb_host_intf_ops RSI_HOST_INTF_USB"
  obtain a' where r: "auto_fw_upgrade ?a demo_image 4 = Some (0, a')"
    by (simp add: auto_fw_upgrade_def demo_image_ok, simp add: boot_hw_def ping_pong_write_def hif_load_def
        usb_host_intf_ops_def rsi_usb_load_data_master_write_def load_block_size_def
        rsi_usb_write_register_multiple_def usb_write_once rsi_defs usb_probed_def upgrade_usb_env_def usb_quiet_env_def
        usb_step_def bl_cmd_def bl_write_cmd_def wait_regin_def wait_regout_def wait_reg_now hif_reg_read_def
        rsi_usb_reg_read_def mdelay_def issue_cmd_def hif_reg_write_def rsi_usb_reg_write_def Let_def)
  have "host_intf_ops ?a = usb_host_intf_ops" by (simp add: boot_hw_def)
  from usb_flash_upgrade [OF this r] r show ?thesis
    by (simp add: boot_hw_def usb_probed_def usb_writes_def List.map_filter_def bl_view_def load_block_size_def)
qed

text \<open>The same device on SDIO, where it is asked at reads 11 and 23.\<close>

definition upgrade_sdio_env :: sdio_env where
  "upgrade_sdio_env = quiet_env\<lparr>env_readsb := (\<lambda>k. (0, ptr_of (\<lambda>_. 0) (put_le32
     (if k = 11 then 0xAB49 else if k = 23 then 0xAB53 else 0))))\<rparr>"

lemma get_put_le32_nil: "get_le32 (ptr_of fill (put_le32 w)) 0 = w"
  using get_put_le32 [of fill w "[]"] by simp

lemma get_le32_copy: "4 \<le> n \<Longrightarrow> get_le32 (ptr_of f (bytes_at p 0 n)) 0 = get_le32 p 0"
  by (simp add: get_le32_def ptr_of_def)

theorem sdio_flash_upgrade_witness:
  "\<exists>a'. auto_fw_upgrade (boot_hw (sdio_probed upgrade_sdio_env) sdio_host_intf_ops RSI_HOST_INTF_SDIO) demo_image 4 = Some (0, a') \<and>
     bl_view (ahb_writes (hw_dev a')) = upgrade_trace 1 256 4 demo_image"
proof -
  let ?a = "boot_hw (sdio_probed upgrade_sdio_env) sdio_host_intf_ops RSI_HOST_INTF_SDIO"
  obtain a' where r: "auto_fw_upgrade ?a demo_image 4 = Some (0, a')"
    by (simp add: auto_fw_upgrade_def demo_image_ok, simp add: boot_hw_def ping_pong_write_def hif_load_def
        sdio_host_intf_ops_def rsi_sdio_load_data_master_write_def load_block_size_def
        rsi_sdio_write_register_multiple_def rsi_sdio_master_access_msword_def rsi_defs sdio_probed_def
        upgrade_sdio_env_def quiet_env_def bus_step_def rsi_sdio_master_reg_read_def rsi_sdio_master_reg_write_def
        sdio_extract_def get_le32_copy get_put_le32_nil bl_cmd_def bl_write_cmd_def wait_regin_def wait_regout_def wait_reg_now hif_reg_read_def
        mdelay_def issue_cmd_def hif_reg_write_def Let_def)
  have "host_intf_ops ?a = sdio_host_intf_ops" "write_fail (hw_dev ?a) = 0" by (simp_all add: boot_hw_def)
  from sdio_flash_upgrade [OF this r] r show ?thesis
    by (simp add: boot_hw_def sdio_probed_def ahb_writes_def ahb_run_def bl_view_def load_block_size_def)
qed

theorem flash_check_bounds_witness:
  "flash_image_ok (boot_hw () undefined RSI_HOST_INTF_USB) demo_image 4 \<and> unat (get_le32 demo_image 16) mod 4096 = 0"
  using flash_check_bounds [OF demo_image_ok [of "()" undefined RSI_HOST_INTF_USB]]
    demo_image_ok [of "()" undefined RSI_HOST_INTF_USB] by blast

theorem load_firmware_returns_witness:
  "\<exists>st a'. rsi_load_firmware (boot_hw (sdio_probed quiet_env) sdio_host_intf_ops RSI_HOST_INTF_SDIO) = Some (st, a')"
  by (rule load_firmware_returns) (simp_all add: entries_ok_def boot_hw_def sdio_host_intf_ops_def)

section \<open>Images that are loaded whole\<close>

text \<open>
  A load of an image without a boot descriptor that returns 0 over SDIO has opened the
  TA's memory to the host and then written the whole file, rounded up to a multiple of four
  bytes, from address 0 on; what follows is the reset of the TA.
\<close>

theorem sdio_plain_image:
  assumes "host_intf_ops a = sdio_host_intf_ops" "write_fail (hw_dev a) = 0"
    and "rsi_load_9116_firmware a = Some (0, a')"
  shows "\<exists>name data sz. fw_files a name = Some (data, sz) \<and>
    (get_le16 data 0 \<noteq> 0x5aa5 \<and> unat (round4 sz) div 252 < 2 ^ 16 \<longrightarrow> fw_file_name a' = name \<and>
     (\<exists>access ws. ahb_writes (hw_dev a') = ahb_writes (hw_dev a) @ (0x41300000, access) #
        load_chunks 0 (unat (round4 sz)) (unat (load_block_size a)) data @ ws))"
  using assms by (rule sdio_boot.load_9116_plain)

theorem sdio_plain_image_witness:
  "\<exists>a'. rsi_load_9116_firmware (boot_hw (sdio_probed quiet_env) sdio_host_intf_ops RSI_HOST_INTF_SDIO
        \<lparr>device_model := RSI_DEV_9117, fw_files := (\<lambda>_. Some ((\<lambda>_. 1), 3))\<rparr>) = Some (0, a') \<and>
     (\<exists>access ws. ahb_writes (hw_dev a') = (0x41300000, access) # (0, [1, 1, 1, 1]) # ws)"
proof -
  let ?a = "boot_hw (sdio_probed quiet_env) sdio_host_intf_ops RSI_HOST_INTF_SDIO
        \<lparr>device_model := RSI_DEV_9117, fw_files := (\<lambda>_. Some ((\<lambda>_. 1), 3))\<rparr>"
  obtain a' where r: "rsi_load_9116_firmware ?a = Some (0, a')"
    by (simp add: rsi_load_9116_firmware_def boot_hw_def hif_reg_write_def sdio_host_intf_ops_def
        rsi_sdio_master_reg_write_def rsi_sdio_master_access_msword_def rsi_sdio_write_register_multiple_def
        rsi_defs quiet_env_def sdio_probed_def bus_step_def select_firmware_def note_version_def load_image_def
        get_le16_def hif_load_def rsi_sdio_load_data_master_write_def load_block_size_def round4_def
        hif_ta_reset_def rsi_sdio_ta_reset_ops_def ta_write_def Let_def)
  have "host_intf_ops ?a = sdio_host_intf_ops" "write_fail (hw_dev ?a) = 0" by (simp_all add: boot_hw_def)
  from sdio_plain_image [OF this r] r show ?thesis
    by (auto simp: boot_hw_def ahb_writes_def ahb_run_def load_block_size_def round4_def load_chunks_def
        get_le16_def bytes_at_def upt_rec)
qed

section \<open>Chunked images\<close>

lemma sdio_hif_load_dead:
  assumes "host_intf_ops a = sdio_host_intf_ops" "write_fail (hw_dev a) = 2"
    and "\<And>k. env_writeb (bus_env (hw_dev a)) k = 0" "\<And>k. env_alloc (bus_env (hw_dev a)) k"
  shows "\<exists>a'. hif_load a base sz bs p = (0, a') \<and> write_fail (hw_dev a') = 2 \<and> bus_env (hw_dev a') = bus_env (hw_dev a) \<and>
    ahb_writes (hw_dev a') = ahb_writes (hw_dev a) \<and> same_hw a a'"
proof -
  obtain st d where l: "rsi_sdio_load_data_master_write (hw_dev a) base sz bs p = (st, d)" by fastforce
  have "st = 0" using dead_load_succeeds [OF assms(2,3) _ l] assms(4) by (simp add: kzalloc_ok_def)
  moreover have "write_fail d = 2" "ahb_writes d = ahb_writes (hw_dev a)" using dead_load [OF assms(2) l] by auto
  moreover have "bus_env d = bus_env (hw_dev a)" using l by (rule load_bus_env)
  ultimately show ?thesis
    using l assms(1) by (auto simp: hif_load_def sdio_host_intf_ops_def same_hw_def)
qed

lemma dead_chunks:
  assumes "ii \<le> i" "bit (get_le32 ds (8 + 8 * i)) 31"
    and "host_intf_ops a = sdio_host_intf_ops" "write_fail (hw_dev a) = 2"
    and "\<And>k. env_writeb (bus_env (hw_dev a)) k = 0" "\<And>k. env_alloc (bus_env (hw_dev a)) k"
  shows "\<exists>a'. load_chunks_loop ds ii p a = Some (0, a') \<and> ahb_writes (hw_dev a') = ahb_writes (hw_dev a)"
  using assms
proof (induction "i - ii" arbitrary: ii p a)
  case 0
  then have "ii = i" by simp
  with 0 sdio_hif_load_dead [OF 0(4-7), of "get_le32 ds (12 + 8 * i)" "get_le32 ds (8 + 8 * i) AND RSI_BL_CTRL_LEN_MASK"
      "load_block_size a" p]
  show ?case by (subst load_chunks_loop.simps) (auto simp: Let_def)
next
  case (Suc n)
  obtain a1 where l: "hif_load a (get_le32 ds (12 + 8 * ii)) (get_le32 ds (8 + 8 * ii) AND RSI_BL_CTRL_LEN_MASK)
      (load_block_size a) p = (0, a1)" "write_fail (hw_dev a1) = 2" "bus_env (hw_dev a1) = bus_env (hw_dev a)"
      "ahb_writes (hw_dev a1) = ahb_writes (hw_dev a)" "same_hw a a1"
    using sdio_hif_load_dead [OF Suc.prems(3-6)] by blast
  have "n = i - Suc ii" "Suc ii \<le> i" using Suc.hyps(2) by simp_all
  note ih = Suc.hyps(1) [OF this Suc.prems(2), of a1 "ptr_add p (unat (get_le32 ds (8 + 8 * ii) AND RSI_BL_CTRL_LEN_MASK))"]
  have "host_intf_ops a1 = sdio_host_intf_ops" using l(5) Suc.prems(3) by (simp add: same_hw_def)
  from ih [OF this l(2)] l Suc.prems(5,6) obtain a' where
    "load_chunks_loop ds (Suc ii) (ptr_add p (unat (get_le32 ds (8 + 8 * ii) AND RSI_BL_CTRL_LEN_MASK))) a1 = Some (0, a')"
    "ahb_writes (hw_dev a') = ahb_writes (hw_dev a1)" by auto
  with l show ?case by (subst load_chunks_loop.simps) (auto simp: Let_def)
qed

text \<open>
  A chunked image whose first chunk fails over SDIO is still reported as loaded: the
  failed write stops the bus, the later chunks report success without writing anything, and
  the loop returns the status of the last one.
\<close>

theorem chunk_failure_masked:
  assumes "host_intf_ops a = sdio_host_intf_ops"
    and "hif_load a (get_le32 ds 12) (get_le32 ds 8 AND RSI_BL_CTRL_LEN_MASK) (load_block_size a) p = (st, a1)"
    and "st \<noteq> 0" "write_fail (hw_dev a1) = 2" "\<not> bit (get_le32 ds 8) 31" "0 < i" "bit (get_le32 ds (8 + 8 * i)) 31"
    and "\<And>k. env_writeb (bus_env (hw_dev a1)) k = 0" "\<And>k. env_alloc (bus_env (hw_dev a1)) k"
  shows "\<exists>a'. load_chunks_loop ds 0 p a = Some (0, a') \<and> ahb_writes (hw_dev a') = ahb_writes (hw_dev a1)"
proof -
  have "host_intf_ops a1 = sdio_host_intf_ops" using hif_load_same [OF assms(2)] assms(1) by (simp add: same_hw_def)
  with dead_chunks [of 1 i ds a1 "ptr_add p (unat (get_le32 ds 8 AND RSI_BL_CTRL_LEN_MASK))"] assms show ?thesis
    by (subst load_chunks_loop.simps) (auto simp: Let_def)
qed

text \<open>A descriptor of two chunks of four bytes.\<close>

definition two_chunks :: ptr where
  "two_chunks = ptr_of (\<lambda>_. 0) (put_le32 0x5aa5 @ put_le32 0 @ put_le32 4 @ put_le32 0x100 @ put_le32 0x80000004 @ put_le32 0x200)"

lemma two_chunks_fields:
  "get_le32 two_chunks 8 = 4" "get_le32 two_chunks 12 = 0x100" "get_le32 two_chunks 16 = 0x80000004"
  by (simp_all add: two_chunks_def get_le32_def ptr_of_def put_le32_def nth_append)

theorem chunk_failure_masked_witness:
  "\<exists>a'. load_chunks_loop two_chunks 0 (\<lambda>_. 0)
     (boot_hw (sdio_probed (quiet_env\<lparr>env_writesb := \<lambda>_. -1\<rparr>)) sdio_host_intf_ops RSI_HOST_INTF_SDIO) = Some (0, a') \<and>
     length (ahb_writes (hw_dev a')) = 1"
proof -
  let ?a = "boot_hw (sdio_probed (quiet_env\<lparr>env_writesb := \<lambda>_. -1\<rparr>)) sdio_host_intf_ops RSI_HOST_INTF_SDIO"
  let ?l = "hif_load ?a (get_le32 two_chunks 12) (get_le32 two_chunks 8 AND RSI_BL_CTRL_LEN_MASK) (load_block_size ?a) (\<lambda>_. 0)"
  have l: "?l = (fst ?l, snd ?l)" "fst ?l = - EIO" "write_fail (hw_dev (snd ?l)) = 2"
      "bus_env (hw_dev (snd ?l)) = quiet_env\<lparr>env_writesb := \<lambda>_. -1\<rparr>" "length (ahb_writes (hw_dev (snd ?l))) = 1"
    by (simp_all add: two_chunks_fields boot_hw_def hif_load_def sdio_host_intf_ops_def rsi_sdio_load_data_master_write_def
        load_block_size_def rsi_sdio_write_register_multiple_def rsi_sdio_master_access_msword_def rsi_defs
        quiet_env_def ahb_writes_def ahb_run_def)
  show ?thesis
    using chunk_failure_masked [OF _ l(1) _ l(3), where i = 1] l two_chunks_fields
    by (auto simp: boot_hw_def quiet_env_def)
qed

end
