(* ===== verification/Dot11.thy ===== *)
theory Dot11
  imports Rsi_Prelude
begin

text \<open>
  What the transmit path reads of a frame: the socket buffer with the part of its control
  block the driver uses, the IEEE 802.11 frame-control tests and the address tests of the
  kernel headers, and \<open>dot11_pkt_type\<close> of rsi/rsi_91x_core.c. The tests of the kernel compare
  the type (bits 2 and 3) and subtype (bits 4 to 7) of the frame control with the numbers of
  the 802.11 standard.
\<close>

section \<open>Socket buffers\<close>

text \<open>
  \<open>data_addr\<close> is the address of the data, \<open>headroom\<close> the bytes free before it. A protocol number is
  given in host order. \<open>encap\<close> and \<open>internal_pkt\<close> are the flags \<open>ENCAP_OFFLOAD_EN\<close> and
  \<open>INTERNAL_MGMT_PKT\<close> of \<open>struct skb_info\<close>; \<open>port_ctrl\<close>, \<open>dont_encrypt\<close>, \<open>req_tx_status\<close>,
  \<open>hw_key\<close> and \<open>ctl_vif\<close> are the fields and flags of the kernel's \<open>ieee80211_tx_info\<close>.
\<close>

record tx_skb =
  skb_data :: "u8 list"
  data_addr :: nat
  headroom :: nat
  skb_priority :: nat
  skb_protocol :: u16
  encap :: bool
  internal_pkt :: bool
  internal_hdr_size :: nat
  port_ctrl :: bool
  dont_encrypt :: bool
  req_tx_status :: bool
  hw_key :: bool
  ctl_vif :: bool
  skb_tid :: nat
  skb_sta_id :: int

datatype iftype = NL80211_IFTYPE_STATION | NL80211_IFTYPE_AP | NL80211_IFTYPE_P2P_GO | NL80211_IFTYPE_P2P_CLIENT |
  NL80211_IFTYPE_P2P_DEVICE | NL80211_IFTYPE_MONITOR | NL80211_IFTYPE_OTHER

abbreviation (input) ETH_P_PAE :: u16 where "ETH_P_PAE \<equiv> 0x888E"
abbreviation (input) ETH_P_802_3 :: u16 where "ETH_P_802_3 \<equiv> 1"
abbreviation (input) ETH_P_IPV6 :: u16 where "ETH_P_IPV6 \<equiv> 0x86DD"

section \<open>Settings shared by data and command frames\<close>

text \<open>The 802.11ax settings of the adapter, without the fields the driver never reads.\<close>

record rsi_ax_params =
  ax_enabled :: bool
  bss_color :: u8
  spatial_reuse_en :: bool
  UL_DL :: bool
  coding_type :: u8
  nominal_pe :: u8
  he_ppdu_type :: u8
  beam_change :: u8
  ax_BW :: u8
  ax_STBC :: u8
  Tx_BF :: u8
  GI_LTF :: u8
  DCM :: u8
  NSTS_MIDAMBLE :: u8
  mbssid_mask_value :: u8
  ipps_valid :: u8
  obss_pd_min :: u8
  obss_pd_max :: u8
  edca_susp :: u8

definition no_ax :: rsi_ax_params where
  "no_ax = \<lparr>ax_enabled = False, bss_color = 0, spatial_reuse_en = False, UL_DL = False, coding_type = 0, nominal_pe = 0,
     he_ppdu_type = 0, beam_change = 0, ax_BW = 0, ax_STBC = 0, Tx_BF = 0, GI_LTF = 0, DCM = 0, NSTS_MIDAMBLE = 0,
     mbssid_mask_value = 0, ipps_valid = 0, obss_pd_min = 0, obss_pd_max = 0, edca_susp = 0\<rparr>"

text \<open>The channel mode mac80211 has configured: 20 MHz, or 40 MHz with the second channel above or below.\<close>

datatype ht40 = NO_HT40 | HT40_PLUS | HT40_MINUS

abbreviation (input) RATE_INFO_ENABLE :: u16 where "RATE_INFO_ENABLE \<equiv> BIT 0"
abbreviation (input) FULL40M_ENABLE :: u16 where "FULL40M_ENABLE \<equiv> 6"
abbreviation (input) RSI_RATE_1 :: u16 where "RSI_RATE_1 \<equiv> 0"
abbreviation (input) RSI_RATE_6 :: u16 where "RSI_RATE_6 \<equiv> 0x8b"

section \<open>Frame types\<close>

definition fc_is :: "u16 \<Rightarrow> u16 \<Rightarrow> bool" where
  [rsi_defs]: "fc_is v fc = (fc AND 0x00FC = v)"

abbreviation (input) "ieee80211_is_assoc_req \<equiv> fc_is 0x00"
abbreviation (input) "ieee80211_is_assoc_resp \<equiv> fc_is 0x10"
abbreviation (input) "ieee80211_is_reassoc_req \<equiv> fc_is 0x20"
abbreviation (input) "ieee80211_is_reassoc_resp \<equiv> fc_is 0x30"
abbreviation (input) "ieee80211_is_probe_req \<equiv> fc_is 0x40"
abbreviation (input) "ieee80211_is_probe_resp \<equiv> fc_is 0x50"
abbreviation (input) "ieee80211_is_beacon \<equiv> fc_is 0x80"
abbreviation (input) "ieee80211_is_disassoc \<equiv> fc_is 0xA0"
abbreviation (input) "ieee80211_is_auth \<equiv> fc_is 0xB0"
abbreviation (input) "ieee80211_is_deauth \<equiv> fc_is 0xC0"
abbreviation (input) "ieee80211_is_action \<equiv> fc_is 0xD0"
abbreviation (input) "ieee80211_is_pspoll \<equiv> fc_is 0xA4"
abbreviation (input) "ieee80211_is_nullfunc \<equiv> fc_is 0x48"
abbreviation (input) "ieee80211_is_qos_nullfunc \<equiv> fc_is 0xC8"

definition ieee80211_is_mgmt :: "u16 \<Rightarrow> bool" where
  [rsi_defs]: "ieee80211_is_mgmt fc = (fc AND 0x000C = 0x0000)"

definition ieee80211_is_ctl :: "u16 \<Rightarrow> bool" where
  [rsi_defs]: "ieee80211_is_ctl fc = (fc AND 0x000C = 0x0004)"

definition ieee80211_is_data :: "u16 \<Rightarrow> bool" where
  [rsi_defs]: "ieee80211_is_data fc = (fc AND 0x000C = 0x0008)"

definition ieee80211_is_data_qos :: "u16 \<Rightarrow> bool" where
  [rsi_defs]: "ieee80211_is_data_qos fc = (fc AND 0x008C = 0x0088)"

definition dot11_pkt_type :: "u16 \<Rightarrow> string" where
  "dot11_pkt_type fc =
     (if ieee80211_is_beacon fc then ''BEACON''
      else if ieee80211_is_assoc_req fc then ''ASSOC_REQ''
      else if ieee80211_is_assoc_resp fc then ''ASSOC_RESP''
      else if ieee80211_is_reassoc_req fc then ''REASSOC_REQ''
      else if ieee80211_is_reassoc_resp fc then ''REASSOC_RESP''
      else if ieee80211_is_auth fc then ''AUTH''
      else if ieee80211_is_probe_req fc then ''PROBE_REQ''
      else if ieee80211_is_probe_resp fc then ''PROBE_RESP''
      else if ieee80211_is_disassoc fc then ''DISASSOC''
      else if ieee80211_is_deauth fc then ''DEAUTH''
      else if ieee80211_is_action fc then ''ACTION''
      else if ieee80211_is_data_qos fc then ''QOS DATA''
      else if ieee80211_is_pspoll fc then ''PS_POLL''
      else if ieee80211_is_nullfunc fc then ''NULL_DATA''
      else if ieee80211_is_qos_nullfunc fc then ''QOS_NULL_DATA''
      else if ieee80211_is_mgmt fc then ''DOT11_MGMT''
      else if ieee80211_is_data fc then ''DOT11_DATA''
      else if ieee80211_is_ctl fc then ''DOT11_CTRL''
      else ''UNKNOWN'')"

lemma fc_is_mask:
  assumes "fc_is v fc" "m AND 0x00FC = m"
  shows "fc AND m = v AND m"
proof -
  have "fc AND m = (fc AND 0x00FC) AND m" using assms(2) by (metis and.assoc and.commute)
  then show ?thesis using assms(1) by (simp only: fc_is_def)
qed

lemma qos_nullfunc_is_data_qos: "ieee80211_is_qos_nullfunc fc \<Longrightarrow> ieee80211_is_data_qos fc"
  using fc_is_mask [of "0xC8" fc "0x8C"] by (simp add: ieee80211_is_data_qos_def)

section \<open>Header fields and addresses\<close>

definition frame_control :: "u8 list \<Rightarrow> u16" where
  [rsi_defs]: "frame_control d = ucast (d ! 0) OR push_bit 8 (ucast (d ! 1))"

abbreviation (input) ETH_ALEN :: nat where "ETH_ALEN \<equiv> 6"

definition addr_at :: "nat \<Rightarrow> u8 list \<Rightarrow> u8 list" where
  [rsi_defs]: "addr_at off d = take ETH_ALEN (drop off d)"

text \<open>\<open>addr1\<close> and \<open>addr2\<close> of the 802.11 header, \<open>h_dest\<close> and \<open>h_source\<close> of the Ethernet header.\<close>

abbreviation (input) "wlh_addr1 \<equiv> addr_at 4"
abbreviation (input) "wlh_addr2 \<equiv> addr_at 10"
abbreviation (input) "h_dest \<equiv> addr_at 0"
abbreviation (input) "h_source \<equiv> addr_at 6"

definition is_broadcast_ether_addr :: "u8 list \<Rightarrow> bool" where
  "is_broadcast_ether_addr a = (take ETH_ALEN a = replicate ETH_ALEN 0xFF)"

definition is_multicast_ether_addr :: "u8 list \<Rightarrow> bool" where
  "is_multicast_ether_addr a = bit (a ! 0) 0"

lemma broadcast_is_multicast: "is_broadcast_ether_addr a \<Longrightarrow> is_multicast_ether_addr a"
  unfolding is_broadcast_ether_addr_def is_multicast_ether_addr_def
  by (cases a) (auto simp: numeral_eq_Suc)

end
