(* ===== verification/Tx_Sched.thy ===== *)
theory Tx_Sched
  imports Dot11
begin

text \<open>
  The transmit scheduler, rsi/rsi_91x_core.c: the choice of the queue to serve
  (\<open>rsi_core_determine_hal_queue\<close>), the loop that empties the queues into the device
  (\<open>rsi_core_qos_processor\<close>) and the entry of a frame from mac80211 (\<open>rsi_core_xmit\<close>).

  There are six software queues (default build, without \<open>CONFIG_STA_PLUS_AP\<close>): the four
  access categories 0 to 3, management (4) and beacons (5). What lies below (the hardware
  queue status and the three send functions) and the two descriptor functions are the record
  \<open>tx_ops\<close>; the state of what lies below is the type parameter, the field \<open>below\<close>.

  Ghost fields record what leaves the scheduler: \<open>handed\<close> the packets given to a send
  function, with their queue, \<open>dropped\<close> the packets freed, \<open>indicated\<close> those whose status was
  reported to mac80211, and \<open>leaked\<close> those taken from a queue and lost.
\<close>

section \<open>State\<close>

record wmm_qinfo =
  weight :: int
  wme_params :: int
  pkt_contended :: bool

record edca_queue_params =
  acm :: bool
  edca_txop :: u16
  aifs :: u8

record rsi_sta =
  sta_addr :: "u8 list option"     \<comment> \<open>\<open>sta->addr\<close>, None when \<open>sta\<close> is NULL\<close>
  sta_id :: int
  start_tx_aggr :: "nat \<Rightarrow> bool"   \<comment> \<open>16 elements; behind them, at 16, \<open>min_supported_rate\<close>\<close>

record 'b tx_common =
  tx_queue :: "tx_skb list list"
  tx_qinfo :: "wmm_qinfo list"
  edca_params :: "edca_queue_params list"
  min_weight :: u8
  selected_qnum :: nat
  pkt_cnt :: nat
  hw_data_qs_blocked :: bool
  hibernate_resume :: bool
  peer_notify :: bool
  hw_present :: bool
  iface_down :: bool
  ac_stopped :: "bool list"        \<comment> \<open>mac80211's queues, by queue number\<close>
  host_txq_maxlen :: "u16 list"
  mac_init_done :: bool            \<comment> \<open>\<open>fsm_state\<close> is \<open>FSM_MAC_INIT_DONE\<close>\<close>
  vif_type :: iftype
  bgscan_en :: bool
  stations :: "rsi_sta list"
  max_stations :: nat
  eapol4_confirm :: bool
  start_bgscan :: bool
  total_tx_pkt_send :: "u32 list"
  total_tx_pkt_freed :: "u32 list"
  tx_lock_depth :: int
  tx_event :: bool
  below :: 'b
  handed :: "(nat \<times> tx_skb) list"
  dropped :: "tx_skb list"
  leaked :: "tx_skb list"
  indicated :: "tx_skb list"
  ba_sessions :: "(nat \<times> nat) list"   \<comment> \<open>station index and TID of each \<open>ieee80211_start_tx_ba_session\<close>\<close>
  stats_overrun :: bool    \<comment> \<open>a statistics index was past the end of its array\<close>

record 'b tx_ops =
  check_hw_queue :: "'b \<Rightarrow> nat \<Rightarrow> int \<times> 'b"
  send_mgmt :: "'b \<Rightarrow> tx_skb \<Rightarrow> int \<times> 'b"
  send_beacon :: "'b \<Rightarrow> tx_skb \<Rightarrow> int \<times> 'b"
  send_data :: "'b \<Rightarrow> tx_skb \<Rightarrow> int \<times> 'b"
  prepare_mgmt :: "'b \<Rightarrow> tx_skb \<Rightarrow> int \<times> tx_skb \<times> 'b"
  prepare_data :: "'b \<Rightarrow> tx_skb \<Rightarrow> int \<times> tx_skb \<times> 'b"
  notify_frame :: "'b \<Rightarrow> tx_skb option"   \<comment> \<open>the frame \<open>rsi_send_sta_notify_frame\<close> builds, None when it cannot be allocated\<close>

abbreviation (input) BK_Q :: nat where "BK_Q \<equiv> 0"
abbreviation (input) BE_Q :: nat where "BE_Q \<equiv> 1"
abbreviation (input) VI_Q :: nat where "VI_Q \<equiv> 2"
abbreviation (input) VO_Q :: nat where "VO_Q \<equiv> 3"
abbreviation (input) MGMT_SOFT_Q :: nat where "MGMT_SOFT_Q \<equiv> 4"
abbreviation (input) MGMT_BEACON_Q :: nat where "MGMT_BEACON_Q \<equiv> 5"
abbreviation (input) NUM_EDCA_QUEUES :: nat where "NUM_EDCA_QUEUES \<equiv> 4"
abbreviation (input) NUM_SOFT_QUEUES :: nat where "NUM_SOFT_QUEUES \<equiv> 6"
abbreviation (input) INVALID_QUEUE :: nat where "INVALID_QUEUE \<equiv> 0xff"

definition q_len :: "'b tx_common \<Rightarrow> nat \<Rightarrow> nat" where
  "q_len c q = length (tx_queue c ! q)"

section \<open>Choosing the queue\<close>

text \<open>
  The first contended queue that has packets; its weight becomes \<open>min_weight\<close>, a \<open>u8\<close>. With
  no such queue the result is \<open>NUM_EDCA_QUEUES\<close>.
\<close>

fun first_contended :: "'b tx_common \<Rightarrow> nat list \<Rightarrow> nat" where
  "first_contended c [] = NUM_EDCA_QUEUES"
| "first_contended c (ii # iis) =
     (if pkt_contended (tx_qinfo c ! ii) \<and> q_len c ii \<noteq> 0 then ii else first_contended c iis)"

definition rsi_determine_min_weight_queue :: "'b tx_common \<Rightarrow> nat \<times> 'b tx_common" where
  "rsi_determine_min_weight_queue c =
     (let ii = first_contended c [0..<NUM_EDCA_QUEUES]
      in if ii < NUM_EDCA_QUEUES then (ii, c\<lparr>min_weight := word_of_int (weight (tx_qinfo c ! ii))\<rparr>)
         else (ii, c))"

text \<open>One queue of \<open>rsi_recalculate_weights\<close>: its new parameters, and whether it is freshly contended.\<close>

definition recalc_queue :: "u8 \<Rightarrow> nat \<Rightarrow> wmm_qinfo \<Rightarrow> wmm_qinfo \<times> bool" where
  "recalc_queue mw len qi =
     (if len \<noteq> 0
      then (if pkt_contended qi
            then (qi\<lparr>weight := (if uint mw < weight qi then weight qi - uint mw else 0)\<rparr>, False)
            else (qi\<lparr>pkt_contended := True, weight := wme_params qi\<rparr>, True))
      else (qi\<lparr>weight := 0, pkt_contended := False\<rparr>, False))"

definition rsi_recalculate_weights :: "'b tx_common \<Rightarrow> bool \<times> 'b tx_common" where
  "rsi_recalculate_weights c =
     (let rs = map (\<lambda>ii. recalc_queue (min_weight c) (q_len c ii) (tx_qinfo c ! ii)) [0..<NUM_EDCA_QUEUES]
      in (list_ex snd rs, c\<lparr>tx_qinfo := map fst rs\<rparr>))"

text \<open>The loop that looks for a smaller weight, over the queues still to look at.\<close>

fun least_backoff :: "nat list \<Rightarrow> nat \<Rightarrow> 'b tx_common \<Rightarrow> nat \<times> 'b tx_common" where
  "least_backoff [] q_num c = (q_num, c)"
| "least_backoff (ii # iis) q_num c =
     (if pkt_contended (tx_qinfo c ! ii) \<and> weight (tx_qinfo c ! ii) < uint (min_weight c) \<and> q_len c ii \<noteq> 0
      then least_backoff iis ii (c\<lparr>min_weight := word_of_int (weight (tx_qinfo c ! ii))\<rparr>)
      else least_backoff iis q_num c)"

text \<open>From the label \<open>get_queue_num\<close> to the test of the selected queue.\<close>

definition select_round :: "'b tx_common \<Rightarrow> nat \<times> bool \<times> 'b tx_common" where
  "select_round c =
     (let (q0, c1) = rsi_determine_min_weight_queue c;
          (q_num, c2) = least_backoff [q0..<NUM_EDCA_QUEUES] q0 c1;
          c3 = (if q_num < NUM_EDCA_QUEUES
                then c2\<lparr>tx_qinfo := (tx_qinfo c2)[q_num := (tx_qinfo c2 ! q_num)\<lparr>pkt_contended := False\<rparr>]\<rparr> else c2);
          (recontend_queue, c4) = rsi_recalculate_weights c3
      in (q_num, recontend_queue, c4))"

subsection \<open>The selection ends\<close>

lemma q_len_update [simp]:
  "q_len (c\<lparr>min_weight := w\<rparr>) q = q_len c q" "q_len (c\<lparr>tx_qinfo := x\<rparr>) q = q_len c q"
  "q_len (c\<lparr>pkt_cnt := n\<rparr>) q = q_len c q" "q_len (c\<lparr>selected_qnum := n\<rparr>) q = q_len c q"
  by (simp_all add: q_len_def)

lemma first_contended_Some:
  "first_contended c iis = ii \<Longrightarrow> ii < NUM_EDCA_QUEUES \<Longrightarrow>
   ii \<in> set iis \<and> pkt_contended (tx_qinfo c ! ii) \<and> q_len c ii \<noteq> 0"
  by (induction iis) (auto split: if_splits)

lemma first_contended_le: "set iis \<subseteq> {..<NUM_EDCA_QUEUES} \<Longrightarrow> first_contended c iis \<le> NUM_EDCA_QUEUES"
  by (induction iis) auto

lemma first_contended_None:
  "first_contended c iis = NUM_EDCA_QUEUES \<Longrightarrow> set iis \<subseteq> {..<NUM_EDCA_QUEUES} \<Longrightarrow> ii \<in> set iis \<Longrightarrow>
   \<not> (pkt_contended (tx_qinfo c ! ii) \<and> q_len c ii \<noteq> 0)"
  by (induction iis) (auto split: if_splits)

lemma least_backoff_frame:
  "least_backoff iis q c = (q', c') \<Longrightarrow> tx_qinfo c' = tx_qinfo c \<and> tx_queue c' = tx_queue c \<and>
     (q' = q \<or> q' \<in> set iis \<and> pkt_contended (tx_qinfo c ! q') \<and> q_len c q' \<noteq> 0)"
  by (induction iis q c rule: least_backoff.induct) (auto split: if_splits)

lemma recalc_frame:
  "rsi_recalculate_weights c = (r, c') \<Longrightarrow> tx_queue c' = tx_queue c \<and> length (tx_qinfo c') = NUM_EDCA_QUEUES \<and>
     min_weight c' = min_weight c"
  by (auto simp: rsi_recalculate_weights_def Let_def)

text \<open>A round either selects a queue with packets, or it found no contended one.\<close>

lemma select_round_result:
  assumes "select_round c = (q, r, c')"
  shows "tx_queue c' = tx_queue c" "q < NUM_EDCA_QUEUES \<and> q_len c q \<noteq> 0 \<or> q = NUM_EDCA_QUEUES"
    "q = NUM_EDCA_QUEUES \<Longrightarrow> \<forall>ii < NUM_EDCA_QUEUES. \<not> (pkt_contended (tx_qinfo c ! ii) \<and> q_len c ii \<noteq> 0)"
proof -
  obtain q0 c1 where 1: "rsi_determine_min_weight_queue c = (q0, c1)" by fastforce
  obtain q1 c2 where 2: "least_backoff [q0..<NUM_EDCA_QUEUES] q0 c1 = (q1, c2)" by fastforce
  note f2 = least_backoff_frame [OF 2]
  have f1: "tx_qinfo c1 = tx_qinfo c" "tx_queue c1 = tx_queue c" "q0 = first_contended c [0..<NUM_EDCA_QUEUES]"
    using 1 by (auto simp: rsi_determine_min_weight_queue_def Let_def split: if_splits)
  have le: "q0 \<le> NUM_EDCA_QUEUES" unfolding f1(3) by (rule first_contended_le) auto
  have q: "q = q1" and t: "tx_queue c' = tx_queue c2"
    using assms 1 2 by (auto simp: select_round_def Let_def split: prod.splits if_splits dest!: recalc_frame)
  show "tx_queue c' = tx_queue c" using t f2 f1 by simp
  have len: "q_len c1 x = q_len c x" for x using f1(2) by (simp add: q_len_def)
  show "q < NUM_EDCA_QUEUES \<and> q_len c q \<noteq> 0 \<or> q = NUM_EDCA_QUEUES"
    using f2 le q first_contended_Some [OF f1(3) [symmetric]] len by auto
  show "\<forall>ii < NUM_EDCA_QUEUES. \<not> (pkt_contended (tx_qinfo c ! ii) \<and> q_len c ii \<noteq> 0)" if "q = NUM_EDCA_QUEUES"
  proof -
    have "q0 = NUM_EDCA_QUEUES" using f2 q that le by auto
    with f1(3) have "first_contended c [0..<NUM_EDCA_QUEUES] = NUM_EDCA_QUEUES" by simp
    note none = first_contended_None [OF this]
    show ?thesis using none by (auto simp: subset_eq)
  qed
qed

definition fresh_queues :: "'b tx_common \<Rightarrow> nat set" where
  "fresh_queues c = {ii. ii < NUM_EDCA_QUEUES \<and> q_len c ii \<noteq> 0 \<and> \<not> pkt_contended (tx_qinfo c ! ii)}"

lemma finite_fresh [simp]: "finite (fresh_queues c)"
  by (simp add: fresh_queues_def)

lemma recalc_contends:
  assumes "rsi_recalculate_weights c = (r, c')"
  shows "fresh_queues c' = {}" "r \<longleftrightarrow> fresh_queues c \<noteq> {}"
proof -
  have len: "q_len c' x = q_len c x" for x
    using recalc_frame [OF assms] by (simp add: q_len_def)
  have "tx_qinfo c' ! ii = fst (recalc_queue (min_weight c) (q_len c ii) (tx_qinfo c ! ii))" if "ii < NUM_EDCA_QUEUES" for ii
    using assms that by (auto simp: rsi_recalculate_weights_def Let_def)
  then show "fresh_queues c' = {}"
    by (auto simp: fresh_queues_def len recalc_queue_def split: if_splits)
  have "r \<longleftrightarrow> (\<exists>ii < NUM_EDCA_QUEUES. snd (recalc_queue (min_weight c) (q_len c ii) (tx_qinfo c ! ii)))"
    using assms by (auto simp: rsi_recalculate_weights_def Let_def list_ex_iff)
  then show "r \<longleftrightarrow> fresh_queues c \<noteq> {}"
    by (auto simp: fresh_queues_def recalc_queue_def split: if_splits)
qed

lemma select_round_again:
  assumes "select_round c = (q, True, c')" "q_len c' q = 0"
  shows "card (fresh_queues c') < card (fresh_queues c)"
proof -
  note r = select_round_result [OF assms(1)]
  have q4: "q = NUM_EDCA_QUEUES" using r(1,2) assms(2) by (auto simp: q_len_def)
  obtain q0 c1 where 1: "rsi_determine_min_weight_queue c = (q0, c1)" by fastforce
  obtain q1 c2 where 2: "least_backoff [q0..<NUM_EDCA_QUEUES] q0 c1 = (q1, c2)" by fastforce
  have "tx_qinfo c2 = tx_qinfo c" "tx_queue c2 = tx_queue c"
    using least_backoff_frame [OF 2] 1
    by (auto simp: rsi_determine_min_weight_queue_def Let_def split: if_splits)
  then have f: "fresh_queues c2 = fresh_queues c" by (simp add: fresh_queues_def q_len_def)
  have "rsi_recalculate_weights c2 = (True, c')"
    using assms(1) 1 2 q4 by (auto simp: select_round_def Let_def split: prod.splits if_splits)
  from recalc_contends [OF this] f have "fresh_queues c' = {}" "fresh_queues c \<noteq> {}" by auto
  then show ?thesis by (simp add: card_gt_0_iff)
qed

text \<open>
  The loop back to \<open>get_queue_num\<close>: it is taken only when no queue was contended and some
  have just become so, hence at most once.
\<close>

function select_queue :: "'b tx_common \<Rightarrow> nat \<times> 'b tx_common" where
  "select_queue c =
     (let (q_num, recontend_queue, c1) = select_round c
      in if q_len c1 q_num = 0
         then (if recontend_queue then select_queue c1 else (INVALID_QUEUE, c1))
         else (q_num, c1))"
  by pat_completeness auto
termination
  by (relation "measure (\<lambda>c. card (fresh_queues c))")
    (auto intro: select_round_again [OF sym])

declare select_queue.simps [simp del]

section \<open>The number of packets to send in a row\<close>

definition burst_length :: "'b tx_common \<Rightarrow> nat \<Rightarrow> nat" where
  "burst_length c q_num =
     (if q_num = VO_Q then (if acm (edca_params c ! q_num) then 1 else 6)
      else if acm (edca_params c ! q_num) then 1
      else if aifs (edca_params c ! BE_Q) < aifs (edca_params c ! VI_Q) then 2
      else unat (edca_txop (edca_params c ! q_num)) * 32 div 800)"

definition set_burst :: "'b tx_common \<Rightarrow> nat \<Rightarrow> 'b tx_common" where
  "set_burst c q_num =
     (if q_num = VO_Q \<or> q_num = VI_Q
      then let n = burst_length c q_num;
               n' = (if q_len c q_num \<le> n then q_len c q_num else n)
           in c\<lparr>pkt_cnt := (if n' \<noteq> 0 then n' - 1 else 0)\<rparr>
      else c)"

definition rsi_core_determine_hal_queue :: "'b tx_common \<Rightarrow> nat \<times> 'b tx_common" where
  "rsi_core_determine_hal_queue c =
     (if q_len c MGMT_BEACON_Q \<noteq> 0 then (MGMT_BEACON_Q, c)
      else if q_len c MGMT_SOFT_Q \<noteq> 0 then (MGMT_SOFT_Q, c)
      else if hw_data_qs_blocked c then (INVALID_QUEUE, c)
      else if pkt_cnt c \<noteq> 0 then (selected_qnum c, c\<lparr>pkt_cnt := pkt_cnt c - 1\<rparr>)
      else
        let (q_num, c1) = select_queue c
        in if q_num = INVALID_QUEUE then (INVALID_QUEUE, c1)
           else (q_num, set_burst (c1\<lparr>selected_qnum := q_num\<rparr>) q_num))"

section \<open>Serving the queues\<close>

definition rsi_core_queue_pkt :: "'b tx_common \<Rightarrow> tx_skb \<Rightarrow> 'b tx_common" where
  "rsi_core_queue_pkt c skb =
     (let q_num = skb_priority skb mod 256
      in if NUM_SOFT_QUEUES \<le> q_num then c\<lparr>dropped := dropped c @ [skb]\<rparr>
         else c\<lparr>tx_queue := (tx_queue c)[q_num := tx_queue c ! q_num @ [skb]]\<rparr>)"

definition rsi_core_dequeue_pkt :: "'b tx_common \<Rightarrow> nat \<Rightarrow> tx_skb option \<times> 'b tx_common" where
  "rsi_core_dequeue_pkt c q_num =
     (if NUM_SOFT_QUEUES \<le> q_num then (None, c)
      else case tx_queue c ! q_num of
        [] \<Rightarrow> (None, c)
      | skb # skbs \<Rightarrow> (Some skb, c\<lparr>tx_queue := (tx_queue c)[q_num := skbs]\<rparr>))"

definition ieee80211_wake_queue :: "'b tx_common \<Rightarrow> nat \<Rightarrow> 'b tx_common" where
  [rsi_defs]: "ieee80211_wake_queue c q = c\<lparr>ac_stopped := (ac_stopped c)[q := False]\<rparr>"

definition ieee80211_stop_queue :: "'b tx_common \<Rightarrow> nat \<Rightarrow> 'b tx_common" where
  [rsi_defs]: "ieee80211_stop_queue c q = c\<lparr>ac_stopped := (ac_stopped c)[q := True]\<rparr>"

definition wake_if :: "bool \<Rightarrow> nat \<Rightarrow> 'b tx_common \<Rightarrow> 'b tx_common" where
  [rsi_defs]: "wake_if b q c = (if ac_stopped c ! q \<and> b then ieee80211_wake_queue c q else c)"

text \<open>
  Waking mac80211's queues. The second half of the condition for VI takes the address of
  \<open>acm\<close>, which is never NULL: the test is on the length of the BE queue alone.
\<close>

definition wake_queues :: "'b tx_common \<Rightarrow> 'b tx_common" where
  "wake_queues c =
     (let c1 = wake_if (q_len c VO_Q < 100) VO_Q c
      in if q_len c VO_Q = 0
         then let c2 = wake_if ((\<not> acm (edca_params c ! VI_Q) \<and> q_len c VI_Q < 150) \<or> q_len c BE_Q < 25) VI_Q c1
              in if q_len c VI_Q < 5
                 then let c3 = wake_if (q_len c BE_Q < 25) BE_Q c2
                      in if q_len c BE_Q < 15 then wake_if (q_len c BK_Q < 10) BK_Q c3 else c3
                 else c2
         else c1)"

definition rsi_get_aligned_skb :: "tx_skb \<Rightarrow> tx_skb" where
  "rsi_get_aligned_skb skb = skb\<lparr>data_addr := (data_addr skb - 8 + 7) div 8 * 8\<rparr>"

definition send_by_queue :: "'b tx_ops \<Rightarrow> nat \<Rightarrow> 'b \<Rightarrow> tx_skb \<Rightarrow> int \<times> 'b" where
  "send_by_queue ops q_num b skb =
     (if q_num = MGMT_SOFT_Q then send_mgmt ops b skb
      else if q_num = MGMT_BEACON_Q then send_beacon ops b skb
      else send_data ops b skb)"

definition tx_unlock :: "'b tx_common \<Rightarrow> 'b tx_common" where
  [rsi_defs]: "tx_unlock c = c\<lparr>tx_lock_depth := tx_lock_depth c - 1\<rparr>"

text \<open>From the dequeue to the end of a round; True when the loop goes on.\<close>

definition send_dequeued :: "'b tx_ops \<Rightarrow> nat \<Rightarrow> tx_skb \<Rightarrow> 'b tx_common \<Rightarrow> bool \<times> 'b tx_common" where
  "send_dequeued ops q_num skb0 c =
     (if q_num < MGMT_SOFT_Q \<and> \<not> hw_present c then (False, tx_unlock (c\<lparr>leaked := leaked c @ [skb0]\<rparr>))
      else
        let c1 = (if q_num < MGMT_SOFT_Q then wake_queues c else c);
            c2 = (if peer_notify c1 \<and> skb_data skb0 ! 2 = 8 then c1\<lparr>peer_notify := False\<rparr> else c1);
            skb = (if data_addr skb0 mod 8 \<noteq> 0 then rsi_get_aligned_skb skb0 else skb0);
            (status, b) = send_by_queue ops q_num (below c2) skb;
            c3 = c2\<lparr>below := b, handed := handed c2 @ [(q_num, skb)]\<rparr>
        in if status \<noteq> 0 then (False, tx_unlock c3)
           else (True, tx_unlock (c3\<lparr>total_tx_pkt_send := (total_tx_pkt_send c3)[q_num := total_tx_pkt_send c3 ! q_num + 1]\<rparr>)))"

definition qos_round :: "'b tx_ops \<Rightarrow> 'b tx_common \<Rightarrow> bool \<times> 'b tx_common" where
  "qos_round ops c =
     (let (q_num, c1) = rsi_core_determine_hal_queue c
      in if q_num = INVALID_QUEUE then (False, c1)
         else if hibernate_resume c1 then (False, c1)
         else
           let c2 = c1\<lparr>tx_lock_depth := tx_lock_depth c1 + 1\<rparr>;
               (status, b) = check_hw_queue ops (below c2) q_num;
               c3 = c2\<lparr>below := b\<rparr>
           in if status \<le> 0 \<and> (q_num < MGMT_SOFT_Q \<or> \<not> peer_notify c3 \<and> q_num = MGMT_SOFT_Q)
              then (False, tx_unlock c3)
              else
                let (skb, c4) = rsi_core_dequeue_pkt c3 q_num
                in case skb of None \<Rightarrow> (False, tx_unlock c4) | Some skb0 \<Rightarrow> send_dequeued ops q_num skb0 c4)"

subsection \<open>The loop ends\<close>

definition queued :: "'b tx_common \<Rightarrow> nat" where
  "queued c = sum_list (map length (tx_queue c))"

lemma select_queue_frame: "select_queue c = (q, c') \<Longrightarrow> tx_queue c' = tx_queue c"
proof (induction c rule: select_queue.induct)
  case (1 c)
  obtain q1 r c1 where s: "select_round c = (q1, r, c1)" by (metis prod_cases3)
  note t = select_round_result(1) [OF s]
  show ?case
    using "1.prems" "1.IH" [OF s [symmetric] refl] s t
    by (subst (asm) select_queue.simps) (auto split: if_splits)
qed

lemma determine_frame: "rsi_core_determine_hal_queue c = (q, c') \<Longrightarrow> tx_queue c' = tx_queue c"
  by (auto simp: rsi_core_determine_hal_queue_def set_burst_def Let_def split: if_splits prod.splits
      dest!: select_queue_frame)

lemma wake_queues_frame [simp]: "tx_queue (wake_queues c) = tx_queue c" "below (wake_queues c) = below c"
    "handed (wake_queues c) = handed c" "tx_lock_depth (wake_queues c) = tx_lock_depth c"
    "leaked (wake_queues c) = leaked c" "dropped (wake_queues c) = dropped c" "peer_notify (wake_queues c) = peer_notify c"
    "pkt_cnt (wake_queues c) = pkt_cnt c" "selected_qnum (wake_queues c) = selected_qnum c"
  by (simp_all add: wake_queues_def wake_if_def ieee80211_wake_queue_def Let_def)

lemma send_dequeued_frame: "send_dequeued ops q skb c = (go, c') \<Longrightarrow> tx_queue c' = tx_queue c"
  by (auto simp: send_dequeued_def Let_def tx_unlock_def split: if_splits prod.splits)

lemma dequeue_result:
  assumes "rsi_core_dequeue_pkt c q = (Some skb, c')"
  shows "q < NUM_SOFT_QUEUES" "tx_queue c ! q = skb # tx_queue c' ! q \<or> length (tx_queue c) \<le> q"
    "\<exists>skbs. tx_queue c ! q = skb # skbs \<and> c' = c\<lparr>tx_queue := (tx_queue c)[q := skbs]\<rparr>"
  using assms by (auto simp: rsi_core_dequeue_pkt_def split: if_splits list.splits)

lemma qos_round_cases:
  assumes "qos_round ops c = (go, c')"
  obtains (stop) "\<not> go" "tx_queue c' = tx_queue c"
  | (sent) q skb skbs where "q < NUM_SOFT_QUEUES" "tx_queue c ! q = skb # skbs" "tx_queue c' = (tx_queue c)[q := skbs]"
proof -
  obtain q c1 where d: "rsi_core_determine_hal_queue c = (q, c1)" by fastforce
  note f = determine_frame [OF d]
  obtain st b where h: "check_hw_queue ops (below c1) q = (st, b)" by fastforce
  define c3 where "c3 = c1\<lparr>tx_lock_depth := tx_lock_depth c1 + 1, below := b\<rparr>"
  obtain r c4 where e: "rsi_core_dequeue_pkt c3 q = (r, c4)" by fastforce
  show thesis
  proof (cases "q = INVALID_QUEUE \<or> hibernate_resume c1 \<or>
      st \<le> 0 \<and> (q < MGMT_SOFT_Q \<or> \<not> peer_notify c3 \<and> q = MGMT_SOFT_Q)")
    case True
    then have "\<not> go" "tx_queue c' = tx_queue c1"
      using assms d h by (auto simp: qos_round_def Let_def c3_def tx_unlock_def split: if_splits)
    with f show thesis by (intro stop) auto
  next
    case False
    then have r: "qos_round ops c = (case r of None \<Rightarrow> (False, tx_unlock c4) | Some skb0 \<Rightarrow> send_dequeued ops q skb0 c4)"
      using d h e unfolding qos_round_def c3_def by (auto simp: Let_def)
    show thesis
    proof (cases r)
      case None
      with r e assms f show thesis
        by (intro stop) (auto simp: rsi_core_dequeue_pkt_def c3_def tx_unlock_def split: if_splits list.splits)
    next
      case (Some skb)
      from dequeue_result [OF e [unfolded Some]] obtain skbs where
        "q < NUM_SOFT_QUEUES" "tx_queue c3 ! q = skb # skbs" "c4 = c3\<lparr>tx_queue := (tx_queue c3)[q := skbs]\<rparr>" by auto
      moreover have "tx_queue c' = tx_queue c4"
        using r Some assms by (intro send_dequeued_frame [of ops q skb c4 go c']) simp
      ultimately show thesis using f by (intro sent [of q skb skbs]) (auto simp: c3_def)
    qed
  qed
qed

lemma qos_round_decreases:
  assumes "qos_round ops c = (True, c')" "length (tx_queue c) = NUM_SOFT_QUEUES"
  shows "queued c' < queued c"
  using assms(1)
proof (cases rule: qos_round_cases)
  case (sent q skb skbs)
  have q: "q < length (map length (tx_queue c))" using sent(1) assms(2) by simp
  have "queued c = sum_list ((map length (tx_queue c))[q := Suc (length skbs)])"
  proof -
    have "(map length (tx_queue c))[q := Suc (length skbs)] = map length (tx_queue c)"
      using sent(2) q list_update_same_conv [of q "map length (tx_queue c)"] by simp
    then show ?thesis by (simp add: queued_def)
  qed
  moreover have "queued c' = sum_list ((map length (tx_queue c))[q := length skbs])"
    using sent(3) by (simp add: queued_def map_update)
  ultimately show ?thesis
    using q elem_le_sum_list [OF q] by (simp add: sum_list_update)
qed simp

text \<open>
  The loop of \<open>rsi_core_qos_processor\<close>. The time stamps only decide when to yield to other
  threads (\<open>schedule\<close>) and are left out.
\<close>

function rsi_core_qos_processor :: "'b tx_ops \<Rightarrow> 'b tx_common \<Rightarrow> 'b tx_common" where
  "rsi_core_qos_processor ops c =
     (if length (tx_queue c) \<noteq> NUM_SOFT_QUEUES then c
      else let (go, c1) = qos_round ops c in if go then rsi_core_qos_processor ops c1 else c1)"
  by pat_completeness auto
termination
  by (relation "measure (\<lambda>(ops, c). queued c)") (auto intro: qos_round_decreases [OF sym])

declare rsi_core_qos_processor.simps [simp del]

section \<open>A frame from mac80211\<close>

definition xmit_fail :: "'b tx_common \<Rightarrow> tx_skb \<Rightarrow> 'b tx_common" where
  [rsi_defs]: "xmit_fail c skb = c\<lparr>dropped := dropped c @ [skb]\<rparr>"

definition rsi_indicate_tx_status :: "'b tx_common \<Rightarrow> tx_skb \<Rightarrow> 'b tx_common" where
  [rsi_defs]: "rsi_indicate_tx_status c skb =
     (if \<not> hw_present c \<or> iface_down c then c else c\<lparr>indicated := indicated c @ [skb]\<rparr>)"

text \<open>\<open>++total_tx_pkt_freed[skb->priority]\<close>; the array has \<open>NUM_EDCA_QUEUES + 2\<close> elements.\<close>

definition count_freed :: "'b tx_common \<Rightarrow> nat \<Rightarrow> 'b tx_common" where
  [rsi_defs]: "count_freed c i =
     (if i < NUM_EDCA_QUEUES + 2
      then c\<lparr>total_tx_pkt_freed := (total_tx_pkt_freed c)[i := total_tx_pkt_freed c ! i + 1]\<rparr>
      else c\<lparr>stats_overrun := True\<rparr>)"

subsection \<open>Management frames\<close>

abbreviation (input) PEER_NOTIFY :: u8 where "PEER_NOTIFY \<equiv> 8"

definition rsi_send_internal_mgmt_frame :: "'b tx_common \<Rightarrow> tx_skb \<Rightarrow> 'b tx_common" where
  "rsi_send_internal_mgmt_frame c skb =
     (let skb' = skb\<lparr>skb_data := (skb_data skb)[1 := skb_data skb ! 1 OR BIT 7], internal_pkt := True,
                    skb_priority := MGMT_SOFT_Q\<rparr>;
          q = tx_queue c ! MGMT_SOFT_Q
      in c\<lparr>tx_queue := (tx_queue c)[MGMT_SOFT_Q := if skb_data skb ! 2 = PEER_NOTIFY then skb' # q else q @ [skb']],
           tx_event := True\<rparr>)"

text \<open>The call of \<open>rsi_send_sta_notify_frame\<close>: a peer notification goes to the head of its queue.\<close>

definition notify_peer :: "'b tx_ops \<Rightarrow> 'b tx_common \<Rightarrow> 'b tx_common" where
  "notify_peer ops c =
     (case notify_frame ops (below c) of
        None \<Rightarrow> c
      | Some skb \<Rightarrow> rsi_send_internal_mgmt_frame (c\<lparr>peer_notify := True\<rparr>) skb)"

definition is_mgmt_path :: "tx_skb \<Rightarrow> bool" where
  "is_mgmt_path skb =
     (let fc = frame_control (skb_data skb)
      in \<not> encap skb \<and> (ieee80211_is_mgmt fc \<or> ieee80211_is_ctl fc \<or> ieee80211_is_qos_nullfunc fc))"

text \<open>
  The two branches of \<open>rsi_core_xmit\<close> up to the descriptor. \<open>Inl\<close>: the function has returned;
  \<open>Inr\<close>: the local \<open>q_num\<close> and the frame to queue.
\<close>

definition xmit_mgmt :: "'b tx_ops \<Rightarrow> 'b tx_common \<Rightarrow> tx_skb \<Rightarrow> 'b tx_common + nat \<times> tx_skb \<times> 'b tx_common" where
  "xmit_mgmt ops c skb =
     (let fc = frame_control (skb_data skb);
          c1 = (if ieee80211_is_assoc_req fc \<or> ieee80211_is_reassoc_req fc
                then notify_peer ops (c\<lparr>eapol4_confirm := False, start_bgscan := False\<rparr>) else c);
          (status, skb1, b) = prepare_mgmt ops (below c1) (skb\<lparr>skb_priority := MGMT_SOFT_Q\<rparr>);
          c2 = c1\<lparr>below := b\<rparr>
      in if status \<noteq> 0 then Inl (xmit_fail c2 skb1) else Inr (MGMT_SOFT_Q, skb1, c2))"

subsection \<open>Data frames: traffic identifier and access category\<close>

abbreviation (input) IEEE80211_NONQOS_TID :: nat where "IEEE80211_NONQOS_TID \<equiv> 16"
abbreviation (input) RSI_MAX_ASSOC_STAS :: nat where "RSI_MAX_ASSOC_STAS \<equiv> 32"

definition TID_TO_WME_AC :: "nat \<Rightarrow> nat" where
  "TID_TO_WME_AC tid = (if tid = 0 \<or> tid = 3 then BE_Q else if tid < 3 then BK_Q else if tid < 6 then VI_Q else VO_Q)"

text \<open>
  \<open>ieee80211_get_qos_ctl\<close>: the QoS control field follows the fourth address when there is one.
\<close>

definition qos_ctl_offset :: "u16 \<Rightarrow> nat" where
  "qos_ctl_offset fc = (if fc AND 0x0300 = 0x0300 then 30 else 24)"

definition ntohl :: "u32 \<Rightarrow> u32" where
  "ntohl x = push_bit 24 (x AND 0xFF) OR push_bit 8 (x AND 0xFF00) OR drop_bit 8 (x AND 0xFF0000) OR drop_bit 24 x"

text \<open>
  The precedence of an Ethernet frame; \<open>cpu_to_le16\<close> keeps 16 of the 32 bits read from
  offset 14.
\<close>

definition encap_tos :: "u8 list \<Rightarrow> u8" where
  "encap_tos d =
     (if d ! 12 = 0x86 \<and> d ! 13 = 0xDD
      then drop_bit 5 (ucast (drop_bit 20 (ntohl (ucast (ucast (d ! 14) OR push_bit 8 (ucast (d ! 15)) :: u16)))))
      else drop_bit 5 (d ! 15))"

text \<open>\<open>tid\<close> and \<open>skb->priority\<close>.\<close>

definition frame_tid :: "tx_skb \<Rightarrow> nat \<times> nat" where
  "frame_tid skb =
     (let d = skb_data skb; fc = frame_control d
      in if encap skb then (let tos = unat (encap_tos d) in (tos, TID_TO_WME_AC tos))
         else if ieee80211_is_data_qos fc
         then (let tid = unat (d ! qos_ctl_offset fc AND 0xF) in (tid, TID_TO_WME_AC tid))
         else (IEEE80211_NONQOS_TID, BE_Q))"

subsection \<open>Data frames: the peer and its aggregation sessions\<close>

definition rsi_find_sta :: "'b tx_common \<Rightarrow> u8 list \<Rightarrow> nat option" where
  "rsi_find_sta c mac =
     List.find (\<lambda>i. case sta_addr (stations c ! i) of
                      None \<Rightarrow> False
                    | Some addr \<Rightarrow> is_broadcast_ether_addr mac \<or> addr = mac) [0..<max_stations c]"

datatype peer = Peer nat | No_Peer | Peer_Unknown

definition unicast_peer :: "'b tx_common \<Rightarrow> u8 list \<Rightarrow> peer" where
  "unicast_peer c dst =
     (if is_broadcast_ether_addr dst \<or> is_multicast_ether_addr dst then No_Peer
      else if vif_type c = NL80211_IFTYPE_AP \<or> vif_type c = NL80211_IFTYPE_P2P_GO
      then (case rsi_find_sta c dst of None \<Rightarrow> Peer_Unknown | Some i \<Rightarrow> Peer i)
      else if vif_type c = NL80211_IFTYPE_STATION then Peer RSI_MAX_ASSOC_STAS
      else No_Peer)"

definition group_peer :: "'b tx_common \<Rightarrow> u8 list \<Rightarrow> nat option" where
  "group_peer c dst =
     (if vif_type c = NL80211_IFTYPE_AP then rsi_find_sta c dst
      else if vif_type c = NL80211_IFTYPE_STATION then Some RSI_MAX_ASSOC_STAS
      else None)"

definition start_aggregation :: "'b tx_common \<Rightarrow> nat \<Rightarrow> nat \<Rightarrow> tx_skb \<Rightarrow> 'b tx_common" where
  "start_aggregation c i tid skb =
     (let sta = stations c ! i
      in if \<not> start_tx_aggr sta tid \<and> \<not> port_ctrl skb
         then c\<lparr>stations := (stations c)[i := sta\<lparr>start_tx_aggr := (start_tx_aggr sta)(tid := True)\<rparr>],
                ba_sessions := ba_sessions c @ [(i, tid)]\<rparr>
         else c)"

text \<open>The entry of the station table for the frame, or None (\<open>goto xmit_fail\<close>).\<close>

definition choose_peer :: "'b tx_common \<Rightarrow> nat \<Rightarrow> tx_skb \<Rightarrow> (nat \<times> 'b tx_common) option" where
  "choose_peer c tid skb =
     (let dst = (if encap skb then h_dest (skb_data skb) else wlh_addr1 (skb_data skb))
      in case unicast_peer c dst of
           Peer_Unknown \<Rightarrow> None
         | Peer i \<Rightarrow> Some (i, start_aggregation c i tid skb)
         | No_Peer \<Rightarrow> map_option (\<lambda>i. (i, c)) (group_peer c dst))"

subsection \<open>Data frames\<close>

definition is_eapol :: "'b tx_common \<Rightarrow> tx_skb \<Rightarrow> bool" where
  "is_eapol c skb =
     (vif_type c = NL80211_IFTYPE_STATION \<and> (skb_protocol skb = ETH_P_PAE \<or> skb_protocol skb = ETH_P_802_3) \<or>
      vif_type c = NL80211_IFTYPE_AP \<and> skb_protocol skb = ETH_P_PAE)"

definition bgscan_null :: "'b tx_common \<Rightarrow> tx_skb \<Rightarrow> bool" where
  "bgscan_null c skb =
     (let fc = frame_control (skb_data skb)
      in \<not> encap skb \<and> vif_type c = NL80211_IFTYPE_STATION \<and> bgscan_en c \<and>
         (ieee80211_is_qos_nullfunc fc \<or> ieee80211_is_nullfunc fc))"

text \<open>The priority test for broadcasts of an access point reads \<open>addr1\<close> of an Ethernet frame too.\<close>

definition data_priority :: "'b tx_common \<Rightarrow> tx_skb \<Rightarrow> nat" where
  "data_priority c skb =
     (if vif_type c = NL80211_IFTYPE_AP \<and> is_broadcast_ether_addr (wlh_addr1 (skb_data skb)) then VO_Q
      else snd (frame_tid skb))"

text \<open>
  \<open>rsi_prepare_data_desc\<close> reports the status of a frame it rejects (label \<open>err\<close>), and
  \<open>rsi_core_xmit\<close> then frees the frame again.
\<close>

definition xmit_data :: "'b tx_ops \<Rightarrow> 'b tx_common \<Rightarrow> tx_skb \<Rightarrow> 'b tx_common + nat \<times> tx_skb \<times> 'b tx_common" where
  "xmit_data ops c skb =
     (if bgscan_null c skb
      then Inl (rsi_indicate_tx_status (count_freed c (skb_priority skb)) skb)
      else
        let tid = fst (frame_tid skb);
            skb1 = skb\<lparr>skb_priority := data_priority c skb, skb_tid := tid\<rparr>
        in case choose_peer c tid skb1 of
             None \<Rightarrow> Inl (xmit_fail c skb1)
           | Some (i, c1) \<Rightarrow>
             let skb2 = skb1\<lparr>skb_sta_id := sta_id (stations c1 ! i)\<rparr>;
                 skb3 = (if is_eapol c1 skb2 then skb2\<lparr>skb_priority := MGMT_SOFT_Q\<rparr> else skb2);
                 (status, skb4, b) = prepare_data ops (below c1) skb3;
                 c2 = c1\<lparr>below := b\<rparr>
             in if status \<noteq> 0
                then Inl (xmit_fail (rsi_indicate_tx_status (count_freed c2 (skb_priority skb4)) skb4) skb4)
                else Inr (skb_priority skb3, skb4, c2))"

subsection \<open>Queueing, and stopping mac80211\<close>

definition stop_all :: "nat list \<Rightarrow> 'b tx_common \<Rightarrow> 'b tx_common" where
  [rsi_defs]: "stop_all qs c = fold (\<lambda>q c. ieee80211_stop_queue c q) qs c"

definition stop_long_queue :: "'b tx_common \<Rightarrow> nat \<Rightarrow> 'b tx_common" where
  "stop_long_queue c q_num =
     (if unat (ucast (host_txq_maxlen c ! q_num) - 3 :: u32) < q_len c q_num
      then (let c1 = ieee80211_stop_queue c q_num
            in if acm (edca_params c ! VI_Q) then ieee80211_stop_queue c1 VI_Q else c1)
      else c)"

definition stop_others :: "'b tx_common \<Rightarrow> 'b tx_common" where
  "stop_others c =
     (if aifs (edca_params c ! BE_Q) < aifs (edca_params c ! VI_Q)
      then (if 5 < q_len c BE_Q then stop_all [VI_Q, VO_Q, BK_Q] c
            else if 10 < q_len c BK_Q then stop_all [VO_Q, VI_Q] c
            else if 10 < q_len c VO_Q then stop_all [VI_Q] c
            else c)
      else (if 15 < q_len c VO_Q then stop_all [VI_Q, BE_Q, BK_Q] c
            else if 30 < q_len c VI_Q then stop_all [BE_Q, BK_Q] c
            else if 60 < q_len c BE_Q then stop_all [BK_Q] c
            else c))"

definition rsi_core_xmit :: "'b tx_ops \<Rightarrow> 'b tx_common \<Rightarrow> tx_skb \<Rightarrow> 'b tx_common" where
  "rsi_core_xmit ops c skb =
     (if skb_data skb = [] then xmit_fail c skb
      else if \<not> mac_init_done c then xmit_fail c skb
      else case (if is_mgmt_path skb then xmit_mgmt ops c skb else xmit_data ops c skb) of
        Inl c1 \<Rightarrow> c1
      | Inr (q_num, skb1, c1) \<Rightarrow>
          let c2 = (rsi_core_queue_pkt c1 skb1)\<lparr>tx_event := True\<rparr>
          in if q_num \<noteq> MGMT_SOFT_Q then stop_others (stop_long_queue c2 q_num) else c2)"

section \<open>What the selection guarantees\<close>

text \<open>
  A burst never outlives the packets it was granted for: the invariant of the scheduler state.
\<close>

definition sched_ok :: "'b tx_common \<Rightarrow> bool" where
  "sched_ok c \<longleftrightarrow> length (tx_queue c) = NUM_SOFT_QUEUES \<and>
     (pkt_cnt c \<noteq> 0 \<longrightarrow> selected_qnum c < NUM_EDCA_QUEUES \<and> pkt_cnt c \<le> q_len c (selected_qnum c))"

lemma select_round_empty:
  assumes "select_round c = (q, r, c')" "q_len c MGMT_SOFT_Q = 0" "q_len c' q = 0"
  shows "fresh_queues c' = {}" "r \<longleftrightarrow> (\<exists>ii < NUM_EDCA_QUEUES. q_len c ii \<noteq> 0)"
proof -
  note s = select_round_result [OF assms(1)]
  have q: "q = NUM_EDCA_QUEUES" using s(1,2) assms(3) by (auto simp: q_len_def)
  obtain q0 c1 where 1: "rsi_determine_min_weight_queue c = (q0, c1)" by fastforce
  obtain q1 c2 where 2: "least_backoff [q0..<NUM_EDCA_QUEUES] q0 c1 = (q1, c2)" by fastforce
  have eq: "tx_qinfo c2 = tx_qinfo c" "tx_queue c2 = tx_queue c"
    using least_backoff_frame [OF 2] 1
    by (auto simp: rsi_determine_min_weight_queue_def Let_def split: if_splits)
  have "rsi_recalculate_weights c2 = (r, c')"
    using assms(1) 1 2 q by (auto simp: select_round_def Let_def split: prod.splits if_splits)
  note r = recalc_contends [OF this]
  show "fresh_queues c' = {}" by (rule r(1))
  have "fresh_queues c2 = {ii. ii < NUM_EDCA_QUEUES \<and> q_len c ii \<noteq> 0}"
    using s(3) [OF q] eq by (auto simp: fresh_queues_def q_len_def)
  then show "r \<longleftrightarrow> (\<exists>ii < NUM_EDCA_QUEUES. q_len c ii \<noteq> 0)" using r(2) by auto
qed

text \<open>
  The selection fails only when the four data queues are empty: a queue with packets that is
  not contended yet is contended by the first round and found by the second.
\<close>

lemma select_queue_result:
  assumes "select_queue c = (q, c')" "q_len c MGMT_SOFT_Q = 0"
  shows "q < NUM_EDCA_QUEUES \<and> q_len c q \<noteq> 0 \<or> q = INVALID_QUEUE \<and> (\<forall>ii < NUM_EDCA_QUEUES. q_len c ii = 0)"
  using assms
proof (induction c rule: select_queue.induct)
  case (1 c)
  obtain q1 r c1 where s: "select_round c = (q1, r, c1)" by (metis prod_cases3)
  note t = select_round_result [OF s]
  have len: "q_len c1 x = q_len c x" for x using t(1) by (simp add: q_len_def)
  show ?case
  proof (cases "q_len c1 q1 = 0")
    case True
    note e = select_round_empty [OF s "1.prems"(2) True]
    show ?thesis
    proof (cases r)
      case True
      with \<open>q_len c1 q1 = 0\<close> s "1.prems"(1) have "select_queue c1 = (q, c')"
        by (subst (asm) select_queue.simps) simp
      with "1.IH" [OF s [symmetric] refl refl \<open>q_len c1 q1 = 0\<close> True this] "1.prems"(2) show ?thesis by (simp add: len)
    next
      case False
      with \<open>q_len c1 q1 = 0\<close> s "1.prems"(1) have "q = INVALID_QUEUE"
        by (subst (asm) select_queue.simps) simp
      with e False show ?thesis by auto
    qed
  next
    case False
    then have "q = q1" using s "1.prems"(1) by (subst (asm) select_queue.simps) simp
    then show ?thesis using t(2) False "1.prems"(2) by (auto simp: len)
  qed
qed

lemma select_round_pkt_cnt:
  assumes "select_round c = (q, r, c')"
  shows "pkt_cnt c' = pkt_cnt c \<and> selected_qnum c' = selected_qnum c"
proof -
  have lb: "least_backoff iis q c = (q', c') \<Longrightarrow> pkt_cnt c' = pkt_cnt c \<and> selected_qnum c' = selected_qnum c" for iis q c q' c'
    by (induction iis q c rule: least_backoff.induct) (auto split: if_splits)
  show ?thesis
    using assms
    by (auto simp: select_round_def rsi_determine_min_weight_queue_def rsi_recalculate_weights_def Let_def
        split: prod.splits if_splits dest!: lb)
qed

lemma select_queue_pkt_cnt: "select_queue c = (q, c') \<Longrightarrow> pkt_cnt c' = pkt_cnt c \<and> selected_qnum c' = selected_qnum c"
proof (induction c rule: select_queue.induct)
  case (1 c)
  obtain q1 r c1 where s: "select_round c = (q1, r, c1)" by (metis prod_cases3)
  note t = select_round_pkt_cnt [OF s]
  show ?case
    using "1.prems" "1.IH" [OF s [symmetric] refl] s t
    by (subst (asm) select_queue.simps) (auto split: if_splits)
qed

text \<open>The result of the whole selection, with the invariant carried over.\<close>

lemma determine_result:
  assumes "rsi_core_determine_hal_queue c = (q, c')" "sched_ok c"
  shows "q = INVALID_QUEUE \<or> q < NUM_SOFT_QUEUES \<and> q_len c q \<noteq> 0"
    "sched_ok c'" "q < NUM_EDCA_QUEUES \<Longrightarrow> pkt_cnt c' = 0 \<or> selected_qnum c' = q \<and> pkt_cnt c' < q_len c q"
proof -
  have all: "(q = INVALID_QUEUE \<or> q < NUM_SOFT_QUEUES \<and> q_len c q \<noteq> 0) \<and> sched_ok c' \<and>
      (q < NUM_EDCA_QUEUES \<longrightarrow> pkt_cnt c' = 0 \<or> selected_qnum c' = q \<and> pkt_cnt c' < q_len c q)"
  proof (cases "q_len c MGMT_BEACON_Q \<noteq> 0 \<or> q_len c MGMT_SOFT_Q \<noteq> 0 \<or> hw_data_qs_blocked c \<or> pkt_cnt c \<noteq> 0")
    case True
    then show ?thesis
      using assms by (auto simp: rsi_core_determine_hal_queue_def sched_ok_def split: if_splits)
  next
    case False
    obtain q1 c1 where s: "select_queue c = (q1, c1)" by fastforce
    note f = select_queue_frame [OF s] and k = select_queue_pkt_cnt [OF s]
    have len: "q_len c1 x = q_len c x" for x using f by (simp add: q_len_def)
    from False have mq: "q_len c MGMT_SOFT_Q = 0" by simp
    show ?thesis
    proof (cases "q1 = INVALID_QUEUE")
      case True
      then show ?thesis
        using assms False s f k by (auto simp: rsi_core_determine_hal_queue_def sched_ok_def)
    next
      case q1: False
      then have "q1 < NUM_EDCA_QUEUES \<and> q_len c q1 \<noteq> 0"
        using select_queue_result [OF s mq] by simp
      moreover have "q = q1" "c' = set_burst (c1\<lparr>selected_qnum := q1\<rparr>) q1"
        using assms(1) False q1 s by (auto simp: rsi_core_determine_hal_queue_def)
      ultimately show ?thesis
        using assms(2) False f k by (auto simp: sched_ok_def set_burst_def Let_def len)
    qed
  qed
  show "q = INVALID_QUEUE \<or> q < NUM_SOFT_QUEUES \<and> q_len c q \<noteq> 0"
    "sched_ok c'" "q < NUM_EDCA_QUEUES \<Longrightarrow> pkt_cnt c' = 0 \<or> selected_qnum c' = q \<and> pkt_cnt c' < q_len c q"
    using all by auto
qed

lemma determine_invalid:
  assumes "rsi_core_determine_hal_queue c = (INVALID_QUEUE, c')" "sched_ok c" "\<not> hw_data_qs_blocked c"
  shows "\<forall>q < NUM_SOFT_QUEUES. q_len c q = 0"
proof -
  have empty: "q_len c MGMT_BEACON_Q = 0" "q_len c MGMT_SOFT_Q = 0" "pkt_cnt c = 0"
    using assms by (auto simp: rsi_core_determine_hal_queue_def sched_ok_def split: if_splits)
  obtain q1 c1 where s: "select_queue c = (q1, c1)" by fastforce
  have "q1 = INVALID_QUEUE"
    using assms empty s by (auto simp: rsi_core_determine_hal_queue_def split: if_splits)
  with select_queue_result [OF s empty(2)] have "\<forall>ii < NUM_EDCA_QUEUES. q_len c ii = 0" by simp
  moreover have "q < NUM_EDCA_QUEUES \<or> q = MGMT_SOFT_Q \<or> q = MGMT_BEACON_Q" if "q < NUM_SOFT_QUEUES" for q
    using that by auto
  ultimately show ?thesis using empty by auto
qed

subsection \<open>The least weight\<close>

text \<open>
  \<open>min_weight\<close> has 8 bits and the weights 32; as long as the weights fit, a round selects a
  contended queue with packets of least weight.
\<close>

definition candidate :: "'b tx_common \<Rightarrow> nat \<Rightarrow> bool" where
  "candidate c q \<longleftrightarrow> q < NUM_EDCA_QUEUES \<and> pkt_contended (tx_qinfo c ! q) \<and> q_len c q \<noteq> 0"

definition weights_fit :: "'b tx_common \<Rightarrow> bool" where
  "weights_fit c \<longleftrightarrow> (\<forall>q < NUM_EDCA_QUEUES. 0 \<le> weight (tx_qinfo c ! q) \<and> weight (tx_qinfo c ! q) < 256)"

lemma uint_fit: "0 \<le> w \<Longrightarrow> w < 256 \<Longrightarrow> uint (word_of_int w :: u8) = w"
  by (simp add: uint_word_of_int)

lemma candidate_update [simp]: "candidate (c\<lparr>min_weight := w\<rparr>) q = candidate c q"
  by (simp add: candidate_def)

lemma weights_fit_update [simp]: "weights_fit (c\<lparr>min_weight := w\<rparr>) = weights_fit c"
  by (simp add: weights_fit_def)

lemma least_backoff_least:
  "least_backoff iis q c = (q', c') \<Longrightarrow> weights_fit c \<Longrightarrow> set iis \<subseteq> {..<NUM_EDCA_QUEUES} \<Longrightarrow>
   uint (min_weight c) = weight (tx_qinfo c ! q) \<Longrightarrow> candidate c q \<Longrightarrow>
   candidate c q' \<and> weight (tx_qinfo c ! q') \<le> weight (tx_qinfo c ! q) \<and>
   (\<forall>ii \<in> set iis. candidate c ii \<longrightarrow> weight (tx_qinfo c ! q') \<le> weight (tx_qinfo c ! ii))"
proof (induction iis q c rule: least_backoff.induct)
  case (1 q c)
  then show ?case by simp
next
  case (2 ii iis q c)
  show ?case
  proof (cases "candidate c ii \<and> weight (tx_qinfo c ! ii) < uint (min_weight c)")
    case True
    then have w: "0 \<le> weight (tx_qinfo c ! ii)" "weight (tx_qinfo c ! ii) < 256"
      using "2.prems"(2) by (auto simp: weights_fit_def candidate_def)
    have step: "least_backoff iis ii (c\<lparr>min_weight := word_of_int (weight (tx_qinfo c ! ii))\<rparr>) = (q', c')"
      using True "2.prems"(1) by (simp add: candidate_def)
    show ?thesis
      using "2.IH"(1) [OF _ step] True "2.prems"(2-5) uint_fit [OF w] by (auto simp: candidate_def)
  next
    case False
    then have n: "\<not> (pkt_contended (tx_qinfo c ! ii) \<and> weight (tx_qinfo c ! ii) < uint (min_weight c) \<and> q_len c ii \<noteq> 0)"
      using "2.prems"(3) by (auto simp: candidate_def)
    then have step: "least_backoff iis q c = (q', c')"
      using "2.prems"(1) by (simp del: not_gr_zero split: if_splits) 
    show ?thesis
      using "2.IH"(2) [OF n step] "2.prems"(2-5) False by auto
  qed
qed

lemma first_contended_first:
  "first_contended c iis = ii \<Longrightarrow> sorted iis \<Longrightarrow> set iis \<subseteq> {..<NUM_EDCA_QUEUES} \<Longrightarrow> j \<in> set iis \<Longrightarrow> candidate c j \<Longrightarrow>
   candidate c ii \<and> ii \<le> j"
  by (induction iis) (auto simp: candidate_def split: if_splits)

lemma select_round_least:
  assumes "select_round c = (q, r, c')" "weights_fit c" "candidate c j"
  shows "candidate c q" "weight (tx_qinfo c ! q) \<le> weight (tx_qinfo c ! j)"
proof -
  obtain q0 c1 where 1: "rsi_determine_min_weight_queue c = (q0, c1)" by fastforce
  obtain q1 c2 where 2: "least_backoff [q0..<NUM_EDCA_QUEUES] q0 c1 = (q1, c2)" by fastforce
  have q: "q = q1"
    using assms 1 2 by (auto simp: select_round_def Let_def split: prod.splits if_splits)
  have "first_contended c [0..<NUM_EDCA_QUEUES] = q0"
    using 1 by (auto simp: rsi_determine_min_weight_queue_def Let_def split: if_splits)
  from first_contended_first [OF this, of j] assms(3) have q0: "candidate c q0" "q0 \<le> j"
    by (auto simp: candidate_def subset_eq)
  then have c1: "c1 = c\<lparr>min_weight := word_of_int (weight (tx_qinfo c ! q0))\<rparr>"
    using 1 by (auto simp: rsi_determine_min_weight_queue_def Let_def candidate_def split: if_splits)
  have u: "uint (word_of_int (weight (tx_qinfo c ! q0)) :: u8) = weight (tx_qinfo c ! q0)"
    using assms(2) q0 by (intro uint_fit) (auto simp: weights_fit_def candidate_def)
  have "candidate c1 q1 \<and> (\<forall>ii \<in> set [q0..<NUM_EDCA_QUEUES]. candidate c1 ii \<longrightarrow> weight (tx_qinfo c1 ! q1) \<le> weight (tx_qinfo c1 ! ii))"
    using least_backoff_least [OF 2] assms(2) q0 u by (simp add: c1 subset_eq)
  moreover have "j \<in> set [q0..<NUM_EDCA_QUEUES]" using q0 assms(3) by (simp add: candidate_def)
  ultimately show "candidate c q" "weight (tx_qinfo c ! q) \<le> weight (tx_qinfo c ! j)"
    using assms(3) by (auto simp: q c1)
qed

section \<open>What the loop guarantees\<close>

text \<open>The selection only touches its own bookkeeping.\<close>

lemma least_backoff_only: "least_backoff iis q c = (q', c') \<Longrightarrow> \<exists>w. c' = c\<lparr>min_weight := w\<rparr>"
proof (induction iis q c rule: least_backoff.induct)
  case (1 q c)
  then show ?case by (auto intro: exI [of _ "min_weight c"])
next
  case (2 ii iis q c)
  then show ?case by (fastforce split: if_splits)
qed

lemma select_round_only: "select_round c = (q, r, c') \<Longrightarrow> \<exists>w x. c' = c\<lparr>min_weight := w, tx_qinfo := x\<rparr>"
proof -
  assume a: "select_round c = (q, r, c')"
  obtain q0 c1 where 1: "rsi_determine_min_weight_queue c = (q0, c1)" by fastforce
  obtain q1 c2 where 2: "least_backoff [q0..<NUM_EDCA_QUEUES] q0 c1 = (q1, c2)" by fastforce
  have "\<exists>w. c1 = c\<lparr>min_weight := w\<rparr>"
    using 1 by (auto simp: rsi_determine_min_weight_queue_def Let_def split: if_splits intro: exI [of _ "min_weight c"])
  moreover obtain w where "c2 = c1\<lparr>min_weight := w\<rparr>" using least_backoff_only [OF 2] by blast
  ultimately obtain w' where "c2 = c\<lparr>min_weight := w'\<rparr>" by auto
  then show ?thesis
    using a 1 2 by (auto simp: select_round_def rsi_recalculate_weights_def Let_def intro!: exI [of _ w'])
qed

lemma select_queue_only: "select_queue c = (q, c') \<Longrightarrow> \<exists>w x. c' = c\<lparr>min_weight := w, tx_qinfo := x\<rparr>"
proof (induction c rule: select_queue.induct)
  case (1 c)
  obtain q1 r c1 where s: "select_round c = (q1, r, c1)" by (metis prod_cases3)
  from select_round_only [OF s] obtain w x where c1: "c1 = c\<lparr>min_weight := w, tx_qinfo := x\<rparr>" by blast
  show ?case
  proof (cases "q_len c1 q1 = 0 \<and> r")
    case True
    then have "select_queue c1 = (q, c')" using "1.prems" s by (subst (asm) select_queue.simps) simp
    with "1.IH" [OF s [symmetric] refl refl] True have "\<exists>w x. c' = c1\<lparr>min_weight := w, tx_qinfo := x\<rparr>" by simp
    then show ?thesis by (auto simp: c1)
  next
    case False
    then have "c' = c1" using "1.prems" s by (subst (asm) select_queue.simps) (auto split: if_splits)
    then show ?thesis using c1 by blast
  qed
qed

lemma determine_only:
  assumes "rsi_core_determine_hal_queue c = (q, c')"
  shows "\<exists>w x n s. c' = c\<lparr>min_weight := w, tx_qinfo := x, pkt_cnt := n, selected_qnum := s\<rparr>"
proof -
  obtain q1 c1 where s: "select_queue c = (q1, c1)" by fastforce
  from select_queue_only [OF s] obtain w x where c1: "c1 = c\<lparr>min_weight := w, tx_qinfo := x\<rparr>" by auto
  have "c' = c \<or> c' = c\<lparr>pkt_cnt := pkt_cnt c - 1\<rparr> \<or> c' = c1 \<or> c' = set_burst (c1\<lparr>selected_qnum := q1\<rparr>) q1"
    using assms s by (auto simp: rsi_core_determine_hal_queue_def split: if_splits)
  moreover have "\<exists>n. set_burst (c1\<lparr>selected_qnum := q1\<rparr>) q1 =
      c\<lparr>min_weight := w, tx_qinfo := x, pkt_cnt := n, selected_qnum := q1\<rparr>"
    by (rule exI [of _ "pkt_cnt (set_burst (c1\<lparr>selected_qnum := q1\<rparr>) q1)"]) (simp add: c1 set_burst_def Let_def)
  moreover have "c = c\<lparr>min_weight := min_weight c, tx_qinfo := tx_qinfo c, pkt_cnt := pkt_cnt c, selected_qnum := selected_qnum c\<rparr>"
    "c\<lparr>pkt_cnt := pkt_cnt c - 1\<rparr> =
      c\<lparr>min_weight := min_weight c, tx_qinfo := tx_qinfo c, pkt_cnt := pkt_cnt c - 1, selected_qnum := selected_qnum c\<rparr>"
    "c1 = c\<lparr>min_weight := w, tx_qinfo := x, pkt_cnt := pkt_cnt c, selected_qnum := selected_qnum c\<rparr>"
    by (simp_all add: c1)
  ultimately show ?thesis by metis
qed

end
