(* ===== verification/Tx_Loop.thy ===== *)
theory Tx_Loop
  imports Tx_Sched
begin

text \<open>
  The properties of the transmit scheduler of theory \<open>Tx_Sched\<close>: what the choice of the queue
  guarantees, that the loop serves every queue in order and loses nothing while the interface
  exists, that it empties all queues when the device accepts everything, and what becomes of
  a frame handed over by mac80211.
\<close>

section \<open>One round\<close>

definition aligned :: "tx_skb \<Rightarrow> tx_skb" where
  "aligned skb = (if data_addr skb mod 8 \<noteq> 0 then rsi_get_aligned_skb skb else skb)"

text \<open>The packets of a log of handed packets that came from queue \<open>q\<close>.\<close>

definition served :: "(nat \<times> tx_skb) list \<Rightarrow> nat \<Rightarrow> tx_skb list" where
  "served log q = map snd (filter (\<lambda>e. fst e = q) log)"

lemma served_simps [simp]: "served [] q = []" "served (xs @ ys) q = served xs q @ served ys q"
    "served [(p, skb)] q = (if p = q then [skb] else [])"
  by (simp_all add: served_def)

definition ready :: "'b tx_common \<Rightarrow> bool" where
  "ready c \<longleftrightarrow> hw_present c \<and> \<not> hibernate_resume c \<and> \<not> hw_data_qs_blocked c"

lemma wake_queues_flags [simp]: "hw_present (wake_queues c) = hw_present c"
    "hibernate_resume (wake_queues c) = hibernate_resume c" "hw_data_qs_blocked (wake_queues c) = hw_data_qs_blocked c"
  by (simp_all add: wake_queues_def wake_if_def ieee80211_wake_queue_def Let_def)

lemma send_dequeued_spec:
  assumes "send_dequeued ops q skb c = (go, c')" "hw_present c"
  shows "tx_queue c' = tx_queue c \<and> handed c' = handed c @ [(q, aligned skb)] \<and> leaked c' = leaked c \<and>
    dropped c' = dropped c \<and> below c' = snd (send_by_queue ops q (below c) (aligned skb)) \<and>
    tx_lock_depth c' = tx_lock_depth c - 1 \<and> pkt_cnt c' = pkt_cnt c \<and> selected_qnum c' = selected_qnum c \<and>
    hw_present c' = hw_present c \<and> hibernate_resume c' = hibernate_resume c \<and> hw_data_qs_blocked c' = hw_data_qs_blocked c"
  using assms by (auto simp: send_dequeued_def Let_def tx_unlock_def aligned_def split: if_splits prod.splits)

definition same_switches :: "'b tx_common \<Rightarrow> 'b tx_common \<Rightarrow> bool" where
  [rsi_defs]: "same_switches c c' \<longleftrightarrow> leaked c' = leaked c \<and> dropped c' = dropped c \<and> tx_lock_depth c' = tx_lock_depth c \<and>
     hw_present c' = hw_present c \<and> hibernate_resume c' = hibernate_resume c \<and> hw_data_qs_blocked c' = hw_data_qs_blocked c"

lemma same_switches_trans: "same_switches a b \<Longrightarrow> same_switches b c \<Longrightarrow> same_switches a c"
  by (simp add: same_switches_def)

text \<open>The loop body: it stops with nothing taken, or hands the head of one queue over.\<close>

lemma qos_round_spec:
  assumes "qos_round ops c = (go, c')" "sched_ok c" "hw_present c"
  shows "sched_ok c' \<and> same_switches c c' \<and>
    (\<not> go \<and> tx_queue c' = tx_queue c \<and> handed c' = handed c \<and>
       (below c' = below c \<or> (\<exists>q. below c' = snd (check_hw_queue ops (below c) q))) \<or>
     (\<exists>q skb skbs. q < NUM_SOFT_QUEUES \<and> tx_queue c ! q = skb # skbs \<and> tx_queue c' = (tx_queue c)[q := skbs] \<and>
        handed c' = handed c @ [(q, aligned skb)] \<and>
        below c' = snd (send_by_queue ops q (snd (check_hw_queue ops (below c) q)) (aligned skb))))"
proof -
  obtain q c1 where d: "rsi_core_determine_hal_queue c = (q, c1)" by fastforce
  obtain w x n s where c1: "c1 = c\<lparr>min_weight := w, tx_qinfo := x, pkt_cnt := n, selected_qnum := s\<rparr>"
    using determine_only [OF d] by (elim exE)
  note dr = determine_result [OF d assms(2)]
  obtain st b where h: "check_hw_queue ops (below c1) q = (st, b)" by fastforce
  define c3 where "c3 = c1\<lparr>tx_lock_depth := tx_lock_depth c1 + 1, below := b\<rparr>"
  show ?thesis
  proof (cases "q = INVALID_QUEUE \<or> hibernate_resume c1 \<or>
      st \<le> 0 \<and> (q < MGMT_SOFT_Q \<or> \<not> peer_notify c3 \<and> q = MGMT_SOFT_Q)")
    case True
    then have r: "\<not> go \<and> (c' = c1 \<or> c' = tx_unlock c3)"
      using assms(1) d h by (auto simp: qos_round_def Let_def c3_def split: if_splits)
    have "sched_ok c1" by (rule dr(2))
    moreover have "sched_ok (tx_unlock c3) = sched_ok c1"
      by (simp add: c3_def tx_unlock_def sched_ok_def q_len_def)
    moreover have "b = snd (check_hw_queue ops (below c) q)" using h by (simp add: c1)
    ultimately show ?thesis
      using r by (elim conjE disjE) (auto simp: c3_def tx_unlock_def c1 same_switches_def)
  next
    case False
    then have q: "q < NUM_SOFT_QUEUES" "q_len c q \<noteq> 0" using dr(1) by auto
    then obtain skb skbs where cq: "tx_queue c ! q = skb # skbs"
      by (cases "tx_queue c ! q") (auto simp: q_len_def)
    define c4 where "c4 = c3\<lparr>tx_queue := (tx_queue c)[q := skbs]\<rparr>"
    have "rsi_core_dequeue_pkt c3 q = (Some skb, c4)"
      using q cq by (simp add: rsi_core_dequeue_pkt_def c4_def c3_def c1)
    then have "send_dequeued ops q skb c4 = (go, c')"
      using assms(1) False d h by (auto simp: qos_round_def Let_def c3_def)
    note sd = send_dequeued_spec [OF this]
    have "hw_present c4" using assms(3) by (simp add: c4_def c3_def c1)
    note sd = sd [OF this]
    have len: "length (tx_queue c) = NUM_SOFT_QUEUES" using assms(2) by (simp add: sched_ok_def)
    have "sched_ok c'"
    proof (cases "q < NUM_EDCA_QUEUES")
      case True
      then show ?thesis
        using sd dr(3) cq q len by (auto simp: sched_ok_def c4_def c3_def c1 q_len_def)
    next
      case False
      then show ?thesis
        using sd dr(2) q len by (auto simp: sched_ok_def c4_def c3_def c1 q_len_def)
    qed
    moreover have "same_switches c c'" "tx_queue c' = (tx_queue c)[q := skbs]" "handed c' = handed c @ [(q, aligned skb)]"
      using sd by (simp_all add: same_switches_def c4_def c3_def c1)
    moreover have "below c' = snd (send_by_queue ops q (snd (check_hw_queue ops (below c) q)) (aligned skb))"
      using sd h by (simp add: c4_def c3_def c1)
    ultimately show ?thesis using q cq by blast
  qed
qed

section \<open>Order and completeness\<close>

text \<open>\<open>in_order c c'\<close>: what left queue \<open>q\<close> is its front part, handed over in its order.\<close>

definition in_order :: "'b tx_common \<Rightarrow> 'b tx_common \<Rightarrow> bool" where
  "in_order c c' \<longleftrightarrow>
     (\<exists>log. handed c' = handed c @ log \<and>
        (\<forall>q < NUM_SOFT_QUEUES. \<exists>front. tx_queue c ! q = front @ tx_queue c' ! q \<and> map aligned front = served log q))"

lemma in_order_refl: "tx_queue c' = tx_queue c \<Longrightarrow> handed c' = handed c \<Longrightarrow> in_order c c'"
  by (auto simp: in_order_def)

lemma in_order_trans:
  assumes "in_order a b" "in_order b c"
  shows "in_order a c"
proof -
  obtain l1 l2 where l1: "handed b = handed a @ l1"
      "\<forall>q < NUM_SOFT_QUEUES. \<exists>front. tx_queue a ! q = front @ tx_queue b ! q \<and> map aligned front = served l1 q"
    and l2: "handed c = handed b @ l2"
      "\<forall>q < NUM_SOFT_QUEUES. \<exists>front. tx_queue b ! q = front @ tx_queue c ! q \<and> map aligned front = served l2 q"
    using assms by (auto simp: in_order_def)
  have "\<exists>front. tx_queue a ! q = front @ tx_queue c ! q \<and> map aligned front = served (l1 @ l2) q"
    if p: "q < NUM_SOFT_QUEUES" for q
  proof -
    obtain f1 f2 where "tx_queue a ! q = f1 @ tx_queue b ! q" "map aligned f1 = served l1 q"
      "tx_queue b ! q = f2 @ tx_queue c ! q" "map aligned f2 = served l2 q"
      using l1(2) l2(2) p by blast
    then show ?thesis by (intro exI [of _ "f1 @ f2"]) simp
  qed
  then show ?thesis using l1(1) l2(1) by (auto simp: in_order_def)
qed

lemma in_order_step:
  assumes "tx_queue c ! q = skb # skbs" "tx_queue c' = (tx_queue c)[q := skbs]" "handed c' = handed c @ [(q, aligned skb)]"
    "length (tx_queue c) = NUM_SOFT_QUEUES"
  shows "in_order c c'"
  unfolding in_order_def
proof (intro exI [of _ "[(q, aligned skb)]"] conjI allI impI)
  show "handed c' = handed c @ [(q, aligned skb)]" by (rule assms(3))
  fix p assume "p < NUM_SOFT_QUEUES"
  then show "\<exists>front. tx_queue c ! p = front @ tx_queue c' ! p \<and> map aligned front = served [(q, aligned skb)] p"
    using assms by (cases "p = q") auto
qed

lemma qos_processor_spec:
  "sched_ok c \<Longrightarrow> hw_present c \<Longrightarrow>
   sched_ok (rsi_core_qos_processor ops c) \<and> same_switches c (rsi_core_qos_processor ops c) \<and>
   in_order c (rsi_core_qos_processor ops c)"
proof (induction ops c rule: rsi_core_qos_processor.induct)
  case (1 ops c)
  obtain go c1 where r: "qos_round ops c = (go, c1)" by fastforce
  have len: "length (tx_queue c) = NUM_SOFT_QUEUES" using "1.prems"(1) by (simp add: sched_ok_def)
  note spec = qos_round_spec [OF r "1.prems"]
  have o: "in_order c c1" using spec in_order_refl in_order_step [OF _ _ _ len] by blast
  have step: "rsi_core_qos_processor ops c = (if go then rsi_core_qos_processor ops c1 else c1)"
    using r len by (subst rsi_core_qos_processor.simps) simp
  show ?case
  proof (cases go)
    case True
    have "hw_present c1" using spec "1.prems"(2) by (simp add: same_switches_def)
    with "1.IH" [of "(go, c1)" go c1] r True len spec step show ?thesis
      using in_order_trans [OF o] same_switches_trans by (metis (full_types))
  next
    case False
    then show ?thesis using step spec o by simp
  qed
qed

text \<open>
  C16. Nothing is lost and nothing overtakes: while the interface exists, what
  \<open>rsi_core_qos_processor\<close> takes from each of the six queues is the front of that queue, every packet of
  it is handed (aligned to 8 bytes) to a send function in the queue's order, no packet is
  dropped or leaked, and the transmit lock is released as often as it is taken, whatever the
  device answers. The burst counter stays within the length of its queue.
\<close>
theorem qos_processor_in_order:
  assumes "sched_ok c" "hw_present c" "c' = rsi_core_qos_processor ops c"
  shows "in_order c c' \<and> leaked c' = leaked c \<and> dropped c' = dropped c \<and> tx_lock_depth c' = tx_lock_depth c \<and> sched_ok c'"
  using qos_processor_spec [OF assms(1,2), of ops] unfolding assms(3) by (simp add: same_switches_def)

subsection \<open>A concrete scheduler\<close>

text \<open>
  A state with two voice packets, one best-effort packet and one management frame, and a
  device that accepts everything.
\<close>

definition example_skb :: "u8 list \<Rightarrow> nat \<Rightarrow> tx_skb" where
  "example_skb d prio = \<lparr>skb_data = d, data_addr = 64, headroom = 128, skb_priority = prio, skb_protocol = 0x0800,
     encap = False, internal_pkt = False, internal_hdr_size = 0, port_ctrl = False, dont_encrypt = False,
     req_tx_status = False, hw_key = False, ctl_vif = True, skb_tid = 0, skb_sta_id = 0\<rparr>"

definition example_ops :: "unit tx_ops" where
  "example_ops = \<lparr>check_hw_queue = (\<lambda>b q. (1, b)), send_mgmt = (\<lambda>b s. (0, b)), send_beacon = (\<lambda>b s. (0, b)),
     send_data = (\<lambda>b s. (0, b)), prepare_mgmt = (\<lambda>b s. (0, s, b)), prepare_data = (\<lambda>b s. (0, s, b)),
     notify_frame = (\<lambda>b. Some (example_skb [0, 0, 8, 0] 0))\<rparr>"

definition example_tx :: "tx_skb list list \<Rightarrow> unit tx_common" where
  "example_tx qs = \<lparr>tx_queue = qs, tx_qinfo = replicate 4 \<lparr>weight = 0, wme_params = 100, pkt_contended = False\<rparr>,
     edca_params = replicate 4 \<lparr>acm = False, edca_txop = 94, aifs = 2\<rparr>, min_weight = 0, selected_qnum = 0, pkt_cnt = 0,
     hw_data_qs_blocked = False, hibernate_resume = False, peer_notify = False, hw_present = True, iface_down = False,
     ac_stopped = replicate 4 False, host_txq_maxlen = [20, 140, 300, 600], mac_init_done = True,
     vif_type = NL80211_IFTYPE_STATION, bgscan_en = False,
     stations = replicate 33 \<lparr>sta_addr = None, sta_id = 0, start_tx_aggr = (\<lambda>_. False)\<rparr>, max_stations = 32,
     eapol4_confirm = False, start_bgscan = False, total_tx_pkt_send = replicate 6 0, total_tx_pkt_freed = replicate 6 0,
     tx_lock_depth = 0, tx_event = False, below = (), handed = [], dropped = [], leaked = [], indicated = [],
     ba_sessions = [], stats_overrun = False\<rparr>"

definition example_queues :: "tx_skb list list" where
  "example_queues =
     [[], [example_skb [0x88, 0, 1] 1], [], [example_skb [0x88, 0, 2] 3, example_skb [0x88, 0, 3] 3], [example_skb [0xB0, 0, 0] 4], []]"

lemma example_sched_ok: "sched_ok (example_tx example_queues)" "hw_present (example_tx qs)" "ready (example_tx qs)"
  by (simp_all add: sched_ok_def example_tx_def example_queues_def ready_def)

lemma qos_processor_in_order_witness:
  "in_order (example_tx example_queues) (rsi_core_qos_processor example_ops (example_tx example_queues)) \<and>
   tx_lock_depth (rsi_core_qos_processor example_ops (example_tx example_queues)) = 0"
  using qos_processor_in_order [OF example_sched_ok(1,2) refl, of example_ops]
  by (simp add: example_tx_def)

subsection \<open>The queues drain\<close>

definition accepting :: "'b tx_ops \<Rightarrow> bool" where
  "accepting ops \<longleftrightarrow> (\<forall>b q. 0 < fst (check_hw_queue ops b q)) \<and>
     (\<forall>b s. fst (send_mgmt ops b s) = 0 \<and> fst (send_beacon ops b s) = 0 \<and> fst (send_data ops b s) = 0)"

lemma send_dequeued_goes:
  assumes "accepting ops" "hw_present c"
  shows "fst (send_dequeued ops q skb c)"
proof -
  have "fst (send_by_queue ops q b s) = 0" for b s
    using assms(1) by (simp add: accepting_def send_by_queue_def)
  then show ?thesis
    using assms(2) by (auto simp: send_dequeued_def Let_def split: prod.split) (metis fst_conv)+
qed

lemma qos_round_stops_empty:
  assumes "qos_round ops c = (False, c')" "accepting ops" "sched_ok c" "ready c"
  shows "\<forall>q < NUM_SOFT_QUEUES. tx_queue c' ! q = []"
proof -
  obtain q c1 where d: "rsi_core_determine_hal_queue c = (q, c1)" by fastforce
  obtain w x n s where c1: "c1 = c\<lparr>min_weight := w, tx_qinfo := x, pkt_cnt := n, selected_qnum := s\<rparr>"
    using determine_only [OF d] by (elim exE)
  note dr = determine_result [OF d assms(3)]
  obtain st b where h: "check_hw_queue ops (below c1) q = (st, b)" by fastforce
  have st: "0 < st" using assms(2) h unfolding accepting_def by (metis fst_conv)
  define c3 where "c3 = c1\<lparr>tx_lock_depth := tx_lock_depth c1 + 1, below := b\<rparr>"
  have q: "q = INVALID_QUEUE"
  proof (rule ccontr)
    assume n: "q \<noteq> INVALID_QUEUE"
    then have q: "q < NUM_SOFT_QUEUES" "q_len c q \<noteq> 0" using dr(1) by auto
    then obtain skb skbs where cq: "tx_queue c ! q = skb # skbs"
      by (cases "tx_queue c ! q") (auto simp: q_len_def)
    define c4 where "c4 = c3\<lparr>tx_queue := (tx_queue c)[q := skbs]\<rparr>"
    have "rsi_core_dequeue_pkt c3 q = (Some skb, c4)"
      using q cq by (simp add: rsi_core_dequeue_pkt_def c4_def c3_def c1)
    then have "send_dequeued ops q skb c4 = (False, c')"
      using assms(1,4) n st d h by (auto simp: qos_round_def Let_def c3_def ready_def c1)
    moreover have "hw_present c4" using assms(4) by (simp add: c4_def c3_def c1 ready_def)
    ultimately show False using send_dequeued_goes [OF assms(2), of c4 q skb] by simp
  qed
  then have "c' = c1" using assms(1) d by (simp add: qos_round_def)
  moreover have "\<forall>q < NUM_SOFT_QUEUES. q_len c q = 0"
    using determine_invalid [of c c1] d q assms(3,4) by (simp add: ready_def)
  ultimately show ?thesis by (simp add: c1 q_len_def)
qed

text \<open>
  C20. The queues drain: when the device reports room and every transfer succeeds, the
  interface exists, no resume from hibernation is pending and the data queues are not blocked,
  \<open>rsi_core_qos_processor\<close> returns only when all six queues are empty.
\<close>
theorem qos_processor_drains:
  assumes "accepting ops" "sched_ok c" "ready c" "q < NUM_SOFT_QUEUES"
  shows "tx_queue (rsi_core_qos_processor ops c) ! q = []"
  using assms
proof (induction ops c rule: rsi_core_qos_processor.induct)
  case (1 ops c)
  obtain go c1 where r: "qos_round ops c = (go, c1)" by fastforce
  have len: "length (tx_queue c) = NUM_SOFT_QUEUES" using "1.prems"(2) by (simp add: sched_ok_def)
  have hw: "hw_present c" using "1.prems"(3) by (simp add: ready_def)
  note spec = qos_round_spec [OF r "1.prems"(2) hw]
  have step: "rsi_core_qos_processor ops c = (if go then rsi_core_qos_processor ops c1 else c1)"
    using r len by (subst rsi_core_qos_processor.simps) simp
  show ?case
  proof (cases go)
    case True
    have "ready c1" using spec "1.prems"(3) by (simp add: same_switches_def ready_def)
    with "1.IH" [of "(go, c1)" go c1] r True len spec step "1.prems" show ?thesis by simp
  next
    case False
    then show ?thesis using qos_round_stops_empty [of ops c c1] r step "1.prems" by simp
  qed
qed

lemma example_accepting: "accepting example_ops"
  by (simp add: accepting_def example_ops_def)

lemma qos_processor_drains_witness:
  "tx_queue (rsi_core_qos_processor example_ops (example_tx example_queues)) ! 3 = []"
  using qos_processor_drains [OF example_accepting example_sched_ok(1,3), of 3] by simp

section \<open>The queue chosen\<close>

text \<open>
  The queue served next: beacons before management frames before data, data only when not
  blocked; the queue returned has packets; and with data to send in unblocked queues the
  result is never \<open>INVALID_QUEUE\<close>.
\<close>
theorem hal_queue_choice:
  assumes "rsi_core_determine_hal_queue c = (q, c')" "sched_ok c"
  shows "(q_len c MGMT_BEACON_Q \<noteq> 0 \<longrightarrow> q = MGMT_BEACON_Q) \<and>
    (q_len c MGMT_BEACON_Q = 0 \<and> q_len c MGMT_SOFT_Q \<noteq> 0 \<longrightarrow> q = MGMT_SOFT_Q) \<and>
    (q < NUM_EDCA_QUEUES \<longrightarrow> \<not> hw_data_qs_blocked c) \<and>
    (q \<noteq> INVALID_QUEUE \<longrightarrow> q < NUM_SOFT_QUEUES \<and> q_len c q \<noteq> 0) \<and>
    (\<not> hw_data_qs_blocked c \<and> (\<exists>p < NUM_SOFT_QUEUES. q_len c p \<noteq> 0) \<longrightarrow> q \<noteq> INVALID_QUEUE)"
proof (intro conjI impI)
  show "q_len c MGMT_BEACON_Q \<noteq> 0 \<Longrightarrow> q = MGMT_BEACON_Q"
    using assms(1) by (simp add: rsi_core_determine_hal_queue_def)
  show "q_len c MGMT_BEACON_Q = 0 \<and> q_len c MGMT_SOFT_Q \<noteq> 0 \<Longrightarrow> q = MGMT_SOFT_Q"
    using assms(1) by (simp add: rsi_core_determine_hal_queue_def)
  show "\<not> hw_data_qs_blocked c" if "q < NUM_EDCA_QUEUES"
  proof
    assume "hw_data_qs_blocked c"
    then show False using assms(1) that by (simp add: rsi_core_determine_hal_queue_def split: if_splits)
  qed
  show "q < NUM_SOFT_QUEUES" "q_len c q \<noteq> 0" if "q \<noteq> INVALID_QUEUE"
    using determine_result(1) [OF assms] that by simp_all
  show "q \<noteq> INVALID_QUEUE" if "\<not> hw_data_qs_blocked c \<and> (\<exists>p < NUM_SOFT_QUEUES. q_len c p \<noteq> 0)"
    using determine_invalid [of c c'] assms that by fastforce
qed

lemma hal_queue_choice_witness:
  "fst (rsi_core_determine_hal_queue (example_tx example_queues)) = MGMT_SOFT_Q"
  using hal_queue_choice [OF surjective_pairing example_sched_ok(1)]
  by (simp add: q_len_def example_tx_def example_queues_def)

text \<open>
  The back-off selection serves a contended queue of least weight, provided every weight
  fits the 8 bits of \<open>min_weight\<close>.
\<close>
theorem select_least_weight:
  assumes "select_round c = (q, r, c')" "weights_fit c" "candidate c j"
  shows "candidate c q \<and> weight (tx_qinfo c ! q) \<le> weight (tx_qinfo c ! j)"
  using select_round_least [OF assms] by simp

definition example_contended :: "int \<Rightarrow> int \<Rightarrow> unit tx_common" where
  "example_contended w0 w1 =
     (example_tx [[example_skb [0x88, 0, 1] 0], [example_skb [0x88, 0, 2] 1], [], [], [], []])
       \<lparr>tx_qinfo := [\<lparr>weight = w0, wme_params = w0, pkt_contended = True\<rparr>, \<lparr>weight = w1, wme_params = w1, pkt_contended = True\<rparr>,
                   \<lparr>weight = 0, wme_params = 0, pkt_contended = False\<rparr>, \<lparr>weight = 0, wme_params = 0, pkt_contended = False\<rparr>]\<rparr>"

lemma example_contended_facts:
  "weights_fit (example_contended 100 50)" "candidate (example_contended w0 w1) 1" "candidate (example_contended w0 w1) 0"
  by (auto simp: weights_fit_def candidate_def example_contended_def example_tx_def q_len_def less_Suc_eq numeral_eq_Suc)

lemma select_least_weight_witness:
  "weight (tx_qinfo (example_contended 100 50) ! fst (select_round (example_contended 100 50))) \<le> 50"
proof -
  obtain q r c' where s: "select_round (example_contended 100 50) = (q, r, c')" by (metis prod_cases3)
  have "weight (tx_qinfo (example_contended 100 50) ! 1) = 50" by (simp add: example_contended_def)
  with select_least_weight [OF s example_contended_facts(1,2)] show ?thesis
    by (simp only: s fst_conv)
qed

text \<open>
  With a contention window of 1023, \<open>rsi_set_contention_vals\<close> computes weights above 4600. Then the
  8 bits of \<open>min_weight\<close> make a lighter queue lose: 4633 counts as 25, so that queue 0 is served
  although queue 1 has weight 100.
\<close>

lemma min_weight_truncates:
  "fst (select_round (example_contended 4633 100)) = 0"
  by (simp add: select_round_def rsi_determine_min_weight_queue_def rsi_recalculate_weights_def example_contended_def
      example_tx_def q_len_def upt_rec Let_def)

section \<open>Frames handed over by mac80211\<close>

text \<open>
  \<open>held\<close> counts the frames the driver has accepted: queued, freed, or reported back.
\<close>

definition held :: "'b tx_common \<Rightarrow> nat" where
  "held c = queued c + length (dropped c) + length (indicated c)"

lemma queued_grow:
  assumes "q < length qs" "length xs = Suc (length (qs ! q))"
  shows "sum_list (map length (qs[q := xs])) = Suc (sum_list (map length qs))"
proof -
  have q: "q < length (map length qs)" using assms by simp
  show ?thesis
    using sum_list_update [OF q, of "length xs"] elem_le_sum_list [OF q] assms by (simp add: map_update)
qed

lemma held_queue_pkt:
  assumes "length (tx_queue c) = NUM_SOFT_QUEUES"
  shows "held (rsi_core_queue_pkt c skb) = Suc (held c)"
  using assms queued_grow [of "skb_priority skb mod 256" "tx_queue c"]
  by (simp add: held_def rsi_core_queue_pkt_def queued_def Let_def)

lemma held_internal_mgmt:
  assumes "length (tx_queue c) = NUM_SOFT_QUEUES"
  shows "held (rsi_send_internal_mgmt_frame c skb) = Suc (held c)"
  using assms queued_grow [of MGMT_SOFT_Q "tx_queue c"]
  by (simp add: held_def rsi_send_internal_mgmt_frame_def queued_def Let_def)

lemma held_simps [simp]: "held (xmit_fail c skb) = Suc (held c)" "held (c\<lparr>tx_event := e\<rparr>) = held c"
    "held (c\<lparr>below := b\<rparr>) = held c" "held (c\<lparr>eapol4_confirm := e1, start_bgscan := e2\<rparr>) = held c"
    "held (c\<lparr>peer_notify := pn\<rparr>) = held c"
    "held (count_freed c i) = held c" "held (start_aggregation c i tid skb) = held c" "held (ieee80211_stop_queue c q) = held c"
  by (simp_all add: held_def queued_def rsi_defs start_aggregation_def Let_def)

lemma held_indicate: "hw_present c \<Longrightarrow> \<not> iface_down c \<Longrightarrow> held (rsi_indicate_tx_status c skb) = Suc (held c)"
  by (simp add: held_def queued_def rsi_indicate_tx_status_def)

lemma held_stop [simp]: "held (stop_others c) = held c" "held (stop_long_queue c q) = held c"
  by (simp_all add: stop_others_def stop_long_queue_def stop_all_def Let_def)

text \<open>The frame that announces the peer before an association request.\<close>

definition notifies :: "'b tx_ops \<Rightarrow> 'b tx_common \<Rightarrow> tx_skb \<Rightarrow> bool" where
  "notifies ops c skb \<longleftrightarrow>
     (let fc = frame_control (skb_data skb)
      in (ieee80211_is_assoc_req fc \<or> ieee80211_is_reassoc_req fc) \<and> notify_frame ops (below c) \<noteq> None)"

lemma xmit_mgmt_held:
  assumes "length (tx_queue c) = NUM_SOFT_QUEUES"
  shows "case xmit_mgmt ops c skb of
      Inl c1 \<Rightarrow> held c1 = held c + 1 + of_bool (notifies ops c skb)
    | Inr (q, skb1, c1) \<Rightarrow> held c1 = held c + of_bool (notifies ops c skb) \<and> length (tx_queue c1) = NUM_SOFT_QUEUES"
proof -
  let ?fc = "frame_control (skb_data skb)"
  let ?r = "c\<lparr>eapol4_confirm := False, start_bgscan := False\<rparr>"
  define c1 where "c1 = (if ieee80211_is_assoc_req ?fc \<or> ieee80211_is_reassoc_req ?fc then notify_peer ops ?r else c)"
  have h: "held c1 = held c + of_bool (notifies ops c skb)" "length (tx_queue c1) = NUM_SOFT_QUEUES"
    using assms held_internal_mgmt [of "?r\<lparr>peer_notify := True\<rparr>"]
    by (auto simp: c1_def notifies_def notify_peer_def Let_def rsi_send_internal_mgmt_frame_def split: option.split)
  obtain st s b where "prepare_mgmt ops (below c1) (skb\<lparr>skb_priority := MGMT_SOFT_Q\<rparr>) = (st, s, b)" by (metis prod_cases3)
  with h show ?thesis by (simp add: xmit_mgmt_def c1_def [symmetric] Let_def xmit_fail_def held_def queued_def)
qed

lemma choose_peer_frame:
  assumes "choose_peer c tid skb = Some (i, c1)"
  shows "c1 = c \<or> c1 = start_aggregation c i tid skb"
  using assms by (auto simp: choose_peer_def Let_def split: peer.splits option.splits)

lemma start_aggregation_frame [simp]: "tx_queue (start_aggregation c i tid skb) = tx_queue c"
    "hw_present (start_aggregation c i tid skb) = hw_present c" "iface_down (start_aggregation c i tid skb) = iface_down c"
    "vif_type (start_aggregation c i tid skb) = vif_type c" "below (start_aggregation c i tid skb) = below c"
    "dropped (start_aggregation c i tid skb) = dropped c" "indicated (start_aggregation c i tid skb) = indicated c"
    "sta_id (stations (start_aggregation c i tid skb) ! j) = sta_id (stations c ! j)"
  by (simp_all add: start_aggregation_def Let_def)
    (cases "i = j"; cases "i < length (stations c)"; simp add: list_update_beyond)

text \<open>The frame whose descriptor \<open>xmit_data\<close> builds, and whether that fails.\<close>

definition descriptor_frame :: "'b tx_common \<Rightarrow> nat \<Rightarrow> tx_skb \<Rightarrow> tx_skb" where
  "descriptor_frame c i skb =
     (let skb2 = skb\<lparr>skb_sta_id := sta_id (stations c ! i)\<rparr>
      in if is_eapol c skb2 then skb2\<lparr>skb_priority := MGMT_SOFT_Q\<rparr> else skb2)"

definition descriptor_rejected :: "'b tx_ops \<Rightarrow> 'b tx_common \<Rightarrow> tx_skb \<Rightarrow> bool" where
  "descriptor_rejected ops c skb \<longleftrightarrow> \<not> bgscan_null c skb \<and>
     (case choose_peer c (fst (frame_tid skb)) (skb\<lparr>skb_priority := data_priority c skb, skb_tid := fst (frame_tid skb)\<rparr>) of
        None \<Rightarrow> False
      | Some (i, c1) \<Rightarrow> fst (prepare_data ops (below c1)
          (descriptor_frame c1 i (skb\<lparr>skb_priority := data_priority c skb, skb_tid := fst (frame_tid skb)\<rparr>))) \<noteq> 0)"

lemma xmit_data_chosen:
  assumes "\<not> bgscan_null c skb"
    "choose_peer c (fst (frame_tid skb)) (skb\<lparr>skb_priority := data_priority c skb, skb_tid := fst (frame_tid skb)\<rparr>) = Some (i, c1)"
    "prepare_data ops (below c1)
       (descriptor_frame c1 i (skb\<lparr>skb_priority := data_priority c skb, skb_tid := fst (frame_tid skb)\<rparr>)) = (st, skb4, b)"
  shows "\<exists>q. xmit_data ops c skb =
    (if st \<noteq> 0 then Inl (xmit_fail (rsi_indicate_tx_status (count_freed (c1\<lparr>below := b\<rparr>) (skb_priority skb4)) skb4) skb4)
     else Inr (q, skb4, c1\<lparr>below := b\<rparr>))"
  using assms by (simp add: xmit_data_def descriptor_frame_def Let_def)

lemma xmit_data_held:
  assumes "length (tx_queue c) = NUM_SOFT_QUEUES" "hw_present c" "\<not> iface_down c"
  shows "case xmit_data ops c skb of
      Inl c1 \<Rightarrow> held c1 = held c + 1 + of_bool (descriptor_rejected ops c skb)
    | Inr (q, skb1, c1) \<Rightarrow> held c1 = held c \<and> length (tx_queue c1) = NUM_SOFT_QUEUES \<and> \<not> descriptor_rejected ops c skb"
proof (cases "bgscan_null c skb")
  case True
  then show ?thesis using assms by (simp add: xmit_data_def held_indicate count_freed_def held_def queued_def
        rsi_indicate_tx_status_def descriptor_rejected_def)
next
  case bg: False
  define skb1 where "skb1 = skb\<lparr>skb_priority := data_priority c skb, skb_tid := fst (frame_tid skb)\<rparr>"
  show ?thesis
  proof (cases "choose_peer c (fst (frame_tid skb)) skb1")
    case None
    then show ?thesis using bg by (simp add: xmit_data_def descriptor_rejected_def Let_def skb1_def [symmetric])
  next
    case (Some r)
    obtain i c1 where r: "r = (i, c1)" by fastforce
    have f: "held c1 = held c" "length (tx_queue c1) = NUM_SOFT_QUEUES" "hw_present c1" "\<not> iface_down c1"
      using choose_peer_frame [OF Some [unfolded r]] assms by (auto simp: held_def queued_def)
    obtain st s b where p: "prepare_data ops (below c1) (descriptor_frame c1 i skb1) = (st, s, b)" by (metis prod_cases3)
    have rej: "descriptor_rejected ops c skb = (st \<noteq> 0)"
      using bg Some r p by (simp add: descriptor_rejected_def skb1_def [symmetric])
    obtain q where "xmit_data ops c skb =
        (if st \<noteq> 0 then Inl (xmit_fail (rsi_indicate_tx_status (count_freed (c1\<lparr>below := b\<rparr>) (skb_priority s)) s) s)
         else Inr (q, s, c1\<lparr>below := b\<rparr>))"
      using xmit_data_chosen [OF bg Some [unfolded r skb1_def] p [unfolded skb1_def]] by blast
    then show ?thesis
      using f rej by (simp add: xmit_fail_def rsi_indicate_tx_status_def count_freed_def held_def queued_def)
  qed
qed

text \<open>
  C37. Every frame is accounted for: with an interface that is present and up,
  \<open>rsi_core_xmit\<close> disposes of a frame of any type and peer exactly once (queued, freed or
  reported back to mac80211, which frees it), with one exception: a data frame whose
  descriptor \<open>rsi_prepare_data_desc\<close> rejects is released twice, since the status it has
  just been reported with makes mac80211 free it and \<open>rsi_core_xmit\<close> then frees it again.
  An association request queues exactly one more frame, the peer notification, when that can be
  allocated.
\<close>
theorem xmit_disposes_once:
  assumes "length (tx_queue c) = NUM_SOFT_QUEUES" "hw_present c" "\<not> iface_down c"
  shows "held (rsi_core_xmit ops c skb) = held c + 1 +
    of_bool (skb_data skb \<noteq> [] \<and> mac_init_done c \<and>
      (if is_mgmt_path skb then notifies ops c skb else descriptor_rejected ops c skb))"
proof (cases "skb_data skb = [] \<or> \<not> mac_init_done c")
  case True
  then show ?thesis by (auto simp: rsi_core_xmit_def)
next
  case False
  define res where "res = (if is_mgmt_path skb then xmit_mgmt ops c skb else xmit_data ops c skb)"
  let ?n = "of_bool (if is_mgmt_path skb then notifies ops c skb else descriptor_rejected ops c skb) :: nat"
  have "case res of Inl c1 \<Rightarrow> held c1 = held c + 1 + ?n
      | Inr (q, skb1, c1) \<Rightarrow> held c1 = held c + ?n \<and> length (tx_queue c1) = NUM_SOFT_QUEUES"
    using xmit_mgmt_held [OF assms(1), of ops skb] xmit_data_held [OF assms, of ops skb]
    by (cases "is_mgmt_path skb") (auto simp: res_def split: sum.splits)
  then have "held (rsi_core_xmit ops c skb) = held c + 1 + ?n"
    using False by (auto simp: rsi_core_xmit_def res_def [symmetric] Let_def held_queue_pkt split: sum.splits)
  then show ?thesis using False by simp
qed

lemma xmit_disposes_once_witness:
  "held (rsi_core_xmit example_ops (example_tx example_queues) (example_skb [0, 0, 0, 0, 1, 2, 3, 4, 5, 6] 0)) = 6"
  by (subst xmit_disposes_once)
    (simp_all add: example_tx_def example_queues_def example_ops_def held_def queued_def example_skb_def is_mgmt_path_def
      notifies_def rsi_defs)

text \<open>
  The same decomposition with a descriptor that cannot be built.
\<close>

lemma xmit_data_rejected:
  assumes "\<not> bgscan_null c skb" "hw_present c" "\<not> iface_down c"
    "choose_peer c (fst (frame_tid skb)) (skb\<lparr>skb_priority := data_priority c skb, skb_tid := fst (frame_tid skb)\<rparr>) = Some (i, c1)"
    "\<And>b s. fst (prepare_data ops b s) \<noteq> 0"
  shows "\<exists>c' skb'. xmit_data ops c skb = Inl c' \<and> dropped c' = dropped c @ [skb'] \<and> indicated c' = indicated c @ [skb']"
proof -
  define skb1 where "skb1 = skb\<lparr>skb_priority := data_priority c skb, skb_tid := fst (frame_tid skb)\<rparr>"
  note s = assms(4) [unfolded skb1_def [symmetric]]
  note f = choose_peer_frame [OF s]
  define skb2 where "skb2 = skb1\<lparr>skb_sta_id := sta_id (stations c1 ! i)\<rparr>"
  define skb3 where "skb3 = (if is_eapol c1 skb2 then skb2\<lparr>skb_priority := MGMT_SOFT_Q\<rparr> else skb2)"
  obtain st s' b where p: "prepare_data ops (below c1) skb3 = (st, s', b)" by (metis prod_cases3)
  have "st \<noteq> 0" using assms(5) [of "below c1" skb3] p by simp
  then have "xmit_data ops c skb =
      Inl (xmit_fail (rsi_indicate_tx_status (count_freed (c1\<lparr>below := b\<rparr>) (skb_priority s')) s') s')"
    using assms(1) s p
    by (cases "is_eapol c1 skb2") (simp_all add: xmit_data_def Let_def skb1_def [symmetric] skb2_def [symmetric] skb3_def)
  moreover have "hw_present c1" "\<not> iface_down c1" "dropped c1 = dropped c" "indicated c1 = indicated c"
    using f assms(2,3) by auto
  ultimately show ?thesis by (auto simp: xmit_fail_def rsi_indicate_tx_status_def count_freed_def)
qed

text \<open>
  A data frame whose descriptor cannot be built is released twice: its status is reported
  to mac80211, which frees it, and then \<open>rsi_core_xmit\<close> frees it again.
\<close>
theorem xmit_releases_twice:
  assumes "skb_data skb \<noteq> []" "mac_init_done c" "\<not> is_mgmt_path skb" "\<not> bgscan_null c skb"
    "hw_present c" "\<not> iface_down c"
    "choose_peer c (fst (frame_tid skb)) (skb\<lparr>skb_priority := data_priority c skb, skb_tid := fst (frame_tid skb)\<rparr>) \<noteq> None"
    "\<And>b s. fst (prepare_data ops b s) \<noteq> 0"
  shows "\<exists>skb'. dropped (rsi_core_xmit ops c skb) = dropped c @ [skb'] \<and>
    indicated (rsi_core_xmit ops c skb) = indicated c @ [skb']"
proof -
  obtain i c1 where "choose_peer c (fst (frame_tid skb))
      (skb\<lparr>skb_priority := data_priority c skb, skb_tid := fst (frame_tid skb)\<rparr>) = Some (i, c1)"
    using assms(7) by auto
  from xmit_data_rejected [OF assms(4-6) this assms(8)] show ?thesis
    using assms(1-3) by (auto simp: rsi_core_xmit_def)
qed

definition example_data :: tx_skb where
  "example_data = example_skb [0x08, 0x01, 0, 0, 2, 0, 0, 0, 0, 1] 0"

lemma example_data_facts:
  "skb_data example_data \<noteq> []" "\<not> is_mgmt_path example_data" "\<not> bgscan_null (example_tx qs) example_data"
  "frame_tid example_data = (16, 1)" "data_priority (example_tx qs) example_data = 1"
  "wlh_addr1 (skb_data example_data) = [2, 0, 0, 0, 0, 1]" "\<not> encap example_data" "\<not> port_ctrl example_data"
  by (simp_all add: example_data_def example_skb_def is_mgmt_path_def bgscan_null_def example_tx_def frame_tid_def
      data_priority_def rsi_defs)

lemma example_not_multicast: "\<not> is_multicast_ether_addr [2, 0, 0, 0, 0, 1]"
  by (simp add: is_multicast_ether_addr_def)

lemma example_unicast: "unicast_peer (example_tx qs) [2, 0, 0, 0, 0, 1] = Peer 32"
  using example_not_multicast broadcast_is_multicast by (auto simp: unicast_peer_def example_tx_def)

definition reject_ops :: "unit tx_ops" where
  "reject_ops = example_ops\<lparr>prepare_data := (\<lambda>b s. (-28, s, b))\<rparr>"

lemma xmit_releases_twice_witness:
  "\<exists>skb'. dropped (rsi_core_xmit reject_ops (example_tx example_queues) example_data) = [skb'] \<and>
     indicated (rsi_core_xmit reject_ops (example_tx example_queues) example_data) = [skb']"
proof -
  let ?c = "example_tx example_queues"
  have d: "dropped ?c = []" "indicated ?c = []" "mac_init_done ?c" "hw_present ?c" "\<not> iface_down ?c"
    by (simp_all add: example_tx_def)
  have "choose_peer ?c (fst (frame_tid example_data))
      (example_data\<lparr>skb_priority := data_priority ?c example_data, skb_tid := fst (frame_tid example_data)\<rparr>) \<noteq> None"
    using example_unicast example_data_facts by (simp add: choose_peer_def Let_def)
  moreover have "fst (prepare_data reject_ops b s) \<noteq> 0" for b s by (simp add: reject_ops_def)
  ultimately show ?thesis
    using xmit_releases_twice [OF example_data_facts(1) d(3) example_data_facts(2,3) d(4,5), of reject_ops] d(1,2) by simp
qed

text \<open>
  A unicast data frame without QoS makes the station start an aggregation session for
  traffic identifier 16, once the byte behind the 16 flags reads as 0, and sets that byte:
  \<open>start_tx_aggr\<close> has no element 16.
\<close>
theorem nonqos_aggregates_tid_16:
  assumes "skb_data skb \<noteq> []" "mac_init_done c" "vif_type c = NL80211_IFTYPE_STATION" "\<not> is_mgmt_path skb"
    "\<not> bgscan_null c skb" "\<not> encap skb" "\<not> ieee80211_is_data_qos (frame_control (skb_data skb))" "\<not> port_ctrl skb"
    "\<not> is_multicast_ether_addr (wlh_addr1 (skb_data skb))" "32 < length (stations c)"
    "\<not> start_tx_aggr (stations c ! 32) 16"
  shows "ba_sessions (rsi_core_xmit ops c skb) = ba_sessions c @ [(32, 16)] \<and>
    start_tx_aggr (stations (rsi_core_xmit ops c skb) ! 32) 16"
proof -
  define skb1 where "skb1 = skb\<lparr>skb_priority := data_priority c skb, skb_tid := 16\<rparr>"
  define c1 where "c1 = start_aggregation c 32 16 skb1"
  have tid: "fst (frame_tid skb) = 16" using assms(6,7) by (simp add: frame_tid_def)
  have "\<not> is_broadcast_ether_addr (wlh_addr1 (skb_data skb))" using assms(9) broadcast_is_multicast by blast
  then have ch: "choose_peer c 16 skb1 = Some (32, c1)"
    using assms(3,6,9) by (simp add: choose_peer_def unicast_peer_def skb1_def c1_def)
  have c1: "ba_sessions c1 = ba_sessions c @ [(32, 16)]" "start_tx_aggr (stations c1 ! 32) 16"
    using assms(8,10,11) by (simp_all add: c1_def start_aggregation_def skb1_def Let_def)
  define skb2 where "skb2 = skb1\<lparr>skb_sta_id := sta_id (stations c1 ! 32)\<rparr>"
  define skb3 where "skb3 = (if is_eapol c1 skb2 then skb2\<lparr>skb_priority := MGMT_SOFT_Q\<rparr> else skb2)"
  obtain st s' b where p: "prepare_data ops (below c1) skb3 = (st, s', b)" by (metis prod_cases3)
  have x: "xmit_data ops c skb = (if st \<noteq> 0
      then Inl (xmit_fail (rsi_indicate_tx_status (count_freed (c1\<lparr>below := b\<rparr>) (skb_priority s')) s') s')
      else Inr (skb_priority skb3, s', c1\<lparr>below := b\<rparr>))"
    using assms(5) ch p tid
    by (cases "is_eapol c1 skb2") (simp_all add: xmit_data_def Let_def skb1_def [symmetric] skb2_def [symmetric] skb3_def)
  have f: "ba_sessions (stop_others (stop_long_queue d q)) = ba_sessions d" "stations (stop_others (stop_long_queue d q)) = stations d"
    for d :: "'a tx_common" and q
    by (simp_all add: stop_others_def stop_long_queue_def stop_all_def ieee80211_stop_queue_def Let_def)
  have "ba_sessions (rsi_core_xmit ops c skb) = ba_sessions c1 \<and> stations (rsi_core_xmit ops c skb) = stations c1"
    using assms(1,2,4) x f
    by (auto simp: rsi_core_xmit_def xmit_fail_def rsi_indicate_tx_status_def count_freed_def rsi_core_queue_pkt_def Let_def)
  with c1 show ?thesis by simp
qed

lemma nonqos_aggregates_tid_16_witness:
  "ba_sessions (rsi_core_xmit example_ops (example_tx example_queues) example_data) = [(32, 16)]"
proof -
  have "\<not> ieee80211_is_data_qos (frame_control (skb_data example_data))"
    by (simp add: example_data_def example_skb_def rsi_defs)
  then show ?thesis
    using nonqos_aggregates_tid_16 [of example_data "example_tx example_queues" example_ops] example_data_facts
      example_not_multicast
    by (simp add: example_tx_def)
qed

section \<open>Traffic identifier and access category\<close>

lemma u8_nibble: "unat (w AND 0xF :: u8) = unat w mod 16"
proof -
  have "w AND 0xF = take_bit 4 w" by (simp add: take_bit_eq_mask mask_eq_exp_minus_1)
  then have "unat (w AND 0xF) = take_bit 4 (unat w)" by (simp only: unsigned_take_bit_eq)
  then show ?thesis by (simp add: take_bit_eq_mod)
qed

lemma ipv6_precedence:
  fixes a b :: u8
  shows "drop_bit 5 (ucast (drop_bit 20 (ntohl (ucast (ucast a OR push_bit 8 (ucast b) :: u16)))) :: u8) = drop_bit 1 (a AND 0xF)"
proof (rule bit_word_eqI)
  fix n :: nat assume "n < LENGTH(8)"
  then have "n = 0 \<or> n = 1 \<or> n = 2 \<or> n = 3 \<or> n = 4 \<or> n = 5 \<or> n = 6 \<or> n = 7" by auto
  then show "bit (drop_bit 5 (ucast (drop_bit 20 (ntohl (ucast (ucast a OR push_bit 8 (ucast b) :: u16)))) :: u8)) n =
      bit (drop_bit 1 (a AND 0xF)) n"
    by (elim disjE) (simp_all add: ntohl_def bit_simps numeral_2_eq_2 numeral_3_eq_3)
qed

lemma unat_drop_bit: "unat (drop_bit k w :: 'a::len word) = unat w div 2 ^ k"
proof -
  have "unat (drop_bit k w) = drop_bit k (take_bit LENGTH('a) (unat w))" by (rule unsigned_drop_bit_eq)
  then show ?thesis by (simp only: drop_bit_eq_div take_bit_nat_eq_self [OF unsigned_less])
qed

lemma encap_tos_value:
  "unat (encap_tos d) = (if d ! 12 = 0x86 \<and> d ! 13 = 0xDD then unat (d ! 14) mod 16 div 2 else unat (d ! 15) div 32)"
  unfolding encap_tos_def ipv6_precedence if_distrib [of unat] unat_drop_bit u8_nibble by simp

lemma TID_TO_WME_AC_less: "TID_TO_WME_AC tid < NUM_EDCA_QUEUES"
  by (simp add: TID_TO_WME_AC_def)

text \<open>
  Traffic identifier and queue of a data frame: an access category always; below 8 for an
  Ethernet frame, where it is the precedence: the top three bits of the type-of-service byte
  or, for IPv6, of the traffic class, although \<open>cpu_to_le16\<close> discards half of the 32 bits read;
  the 4-bit TID of a QoS frame; 16 only without QoS.
\<close>
theorem frame_tid_range:
  "snd (frame_tid skb) < NUM_EDCA_QUEUES \<and>
   (encap skb \<longrightarrow> fst (frame_tid skb) < 8 \<and> fst (frame_tid skb) =
       (if skb_data skb ! 12 = 0x86 \<and> skb_data skb ! 13 = 0xDD
        then unat (skb_data skb ! 14) mod 16 div 2 else unat (skb_data skb ! 15) div 32)) \<and>
   (\<not> encap skb \<longrightarrow> (if ieee80211_is_data_qos (frame_control (skb_data skb))
                     then fst (frame_tid skb) < 16 else fst (frame_tid skb) = IEEE80211_NONQOS_TID))"
  using unat_u8_bound [of "skb_data skb ! 15"]
  by (auto simp: frame_tid_def Let_def TID_TO_WME_AC_less encap_tos_value u8_nibble)

lemma frame_tid_range_witness: "fst (frame_tid example_data) = IEEE80211_NONQOS_TID"
  using frame_tid_range [of example_data] by (simp add: example_data_def example_skb_def rsi_defs)

end
