(* ===== verification/Hal_Tx.thy ===== *)
theory Hal_Tx
  imports Dot11 Host_Intf
begin

text \<open>
  The transmit half of rsi/rsi_91x_hal.c: the descriptors put in front of data, management and
  Bluetooth frames and of beacons, and the functions that hand a packet to the bus through
  \<open>write_pkt\<close> of the host interface.

  A frame grows downwards into its headroom: \<open>skb_push\<close> moves \<open>data_addr\<close>, takes from \<open>headroom\<close> and
  puts bytes in front of \<open>skb_data\<close>. Pushing more than the headroom is \<open>skb_under_panic\<close>,
  recorded in the ghost \<open>panicked\<close>. The ghosts \<open>reported\<close> and \<open>freed\<close> list the frames whose status was
  reported to mac80211, with the status, and the frames freed.
\<close>

section \<open>State\<close>

record rsi_vif =
  vif_addr :: "u8 list"
  vif_kind :: iftype
  vap_id :: u8
  vif_assoc :: bool
  vif_bssid :: "u8 list"

record hal_sta =
  hal_sta_addr :: "u8 list option"
  hal_sta_id :: int
  sta_wme :: bool
  min_supported_rate :: u16
  sta_skb :: "tx_skb option"

text \<open>
  The fields of \<open>struct rsi_common\<close> and \<open>struct rsi_hw\<close> these functions use. \<open>tx_access n\<close> is what
  the n-th call of \<open>set_clr_tx_intention\<close> for \<open>COMMON_ID\<close> returns, \<open>behind_skb\<close> what lies behind
  the data of a packet in memory.
\<close>

record 's hal_common =
  vifs :: "rsi_vif option list"
  hal_stations :: "hal_sta list"
  hal_max_stations :: nat
  hw_ok :: bool
  hal_iface_down :: bool
  usb_full_speed :: bool
  ps_on :: bool                \<comment> \<open>\<open>ps_state\<close> is \<open>PS_ENABLED\<close>\<close>
  cipher_wep :: bool
  min_rate :: u16
  fixed_rate_en :: bool
  fixed_rate :: u16
  conf_ht40 :: ht40
  sgi :: bool
  ax_params :: rsi_ax_params
  enable_er_su :: bool
  config_er_su :: u8
  eapol4_confirmed :: bool
  band_5ghz :: bool
  scan_in_prog :: bool
  p2p_enabled :: bool
  minimum_basic_rate :: u8
  hal_bgscan_en :: bool
  cur_channel :: u8
  connected_channel :: u16
  acx_module :: bool
  beacon_cnt :: nat
  wlan_intention :: bool
  bt_intention :: bool
  hal_tx_access :: bool
  common_intention :: bool
  tx_access :: "nat \<Rightarrow> int"
  tx_access_calls :: nat
  behind_skb :: "nat \<Rightarrow> u8"
  hal_ops :: "'s rsi_host_intf_ops"
  bus :: 's
  hal_freed_count :: "u32 list"
  reported :: "(tx_skb \<times> int) list"
  freed :: "tx_skb list"
  panicked :: bool

definition rsi_get_vif :: "'s hal_common \<Rightarrow> u8 list \<Rightarrow> rsi_vif option" where
  "rsi_get_vif c mac =
     (case filter (\<lambda>v. case v of None \<Rightarrow> False | Some vif \<Rightarrow> vif_addr vif = mac) (vifs c) of
        [] \<Rightarrow> None | v # vs \<Rightarrow> v)"

definition hal_find_sta :: "'s hal_common \<Rightarrow> u8 list \<Rightarrow> nat option" where
  "hal_find_sta c mac =
     List.find (\<lambda>i. case hal_sta_addr (hal_stations c ! i) of
                      None \<Rightarrow> False
                    | Some addr \<Rightarrow> is_broadcast_ether_addr mac \<or> addr = mac) [0..<hal_max_stations c]"

section \<open>Headers\<close>

definition skb_push :: "tx_skb \<Rightarrow> nat \<Rightarrow> tx_skb" where
  "skb_push skb n = skb\<lparr>skb_data := replicate n 0 @ skb_data skb, data_addr := data_addr skb - n, headroom := headroom skb - n\<rparr>"

lemma skb_push_simps [simp]: "headroom (skb_push skb n) = headroom skb - n" "data_addr (skb_push skb n) = data_addr skb - n"
    "length (skb_data (skb_push skb n)) = n + length (skb_data skb)"
  by (simp_all add: skb_push_def)

definition push_checked :: "'s hal_common \<Rightarrow> tx_skb \<Rightarrow> nat \<Rightarrow> 's hal_common" where
  [rsi_defs]: "push_checked c skb n = (if headroom skb < n then c\<lparr>panicked := True\<rparr> else c)"

definition hal_indicate :: "'s hal_common \<Rightarrow> tx_skb \<Rightarrow> int \<Rightarrow> 's hal_common" where
  [rsi_defs]: "hal_indicate c skb status =
     (if \<not> hw_ok c \<or> hal_iface_down c then c else c\<lparr>reported := reported c @ [(skb, status)]\<rparr>)"

definition hal_count_freed :: "'s hal_common \<Rightarrow> tx_skb \<Rightarrow> 's hal_common" where
  [rsi_defs]: "hal_count_freed c skb =
     c\<lparr>hal_freed_count := (hal_freed_count c)[skb_priority skb := hal_freed_count c ! skb_priority skb + 1]\<rparr>"

text \<open>
  A descriptor under construction: \<open>desc_word\<close>, and the two fields of the extended descriptor.
\<close>

record tx_desc =
  desc_word :: "u16 list"
  confirm_frame_type :: u8
  retry_cnt :: u8

definition desc_zero :: tx_desc where
  "desc_zero = \<lparr>desc_word = replicate 8 0, confirm_frame_type = 0, retry_cnt = 0\<rparr>"

definition set_word :: "nat \<Rightarrow> u16 \<Rightarrow> tx_desc \<Rightarrow> tx_desc" where
  [rsi_defs]: "set_word i w d = d\<lparr>desc_word := (desc_word d)[i := w]\<rparr>"

definition or_word :: "nat \<Rightarrow> u16 \<Rightarrow> tx_desc \<Rightarrow> tx_desc" where
  [rsi_defs]: "or_word i w d = d\<lparr>desc_word := (desc_word d)[i := desc_word d ! i OR w]\<rparr>"

text \<open>The descriptor and the extended descriptor over the first 20 of the zeroed header bytes.\<close>

definition put_desc :: "tx_desc \<Rightarrow> u8 list \<Rightarrow> u8 list" where
  "put_desc d bytes = put_words (desc_word d) @ [confirm_frame_type d, retry_cnt d, 0, 0] @ drop 20 bytes"

abbreviation (input) MORE_DATA_PRESENT :: u16 where "MORE_DATA_PRESENT \<equiv> BIT 1"
abbreviation (input) INSERT_SEQ_IN_FW :: u16 where "INSERT_SEQ_IN_FW \<equiv> BIT 2"
abbreviation (input) RSI_BROADCAST_PKT :: u16 where "RSI_BROADCAST_PKT \<equiv> BIT 9"
abbreviation (input) ENABLE_SHORTGI_RATE :: u16 where "ENABLE_SHORTGI_RATE \<equiv> BIT 9"
abbreviation (input) RSI_DESC_REQUIRE_CFM_TO_HOST :: u16 where "RSI_DESC_REQUIRE_CFM_TO_HOST \<equiv> BIT 10"
abbreviation (input) ADD_DELTA_TSF_VAP_ID :: u16 where "ADD_DELTA_TSF_VAP_ID \<equiv> BIT 11"
abbreviation (input) FETCH_RETRY_CNT_FRM_HST :: u16 where "FETCH_RETRY_CNT_FRM_HST \<equiv> BIT 12"
abbreviation (input) ENCAP_OFFLOAD_DATA_PKT :: u16 where "ENCAP_OFFLOAD_DATA_PKT \<equiv> BIT 0"
abbreviation (input) ENCAP_OFFLOAD_MGMT_PKT :: u16 where "ENCAP_OFFLOAD_MGMT_PKT \<equiv> BIT 15"
abbreviation (input) QOS_SUPPORT :: u16 where "QOS_SUPPORT \<equiv> BIT 12"
abbreviation (input) ENABLE_ENCRYPTION :: u16 where "ENABLE_ENCRYPTION \<equiv> BIT 15"
abbreviation (input) MGMT_FRAME_PROTECTION :: u16 where "MGMT_FRAME_PROTECTION \<equiv> BIT 15"
abbreviation (input) QUEUE_TO_HEAD :: u16 where "QUEUE_TO_HEAD \<equiv> BIT 13"
abbreviation (input) EAPOL4_CONFIRM :: u8 where "EAPOL4_CONFIRM \<equiv> 1"
abbreviation (input) PROBEREQ_CONFIRM :: u8 where "PROBEREQ_CONFIRM \<equiv> 2"
abbreviation (input) NULLDATA_CONFIRM :: u8 where "NULLDATA_CONFIRM \<equiv> 3"

definition seq_number :: "u8 list \<Rightarrow> u16" where
  [rsi_defs]: "seq_number d = drop_bit 4 ((ucast (d ! 22) OR push_bit 8 (ucast (d ! 23))) AND 0xFFF0)"

definition is_tx_eapol :: "rsi_vif \<Rightarrow> tx_skb \<Rightarrow> bool" where
  "is_tx_eapol vif skb =
     (vif_kind vif = NL80211_IFTYPE_STATION \<and> (skb_protocol skb = ETH_P_PAE \<or> skb_protocol skb = ETH_P_802_3) \<or>
      vif_kind vif = NL80211_IFTYPE_AP \<and> skb_protocol skb = ETH_P_PAE)"

definition is_ap_kind :: "rsi_vif \<Rightarrow> bool" where
  [rsi_defs]: "is_ap_kind vif = (vif_kind vif = NL80211_IFTYPE_AP \<or> vif_kind vif = NL80211_IFTYPE_P2P_GO)"

section \<open>Data frames\<close>

text \<open>
  The parts of \<open>rsi_prepare_data_desc\<close>, in its order. \<open>wh\<close> is the frame behind the header and
  \<open>len\<close> the length of everything.
\<close>

definition data_station :: "'s hal_common \<Rightarrow> rsi_vif \<Rightarrow> tx_skb \<Rightarrow> hal_sta" where
  "data_station c vif skb =
     hal_stations c ! (if vif_kind vif = NL80211_IFTYPE_STATION then 32 else nat (skb_sta_id skb))"

text \<open>The header type and, for an 802.11 frame, the length of its header so far.\<close>

definition data_qos :: "hal_sta \<Rightarrow> tx_skb \<Rightarrow> u8 list \<Rightarrow> tx_desc \<Rightarrow> nat \<times> tx_desc" where
  "data_qos sta skb wh d =
     (if \<not> encap skb
      then (if ieee80211_is_data_qos (frame_control wh) then (26, or_word 6 (BIT 12) d) else (24, d))
      else let d1 = set_word 1 ENCAP_OFFLOAD_DATA_PKT d
           in (24, if hal_sta_addr sta \<noteq> None \<and> sta_wme sta then or_word 6 QOS_SUPPORT d1 else d1))"

definition data_encrypt :: "'s hal_common \<Rightarrow> tx_skb \<Rightarrow> nat \<Rightarrow> tx_desc \<Rightarrow> nat \<times> tx_desc" where
  "data_encrypt c skb hdr d =
     (if \<not> encap skb
      then (if \<not> dont_encrypt skb \<and> hw_key skb
            then (hdr + (if cipher_wep c then 4 else 8), or_word 6 ENABLE_ENCRYPTION d) else (hdr, d))
      else (hdr, if \<not> dont_encrypt skb \<and> skb_protocol skb \<noteq> ETH_P_PAE \<and> skb_protocol skb \<noteq> ETH_P_802_3
                 then or_word 6 ENABLE_ENCRYPTION d else d))"

definition data_length :: "tx_skb \<Rightarrow> nat \<Rightarrow> nat \<Rightarrow> u16 \<Rightarrow> tx_desc \<Rightarrow> tx_desc" where
  "data_length skb hdr len seq d =
     (let d1 = set_word 0 (len_queue (len - FRAME_DESC_SZ) RSI_WIFI_DATA_Q) d
      in if \<not> encap skb then or_word 6 seq (or_word 2 (push_bit 8 (of_nat hdr)) d1) else d1)"

definition data_min_rate :: "'s hal_common \<Rightarrow> tx_desc \<Rightarrow> tx_desc" where
  "data_min_rate c d =
     (if min_rate c \<noteq> 0xFFFF
      then let d1 = set_word 4 (min_rate c) (set_word 3 RATE_INFO_ENABLE d);
               d2 = (if conf_ht40 c \<noteq> NO_HT40 then set_word 5 FULL40M_ENABLE d1 else d1)
           in if sgi c \<and> min_rate c AND 0x100 \<noteq> 0 then or_word 4 ENABLE_SHORTGI_RATE d2 else d2
      else d)"

definition bbp_info :: "rsi_ax_params \<Rightarrow> u16" where
  "bbp_info ax =
     (let f = (\<lambda>k w. push_bit k (ucast w) :: u16)
      in f 0 (coding_type ax) OR f 1 (nominal_pe ax) OR push_bit 3 (of_bool (UL_DL ax)) OR f 4 (he_ppdu_type ax) OR f 6 (beam_change ax)
         OR f 7 (ax_BW ax) OR f 8 (ax_STBC ax) OR f 9 (Tx_BF ax) OR f 10 (GI_LTF ax) OR f 12 (DCM ax)
         OR f 13 (NSTS_MIDAMBLE ax))"

definition data_ax :: "'s hal_common \<Rightarrow> rsi_vif \<Rightarrow> tx_desc \<Rightarrow> tx_desc \<times> 's hal_common" where
  "data_ax c vif d =
     (let ax = ax_params c
      in if ax_enabled ax \<and> vif_kind vif = NL80211_IFTYPE_STATION
         then let ax1 = (if fixed_rate_en c \<and> enable_er_su c \<and> config_er_su c \<noteq> 0
                         then ax\<lparr>he_ppdu_type := (if config_er_su c = 2 \<or> config_er_su c = 1 \<and> fixed_rate c AND 7 \<le> 2
                                                then 1 else 0)\<rparr>
                         else ax)
              in (set_word 5 (bbp_info ax1) d, c\<lparr>ax_params := ax1\<rparr>)
         else (d, c))"

definition data_fixed_rate :: "'s hal_common \<Rightarrow> tx_desc \<Rightarrow> tx_desc" where
  "data_fixed_rate c d =
     (if fixed_rate_en c then set_word 4 (fixed_rate c) (set_word 3 RATE_INFO_ENABLE d) else d)"

text \<open>The branch for EAPOL frames; the second result is the frame, whose priority may change.\<close>

definition eapol_fourth :: "tx_skb \<Rightarrow> nat \<Rightarrow> nat \<Rightarrow> bool" where
  "eapol_fourth skb len header_size =
     (if \<not> encap skb then len - header_size = 133 \<or> len - header_size = 131 else len = 113 + header_size)"

definition data_eapol :: "'s hal_common \<Rightarrow> rsi_vif \<Rightarrow> hal_sta \<Rightarrow> tx_skb \<Rightarrow> nat \<Rightarrow> nat \<Rightarrow> tx_desc \<Rightarrow> tx_desc \<times> tx_skb" where
  "data_eapol c vif sta skb len header_size d =
     (if \<not> is_tx_eapol vif skb then (d, skb)
      else
        let station = (vif_kind vif = NL80211_IFTYPE_STATION);
            d1 = set_word 4 (if station then min_supported_rate sta else RSI_RATE_1) (set_word 3 RATE_INFO_ENABLE d);
            d2 = (if ax_enabled (ax_params c) then set_word 5 0 d1 else d1);
            d3 = or_word 6 QUEUE_TO_HEAD d2;
            d4 = (if encap skb \<and> station
                  then or_word 1 ENCAP_OFFLOAD_MGMT_PKT (set_word 1 FETCH_RETRY_CNT_FRM_HST d3)
                  else or_word 1 FETCH_RETRY_CNT_FRM_HST d3);
            d5 = (if station \<and> \<not> eapol4_confirmed c
                  then set_word 0 (len_queue (len - FRAME_DESC_SZ) RSI_WIFI_MGMT_Q) d4 else d4);
            d6 = (if station \<and> eapol_fourth skb len header_size
                  then (or_word 1 RSI_DESC_REQUIRE_CFM_TO_HOST d5)\<lparr>confirm_frame_type := EAPOL4_CONFIRM\<rparr> else d5)
        in (d6\<lparr>retry_cnt := 15\<rparr>, if station \<and> eapol4_confirmed c then skb\<lparr>skb_priority := 3\<rparr> else skb))"

definition data_queue_word :: "tx_skb \<Rightarrow> u16" where
  "data_queue_word skb =
     push_bit 4 (of_nat (skb_tid skb) AND 0xF) OR (of_nat (skb_priority skb) AND 0xF) OR push_bit 8 (of_int (skb_sta_id skb))"

definition data_broadcast :: "'s hal_common \<Rightarrow> rsi_vif \<Rightarrow> tx_skb \<Rightarrow> u8 list \<Rightarrow> tx_desc \<Rightarrow> tx_desc" where
  "data_broadcast c vif skb wh d =
     (let rate = (if band_5ghz c then RSI_RATE_6 else RSI_RATE_1);
          dst = (if encap skb then h_dest wh else wlh_addr1 wh)
      in if is_broadcast_ether_addr dst \<or> is_multicast_ether_addr dst
         then let d1 = (if \<not> encap skb then set_word 3 (RATE_INFO_ENABLE OR RSI_BROADCAST_PKT) d else d)
              in if is_ap_kind vif then set_word 4 rate d1 else d1
         else d)"

text \<open>The descriptor, from the zeroed header to the end of the function.\<close>

definition data_desc ::
  "'s hal_common \<Rightarrow> rsi_vif \<Rightarrow> tx_skb \<Rightarrow> nat \<Rightarrow> u8 list \<Rightarrow> u8 list \<Rightarrow> nat \<Rightarrow> tx_desc \<times> tx_skb \<times> 's hal_common" where
  "data_desc c vif skb header_size wh wh' len =
     (let sta = data_station c vif skb;
          d0 = set_word 2 (of_nat (header_size - FRAME_DESC_SZ)) desc_zero;
          (hdr1, d1) = data_qos sta skb wh d0;
          (hdr2, d2) = data_encrypt c skb hdr1 d1;
          d3 = data_length skb hdr2 len (seq_number wh) d2;
          d4 = data_min_rate c d3;
          (d5, c1) = data_ax c vif d4;
          d6 = data_fixed_rate c1 d5;
          (d7, skb1) = data_eapol c1 vif sta skb len header_size d6;
          d8 = set_word 7 (data_queue_word skb1) d7;
          d9 = data_broadcast c1 vif skb1 wh d8;
          d10 = or_word 4 (push_bit 14 (ucast (vap_id vif))) d9;
          d11 = (if \<not> encap skb \<and> is_ap_kind vif \<and> frame_control wh' AND 0x2000 \<noteq> 0 then or_word 3 MORE_DATA_PRESENT d10 else d10)
      in (d11, skb1, c1))"

definition prepare_err :: "'s hal_common \<Rightarrow> tx_skb \<Rightarrow> int \<Rightarrow> int \<times> tx_skb \<times> 's hal_common" where
  "prepare_err c skb status = (status, skb, hal_indicate (hal_count_freed c skb) skb status)"

text \<open>
  \<open>rsi_prepare_data_desc\<close>. The second test of the headroom repeats the first one's condition, so that
  the alignment bytes, up to 64, are pushed unchecked.
\<close>

definition rsi_prepare_data_desc :: "'s hal_common \<Rightarrow> tx_skb \<Rightarrow> int \<times> tx_skb \<times> 's hal_common" where
  "rsi_prepare_data_desc c skb =
     (if headroom skb < 20 then prepare_err c skb (- ENOSPC)
      else
        let skb1 = skb_push skb 20;
            align0 = data_addr skb1 mod 64
        in if headroom skb1 < 20 then prepare_err c skb1 (- ENOSPC)
           else
             let align = (if (length (skb_data skb1) + align0) mod 64 = 0 \<and> usb_full_speed c then align0 + 1 else align0);
                 c1 = push_checked c skb1 align;
                 header_size = 20 + align;
                 skb2 = (skb_push skb1 align)\<lparr>internal_hdr_size := header_size\<rparr>;
                 wh = skb_data skb
             in case rsi_get_vif c1 (if encap skb then h_source wh else wlh_addr2 wh) of
                  None \<Rightarrow> prepare_err c1 skb2 (- ENOSPC)
                | Some vif \<Rightarrow>
                  let wh' = (if \<not> encap skb \<and> vif_kind vif = NL80211_IFTYPE_STATION \<and> ps_on c1
                             then wh[1 := wh ! 1 OR BIT 4] else wh);
                      len = length (skb_data skb2);
                      (d, skb3, c2) = data_desc c1 vif skb2 header_size wh wh' len
                  in (0, skb3\<lparr>skb_data := put_desc d (take header_size (skb_data skb2)) @ wh'\<rparr>, c2))"

section \<open>Management frames\<close>

definition mgmt_rate :: "'s hal_common \<Rightarrow> u16 \<Rightarrow> u16" where
  "mgmt_rate c fc =
     (if ieee80211_is_probe_req fc \<or> ieee80211_is_probe_resp fc \<or> ieee80211_is_beacon fc
      then (if \<not> band_5ghz c \<and> \<not> p2p_enabled c then RSI_RATE_1 else RSI_RATE_6)
      else ucast (minimum_basic_rate c))"

text \<open>Words 0 to 6 and the retry count of a management frame.\<close>

definition mgmt_desc :: "'s hal_common \<Rightarrow> nat \<Rightarrow> nat \<Rightarrow> u8 list \<Rightarrow> tx_desc" where
  "mgmt_desc c header_size len wh =
     (let fc = frame_control wh;
          protected = (fc AND 0x4000 \<noteq> 0);
          d1 = set_word 2 (of_nat (header_size - FRAME_DESC_SZ)) (set_word 1 0 (set_word 0 (len_queue (len - FRAME_DESC_SZ) RSI_WIFI_MGMT_Q) desc_zero));
          d2 = (if protected then set_word 6 MGMT_FRAME_PROTECTION (or_word 2 (push_bit 8 32) d1)
                else or_word 2 (push_bit 8 24) d1);
          d3 = (if ieee80211_is_probe_req fc \<and> scan_in_prog c then set_word 3 INSERT_SEQ_IN_FW d2 else d2);
          d4 = or_word 3 RATE_INFO_ENABLE d3;
          d5 = (if bit (wh ! 4) 0 then or_word 3 RSI_BROADCAST_PKT d4 else d4);
          d6 = or_word 6 (seq_number wh) d5;
          d7 = set_word 4 (mgmt_rate c fc) d6;
          d8 = (if conf_ht40 c \<noteq> NO_HT40 then set_word 5 FULL40M_ENABLE d7 else d7)
      in if ieee80211_is_probe_resp fc
         then (or_word 1 (ADD_DELTA_TSF_VAP_ID OR FETCH_RETRY_CNT_FRM_HST) d8)\<lparr>retry_cnt := 3\<rparr> else d8)"

definition rsi_prepare_mgmt_desc :: "'s hal_common \<Rightarrow> tx_skb \<Rightarrow> int \<times> tx_skb \<times> 's hal_common" where
  "rsi_prepare_mgmt_desc c skb =
     (if \<not> hw_ok c then (- EINVAL, skb, c)
      else if headroom skb < 20 then (- ENOSPC, skb, c)
      else
        let skb1 = skb_push skb 20;
            align = data_addr skb1 mod 64
        in if headroom skb1 < align then (- ENOSPC, skb1, c)
           else
             let header_size = 20 + align;
                 skb2 = (skb_push skb1 align)\<lparr>internal_hdr_size := header_size\<rparr>;
                 wh = skb_data skb;
                 len = length (skb_data skb2)
             in case rsi_get_vif c (wlh_addr2 wh) of
                  None \<Rightarrow> (- ENOSPC, skb2, c)
                | Some vif \<Rightarrow>
                  if 512 < len then (- EINVAL, skb2, c)
                  else
                    let d = mgmt_desc c header_size len wh;
                        finish = (\<lambda>w7. (0, skb2\<lparr>skb_data :=
                          put_desc (or_word 4 (push_bit 14 (ucast (vap_id vif))) (or_word 7 w7 d)) (take header_size (skb_data skb2)) @ wh\<rparr>, c))
                    in if is_ap_kind vif \<and> ieee80211_is_action (frame_control wh)
                       then (case hal_find_sta c (wlh_addr1 wh) of
                               None \<Rightarrow> (- EINVAL, skb2, c)
                             | Some i \<Rightarrow> finish (push_bit 8 (of_int (hal_sta_id (hal_stations c ! i)))))
                       else finish (push_bit 8 (ucast (vap_id vif))))"

section \<open>Handing a packet to the bus\<close>

definition write_skb :: "'s hal_common \<Rightarrow> tx_skb \<Rightarrow> int \<times> 's hal_common" where
  [rsi_defs]: "write_skb c skb =
     (let (status, b) = write_pkt (hal_ops c) (bus c) (ptr_of (behind_skb c) (skb_data skb)) (of_nat (length (skb_data skb)))
      in (status, c\<lparr>bus := b\<rparr>))"

definition rsi_send_pkt :: "'s hal_common \<Rightarrow> tx_skb \<Rightarrow> int \<times> 's hal_common" where
  "rsi_send_pkt c skb =
     (if \<not> (wlan_intention c \<or> bt_intention c) \<or> \<not> hal_tx_access c
      then let status_tx_access = tx_access c (tx_access_calls c);
               c1 = c\<lparr>tx_access_calls := Suc (tx_access_calls c), common_intention := True\<rparr>
           in if status_tx_access \<noteq> 0 then (- EINVAL, c1)
              else let (status, c2) = write_skb c1 skb in (status, c2\<lparr>common_intention := False\<rparr>)
      else write_skb c skb)"

text \<open>\<open>rsi_send_data_pkt\<close>: a packet that is not sent is reported with the error.\<close>

definition data_pkt_allowed :: "'s hal_common \<Rightarrow> tx_skb \<Rightarrow> int" where
  "data_pkt_allowed c skb =
     (let hd = drop (internal_hdr_size skb) (skb_data skb)
      in if hal_iface_down c \<or> \<not> ctl_vif skb then - EINVAL
         else case rsi_get_vif c (if encap skb then h_source hd else wlh_addr2 hd) of
           None \<Rightarrow> - ENOSPC
         | Some vif \<Rightarrow>
           if vif_kind vif = NL80211_IFTYPE_STATION \<and>
              (\<not> vif_assoc vif \<or> \<not> encap skb \<and> wlh_addr1 hd \<noteq> vif_bssid vif)
           then - EINVAL else 0)"

definition rsi_send_data_pkt :: "'s hal_common \<Rightarrow> tx_skb \<Rightarrow> int \<times> 's hal_common" where
  "rsi_send_data_pkt c skb =
     (let allowed = data_pkt_allowed c skb;
          (status, c1) = (if allowed = 0 then rsi_send_pkt c skb else (allowed, c))
      in (status, hal_indicate (hal_count_freed c1 skb) skb status))"

definition or_frame_word :: "nat \<Rightarrow> u16 \<Rightarrow> u8 list \<Rightarrow> u8 list" where
  [rsi_defs]: "or_frame_word i w d =
     d[2 * i := d ! (2 * i) OR ucast w, 2 * i + 1 := d ! (2 * i + 1) OR ucast (drop_bit 8 w)]"

text \<open>
  The confirmation requested for a QoS null frame: the station it goes to, or None. With an
  access point the station is dereferenced before it is tested.
\<close>

definition null_station :: "'s hal_common \<Rightarrow> rsi_vif \<Rightarrow> u8 list \<Rightarrow> nat option" where
  "null_station c vif wh =
     (if vif_kind vif = NL80211_IFTYPE_AP then hal_find_sta c (wlh_addr1 wh)
      else if vif_kind vif = NL80211_IFTYPE_STATION then Some 32
      else None)"

definition request_null_confirm :: "'s hal_common \<Rightarrow> rsi_vif \<Rightarrow> tx_skb \<Rightarrow> nat \<Rightarrow> tx_skb \<times> 's hal_common" where
  "request_null_confirm c vif skb i =
     (let sta = hal_stations c ! i;
          d = or_frame_word 7 (push_bit 8 (of_int (hal_sta_id sta))) (or_frame_word 1 RSI_DESC_REQUIRE_CFM_TO_HOST (skb_data skb));
          skb1 = skb\<lparr>skb_data := d[16 := NULLDATA_CONFIRM]\<rparr>;
          offset = (if vif_kind vif = NL80211_IFTYPE_AP then nat (hal_sta_id sta) else 32)
      in (skb1, c\<lparr>hal_stations := (hal_stations c)[offset := (hal_stations c ! offset)\<lparr>sta_skb := Some skb1\<rparr>]\<rparr>))"

text \<open>What becomes of a probe request: None when it is dropped in favour of background scanning.\<close>

definition probe_request_filter :: "'s hal_common \<Rightarrow> rsi_vif \<Rightarrow> u8 list \<Rightarrow> tx_skb \<Rightarrow> tx_skb option" where
  "probe_request_filter c vif wh skb =
     (if \<not> ieee80211_is_probe_req (frame_control wh) then Some skb
      else if \<not> vif_assoc vif
      then Some (skb\<lparr>skb_data := (or_frame_word 1 RSI_DESC_REQUIRE_CFM_TO_HOST (skb_data skb))[16 := PROBEREQ_CONFIRM]\<rparr>)
      else if hal_bgscan_en c \<and> (ucast (cur_channel c) \<noteq> connected_channel c \<or> wh ! 4 = 0xFF) then None
      else Some skb)"

definition send_and_report :: "bool \<Rightarrow> 's hal_common \<Rightarrow> tx_skb \<Rightarrow> int \<times> 's hal_common" where
  "send_and_report wait_for_tx_cnfm c skb =
     (let (status, c1) = rsi_send_pkt c skb
      in (status, if wait_for_tx_cnfm then c1 else hal_indicate c1 skb status))"

definition rsi_send_mgmt_pkt :: "'s hal_common \<Rightarrow> tx_skb \<Rightarrow> int \<times> 's hal_common" where
  "rsi_send_mgmt_pkt c skb =
     (if internal_pkt skb
      then let skb1 = skb\<lparr>skb_data := internal_mgmt_bytes (skb_data skb)\<rparr>;
               (status, c1) = rsi_send_pkt c skb1
           in (status, c1\<lparr>freed := freed c1 @ [skb1]\<rparr>)
      else if hal_iface_down c then (- EINVAL, hal_indicate c skb (- EINVAL))
      else if encap skb then send_and_report False c skb
      else
        let wh = drop (internal_hdr_size skb) (skb_data skb); fc = frame_control wh
        in case rsi_get_vif c (wlh_addr2 wh) of
             None \<Rightarrow> (- ENOSPC, hal_indicate c skb (- ENOSPC))
           | Some vif \<Rightarrow>
             if ieee80211_is_qos_nullfunc fc \<and> req_tx_status skb
             then (case null_station c vif wh of
                     None \<Rightarrow> if vif_kind vif = NL80211_IFTYPE_AP then (- EINVAL, c\<lparr>panicked := True\<rparr>)
                             else (- EINVAL, hal_indicate c skb 1)
                   | Some i \<Rightarrow> (let (skb1, c1) = request_null_confirm c vif skb i in send_and_report True c1 skb1))
             else case probe_request_filter c vif wh skb of
                    None \<Rightarrow> (0, hal_indicate c skb 0)
                  | Some skb1 \<Rightarrow> send_and_report False c skb1)"

text \<open>\<open>pkt_type\<close> is the packet type in the control block of a Bluetooth packet.\<close>

definition rsi_send_bt_pkt :: "'s hal_common \<Rightarrow> u8 \<Rightarrow> tx_skb \<Rightarrow> int \<times> 's hal_common" where
  "rsi_send_bt_pkt c pkt_type skb =
     (let queueno = drop_bit 4 (skb_data skb ! 1) AND 0xF;
          (status, skb1, c1) =
            (if queueno = 6 then (let (st, c1) = rsi_send_pkt c skb in (st, skb, c1))
             else if headroom skb < FRAME_DESC_SZ then (- ENOSPC, skb, c)
             else let skb1 = skb_push skb FRAME_DESC_SZ;
                      words = [of_nat (length (skb_data skb1) - FRAME_DESC_SZ) OR push_bit 12 (RSI_BT_DATA_Q AND 7),
                               0, 0, 0, 0, 0, 0, ucast pkt_type];
                      skb2 = skb1\<lparr>skb_data := put_words words @ skb_data skb\<rparr>;
                      (st, c1) = rsi_send_pkt c skb2
                  in (st, skb2, c1))
      in (status, c1\<lparr>freed := freed c1 @ [skb1]\<rparr>))"

definition rsi_send_zb_pkt :: "'s hal_common \<Rightarrow> tx_skb option \<Rightarrow> int \<times> 's hal_common" where
  "rsi_send_zb_pkt c skb_opt =
     (case skb_opt of
        None \<Rightarrow> (- EINVAL, c)
      | Some skb \<Rightarrow>
        let skb1 = skb\<lparr>skb_data := internal_mgmt_bytes (skb_data skb)\<rparr>;
            (status, c1) = rsi_send_pkt c skb1
        in (status, c1\<lparr>freed := freed c1 @ [skb1]\<rparr>))"

section \<open>Beacons\<close>

text \<open>
  The loop that removes the country elements. Its index is a \<open>u8\<close>. None: it does not return;
  \<open>Some None\<close>: an element reaches past the end and \<open>memmove\<close> is asked to move a negative
  number of bytes.
\<close>

partial_function (option) strip_country :: "u8 \<Rightarrow> u8 list \<Rightarrow> u8 list option option" where
  "strip_country index bcn =
     (if unat index < length bcn
      then let i = unat index; ie_id = bcn ! i; ie_len = bcn ! (i + 1); next_ie = i + unat ie_len + 2
           in if ie_id = 7
              then (if length bcn < next_ie then Some None
                    else strip_country index (take i bcn @ drop next_ie bcn))
              else strip_country (index + 2 + ie_len) bcn
      else Some (Some bcn))"

definition beacon_words :: "'s hal_common \<Rightarrow> nat \<Rightarrow> u8 \<Rightarrow> u16 list" where
  "beacon_words c len dtim =
     (let w3 = (BIT 0 OR BIT 9 OR BIT 11 OR BIT 15 OR BIT 2) OR RATE_INFO_ENABLE;
          w5 = (case conf_ht40 c of HT40_PLUS \<Rightarrow> push_bit 12 4 OR 4 | HT40_MINUS \<Rightarrow> push_bit 12 2 OR 2 | NO_HT40 \<Rightarrow> 0);
          rate = (if \<not> band_5ghz c \<and> \<not> p2p_enabled c then RSI_RATE_1 else RSI_RATE_6)
      in [len_queue len RSI_WIFI_DATA_Q, 0, push_bit 8 24, (if dtim = 0 then w3 OR BIT 10 OR BIT 11 else w3),
          rate, w5, 0, 11])"

text \<open>
  \<open>rsi_prepare_beacon\<close> with the beacon and the offset of its TIM element as mac80211 gives
  them: the status and the frame, with the counter incremented.
\<close>

definition rsi_prepare_beacon ::
  "'s hal_common \<Rightarrow> (u8 list \<times> nat) option \<Rightarrow> (int \<times> u8 list option \<times> 's hal_common) option" where
  "rsi_prepare_beacon c mac_bcn =
     (case mac_bcn of
        None \<Rightarrow> Some (- EINVAL, None, c)
      | Some (bcn, tim_offset) \<Rightarrow>
        let c1 = c\<lparr>beacon_cnt := Suc (beacon_cnt c)\<rparr>; dtim = bcn ! (tim_offset + 2)
        in case (if acx_module c then strip_country 36 bcn else Some (Some bcn)) of
             None \<Rightarrow> None
           | Some None \<Rightarrow> Some (0, None, c1\<lparr>panicked := True\<rparr>)
           | Some (Some bcn') \<Rightarrow> Some (0, Some (put_words (beacon_words c (length bcn') dtim) @ bcn'), c1))"

section \<open>Data descriptors can be read back\<close>

lemma length_set_word [simp]: "length (desc_word (set_word i w d)) = length (desc_word d)"
    "length (desc_word (or_word i w d)) = length (desc_word d)" "length (desc_word desc_zero) = 8"
  by (simp_all add: set_word_def or_word_def desc_zero_def)

lemma word_frame [simp]: "i \<noteq> j \<Longrightarrow> desc_word (set_word i w d) ! j = desc_word d ! j"
    "i \<noteq> j \<Longrightarrow> desc_word (or_word i w d) ! j = desc_word d ! j"
    "i < length (desc_word d) \<Longrightarrow> desc_word (set_word i w d) ! i = w"
    "i < length (desc_word d) \<Longrightarrow> desc_word (or_word i w d) ! i = desc_word d ! i OR w"
  by (simp_all add: set_word_def or_word_def)

text \<open>
  Every part keeps the eight words, only two of them write word 0, and none the lower byte of word 2, in
  which the size of the header in front of the frame is announced.
\<close>

definition keeps_words :: "tx_desc \<Rightarrow> tx_desc \<Rightarrow> bool" where
  "keeps_words d d' \<longleftrightarrow> length (desc_word d') = length (desc_word d) \<and> desc_word d' ! 0 = desc_word d ! 0 \<and> desc_word d' ! 2 = desc_word d ! 2"

lemma data_qos_keeps: "data_qos sta skb wh d = (h, d') \<Longrightarrow> keeps_words d d'"
  by (auto simp: data_qos_def keeps_words_def Let_def split: if_splits)

lemma data_encrypt_keeps: "data_encrypt c skb h0 d = (h, d') \<Longrightarrow> keeps_words d d'"
  by (auto simp: data_encrypt_def keeps_words_def split: if_splits)

lemma low_byte_or: "(w OR push_bit 8 v) AND 0xFF = (w AND 0xFF :: u16)"
proof -
  have m: "(0xFF :: u16) = mask 8" by (simp add: mask_eq_exp_minus_1)
  show ?thesis unfolding m by (rule bit_word_eqI) (auto simp: bit_simps)
qed

lemma data_length_words: "2 < length (desc_word d) \<Longrightarrow>
    length (desc_word (data_length skb h len seq d)) = length (desc_word d) \<and>
    desc_word (data_length skb h len seq d) ! 0 = len_queue (len - FRAME_DESC_SZ) RSI_WIFI_DATA_Q \<and>
    desc_word (data_length skb h len seq d) ! 2 AND 0xFF = desc_word d ! 2 AND 0xFF"
  by (cases "desc_word d = []") (simp_all add: data_length_def Let_def low_byte_or)

lemma data_rates_keep: "keeps_words d (data_min_rate c d)" "keeps_words d (data_fixed_rate c d)"
  by (simp_all add: data_min_rate_def data_fixed_rate_def keeps_words_def Let_def)

lemma data_ax_keeps: "data_ax c vif d = (d', c') \<Longrightarrow> keeps_words d d' \<and> panicked c' = panicked c \<and> eapol4_confirmed c' = eapol4_confirmed c"
  by (auto simp: data_ax_def keeps_words_def Let_def split: if_splits)

lemma data_broadcast_keeps: "keeps_words d (data_broadcast c vif skb wh d)"
  by (simp add: data_broadcast_def keeps_words_def Let_def)

text \<open>The queue of a data frame: EAPOL frames of a station go to the management queue until the fourth is confirmed.\<close>

definition data_frame_queue :: "'s hal_common \<Rightarrow> rsi_vif \<Rightarrow> tx_skb \<Rightarrow> u16" where
  "data_frame_queue c vif skb =
     (if vif_kind vif = NL80211_IFTYPE_STATION \<and> is_tx_eapol vif skb \<and> \<not> eapol4_confirmed c then RSI_WIFI_MGMT_Q else RSI_WIFI_DATA_Q)"

lemma data_eapol_words:
  assumes "data_eapol c vif sta skb len header_size d = (d', skb')" "2 < length (desc_word d)"
    "desc_word d ! 0 = len_queue (len - FRAME_DESC_SZ) RSI_WIFI_DATA_Q"
  shows "length (desc_word d') = length (desc_word d)" "desc_word d' ! 2 = desc_word d ! 2"
    "desc_word d' ! 0 = len_queue (len - FRAME_DESC_SZ) (data_frame_queue c vif skb)"
    "\<exists>prio. skb' = skb\<lparr>skb_priority := prio\<rparr>"
proof -
  have "desc_word d \<noteq> []" using assms(2) by auto
  then show "length (desc_word d') = length (desc_word d)" "desc_word d' ! 2 = desc_word d ! 2"
    "desc_word d' ! 0 = len_queue (len - FRAME_DESC_SZ) (data_frame_queue c vif skb)"
    "\<exists>prio. skb' = skb\<lparr>skb_priority := prio\<rparr>"
    using assms by (auto simp: data_eapol_def data_frame_queue_def Let_def split: if_splits intro: exI [of _ "skb_priority skb"])
qed

lemma data_desc_words:
  assumes "data_desc c vif skb header_size wh wh' len = (d, skb', c')"
  shows "length (desc_word d) = 8" "desc_word d ! 0 = len_queue (len - FRAME_DESC_SZ) (data_frame_queue c vif skb)"
    "desc_word d ! 2 AND 0xFF = of_nat (header_size - FRAME_DESC_SZ) AND 0xFF"
    "\<exists>prio. skb' = skb\<lparr>skb_priority := prio\<rparr>" "panicked c' = panicked c"
proof -
  define sta where "sta = data_station c vif skb"
  define d0 where "d0 = set_word 2 (of_nat (header_size - FRAME_DESC_SZ)) desc_zero"
  obtain h1 d1 where 1: "data_qos sta skb wh d0 = (h1, d1)" by fastforce
  obtain h2 d2 where 2: "data_encrypt c skb h1 d1 = (h2, d2)" by fastforce
  define d3 where "d3 = data_length skb h2 len (seq_number wh) d2"
  define d4 where "d4 = data_min_rate c d3"
  obtain d5 c1 where 5: "data_ax c vif d4 = (d5, c1)" by fastforce
  define d6 where "d6 = data_fixed_rate c1 d5"
  obtain d7 skb1 where 7: "data_eapol c1 vif sta skb len header_size d6 = (d7, skb1)" by fastforce
  define d9 where "d9 = data_broadcast c1 vif skb1 wh (set_word 7 (data_queue_word skb1) d7)"
  have d2: "length (desc_word d2) = 8" "desc_word d2 ! 2 = of_nat (header_size - FRAME_DESC_SZ)"
    using data_qos_keeps [OF 1] data_encrypt_keeps [OF 2] by (simp_all add: d0_def keeps_words_def)
  have k: "keeps_words d3 d6"
    using data_rates_keep(1) [of d3 c] data_rates_keep(2) [of d5 c1] data_ax_keeps [OF 5] by (simp add: d4_def d6_def keeps_words_def)
  have w: "length (desc_word d6) = 8" "desc_word d6 ! 0 = len_queue (len - FRAME_DESC_SZ) RSI_WIFI_DATA_Q"
      "desc_word d6 ! 2 AND 0xFF = of_nat (header_size - FRAME_DESC_SZ) AND 0xFF"
    using d2 data_length_words [of d2 skb h2 len "seq_number wh"] k by (simp_all add: d3_def keeps_words_def)
  note e = data_eapol_words [OF 7 _ w(2)]
  have q: "data_frame_queue c1 vif skb = data_frame_queue c vif skb" using data_ax_keeps [OF 5] by (simp add: data_frame_queue_def)
  have w9: "length (desc_word d9) = 8" "desc_word d9 ! 0 = desc_word d7 ! 0" "desc_word d9 ! 2 = desc_word d7 ! 2"
    using e(1) w(1) data_broadcast_keeps [of "set_word 7 (data_queue_word skb1) d7" c1 vif skb1 wh] by (simp_all add: d9_def keeps_words_def)
  let ?d10 = "or_word 4 (push_bit 14 (ucast (vap_id vif))) d9"
  have "data_desc c vif skb header_size wh wh' len =
      (if \<not> encap skb \<and> is_ap_kind vif \<and> frame_control wh' AND 0x2000 \<noteq> 0 then or_word 3 MORE_DATA_PRESENT ?d10 else ?d10,
       skb1, c1)"
    using 1 2 5 7
    by (simp add: data_desc_def Let_def sta_def [symmetric] d0_def [symmetric] d3_def [symmetric] d4_def [symmetric]
        d6_def [symmetric] d9_def [symmetric])
  then have r: "skb' = skb1" "c' = c1" "length (desc_word d) = length (desc_word d9)" "desc_word d ! 0 = desc_word d9 ! 0"
      "desc_word d ! 2 = desc_word d9 ! 2"
    using assms by auto
  show "length (desc_word d) = 8" "\<exists>prio. skb' = skb\<lparr>skb_priority := prio\<rparr>" "panicked c' = panicked c"
    "desc_word d ! 0 = len_queue (len - FRAME_DESC_SZ) (data_frame_queue c vif skb)"
    "desc_word d ! 2 AND 0xFF = of_nat (header_size - FRAME_DESC_SZ) AND 0xFF"
    using r w9 e w q data_ax_keeps [OF 5] by auto
qed

text \<open>
  The bytes 0 to 15 of a frame read back as the descriptor: the length behind the descriptor, the queue, and
  the size of the header with the descriptor, of which the lower byte of word 2 announces what is behind
  the descriptor.
\<close>

definition desc_len :: "u8 list \<Rightarrow> nat" where
  "desc_len d = unat (get_words d 0 AND 0xFFF)"

definition desc_queue :: "u8 list \<Rightarrow> u16" where
  "desc_queue d = drop_bit 12 (get_words d 0)"

definition desc_header :: "u8 list \<Rightarrow> nat" where
  "desc_header d = FRAME_DESC_SZ + unat (get_words d 2 AND 0xFF)"

lemma put_desc_header:
  assumes "length (desc_word d) = 8" "desc_word d ! 2 AND 0xFF = of_nat k AND 0xFF" "k < 256"
  shows "desc_header (put_desc d h @ rest) = FRAME_DESC_SZ + k"
proof -
  have "get_words (put_desc d h @ rest) 2 = desc_word d ! 2"
    using assms(1) get_put_words [of 2 "desc_word d"] by (simp add: put_desc_def)
  moreover have "unat (of_nat k AND 0xFF :: u16) = k"
  proof -
    have "(of_nat k AND 0xFF :: u16) = take_bit 8 (of_nat k)" by (simp add: take_bit_eq_mask mask_eq_exp_minus_1)
    also have "unat (take_bit 8 (of_nat k) :: u16) = take_bit 8 (unat (of_nat k :: u16))" by (simp only: unsigned_take_bit_eq)
    finally show ?thesis using assms(3) unat_of_nat_small [of k, where 'a = 16] by (simp add: take_bit_nat_eq_self)
  qed
  ultimately show ?thesis using assms(2) by (simp add: desc_header_def)
qed

lemma put_desc_fields:
  assumes "length (desc_word d) = 8" "desc_word d ! 0 = len_queue n q" "n < 4096" "unat q < 16"
  shows "desc_len (put_desc d h @ rest) = n" "desc_queue (put_desc d h @ rest) = q"
proof -
  have "get_words (put_desc d h @ rest) 0 = len_queue n q"
    using assms(1,2) get_put_words [of 0 "desc_word d"] by (simp add: put_desc_def)
  then show "desc_len (put_desc d h @ rest) = n" "desc_queue (put_desc d h @ rest) = q"
    using len_queue_fields [OF assms(3,4)] by (simp_all add: desc_len_def desc_queue_def)
qed

lemma length_put_desc: "length (desc_word d) = 8 \<Longrightarrow> 20 \<le> length h \<Longrightarrow> length (put_desc d h) = length h"
  by (simp add: put_desc_def)

text \<open>The number of alignment bytes \<open>rsi_prepare_data_desc\<close> pushes.\<close>

definition data_align :: "'s hal_common \<Rightarrow> tx_skb \<Rightarrow> nat" where
  "data_align c skb =
     (let a = (data_addr skb - 20) mod 64
      in if (20 + length (skb_data skb) + a) mod 64 = 0 \<and> usb_full_speed c then a + 1 else a)"

lemma prepare_data_unfold:
  assumes "40 \<le> headroom skb"
  shows "rsi_prepare_data_desc c skb =
    (let align = data_align c skb; skb1 = skb_push skb 20; c1 = push_checked c skb1 align;
         skb2 = (skb_push skb1 align)\<lparr>internal_hdr_size := 20 + align\<rparr>; wh = skb_data skb
     in case rsi_get_vif c1 (if encap skb then h_source wh else wlh_addr2 wh) of
          None \<Rightarrow> prepare_err c1 skb2 (- ENOSPC)
        | Some vif \<Rightarrow>
          let wh' = (if \<not> encap skb \<and> vif_kind vif = NL80211_IFTYPE_STATION \<and> ps_on c1
                     then wh[1 := wh ! 1 OR BIT 4] else wh);
              (d, skb3, c2) = data_desc c1 vif skb2 (20 + align) wh wh' (length (skb_data skb2))
          in (0, skb3\<lparr>skb_data := put_desc d (take (20 + align) (skb_data skb2)) @ wh'\<rparr>, c2))"
proof -
  let ?skb1 = "skb_push skb 20"
  have c: "\<not> headroom skb < 20" "\<not> headroom ?skb1 < 20" using assms by simp_all
  have a: "(if (length (skb_data ?skb1) + data_addr ?skb1 mod 64) mod 64 = 0 \<and> usb_full_speed c
      then data_addr ?skb1 mod 64 + 1 else data_addr ?skb1 mod 64) = data_align c skb"
    by (simp add: data_align_def Let_def)
  show ?thesis
    unfolding rsi_prepare_data_desc_def Let_def if_not_P [OF c(1)] if_not_P [OF c(2)] a ..
qed

text \<open>The shape of a data frame with its descriptor.\<close>

lemma data_align_bound: "data_align c skb \<le> 64"
proof -
  have "(data_addr skb - 20) mod 64 \<le> 63" using mod_less_divisor [of 64 "data_addr skb - 20"] by linarith
  then show ?thesis by (simp add: data_align_def Let_def)
qed

lemma prepare_data_ok:
  assumes "rsi_prepare_data_desc c skb = (0, skb', c')"
  defines "wh \<equiv> skb_data skb"
  obtains vif d where "rsi_get_vif c (if encap skb then h_source wh else wlh_addr2 wh) = Some vif"
    "internal_hdr_size skb' = 20 + data_align c skb"
    "skb_data skb' = put_desc d (replicate (20 + data_align c skb) 0) @
       (if \<not> encap skb \<and> vif_kind vif = NL80211_IFTYPE_STATION \<and> ps_on c then wh[1 := wh ! 1 OR BIT 4] else wh)"
    "length (desc_word d) = 8" "desc_word d ! 0 = len_queue (4 + data_align c skb + length wh) (data_frame_queue c vif skb)"
    "desc_word d ! 2 AND 0xFF = of_nat (4 + data_align c skb) AND 0xFF"
proof -
  have room: "40 \<le> headroom skb"
    using assms by (auto simp: rsi_prepare_data_desc_def prepare_err_def Let_def split: if_splits)
  define skb2 where "skb2 = (skb_push (skb_push skb 20) (data_align c skb))\<lparr>internal_hdr_size := 20 + data_align c skb\<rparr>"
  define c1 where "c1 = push_checked c (skb_push skb 20) (data_align c skb)"
  have c1: "rsi_get_vif c1 = rsi_get_vif c" "ps_on c1 = ps_on c" "eapol4_confirmed c1 = eapol4_confirmed c"
    by (simp_all add: c1_def push_checked_def rsi_get_vif_def fun_eq_iff)
  have zeros: "skb_data skb2 = replicate (20 + data_align c skb) 0 @ wh"
    by (simp add: skb2_def skb_push_def replicate_add [symmetric] add.commute wh_def)
  obtain vif where v: "rsi_get_vif c1 (if encap skb then h_source wh else wlh_addr2 wh) = Some vif"
    using assms(1) room unfolding wh_def
    by (cases "rsi_get_vif c1 (if encap skb then h_source (skb_data skb) else wlh_addr2 (skb_data skb))")
      (auto simp: prepare_data_unfold Let_def prepare_err_def c1_def)
  define wh' where "wh' = (if \<not> encap skb \<and> vif_kind vif = NL80211_IFTYPE_STATION \<and> ps_on c1
                     then wh[1 := wh ! 1 OR BIT 4] else wh)"
  obtain d skb3 c2 where d: "data_desc c1 vif skb2 (20 + data_align c skb) wh wh' (length (skb_data skb2)) = (d, skb3, c2)"
    by (metis prod_cases3)
  note w = data_desc_words [OF d]
  have s': "skb' = skb3\<lparr>skb_data := put_desc d (take (20 + data_align c skb) (skb_data skb2)) @ wh'\<rparr>"
    using assms(1) room v d unfolding wh'_def wh_def
    by (simp add: prepare_data_unfold Let_def c1_def [symmetric] skb2_def [symmetric])
  have i: "internal_hdr_size skb' = 20 + data_align c skb" using w(4) s' by (auto simp: skb2_def)
  have d': "skb_data skb' = put_desc d (replicate (20 + data_align c skb) 0) @ wh'" using s' zeros by simp
  have q: "data_frame_queue c1 vif skb2 = data_frame_queue c vif skb"
    by (simp add: data_frame_queue_def c1 is_tx_eapol_def skb2_def skb_push_def)
  have q': "desc_word d ! 0 = len_queue (4 + data_align c skb + length wh) (data_frame_queue c vif skb)"
    using w(2) zeros by (simp add: q add.assoc)
  have h: "desc_word d ! 2 AND 0xFF = of_nat (4 + data_align c skb) AND 0xFF" using w(3) by simp
  show thesis by (rule that [OF v [unfolded c1(1)] i d' [unfolded wh'_def c1(2)] w(1) q' h])
qed

text \<open>
  C18. A data frame that gets a descriptor, and whose length behind the descriptor has 12 bits, can be taken apart
  again from its bytes alone: the descriptor announces the header, which is the one the driver
  noted in the packet, the length of everything behind the descriptor, and the queue: the data
  queue, or the management queue for an EAPOL frame of a station until the fourth is confirmed. Behind the header
  lies the frame, unchanged but for the power management bit, which is set in the frame control of an 802.11
  frame of a station in power save.
\<close>
theorem data_desc_roundtrip:
  assumes "rsi_prepare_data_desc c skb = (0, skb', c')" "length (skb_data skb) + 4 + data_align c skb < 4096"
  shows "\<exists>vif. rsi_get_vif c (if encap skb then h_source (skb_data skb) else wlh_addr2 (skb_data skb)) = Some vif \<and>
    internal_hdr_size skb' = 20 + data_align c skb \<and> desc_header (skb_data skb') = internal_hdr_size skb' \<and>
    drop (desc_header (skb_data skb')) (skb_data skb') =
      (if \<not> encap skb \<and> vif_kind vif = NL80211_IFTYPE_STATION \<and> ps_on c
       then (skb_data skb)[1 := skb_data skb ! 1 OR BIT 4] else skb_data skb) \<and>
    desc_len (skb_data skb') = length (skb_data skb') - FRAME_DESC_SZ \<and>
    length (skb_data skb') = desc_header (skb_data skb') + length (skb_data skb) \<and>
    desc_queue (skb_data skb') = data_frame_queue c vif skb"
  using assms(1)
proof (rule prepare_data_ok)
  fix vif d
  assume v: "rsi_get_vif c (if encap skb then h_source (skb_data skb) else wlh_addr2 (skb_data skb)) = Some vif"
    and i: "internal_hdr_size skb' = 20 + data_align c skb"
    and s: "skb_data skb' = put_desc d (replicate (20 + data_align c skb) 0) @
       (if \<not> encap skb \<and> vif_kind vif = NL80211_IFTYPE_STATION \<and> ps_on c then (skb_data skb)[1 := skb_data skb ! 1 OR BIT 4] else skb_data skb)"
    and w: "length (desc_word d) = 8" "desc_word d ! 0 = len_queue (4 + data_align c skb + length (skb_data skb)) (data_frame_queue c vif skb)"
    and h: "desc_word d ! 2 AND 0xFF = of_nat (4 + data_align c skb) AND 0xFF"
  have "unat (data_frame_queue c vif skb) < 16" by (simp add: data_frame_queue_def)
  then have f: "desc_len (skb_data skb') = 4 + data_align c skb + length (skb_data skb)" "desc_queue (skb_data skb') = data_frame_queue c vif skb"
    using put_desc_fields [OF w] assms(2) by (simp_all add: s)
  have hd: "desc_header (skb_data skb') = 20 + data_align c skb"
    using put_desc_header [OF w(1) h] data_align_bound [of c skb] by (simp add: s)
  have "length (put_desc d (replicate (20 + data_align c skb) 0)) = 20 + data_align c skb"
    using w(1) by (simp add: length_put_desc)
  then show ?thesis using v i f hd by (intro exI [of _ vif]) (simp add: s)
qed

subsection \<open>A concrete interface\<close>

definition example_vif :: rsi_vif where
  "example_vif = \<lparr>vif_addr = [2, 0, 0, 0, 0, 9], vif_kind = NL80211_IFTYPE_STATION, vap_id = 0, vif_assoc = True,
     vif_bssid = [2, 0, 0, 0, 0, 1]\<rparr>"

definition example_bus :: "u8 list list rsi_host_intf_ops" where
  "example_bus = \<lparr>read_pkt = None, write_pkt = (\<lambda>s p n. (0, s @ [bytes_at p 0 (unat n)])), master_access_msword = None,
     write_reg_multiple = (\<lambda>s a p n. (0, s)), master_reg_read = (\<lambda>s a n. (0, None, s)), master_reg_write = (\<lambda>s a d n. (0, s)),
     load_data_master_write = (\<lambda>s a n b p. (0, s)), ta_reset_ops = None, check_hw_queue_status = (\<lambda>s q. (1, s))\<rparr>"

definition example_hal :: "u8 list list hal_common" where
  "example_hal = \<lparr>vifs = [Some example_vif, None, None],
     hal_stations = replicate 33 \<lparr>hal_sta_addr = Some [2, 0, 0, 0, 0, 1], hal_sta_id = 0, sta_wme = True, min_supported_rate = 0, sta_skb = None\<rparr>,
     hal_max_stations = 32, hw_ok = True, hal_iface_down = False, usb_full_speed = False, ps_on = False, cipher_wep = False,
     min_rate = 0xFFFF, fixed_rate_en = False, fixed_rate = 0, conf_ht40 = NO_HT40, sgi = False,
     ax_params = no_ax,
     enable_er_su = False, config_er_su = 0, eapol4_confirmed = False, band_5ghz = False, scan_in_prog = False, p2p_enabled = False,
     minimum_basic_rate = 0, hal_bgscan_en = False, cur_channel = 1, connected_channel = 1, acx_module = True, beacon_cnt = 0,
     wlan_intention = True, bt_intention = False, hal_tx_access = True, common_intention = False, tx_access = (\<lambda>_. 0),
     tx_access_calls = 0, behind_skb = (\<lambda>_. 0), hal_ops = example_bus, bus = [], hal_freed_count = replicate 6 0,
     reported = [], freed = [], panicked = False\<rparr>"

definition example_frame :: "nat \<Rightarrow> nat \<Rightarrow> tx_skb" where
  "example_frame addr room = \<lparr>skb_data = [0x88, 1, 0, 0, 2, 0, 0, 0, 0, 1, 2, 0, 0, 0, 0, 9] @ replicate 20 0,
     data_addr = addr, headroom = room, skb_priority = 1, skb_protocol = 0x0800, encap = False, internal_pkt = False,
     internal_hdr_size = 0, port_ctrl = False, dont_encrypt = False, req_tx_status = False, hw_key = True, ctl_vif = True,
     skb_tid = 0, skb_sta_id = 0\<rparr>"

lemma example_vif_found: "rsi_get_vif (push_checked example_hal s n) [2, 0, 0, 0, 0, 9] = Some example_vif"
  by (simp add: rsi_get_vif_def example_hal_def example_vif_def push_checked_def)

lemma example_frame_facts: "wlh_addr2 (skb_data (example_frame a r)) = [2, 0, 0, 0, 0, 9]" "headroom (example_frame a r) = r"
    "\<not> encap (example_frame a r)" "length (skb_data (example_frame a r)) = 36"
    "data_align example_hal (example_frame a r) = (a - 20) mod 64"
  by (simp_all add: example_frame_def addr_at_def data_align_def example_hal_def)

lemma data_desc_roundtrip_witness:
  "desc_len (skb_data (fst (snd (rsi_prepare_data_desc example_hal (example_frame 84 80))))) = 40 \<and>
   desc_header (skb_data (fst (snd (rsi_prepare_data_desc example_hal (example_frame 84 80))))) = 20"
proof -
  obtain st skb' c' where r: "rsi_prepare_data_desc example_hal (example_frame 84 80) = (st, skb', c')" by (metis prod_cases3)
  have "40 \<le> headroom (example_frame 84 80)" by (simp add: example_frame_facts)
  from prepare_data_unfold [OF this, of example_hal] r have "st = 0"
    by (simp add: Let_def example_frame_facts example_vif_found split: prod.splits)
  from data_desc_roundtrip [OF r [unfolded this]] show ?thesis
    by (auto simp: r example_frame_facts)
qed

section \<open>The headroom\<close>

text \<open>
  With the headroom the driver asks mac80211 for, 80 bytes, a data frame at an unlucky address
  needs more alignment bytes than are left, and the push runs out of headroom
  (\<open>skb_under_panic\<close>): the second test compares with the wrong size.
\<close>
theorem data_align_panics:
  assumes "headroom skb = 80" "60 < (data_addr skb - 20) mod 64"
  shows "panicked (snd (snd (rsi_prepare_data_desc c skb)))"
proof -
  have p: "panicked (push_checked c (skb_push skb 20) (data_align c skb))"
    using assms by (simp add: push_checked_def data_align_def Let_def)
  have e: "panicked (snd (snd (prepare_err d s st))) = panicked d" for d :: "'a hal_common" and s st
    by (simp add: prepare_err_def hal_indicate_def hal_count_freed_def)
  have "40 \<le> headroom skb" using assms(1) by simp
  from prepare_data_unfold [OF this, of c] show ?thesis
    using p by (auto simp: Let_def e data_desc_words(5) split: option.split prod.split)
qed

lemma data_align_panics_witness: "panicked (snd (snd (rsi_prepare_data_desc example_hal (example_frame 83 80))))"
  by (rule data_align_panics) (simp_all add: example_frame_def)

section \<open>Country elements of a beacon\<close>

text \<open>A list of elements as it stands in a beacon.\<close>

definition put_ies :: "(u8 \<times> u8 list) list \<Rightarrow> u8 list" where
  "put_ies es = concat (map (\<lambda>(ie_id, body). ie_id # of_nat (length body) # body) es)"

lemma put_ies_simps [simp]: "put_ies [] = []" "put_ies ((k, b) # es) = k # of_nat (length b) # b @ put_ies es"
    "put_ies (es @ fs) = put_ies es @ put_ies fs"
  by (simp_all add: put_ies_def)

lemma strip_country_ies:
  assumes "length pre + length (put_ies es) \<le> 255"
  shows "strip_country (of_nat (length pre)) (pre @ put_ies es) = Some (Some (pre @ put_ies (filter (\<lambda>e. fst e \<noteq> 7) es)))"
  using assms
proof (induction es arbitrary: pre)
  case Nil
  have "unat (of_nat (length pre) :: u8) = length pre" using Nil by (intro unat_of_nat_small) simp
  then show ?case by (subst strip_country.simps) simp
next
  case (Cons e es)
  obtain k b where e: "e = (k, b)" by fastforce
  have i: "unat (of_nat (length pre) :: u8) = length pre" using Cons.prems by (intro unat_of_nat_small) simp
  have n: "unat (of_nat (length b) :: u8) = length b" using Cons.prems e by (intro unat_of_nat_small) simp
  show ?case
  proof (cases "k = 7")
    case True
    have "length pre + length (put_ies es) \<le> 255" using Cons.prems e by simp
    from Cons.IH [OF this] show ?thesis
      using i n by (subst strip_country.simps) (simp add: e True nth_append)
  next
    case False
    have "length (pre @ k # of_nat (length b) # b) + length (put_ies es) \<le> 255" using Cons.prems e by simp
    from Cons.IH [OF this] have
      "strip_country (of_nat (length pre) + 2 + of_nat (length b)) (pre @ put_ies (e # es)) =
       Some (Some (pre @ put_ies (filter (\<lambda>e. fst e \<noteq> 7) (e # es))))"
      using False by (simp add: e algebra_simps)
    then show ?thesis
      using i False by (subst strip_country.simps) (simp add: e nth_append)
  qed
qed

text \<open>
  On a module that asks for it, the country elements, and only those, are taken out of a
  beacon of up to 255 bytes whose elements are well formed; the descriptor carries the new length.
\<close>
theorem beacon_country_removed:
  assumes "acx_module c" "length hdr = 36" "length hdr + length (put_ies es) \<le> 255"
  shows "rsi_prepare_beacon c (Some (hdr @ put_ies es, t)) =
    (let es' = filter (\<lambda>e. fst e \<noteq> 7) es; bcn' = hdr @ put_ies es'
     in Some (0, Some (put_words (beacon_words c (length bcn') ((hdr @ put_ies es) ! (t + 2))) @ bcn'),
              c\<lparr>beacon_cnt := Suc (beacon_cnt c)\<rparr>))"
proof -
  have "strip_country 36 (hdr @ put_ies es) = Some (Some (hdr @ put_ies (filter (\<lambda>e. fst e \<noteq> 7) es)))"
    using strip_country_ies [OF assms(3)] assms(2) by simp
  then show ?thesis using assms(1) by (simp add: rsi_prepare_beacon_def Let_def)
qed

lemma beacon_country_removed_witness:
  "\<exists>w. rsi_prepare_beacon example_hal (Some (replicate 36 0 @ put_ies [(0, [65]), (7, [85, 83, 32]), (5, [0, 1])], 40)) =
     Some (0, Some (w @ replicate 36 0 @ put_ies [(0, [65]), (5, [0, 1])]), example_hal\<lparr>beacon_cnt := 1\<rparr>)"
  using beacon_country_removed [of example_hal "replicate 36 0" "[(0, [65]), (7, [85, 83, 32]), (5, [0, 1])]" 40]
  by (simp add: example_hal_def Let_def)

text \<open>The places the index visits when nothing is removed; the index wraps around at 256.\<close>

fun ie_from :: "u8 list \<Rightarrow> u8 \<Rightarrow> nat \<Rightarrow> u8" where
  "ie_from bcn x 0 = x"
| "ie_from bcn x (Suc n) = ie_from bcn (x + 2 + bcn ! (unat x + 1)) n"

lemma strip_country_hangs:
  assumes "strip_country x bcn = Some r" "255 < length bcn"
  shows "\<exists>n. bcn ! unat (ie_from bcn x n) = 7"
proof -
  have "255 < length bcn \<longrightarrow> (\<exists>n. bcn ! unat (ie_from bcn x n) = 7)"
  proof (rule strip_country.raw_induct [OF _ assms(1)])
    fix f index bcn r
    assume IH: "\<And>index bcn r. f index bcn = Some r \<Longrightarrow> 255 < length bcn \<longrightarrow> (\<exists>n. bcn ! unat (ie_from bcn index n) = 7)"
      and body: "(if unat index < length bcn
        then let i = unat index; ie_id = bcn ! i; ie_len = bcn ! (i + 1); next_ie = i + unat ie_len + 2
             in if ie_id = 7 then if length bcn < next_ie then Some None else f index (take i bcn @ drop next_ie bcn)
                else f (index + 2 + ie_len) bcn
        else Some (Some bcn)) = Some r"
    show "255 < length bcn \<longrightarrow> (\<exists>n. bcn ! unat (ie_from bcn index n) = 7)"
    proof
      assume l: "255 < length bcn"
      then have i: "unat index < length bcn" using unat_u8_bound [of index] by linarith
      show "\<exists>n. bcn ! unat (ie_from bcn index n) = 7"
      proof (cases "bcn ! unat index = 7")
        case True
        then show ?thesis by (intro exI [of _ 0]) simp
      next
        case False
        then have "f (index + 2 + bcn ! (unat index + 1)) bcn = Some r" using body i by (simp add: Let_def)
        from IH [OF this] l obtain n where "bcn ! unat (ie_from bcn (index + 2 + bcn ! (unat index + 1)) n) = 7" by blast
        then show ?thesis by (intro exI [of _ "Suc n"]) simp
      qed
    qed
  qed
  with assms(2) show ?thesis by blast
qed

text \<open>
  On such a module the beacon interrupt never finishes for a beacon longer than 255 bytes in
  which the walk over the elements meets no country element: the 8-bit index never reaches
  the length.
\<close>
theorem long_beacon_never_returns:
  assumes "acx_module c" "255 < length bcn" "\<And>n. bcn ! unat (ie_from bcn 36 n) \<noteq> 7"
  shows "rsi_prepare_beacon c (Some (bcn, t)) = None"
proof -
  have "strip_country 36 bcn = None"
    using strip_country_hangs [of 36 bcn] assms(2,3) by (cases "strip_country 36 bcn") blast+
  then show ?thesis using assms(1) by (simp add: rsi_prepare_beacon_def Let_def)
qed

lemma long_beacon_never_returns_witness: "rsi_prepare_beacon example_hal (Some (replicate 300 0, 40)) = None"
proof (rule long_beacon_never_returns)
  show "replicate 300 (0 :: u8) ! unat (ie_from (replicate 300 0) 36 n) \<noteq> 7" for n
    using unat_u8_bound [of "ie_from (replicate 300 0) 36 n"] by (simp add: nth_replicate)
qed (simp_all add: example_hal_def)

section \<open>Every data packet is reported once\<close>

lemma rsi_send_pkt_reports: "rsi_send_pkt c skb = (st, c') \<Longrightarrow>
    reported c' = reported c \<and> hw_ok c' = hw_ok c \<and> hal_iface_down c' = hal_iface_down c"
  by (auto simp: rsi_send_pkt_def write_skb_def Let_def split: if_splits prod.splits)

text \<open>
  C26. With an interface that is present and up, \<open>rsi_send_data_pkt\<close> reports the status of the
  packet exactly once and with the status it returns, on every path; a packet the checks refuse
  (no interface, a station that is not associated or another receiver than its access
  point) never reaches the bus; and a packet written is written whole.
\<close>
theorem send_data_pkt_once:
  assumes "rsi_send_data_pkt c skb = (status, c')" "hw_ok c" "\<not> hal_iface_down c"
  shows "reported c' = reported c @ [(skb, status)] \<and>
    (data_pkt_allowed c skb \<noteq> 0 \<longrightarrow> status = data_pkt_allowed c skb \<and> bus c' = bus c) \<and>
    (bus c' \<noteq> bus c \<longrightarrow>
       bus c' = snd (write_pkt (hal_ops c) (bus c) (ptr_of (behind_skb c) (skb_data skb)) (of_nat (length (skb_data skb)))))"
proof -
  obtain st c1 where s: "(if data_pkt_allowed c skb = 0 then rsi_send_pkt c skb else (data_pkt_allowed c skb, c)) = (st, c1)"
    by fastforce
  have r: "status = st" "c' = hal_indicate (hal_count_freed c1 skb) skb st"
    using assms(1) s by (auto simp: rsi_send_data_pkt_def Let_def)
  have k: "reported c1 = reported c \<and> hw_ok c1 = hw_ok c \<and> hal_iface_down c1 = hal_iface_down c"
    using s rsi_send_pkt_reports [of c skb st c1] by (auto split: if_splits)
  have b: "bus c' = bus c1" by (simp add: r(2) hal_indicate_def hal_count_freed_def)
  have w: "bus c1 = bus c \<or>
      bus c1 = snd (write_pkt (hal_ops c) (bus c) (ptr_of (behind_skb c) (skb_data skb)) (of_nat (length (skb_data skb))))"
    using s by (auto simp: rsi_send_pkt_def write_skb_def Let_def split: if_splits prod.splits)
  have n: "status = data_pkt_allowed c skb \<and> bus c' = bus c" if "data_pkt_allowed c skb \<noteq> 0"
    using s that r(1) b by (auto split: if_splits)
  have "reported c' = reported c @ [(skb, status)]"
    using r k assms(2,3) by (simp add: hal_indicate_def hal_count_freed_def)
  with n w b show ?thesis by auto
qed

lemma send_data_pkt_once_witness:
  "reported (snd (rsi_send_data_pkt example_hal (example_frame 84 80))) =
     [(example_frame 84 80, fst (rsi_send_data_pkt example_hal (example_frame 84 80)))]"
  using send_data_pkt_once [of example_hal "example_frame 84 80", OF surjective_pairing] by (simp add: example_hal_def)

end
