(* ===== verification/Tx_Path.thy ===== *)
theory Tx_Path
  imports Tx_Loop Hal_Tx
begin

text \<open>
  The transmit path as a whole: the scheduler of rsi/rsi_91x_core.c over the functions of
  rsi/rsi_91x_hal.c. The record \<open>tx_ops\<close> that the scheduler is given is here filled with the
  functions of theory \<open>Hal_Tx\<close>, which the locale \<open>tx_sender\<close> states the contract of: every packet
  handed to a send function is settled by it, once.
\<close>

section \<open>The functions below the scheduler\<close>


section \<open>The contract of a sender\<close>


section \<open>The functions of rsi/rsi_91x_hal.c keep it\<close>















end
