(* ===== verification/Power_Save.thy ===== *)
theory Power_Save
  imports Rsi_Prelude
begin

text \<open>
  Power save: rsi/rsi_91x_ps.c, \<open>rsi_send_ps_request\<close> and the handling of the ultra-low-power
  (ULP) sleep notifications in rsi/rsi_91x_mgmt.c.

  There are two machines. The first is the power save state of the adapter, \<open>ps_state\<close>, driven by
  requests of the driver and confirmations of the device. The second decides when the device
  may sleep: every protocol (WLAN, Bluetooth or ZigBee, common) announces its intention to transmit
  with \<open>set_clr_tx_intention\<close>, and the driver acknowledges a sleep entry of the device only when
  there is none. Its operations run in several threads under \<open>tx_access_lock\<close>, which
  \<open>set_clr_tx_intention\<close> releases before it waits: they are the steps of an interleaving relation,
  one step per critical section or unlocked access.

  Every theorem holds whatever the allocator does; what it returns is part of the step.
\<close>

section \<open>The power save state\<close>

datatype ps_state = PS_NONE | PS_ENABLE_REQ_SENT | PS_DISABLE_REQ_SENT | PS_ENABLED

record rsi_ps_info =
  ps_enabled :: u8
  sleep_type :: u8
  tx_threshold :: u8
  rx_threshold :: u8
  tx_hysterisis :: u8
  rx_hysterisis :: u8
  monitor_interval :: u16
  listen_interval_duration :: u32
  num_bcns_per_lis_int :: u16
  dtim_interval_duration :: u32
  num_dtims_per_sleep :: u16
  deep_sleep_wakeup_period :: u32
  uapsd_wakeup_period :: u8

text \<open>
  \<open>ps_timer\<close> is the expiry the traffic timer was armed with last, in milliseconds from then;
  \<open>ps_queue\<close> the frames queued for the device, in order; \<open>alloc_ok n\<close> tells whether the n-th
  allocation succeeds.
\<close>

record ps_adapter =
  ps_state :: ps_state
  ps_info :: rsi_ps_info
  user_ps_en :: bool
  disable_ps_from_lmac :: bool
  wifi_paused :: bool
  ps_assoc :: "bool option"        \<comment> \<open>None: there is no interface\<close>
  uapsd_bitmap :: u8
  uapsd_max_sp_len :: u8
  rx_data_inactive_interval :: u16
  timer_set_up :: bool
  ps_timer :: "nat option"
  ps_queue :: "u8 list list"
  alloc_ok :: "nat \<Rightarrow> bool"
  alloc_count :: nat

definition str_psstate :: "ps_state \<Rightarrow> string" where
  "str_psstate state =
     (case state of PS_NONE \<Rightarrow> ''PS_NONE'' | PS_DISABLE_REQ_SENT \<Rightarrow> ''PS_DISABLE_REQ_SENT''
      | PS_ENABLE_REQ_SENT \<Rightarrow> ''PS_ENABLE_REQ_SENT'' | PS_ENABLED \<Rightarrow> ''PS_ENABLED'')"

abbreviation (input) LP_POWER_SAVE :: u8 where "LP_POWER_SAVE \<equiv> 1"
abbreviation (input) ULP_POWER_SAVE :: u8 where "ULP_POWER_SAVE \<equiv> 2"
abbreviation (input) SLEEP_REQUEST :: u16 where "SLEEP_REQUEST \<equiv> 1"
abbreviation (input) WAKEUP_REQUEST :: u16 where "WAKEUP_REQUEST \<equiv> 2"

definition rsi_default_ps_params :: "u8 \<Rightarrow> ps_adapter \<Rightarrow> ps_adapter" where
  "rsi_default_ps_params ps_sleep_type a = a\<lparr>ps_info :=
     \<lparr>ps_enabled = 1, sleep_type = ps_sleep_type, tx_threshold = 0, rx_threshold = 0, tx_hysterisis = 0,
      rx_hysterisis = 0, monitor_interval = 0, listen_interval_duration = 0, num_bcns_per_lis_int = 0,
      dtim_interval_duration = 0, num_dtims_per_sleep = 1,
      deep_sleep_wakeup_period = (if ps_sleep_type = ULP_POWER_SAVE then 300 else 100),
      uapsd_wakeup_period = 100\<rparr>\<rparr>"

subsection \<open>The request frame\<close>

text \<open>
  \<open>struct rsi_request_ps\<close>: the descriptor, \<open>struct ps_sleep_params\<close> (12 bytes) and 14 more bytes.
  \<open>BIT(15)\<close> of word 0 is the queue bit that asks for an immediate wake-up.
\<close>

abbreviation (input) WAKEUP_SLEEP_REQUEST :: u16 where "WAKEUP_SLEEP_REQUEST \<equiv> 5"

definition ps_request_frame :: "ps_adapter \<Rightarrow> bool \<Rightarrow> u8 list" where
  "ps_request_frame a enable =
     (let i = ps_info a;
          uapsd = (uapsd_bitmap a \<noteq> 0);
          assoc = (case ps_assoc a of None \<Rightarrow> False | Some b \<Rightarrow> b)
      in put_words [len_queue 26 RSI_WIFI_MGMT_Q OR (if enable then 0 else BIT 15), WAKEUP_SLEEP_REQUEST, 0, 0, 0, 0,
                    (if enable then SLEEP_REQUEST else WAKEUP_REQUEST), 0] @
         [(if enable then 1 else 0), sleep_type i, (if assoc then 2 else 1), 0] @
         put_le16 (num_bcns_per_lis_int i) @ put_le16 0 @ put_le32 (deep_sleep_wakeup_period i) @
         [0, (if uapsd then (uapsd_bitmap a AND 0x0F) OR push_bit 5 (uapsd_max_sp_len a) else 0),
          (if uapsd then uapsd_wakeup_period i else 0), 0] @
         put_le32 (listen_interval_duration i) @ put_le32 (dtim_interval_duration i) @ put_le16 (num_dtims_per_sleep i))"

text \<open>
  The frame is queued for the management queue of the scheduler (\<open>rsi_send_internal_mgmt_frame\<close>).
\<close>

definition rsi_send_ps_request :: "ps_adapter \<Rightarrow> bool \<Rightarrow> int \<times> ps_adapter" where
  "rsi_send_ps_request a enable =
     (let a1 = a\<lparr>alloc_count := Suc (alloc_count a)\<rparr>
      in if \<not> alloc_ok a (alloc_count a) then (- ENOMEM, a1)
         else (0, a1\<lparr>ps_queue := ps_queue a @ [internal_mgmt_bytes (ps_request_frame a enable)]\<rparr>))"

subsection \<open>Enabling and disabling\<close>

definition rsi_enable_ps :: "ps_adapter \<Rightarrow> ps_adapter" where
  "rsi_enable_ps a =
     (let (status, a1) = rsi_send_ps_request a True
      in if status \<noteq> 0 then a1 else a1\<lparr>user_ps_en := True, ps_state := PS_ENABLE_REQ_SENT\<rparr>)"

definition rsi_disable_ps :: "ps_adapter \<Rightarrow> ps_adapter" where
  "rsi_disable_ps a =
     (let (status, a1) = rsi_send_ps_request a False
      in if status \<noteq> 0 then a1
         else let a2 = (if monitor_interval (ps_info a1) = 0 \<and> \<not> disable_ps_from_lmac a1
                        then a1\<lparr>user_ps_en := False\<rparr> else a1)
              in a2\<lparr>ps_state := PS_DISABLE_REQ_SENT\<rparr>)"

definition rsi_conf_uapsd :: "ps_adapter \<Rightarrow> ps_adapter" where
  "rsi_conf_uapsd a =
     (if ps_state a \<noteq> PS_ENABLED then a
      else let (status, a1) = rsi_send_ps_request a False
           in if status \<noteq> 0 then a1 else snd (rsi_send_ps_request a1 True))"

text \<open>\<open>duration_i\<close>, in milliseconds.\<close>

definition traffic_duration :: "ps_adapter \<Rightarrow> nat" where
  "traffic_duration a =
     (if monitor_interval (ps_info a) \<noteq> 0 then unat (monitor_interval (ps_info a)) else unat (rx_data_inactive_interval a))"

definition traffic_timer_callback :: "ps_adapter \<Rightarrow> ps_adapter" where
  "traffic_timer_callback a =
     (if ps_assoc a \<noteq> Some True then a
      else if user_ps_en a \<and> (monitor_interval (ps_info a) \<noteq> 0 \<or> rx_data_inactive_interval a \<noteq> 0)
      then (if \<not> wifi_paused a \<and> ps_state a = PS_NONE then rsi_enable_ps (a\<lparr>disable_ps_from_lmac := False\<rparr>)
            else if ps_state a \<noteq> PS_ENABLED then a\<lparr>ps_timer := Some (traffic_duration a)\<rparr>
            else a)
      else a)"

definition check_data_load :: "ps_adapter \<Rightarrow> ps_adapter" where
  "check_data_load a =
     (let a1 = (if ps_state a = PS_ENABLED then rsi_disable_ps a else a)
      in a1\<lparr>timer_set_up := True, ps_timer := Some (traffic_duration a1)\<rparr>)"

definition check_traffic_pwr_save :: "ps_adapter \<Rightarrow> ps_adapter" where
  "check_traffic_pwr_save a =
     (if user_ps_en a \<and> (monitor_interval (ps_info a) \<noteq> 0 \<or> disable_ps_from_lmac a) then check_data_load a else a)"

abbreviation (input) PS_CONFIRM_INDEX :: nat where "PS_CONFIRM_INDEX \<equiv> 12"

definition rsi_handle_ps_confirm :: "ps_adapter \<Rightarrow> ptr \<Rightarrow> int \<times> ps_adapter" where
  "rsi_handle_ps_confirm a msg =
     (let cfm_type = get_le16 msg PS_CONFIRM_INDEX
      in if cfm_type = SLEEP_REQUEST
         then (0, if ps_state a = PS_ENABLE_REQ_SENT then a\<lparr>ps_state := PS_ENABLED\<rparr> else a)
         else if cfm_type = WAKEUP_REQUEST
         then (0, if ps_state a = PS_DISABLE_REQ_SENT then a\<lparr>ps_state := PS_NONE\<rparr> else a)
         else (-1, a))"

section \<open>Access to the device\<close>

abbreviation (input) MAX_IDS :: nat where "MAX_IDS \<equiv> 3"
abbreviation (input) WLAN_ID :: nat where "WLAN_ID \<equiv> 0"
abbreviation (input) BT_ZB_ID :: nat where "BT_ZB_ID \<equiv> 1"
abbreviation (input) COMMON_ID :: nat where "COMMON_ID \<equiv> 2"

record wireless_techs =
  tx_intention :: bool
  wait_for_tx_access :: bool

text \<open>
  Where the thread of a protocol is in \<open>set_clr_tx_intention\<close>: about to test
  \<open>common_hal_tx_access\<close>, about to set its wait flag, waiting, holding access, or failed with
  the given error number. The receive thread is idle or at element \<open>proto_id\<close> of the loop that
  wakes the waiting protocols.
\<close>

datatype tx_pc = Tx_Idle | Tx_Check | Tx_Denied | Tx_Waiting | Tx_Granted | Tx_Failed int

datatype rx_pc = Rx_Idle | Rx_Waking nat

text \<open>
  \<open>asleep\<close> and \<open>acks\<close> are ghosts: the device has been told that it may sleep and has sent no sleep
  notification since (one that does, be it an exit or another entry, is awake); the acknowledgements
  written to the bus.
\<close>

record ulp =
  techs :: "wireless_techs list"
  common_hal_tx_access :: bool
  sleep_entry_received :: bool
  ulp_sleep_ack_sent :: bool
  ulp_token :: u16
  tx_pcs :: "tx_pc list"
  rx_pc :: rx_pc
  acks :: "u8 list list"
  asleep :: bool

definition protocol_tx_access :: "ulp \<Rightarrow> bool" where
  "protocol_tx_access s = list_ex tx_intention (techs s)"

definition ulp_ack_frame :: "u16 \<Rightarrow> u8 list" where
  "ulp_ack_frame token = put_words [0, 0x21, 0, 0, 0, 0, token, push_bit 8 6]"

text \<open>The flag says whether the frame could be allocated.\<close>

definition rsi_send_ack_for_ulp_entry :: "bool \<Rightarrow> ulp \<Rightarrow> ulp" where
  "rsi_send_ack_for_ulp_entry ok s =
     (if \<not> ok then s
      else s\<lparr>ulp_sleep_ack_sent := True, acks := acks s @ [ulp_ack_frame (ulp_token s)], asleep := True\<rparr>)"

definition set_intention :: "nat \<Rightarrow> bool \<Rightarrow> ulp \<Rightarrow> ulp" where
  [rsi_defs]: "set_intention p b s = s\<lparr>techs := (techs s)[p := (techs s ! p)\<lparr>tx_intention := b\<rparr>]\<rparr>"

definition set_wait :: "nat \<Rightarrow> bool \<Rightarrow> ulp \<Rightarrow> ulp" where
  [rsi_defs]: "set_wait p b s = s\<lparr>techs := (techs s)[p := (techs s ! p)\<lparr>wait_for_tx_access := b\<rparr>]\<rparr>"

definition set_pc :: "nat \<Rightarrow> tx_pc \<Rightarrow> ulp \<Rightarrow> ulp" where
  [rsi_defs]: "set_pc p pc s = s\<lparr>tx_pcs := (tx_pcs s)[p := pc]\<rparr>"

text \<open>The critical section of \<open>set_clr_tx_intention\<close> with \<open>set = 0\<close>.\<close>

definition clear_tx_intention :: "bool \<Rightarrow> nat \<Rightarrow> ulp \<Rightarrow> ulp" where
  "clear_tx_intention ok p s =
     (let s1 = set_intention p False s
      in if sleep_entry_received s1 \<and> \<not> ulp_sleep_ack_sent s1 \<and> \<not> protocol_tx_access s1
         then rsi_send_ack_for_ulp_entry ok (s1\<lparr>common_hal_tx_access := False\<rparr>)
         else s1)"

text \<open>
  A sleep entry: the critical section of \<open>rsi_process_ulp_sleep_notify\<close>, with the loop that wakes the
  waiting protocols.
\<close>

definition wake_waiting :: "ulp \<Rightarrow> ulp" where
  [rsi_defs]: "wake_waiting s = s\<lparr>techs := map (\<lambda>t. t\<lparr>wait_for_tx_access := False\<rparr>) (techs s)\<rparr>"

definition ulp_sleep_entry :: "bool \<Rightarrow> ptr \<Rightarrow> ulp \<Rightarrow> ulp" where
  "ulp_sleep_entry ok msg s =
     (let s1 = s\<lparr>sleep_entry_received := True, ulp_token := drop_bit 4 (get_le16 msg 12)\<rparr>
      in if \<not> protocol_tx_access s1 then rsi_send_ack_for_ulp_entry ok (s1\<lparr>common_hal_tx_access := False\<rparr>)
         else wake_waiting (s1\<lparr>common_hal_tx_access := True, ulp_sleep_ack_sent := False\<rparr>))"

text \<open>
  The steps. A sleep notification is a sleep entry when bit 0 of byte 12 is set and a sleep
  exit otherwise. The device may send either at any time, so an entry may follow an entry without an
  exit between them, which \<open>ulp_sleep_entry\<close> answers by opening access again. \<open>Abandon\<close> is the return of \<open>rsi_send_pkt\<close>
  when it cannot get access: it leaves the intention set.
\<close>

inductive ulp_step :: "ulp \<Rightarrow> ulp \<Rightarrow> bool" where
  set_begin: "p < MAX_IDS \<Longrightarrow> tx_pcs s ! p = Tx_Idle \<Longrightarrow> ulp_step s (set_pc p Tx_Check (set_intention p True s))"
| check: "p < MAX_IDS \<Longrightarrow> tx_pcs s ! p = Tx_Check \<Longrightarrow>
    ulp_step s (set_pc p (if common_hal_tx_access s then Tx_Granted else Tx_Denied) s)"
| arm: "p < MAX_IDS \<Longrightarrow> tx_pcs s ! p = Tx_Denied \<Longrightarrow> ulp_step s (set_pc p Tx_Waiting (set_wait p True s))"
| woken: "p < MAX_IDS \<Longrightarrow> tx_pcs s ! p = Tx_Waiting \<Longrightarrow> \<not> wait_for_tx_access (techs s ! p) \<Longrightarrow>
    ulp_step s (set_pc p (if common_hal_tx_access s then Tx_Granted else Tx_Failed (- EPERM)) s)"
| timeout: "p < MAX_IDS \<Longrightarrow> tx_pcs s ! p = Tx_Waiting \<Longrightarrow> wait_for_tx_access (techs s ! p) \<Longrightarrow>
    ulp_step s (set_pc p (Tx_Failed (- ETIME)) s)"
| clear: "p < MAX_IDS \<Longrightarrow> tx_pcs s ! p = Tx_Granted \<or> (\<exists>e. tx_pcs s ! p = Tx_Failed e) \<Longrightarrow>
    ulp_step s (set_pc p Tx_Idle (clear_tx_intention ok p s))"
| abandon: "p = COMMON_ID \<Longrightarrow> tx_pcs s ! p = Tx_Failed e \<Longrightarrow> ulp_step s (set_pc p Tx_Idle s)"
| sleep_entry: "rx_pc s = Rx_Idle \<Longrightarrow> bit (msg 12) 0 \<Longrightarrow> ulp_step s (ulp_sleep_entry ok msg (s\<lparr>asleep := False\<rparr>))"
| sleep_exit: "rx_pc s = Rx_Idle \<Longrightarrow>
    ulp_step s (s\<lparr>ulp_token := 0xABCD, common_hal_tx_access := True, asleep := False, rx_pc := Rx_Waking 0\<rparr>)"
| waking: "rx_pc s = Rx_Waking p \<Longrightarrow> p < MAX_IDS \<Longrightarrow> ulp_step s ((set_wait p False s)\<lparr>rx_pc := Rx_Waking (Suc p)\<rparr>)"
| woke_all: "rx_pc s = Rx_Waking p \<Longrightarrow> \<not> p < MAX_IDS \<Longrightarrow> ulp_step s (s\<lparr>rx_pc := Rx_Idle\<rparr>)"

inductive_cases ulp_stepE: "ulp_step s s'"

definition ulp_init :: ulp where
  "ulp_init = \<lparr>techs = replicate 3 \<lparr>tx_intention = False, wait_for_tx_access = False\<rparr>, common_hal_tx_access = True,
     sleep_entry_received = False, ulp_sleep_ack_sent = False, ulp_token = 0, tx_pcs = replicate 3 Tx_Idle,
     rx_pc = Rx_Idle, acks = [], asleep = False\<rparr>"

inductive ulp_reach :: "ulp \<Rightarrow> bool" where
  init: "ulp_reach ulp_init"
| step: "ulp_reach s \<Longrightarrow> ulp_step s s' \<Longrightarrow> ulp_reach s'"

subsection \<open>What the machine guarantees\<close>

definition wants_access :: "tx_pc \<Rightarrow> bool" where
  "wants_access pc \<longleftrightarrow> pc \<noteq> Tx_Idle \<and> (\<forall>e. pc \<noteq> Tx_Failed e)"

text \<open>
  The invariant: a thread on its way to access has announced its intention, a thread with
  access has it, and a sleeping device means that access is withdrawn.
\<close>

definition ulp_inv :: "ulp \<Rightarrow> bool" where
  "ulp_inv s \<longleftrightarrow> length (techs s) = MAX_IDS \<and> length (tx_pcs s) = MAX_IDS \<and>
     (\<forall>p < MAX_IDS. wants_access (tx_pcs s ! p) \<longrightarrow> tx_intention (techs s ! p)) \<and>
     (\<forall>p < MAX_IDS. tx_pcs s ! p = Tx_Granted \<longrightarrow> common_hal_tx_access s) \<and>
     (asleep s \<longrightarrow> \<not> common_hal_tx_access s)"

lemma wants_access_simps [simp]: "wants_access Tx_Check" "wants_access Tx_Denied" "wants_access Tx_Waiting"
    "wants_access Tx_Granted" "\<not> wants_access Tx_Idle" "\<not> wants_access (Tx_Failed e)"
  by (simp_all add: wants_access_def)

lemma no_intention: "length (techs s) = MAX_IDS \<Longrightarrow> protocol_tx_access s \<longleftrightarrow> (\<exists>p < MAX_IDS. tx_intention (techs s ! p))"
  by (simp add: protocol_tx_access_def list_ex_length)

lemma ulp_inv_withdraw:
  assumes "ulp_inv s" "\<not> protocol_tx_access s"
  shows "ulp_inv (rsi_send_ack_for_ulp_entry ok (s\<lparr>common_hal_tx_access := False\<rparr>))"
proof -
  have "tx_pcs s ! p \<noteq> Tx_Granted" if "p < MAX_IDS" for p
    using assms that no_intention [of s] by (force simp: ulp_inv_def)
  then show ?thesis using assms(1) by (auto simp: ulp_inv_def rsi_send_ack_for_ulp_entry_def)
qed

lemma ulp_inv_clear_intention:
  assumes "ulp_inv s" "\<not> wants_access pc" "p < MAX_IDS"
  shows "ulp_inv (set_pc p pc (set_intention p False s))"
  using assms by (auto simp: ulp_inv_def set_pc_def set_intention_def nth_list_update)

lemma set_pc_commute:
  "set_pc p pc (rsi_send_ack_for_ulp_entry ok s) = rsi_send_ack_for_ulp_entry ok (set_pc p pc s)"
  "set_pc p pc (s\<lparr>common_hal_tx_access := b\<rparr>) = (set_pc p pc s)\<lparr>common_hal_tx_access := b\<rparr>"
  "protocol_tx_access (set_pc p pc s) = protocol_tx_access s"
  by (simp_all add: set_pc_def rsi_send_ack_for_ulp_entry_def protocol_tx_access_def)

lemma ulp_inv_step:
  assumes "ulp_step s s'" "ulp_inv s"
  shows "ulp_inv s'"
  using assms(1)
proof cases
  case (set_begin p)
  then show ?thesis using assms(2) by (auto simp: ulp_inv_def set_pc_def set_intention_def nth_list_update)
next
  case (check p)
  then show ?thesis using assms(2) by (auto simp: ulp_inv_def set_pc_def nth_list_update)
next
  case (arm p)
  then show ?thesis using assms(2) by (auto simp: ulp_inv_def set_pc_def set_wait_def nth_list_update)
next
  case (woken p)
  then show ?thesis using assms(2) by (auto simp: ulp_inv_def set_pc_def nth_list_update)
next
  case (timeout p)
  then show ?thesis using assms(2) by (auto simp: ulp_inv_def set_pc_def nth_list_update)
next
  case (clear p ok)
  note inv = ulp_inv_clear_intention [OF assms(2) wants_access_simps(5) \<open>p < MAX_IDS\<close>]
  show ?thesis
    using inv ulp_inv_withdraw [OF inv]
    by (auto simp: clear(1) clear_tx_intention_def Let_def set_pc_commute)
next
  case (abandon p e)
  then show ?thesis using assms(2) by (auto simp: ulp_inv_def set_pc_def nth_list_update)
next
  case (sleep_entry msg ok)
  let ?s1 = "s\<lparr>asleep := False, sleep_entry_received := True, ulp_token := drop_bit 4 (get_le16 msg 12)\<rparr>"
  have inv: "ulp_inv ?s1" using assms(2) by (simp add: ulp_inv_def)
  show ?thesis
  proof (cases "protocol_tx_access ?s1")
    case True
    then show ?thesis
      using assms(2) sleep_entry by (auto simp: ulp_sleep_entry_def ulp_inv_def wake_waiting_def)
  next
    case False
    then show ?thesis using ulp_inv_withdraw [OF inv False] sleep_entry by (simp add: ulp_sleep_entry_def)
  qed
next
  case sleep_exit
  then show ?thesis using assms(2) by (auto simp: ulp_inv_def)
next
  case (waking p)
  then show ?thesis using assms(2) by (auto simp: ulp_inv_def set_wait_def nth_list_update)
next
  case (woke_all p)
  then show ?thesis using assms(2) by (simp add: ulp_inv_def)
qed

lemma ulp_reach_inv: "ulp_reach s \<Longrightarrow> ulp_inv s"
proof (induction rule: ulp_reach.induct)
  case init
  show ?case by (simp add: ulp_inv_def ulp_init_def nth_Cons split: nat.split)
next
  case (step s s')
  then show ?case by (blast intro: ulp_inv_step)
qed

text \<open>
  C14. In every reachable state, under every interleaving of the protocols' threads, the receive
  thread and the device, sleep entries without an exit between them included: a thread that holds access has
  its intention announced, access is granted, and the device has not been told that it may sleep
  since its last sleep notification.
\<close>
theorem tx_access_safe:
  assumes "ulp_reach s" "p < MAX_IDS" "tx_pcs s ! p = Tx_Granted"
  shows "tx_intention (techs s ! p) \<and> common_hal_tx_access s \<and> \<not> asleep s"
  using ulp_reach_inv [OF assms(1)] assms(2,3) by (auto simp: ulp_inv_def)

lemma protocol_tx_access_update [simp]: "protocol_tx_access (s\<lparr>common_hal_tx_access := b\<rparr>) = protocol_tx_access s"
    "protocol_tx_access (s\<lparr>sleep_entry_received := b, ulp_token := t\<rparr>) = protocol_tx_access s"
  by (simp_all add: protocol_tx_access_def)

text \<open>
  C23. A sleep entry is acknowledged only when no protocol intends to transmit: a step that writes
  an acknowledgement writes one, with the token of the device, and leaves every intention clear
  and access withdrawn.
\<close>
theorem ack_only_without_intention:
  assumes "ulp_reach s" "ulp_step s s'" "acks s' \<noteq> acks s"
  shows "acks s' = acks s @ [ulp_ack_frame (ulp_token s')] \<and> \<not> common_hal_tx_access s' \<and>
    (\<forall>p < MAX_IDS. \<not> tx_intention (techs s' ! p))"
proof -
  have len: "length (techs s') = MAX_IDS" using ulp_inv_step [OF assms(2) ulp_reach_inv [OF assms(1)]] by (simp add: ulp_inv_def)
  have "acks s' = acks s @ [ulp_ack_frame (ulp_token s')] \<and> \<not> common_hal_tx_access s' \<and> \<not> protocol_tx_access s'"
    using assms(2)
  proof cases
    case (clear p ok)
    then show ?thesis
      using assms(3)
      by (auto simp: clear_tx_intention_def Let_def rsi_send_ack_for_ulp_entry_def protocol_tx_access_def set_pc_def
          set_intention_def split: if_splits)
  next
    case (sleep_entry msg ok)
    then show ?thesis
      using assms(3)
      by (auto simp: ulp_sleep_entry_def Let_def rsi_send_ack_for_ulp_entry_def protocol_tx_access_def wake_waiting_def
          split: if_splits)
  qed (use assms(3) in \<open>simp_all add: set_pc_def set_intention_def set_wait_def\<close>)
  then show ?thesis using no_intention [OF len] by simp
qed

subsection \<open>Concrete runs\<close>

text \<open>The states of a run in which only the WLAN thread moves, after a first sleep entry.\<close>

definition run_at :: "wireless_techs \<Rightarrow> tx_pc \<Rightarrow> bool \<Rightarrow> u16 \<Rightarrow> rx_pc \<Rightarrow> ulp" where
  "run_at t pc access token rx =
     \<lparr>techs = [t, \<lparr>tx_intention = False, wait_for_tx_access = False\<rparr>, \<lparr>tx_intention = False, wait_for_tx_access = False\<rparr>],
      common_hal_tx_access = access, sleep_entry_received = True, ulp_sleep_ack_sent = True, ulp_token = token,
      tx_pcs = [pc, Tx_Idle, Tx_Idle], rx_pc = rx, acks = [ulp_ack_frame 0x10], asleep = \<not> access\<rparr>"

abbreviation (input) quiet :: wireless_techs where "quiet \<equiv> \<lparr>tx_intention = False, wait_for_tx_access = False\<rparr>"
abbreviation (input) wanting :: wireless_techs where "wanting \<equiv> \<lparr>tx_intention = True, wait_for_tx_access = False\<rparr>"

lemma run_entry: "ulp_step ulp_init (run_at quiet Tx_Idle False 0x10 Rx_Idle)"
proof -
  have "ulp_sleep_entry True (\<lambda>_. 1) ulp_init = run_at quiet Tx_Idle False 0x10 Rx_Idle"
    by (simp add: ulp_sleep_entry_def ulp_init_def run_at_def protocol_tx_access_def rsi_send_ack_for_ulp_entry_def
        get_le16_def numeral_3_eq_3)
  then show ?thesis using ulp_step.sleep_entry [of ulp_init "\<lambda>_. 1" True] by (simp add: ulp_init_def)
qed

lemma run_steps:
  "ulp_step (run_at quiet Tx_Idle a k Rx_Idle) (run_at wanting Tx_Check a k Rx_Idle)"
  "ulp_step (run_at wanting Tx_Check a k Rx_Idle) (run_at wanting (if a then Tx_Granted else Tx_Denied) a k Rx_Idle)"
  "ulp_step (run_at t pc a k Rx_Idle) (run_at t pc True 0xABCD (Rx_Waking 0))"
  "n < 3 \<Longrightarrow> ulp_step (run_at wanting pc a k (Rx_Waking n)) (run_at wanting pc a k (Rx_Waking (Suc n)))"
  "ulp_step (run_at t pc a k (Rx_Waking 3)) (run_at t pc a k Rx_Idle)"
  "ulp_step (run_at wanting Tx_Denied a k Rx_Idle) (run_at \<lparr>tx_intention = True, wait_for_tx_access = True\<rparr> Tx_Waiting a k Rx_Idle)"
  using ulp_step.set_begin [of 0 "run_at quiet Tx_Idle a k Rx_Idle"]
    ulp_step.check [of 0 "run_at wanting Tx_Check a k Rx_Idle"]
    ulp_step.sleep_exit [of "run_at t pc a k Rx_Idle"]
    ulp_step.waking [of "run_at wanting pc a k (Rx_Waking n)" n]
    ulp_step.woke_all [of "run_at t pc a k (Rx_Waking 3)" 3]
    ulp_step.arm [of 0 "run_at wanting Tx_Denied a k Rx_Idle"]
  by (auto simp: run_at_def set_pc_def set_intention_def set_wait_def less_Suc_eq numeral_3_eq_3)

lemma run_reach:
  "ulp_reach (run_at quiet Tx_Idle False 0x10 Rx_Idle)"
  "ulp_reach (run_at wanting Tx_Granted True 0xABCD Rx_Idle)"
  "ulp_reach (run_at \<lparr>tx_intention = True, wait_for_tx_access = True\<rparr> Tx_Waiting True 0xABCD Rx_Idle)"
proof -
  show 1: "ulp_reach (run_at quiet Tx_Idle False 0x10 Rx_Idle)"
    by (rule ulp_reach.step [OF ulp_reach.init run_entry])
  have 2: "ulp_reach (run_at wanting Tx_Check False 0x10 Rx_Idle)" by (rule ulp_reach.step [OF 1 run_steps(1)])
  have waking: "ulp_reach (run_at wanting pc True 0xABCD Rx_Idle)" if "ulp_reach (run_at wanting pc a k Rx_Idle)" for pc a k
  proof -
    have "ulp_reach (run_at wanting pc True 0xABCD (Rx_Waking 0))" by (rule ulp_reach.step [OF that run_steps(3)])
    then have "ulp_reach (run_at wanting pc True 0xABCD (Rx_Waking (Suc 0)))" by (rule ulp_reach.step) (simp add: run_steps(4))
    then have "ulp_reach (run_at wanting pc True 0xABCD (Rx_Waking (Suc (Suc 0))))" by (rule ulp_reach.step) (simp add: run_steps(4))
    then have "ulp_reach (run_at wanting pc True 0xABCD (Rx_Waking (Suc (Suc (Suc 0)))))" by (rule ulp_reach.step) (simp add: run_steps(4))
    then show ?thesis using run_steps(5) by (metis ulp_reach.step numeral_3_eq_3)
  qed
  have "ulp_reach (run_at wanting Tx_Check True 0xABCD Rx_Idle)" by (rule waking [OF 2])
  from ulp_reach.step [OF this run_steps(2)] show "ulp_reach (run_at wanting Tx_Granted True 0xABCD Rx_Idle)" by simp
  have "ulp_reach (run_at wanting Tx_Denied False 0x10 Rx_Idle)" using ulp_reach.step [OF 2 run_steps(2)] by simp
  then have "ulp_reach (run_at wanting Tx_Denied True 0xABCD Rx_Idle)" by (rule waking)
  from ulp_reach.step [OF this run_steps(6)]
  show "ulp_reach (run_at \<lparr>tx_intention = True, wait_for_tx_access = True\<rparr> Tx_Waiting True 0xABCD Rx_Idle)" .
qed

lemma tx_access_safe_witness: "\<not> asleep (run_at wanting Tx_Granted True 0xABCD Rx_Idle)"
  using tx_access_safe [OF run_reach(2), of WLAN_ID] by (simp add: run_at_def)

lemma ack_only_without_intention_witness:
  "acks (run_at quiet Tx_Idle False 0x10 Rx_Idle) = [ulp_ack_frame 0x10]"
  using ack_only_without_intention [OF ulp_reach.init run_entry] by (simp add: run_at_def ulp_init_def)

text \<open>
  The wake-up of a sleep exit can be lost, since \<open>set_clr_tx_intention\<close> sets its wait flag after
  testing for access and outside the lock: there is a reachable state in which access is
  granted and the receive thread has finished waking, and yet a thread waits with its flag
  set, so that every step that moves it makes it fail with \<open>-ETIME\<close>.
\<close>
theorem wakeup_can_be_lost:
  "\<exists>s. ulp_reach s \<and> common_hal_tx_access s \<and> rx_pc s = Rx_Idle \<and> tx_pcs s ! WLAN_ID = Tx_Waiting \<and>
     (\<exists>s'. ulp_step s s' \<and> tx_pcs s' ! WLAN_ID = Tx_Failed (- ETIME)) \<and>
     \<not> (\<exists>s'. ulp_step s s' \<and> tx_pcs s' ! WLAN_ID \<notin> {Tx_Waiting, Tx_Failed (- ETIME)})"
proof -
  let ?s = "run_at \<lparr>tx_intention = True, wait_for_tx_access = True\<rparr> Tx_Waiting True 0xABCD Rx_Idle"
  have "tx_pcs s' ! WLAN_ID \<in> {Tx_Waiting, Tx_Failed (- ETIME)}" if "ulp_step ?s s'" for s'
    using that
    by cases (auto simp: run_at_def set_pc_def set_intention_def set_wait_def clear_tx_intention_def ulp_sleep_entry_def
        rsi_send_ack_for_ulp_entry_def wake_waiting_def Let_def less_Suc_eq numeral_3_eq_3 nth_list_update nth_Cons')
  moreover have "ulp_step ?s (set_pc 0 (Tx_Failed (- ETIME)) ?s)"
    by (rule ulp_step.timeout) (simp_all add: run_at_def)
  then have "\<exists>s'. ulp_step ?s s' \<and> tx_pcs s' ! WLAN_ID = Tx_Failed (- ETIME)"
    by (intro exI [of _ "set_pc 0 (Tx_Failed (- ETIME)) ?s"]) (simp add: run_at_def set_pc_def)
  ultimately show ?thesis
    using run_reach(3) by (intro exI [of _ ?s]) (auto simp: run_at_def)
qed

section \<open>The power save requests\<close>

lemma ps_request_frame_facts:
  "length (ps_request_frame a enable) = 42"
  "ps_request_frame a enable ! 2 = 5"
  "get_words (ps_request_frame a enable) 6 = (if enable then SLEEP_REQUEST else WAKEUP_REQUEST)"
  unfolding ps_request_frame_def Let_def
  by (simp_all add: get_put_words put_words_nth_type del: put_words_def)

text \<open>The frame queued by a request.\<close>

definition is_ps_request :: "u16 \<Rightarrow> u8 list \<Rightarrow> bool" where
  "is_ps_request request d \<longleftrightarrow> length d = 42 \<and> d ! 2 = 5 \<and> get_words d 6 = request"

lemma is_ps_request_frame:
  "is_ps_request (if enable then SLEEP_REQUEST else WAKEUP_REQUEST) (internal_mgmt_bytes (ps_request_frame a enable))"
  by (simp add: is_ps_request_def ps_request_frame_facts get_words_internal)

text \<open>
  The state changes only with a request that was queued: \<open>rsi_enable_ps\<close> and
  \<open>rsi_disable_ps\<close> either queue one 42-byte management frame of type
  \<open>WAKEUP_SLEEP_REQUEST\<close> with the request in word 6 and enter the request state, or, when
  it cannot be allocated, queue nothing and leave the state alone.
\<close>
theorem ps_requests:
  "((\<exists>d. is_ps_request SLEEP_REQUEST d \<and> ps_queue (rsi_enable_ps a) = ps_queue a @ [d]) \<and>
      ps_state (rsi_enable_ps a) = PS_ENABLE_REQ_SENT \<and> user_ps_en (rsi_enable_ps a) \<or>
    ps_queue (rsi_enable_ps a) = ps_queue a \<and> ps_state (rsi_enable_ps a) = ps_state a) \<and>
   ((\<exists>d. is_ps_request WAKEUP_REQUEST d \<and> ps_queue (rsi_disable_ps a) = ps_queue a @ [d]) \<and>
      ps_state (rsi_disable_ps a) = PS_DISABLE_REQ_SENT \<or>
    ps_queue (rsi_disable_ps a) = ps_queue a \<and> ps_state (rsi_disable_ps a) = ps_state a)"
  using is_ps_request_frame [of True a] is_ps_request_frame [of False a]
  by (auto simp: rsi_enable_ps_def rsi_disable_ps_def rsi_send_ps_request_def Let_def)

definition example_ps_info :: rsi_ps_info where
  "example_ps_info =
     \<lparr>ps_enabled = 1, sleep_type = LP_POWER_SAVE, tx_threshold = 0, rx_threshold = 0, tx_hysterisis = 0, rx_hysterisis = 0, monitor_interval = 0,
      listen_interval_duration = 0, num_bcns_per_lis_int = 0, dtim_interval_duration = 0, num_dtims_per_sleep = 1,
      deep_sleep_wakeup_period = 100, uapsd_wakeup_period = 100\<rparr>"

definition example_power :: ps_adapter where
  "example_power =
     \<lparr>ps_state = PS_NONE, ps_info = example_ps_info, user_ps_en = False, disable_ps_from_lmac = False, wifi_paused = False, ps_assoc = Some True,
      uapsd_bitmap = 0, uapsd_max_sp_len = 0, rx_data_inactive_interval = 0, timer_set_up = False, ps_timer = None, ps_queue = [],
      alloc_ok = (\<lambda>_. True), alloc_count = 0\<rparr>"

end
