(* ===== verification/Mgmt_Frames.thy ===== *)
theory Mgmt_Frames
  imports Dot11 Host_Intf
begin

text \<open>
  The command frames of rsi/rsi_91x_mgmt.c that bring the device up and configure it. A
  command is a descriptor of eight words and a payload laid out as the packed structures of
  rsi/rsi_mgmt.h and rsi/rsi_boot_params.h; it is allocated, filled, and put on the
  management queue of the scheduler by \<open>queue_internal\<close>.

  Whether the n-th allocation of a socket buffer succeeds is \<open>mgmt_alloc n\<close>. A write beyond the end
  of an allocated buffer is recorded in the ghost \<open>overrun\<close>.
\<close>

section \<open>State\<close>

datatype fsm_state =
    FSM_FW_NOT_LOADED | FSM_CARD_NOT_READY | FSM_COMMON_DEV_PARAMS_SENT | FSM_BOOT_PARAMS_SENT
  | FSM_EEPROM_READ_MAC_ADDR | FSM_EEPROM_READ_RF_TYPE | FSM_RESET_MAC_SENT | FSM_RADIO_CAPS_SENT
  | FSM_BB_RF_PROG_SENT | FSM_MAC_INIT_DONE | FSM_AMPDU_IND_SENT | FSM_SCAN_CFM

record rsi_9116_features =
  pll_mode :: u8
  rf_type :: u8
  wireless_mode :: u8
  afe_type :: u8
  enable_ppe :: u8
  dpd :: u8
  sifs_tx_enable :: u32
  ps_options :: u32

text \<open>The settings that come from module parameters and go into \<open>COMMON_DEV_CONFIG\<close> and the BT registers.\<close>

record dev_settings =
  lp_ps_handshake_mode :: u8
  ulp_ps_handshake_mode :: u8
  unused_ulp_gpio :: u8
  unused_soc_gpio :: u32
  oper_mode :: u16
  dfs_region :: u8
  obm_ant_sel_val :: u8
  peer_dist :: u16
  bt_feature_bitmap :: u16
  uart_debug :: u8
  xtal_good_time :: u8
  ext_opt :: u16
  host_intf_on_demand :: u8
  crystal_as_sleep_clk :: u8
  sleep_ind_gpio_sel :: bool
  feature_bitmap_9116 :: u16
  pta_config :: u8
  ble_roles :: u16
  three_wire_coex :: bool
  bt_bdr_mode :: u16
  anchor_point_gap :: u16
  data_inactive_interval :: u16    \<comment> \<open>\<open>rx_data_inactive_interval\<close>\<close>
  bt_rf_type :: u8
  ble_tx_pwr_inx :: u8
  ble_pwr_save_options :: u8
  ble_vendor_feature_bitmap :: u32
  bt_rf_tx_power_mode :: u8
  bt_rf_rx_power_mode :: u8
  is_915 :: bool

text \<open>The EDCA parameters of an access category, as mac80211 passes them.\<close>

record edca_params =
  cw_min :: u16
  cw_max :: u16
  edca_aifs :: u8
  edca_txop_limit :: u16
  mu_aifsn :: u8
  mu_ecw_min_max :: u8
  mu_timer :: u8

record mgmt_common =
  device_model :: rsi_dev_model
  fsm_state :: fsm_state
  driver_mode :: nat
  band_5ghz :: bool
  num_supp_bands :: nat
  channel_width :: u8
  rts_threshold :: u16
  txop_dur_rts_threshold :: u16
  channel :: u8
  min_rate :: u16
  iface_down :: bool
  endpoint :: u8
  ta_aggr :: u8
  rf_pwr_mode :: u16
  wlan_rf_power_mode :: u8
  tx_power :: int
  dtim_cnt :: u8
  beacon_interval :: u16
  features :: rsi_9116_features
  wlan_pwrsave_options :: u32
  hw_bmiss_threshold :: u16
  keep_alive_period :: u16
  mac_id :: u8
  radio_id :: u8
  mac_addr :: "u8 list"
  rf_reset :: bool
  bb_rf_prog_count :: u8
  antenna_diversity :: u8
  enable_ng_cb :: bool
  value_of_ng_cb :: u8
  use_protection :: bool
  fixed_rate_en :: bool
  fixed_rate :: u16
  p2p_enabled :: bool
  beacon_enabled :: bool
  trigger_resp_ind :: u8
  bsr_support :: bool
  max_stations :: nat
  last_vap_type :: nat
  last_vap_addr :: "u8 list"
  edca :: "edca_params list"
  start_tx_aggr :: "bool list"      \<comment> \<open>of \<open>stations[RSI_MAX_ASSOC_STAS]\<close>\<close>
  settings :: dev_settings
  ax_params :: rsi_ax_params
  hw_conf :: ht40                   \<comment> \<open>\<open>hw->conf\<close>\<close>
  per_ch_bw :: u16
  eeprom_length :: u32
  eeprom_offset :: u32
  eeprom_init :: bool
  boot_clk_9116_20 :: u32           \<comment> \<open>\<open>wlan_bbp_lmac_clk_reg_val\<close> of the static \<open>boot_params_9116_20\<close>\<close>
  mgmt_alloc :: "nat \<Rightarrow> bool"
  mgmt_allocs :: nat
  mgmt_queue :: "u8 list list"
  tx_events :: nat
  overrun :: bool
  leaks :: nat                      \<comment> \<open>buffers that are neither queued nor freed\<close>

section \<open>Allocating and queueing\<close>

abbreviation (input) TX_DOT11_MGMT :: u16 where "TX_DOT11_MGMT \<equiv> 0"
abbreviation (input) RESET_MAC_REQ :: u16 where "RESET_MAC_REQ \<equiv> 0x1"
abbreviation (input) RADIO_CAPABILITIES :: u16 where "RADIO_CAPABILITIES \<equiv> 0x2"
abbreviation (input) PEER_NOTIFY :: u16 where "PEER_NOTIFY \<equiv> 0x8"
abbreviation (input) BLOCK_HW_QUEUE :: u16 where "BLOCK_HW_QUEUE \<equiv> 0x9"
abbreviation (input) SET_KEY_REQ :: u16 where "SET_KEY_REQ \<equiv> 0xA"
abbreviation (input) BOOTUP_PARAMS_REQUEST :: u16 where "BOOTUP_PARAMS_REQUEST \<equiv> 0xC"
abbreviation (input) VAP_CAPABILITIES :: u16 where "VAP_CAPABILITIES \<equiv> 0xD"
abbreviation (input) EEPROM_READ :: u16 where "EEPROM_READ \<equiv> 0xE"
abbreviation (input) SET_RX_FILTER :: u16 where "SET_RX_FILTER \<equiv> 0x11"
abbreviation (input) AMPDU_IND :: u16 where "AMPDU_IND \<equiv> 0x12"
abbreviation (input) BBP_PROG_IN_TA :: u16 where "BBP_PROG_IN_TA \<equiv> 0x15"
abbreviation (input) ANT_SEL_FRAME :: u16 where "ANT_SEL_FRAME \<equiv> 0x20"
abbreviation (input) VAP_DYNAMIC_UPDATE :: u16 where "VAP_DYNAMIC_UPDATE \<equiv> 0x27"
abbreviation (input) COMMON_DEV_CONFIG :: u16 where "COMMON_DEV_CONFIG \<equiv> 0x28"
abbreviation (input) RADIO_PARAMS_UPDATE :: u16 where "RADIO_PARAMS_UPDATE \<equiv> 0x29"
abbreviation (input) FEATURES_ENABLE :: u16 where "FEATURES_ENABLE \<equiv> 0x33"

abbreviation (input) BW_20MHZ :: u8 where "BW_20MHZ \<equiv> 0"
abbreviation (input) BW_40MHZ :: u8 where "BW_40MHZ \<equiv> 1"
abbreviation (input) RF_EVAL_MODE_ON :: nat where "RF_EVAL_MODE_ON \<equiv> 2"
abbreviation (input) SNIFFER_MODE :: nat where "SNIFFER_MODE \<equiv> 7"
abbreviation (input) RSI_RF_TYPE :: u16 where "RSI_RF_TYPE \<equiv> 1"
abbreviation (input) UPPER_20_ENABLE :: u16 where "UPPER_20_ENABLE \<equiv> push_bit 12 2"
abbreviation (input) LOWER_20_ENABLE :: u16 where "LOWER_20_ENABLE \<equiv> push_bit 12 4"
abbreviation (input) MAX_HW_QUEUES :: nat where "MAX_HW_QUEUES \<equiv> 12"

text \<open>The type of a command: the byte the firmware dispatches on.\<close>

definition cmd_type :: "u8 list \<Rightarrow> u8" where
  [rsi_defs]: "cmd_type d = d ! 2"

text \<open>
  \<open>rsi_send_internal_mgmt_frame\<close>: a peer notification goes to the head of the queue, any other
  command to its tail.
\<close>

definition queue_internal :: "u8 list \<Rightarrow> mgmt_common \<Rightarrow> int \<times> mgmt_common" where
  "queue_internal frame c =
     (let d = internal_mgmt_bytes frame
      in (0, c\<lparr>mgmt_queue := (if d ! 2 = ucast PEER_NOTIFY then d # mgmt_queue c else mgmt_queue c @ [d]),
               tx_events := Suc (tx_events c)\<rparr>))"

definition alloc_skb :: "mgmt_common \<Rightarrow> bool \<times> mgmt_common" where
  [rsi_defs]: "alloc_skb c = (mgmt_alloc c (mgmt_allocs c), c\<lparr>mgmt_allocs := Suc (mgmt_allocs c)\<rparr>)"

text \<open>The shape of most commands: allocate, fill, queue; without memory nothing else happens.\<close>

definition send_command :: "mgmt_common \<Rightarrow> (mgmt_common \<Rightarrow> mgmt_common) \<Rightarrow> u8 list \<Rightarrow> int \<times> mgmt_common" where
  "send_command c effect frame =
     (let (ok, c1) = alloc_skb c in if ok then queue_internal frame (effect c1) else (- ENOMEM, c1))"

section \<open>Commands of one descriptor\<close>

definition desc_frame :: "u16 \<Rightarrow> u16 \<Rightarrow> u16 \<Rightarrow> u16 \<Rightarrow> u16 \<Rightarrow> u16 \<Rightarrow> u16 \<Rightarrow> u8 list" where
  [rsi_defs]: "desc_frame ty w2 w3 w4 w5 w6 w7 = put_words [len_queue 0 RSI_WIFI_MGMT_Q, ty, w2, w3, w4, w5, w6, w7]"

lemma desc_frame_type: "desc_frame ty w2 w3 w4 w5 w6 w7 ! 2 = ucast ty"
  using put_words_nth_type [of _ "[]"] by (simp add: desc_frame_def)

definition rsi_program_bb_rf :: "mgmt_common \<Rightarrow> int \<times> mgmt_common" where
  "rsi_program_bb_rf c =
     send_command c (\<lambda>c. c\<lparr>rf_reset := False, bb_rf_prog_count := 1\<rparr>)
       (desc_frame BBP_PROG_IN_TA 0 (rf_pwr_mode c) (ucast (endpoint c)) 0 0
          ((if rf_reset c then BIT 3 else 0) OR push_bit 4 RSI_RF_TYPE))"

definition rsi_send_reset_mac :: "mgmt_common \<Rightarrow> int \<times> mgmt_common" where
  "rsi_send_reset_mac c =
     send_command c id
       (desc_frame RESET_MAC_REQ 0
          (if driver_mode c = SNIFFER_MODE then 1 OR push_bit 8 1 else push_bit 8 (ucast (ta_aggr c)))
          (push_bit 8 15)
          (if driver_mode c = RF_EVAL_MODE_ON then 1 else 0)
          (ucast (antenna_diversity c))
          (if enable_ng_cb c then ucast (value_of_ng_cb c) OR push_bit 8 1 else 0))"

definition eeprom_frame :: "mgmt_common \<Rightarrow> u16 \<Rightarrow> u8 list" where
  "eeprom_frame c flags =
     desc_frame EEPROM_READ (push_bit 8 3 OR flags) (ucast (push_bit 4 (eeprom_length c))) (ucast (eeprom_offset c))
       (ucast (drop_bit 16 (eeprom_offset c))) 0 0"

definition rsi_eeprom_read :: "mgmt_common \<Rightarrow> int \<times> mgmt_common" where
  "rsi_eeprom_read c = send_command c id (eeprom_frame c 0)"

definition rsi_flash_read :: "mgmt_common \<Rightarrow> int \<times> mgmt_common" where
  "rsi_flash_read c = send_command c id (eeprom_frame c (if eeprom_init c then BIT 13 else 0))"

definition rsi_send_block_unblock_frame :: "bool \<Rightarrow> mgmt_common \<Rightarrow> int \<times> mgmt_common" where
  "rsi_send_block_unblock_frame block_event c =
     send_command c id
       (desc_frame BLOCK_HW_QUEUE 0 1 (if block_event then 0xf OR push_bit 4 0xf else 0)
          (if block_event then 0 else 0xf OR push_bit 4 0xf) 0 0)"

definition rsi_send_rx_filter_frame :: "u16 \<Rightarrow> mgmt_common \<Rightarrow> int \<times> mgmt_common" where
  "rsi_send_rx_filter_frame rx_filter_word c = send_command c id (desc_frame SET_RX_FILTER 0 0 rx_filter_word 0 0 0)"

definition rsi_send_radio_params_update :: "mgmt_common \<Rightarrow> int \<times> mgmt_common" where
  "rsi_send_radio_params_update c =
     send_command c id (desc_frame RADIO_PARAMS_UPDATE 0 (BIT 0 OR push_bit 8 (of_int (tx_power c))) 0 0 0 0)"

definition rsi_set_antenna :: "u8 \<Rightarrow> mgmt_common \<Rightarrow> int \<times> mgmt_common" where
  "rsi_set_antenna antenna c = send_command c id (desc_frame ANT_SEL_FRAME (push_bit 8 1) (ucast antenna) 0 0 0 0)"

text \<open>
  \<open>rsi_send_aggr_params_frame\<close>; \<open>peer_id\<close> is 0 throughout. Any other event sends a frame with
  the type only.
\<close>

datatype sta_notify_events = STA_CONNECTED | STA_DISCONNECTED | STA_TX_ADDBA_DONE | STA_TX_DELBA | STA_RX_ADDBA_DONE | STA_RX_DELBA

definition aggr_frame :: "mgmt_common \<Rightarrow> u16 \<Rightarrow> u16 \<Rightarrow> u8 \<Rightarrow> sta_notify_events \<Rightarrow> u8 list" where
  "aggr_frame c tid ssn buf_size event =
     (case event of
        STA_TX_ADDBA_DONE \<Rightarrow>
          desc_frame AMPDU_IND 0 0 ssn (if ax_enabled (ax_params c) then ucast buf_size else 8) 0 (tid OR push_bit 4 1)
      | STA_RX_ADDBA_DONE \<Rightarrow> desc_frame AMPDU_IND 0 0 ssn 0 0 (tid OR push_bit 4 1 OR push_bit 5 1)
      | STA_TX_DELBA \<Rightarrow> desc_frame AMPDU_IND 0 0 0 0 0 tid
      | STA_RX_DELBA \<Rightarrow> desc_frame AMPDU_IND 0 0 0 0 0 (tid OR push_bit 5 1)
      | _ \<Rightarrow> desc_frame AMPDU_IND 0 0 0 0 0 0)"

definition rsi_send_aggr_params_frame ::
  "u16 \<Rightarrow> u16 \<Rightarrow> u8 \<Rightarrow> sta_notify_events \<Rightarrow> mgmt_common \<Rightarrow> int \<times> mgmt_common" where
  "rsi_send_aggr_params_frame tid ssn buf_size event c =
     send_command c
       (\<lambda>c. if event = STA_TX_DELBA then c\<lparr>start_tx_aggr := (start_tx_aggr c)[unat tid := False]\<rparr> else c)
       (aggr_frame c tid ssn buf_size event)"

section \<open>Boot parameters\<close>

text \<open>
  \<open>struct bootup_params\<close> and \<open>struct bootup_params_9116\<close>: a head of 20 bytes, the clock settings,
  and 33 bytes of sleep settings, all zero. \<open>VALID_20\<close> and \<open>VALID_40\<close> are the same set of bits, and
  the PLL values are the same for both widths.
\<close>

abbreviation (input) VALID_20 :: u32 where
  "VALID_20 \<equiv> BIT 5 OR BIT 6 OR BIT 7 OR BIT 8 OR BIT 1 OR BIT 0"

definition boot_head :: "u8 list" where
  "boot_head = put_le16 0x5aa5 @ put_le16 0 @ put_le32 VALID_20 @ put_le32 0 @ put_words [0, 0, 0, 0]"

definition boot_sleep :: "u8 list" where
  "boot_sleep = replicate 33 0"

text \<open>\<open>struct device_clk_info\<close>: the PLL registers of both tables, and the clock switches (\<open>bbp\<close>: the LMAC clock; None: all off).\<close>

definition device_clk_info :: "u16 option \<Rightarrow> u8 list" where
  "device_clk_info bbp =
     put_words [9, 4, push_bit 8 5, 0x14, 0, 0x9f0] @
     (case bbp of None \<Rightarrow> put_words [0, 0, 0, 0]
      | Some lmac_clk \<Rightarrow> put_words [BIT 0 OR BIT 1 OR BIT 3, lmac_clk, 0x48, 0x1211])"

definition boot_params_20 :: "u8 list" where
  "boot_params_20 = boot_head @ device_clk_info (Some 0x111) @ device_clk_info None @ device_clk_info None @ boot_sleep"

definition boot_params_40 :: "u8 list" where
  "boot_params_40 = boot_head @ device_clk_info (Some 0x1121) @ device_clk_info None @ device_clk_info None @ boot_sleep"

definition boot_params_9116_20 :: "u32 \<Rightarrow> u8 list" where
  "boot_params_9116_20 wlan_bbp_lmac_clk =
     boot_head @ put_words [0xd518, 0x2ae7, 0x2000, 0x0C18, 0x1100, 0x6600] @
     put_le32 (BIT 0 OR BIT 3 OR BIT 5) @ put_le32 0x083C0503 @ put_le32 wlan_bbp_lmac_clk @ put_le32 0x02010001 @
     put_le32 0x3b @ boot_sleep"

definition boot_params_9116_40 :: "u8 list" where
  "boot_params_9116_40 =
     boot_head @ put_words [0xd518, 0x2ae7, 0x3000, 0x0C18, 0x0000, 0x6600] @
     put_le32 (BIT 0 OR BIT 3 OR BIT 5 OR BIT 6) @ put_le32 0x083C0503 @ put_le32 0x01042002 @ put_le32 0x04010002 @
     put_le32 0x3b @ boot_sleep"

text \<open>
  \<open>rsi_load_bootup_params\<close>. For the 9117 and later the 20 MHz table is changed in place, for every
  adapter the module drives. Word 0 holds the length of the table.
\<close>

abbreviation (input) UMAC_CLK :: u16 where "UMAC_CLK \<equiv> 80"   \<comment> \<open>\<open>UMAC_CLK_20BW\<close>, \<open>UMAC_CLK_40BW\<close> and \<open>UMAC_CLK_40MHZ\<close>\<close>

definition boot_clk :: "mgmt_common \<Rightarrow> u32" where
  [rsi_defs]: "boot_clk c =
     (if channel_width c \<noteq> BW_40MHZ \<and> RSI_DEV_9117 \<le> device_model c then 0x01041001 else boot_clk_9116_20 c)"

definition boot_payload :: "mgmt_common \<Rightarrow> u8 list" where
  "boot_payload c =
     (if channel_width c = BW_40MHZ
      then (if DEV_MODEL_9116 (device_model c) then boot_params_9116_40 else boot_params_40)
      else (if DEV_MODEL_9116 (device_model c) then boot_params_9116_20 (boot_clk c) else boot_params_20))"

definition bootup_frame :: "mgmt_common \<Rightarrow> u8 list" where
  "bootup_frame c =
     put_words [len_queue (length (boot_payload c)) RSI_WIFI_MGMT_Q, BOOTUP_PARAMS_REQUEST, 0, 0, 0, 0, 0, UMAC_CLK] @ boot_payload c"

definition rsi_load_bootup_params :: "mgmt_common \<Rightarrow> int \<times> mgmt_common" where
  "rsi_load_bootup_params c = send_command c (\<lambda>c. c\<lparr>boot_clk_9116_20 := boot_clk c\<rparr>) (bootup_frame c)"

section \<open>Device configuration\<close>

definition config_vals :: "mgmt_common \<Rightarrow> u8 list" where
  "config_vals c =
     (let s = settings c; n16 = DEV_MODEL_9116 (device_model c);
          opermode = (if oper_mode s = 32 \<or> oper_mode s = 48 then 16 else ucast (oper_mode s));
          features_9116 = (ext_opt s AND 0xF) OR push_bit 4 (ucast (host_intf_on_demand s))
                          OR push_bit 5 (ucast (crystal_as_sleep_clk s) AND 0x3) OR push_bit 7 (of_bool (sleep_ind_gpio_sel s))
                          OR push_bit 8 (feature_bitmap_9116 s) OR push_bit 13 (ucast (pta_config s));
          xtal = (if data_inactive_interval s \<noteq> 0 then xtal_good_time s OR BIT 2 else xtal_good_time s)
      in [lp_ps_handshake_mode s, ulp_ps_handshake_mode s, 0, unused_ulp_gpio s] @ put_le32 (unused_soc_gpio s) @
         [0, opermode, wlan_rf_power_mode c, 0, 0, of_nat (driver_mode c), dfs_region s, obm_ant_sel_val s] @
         put_words [peer_dist s, bt_feature_bitmap s] @ [uart_debug s, xtal] @
         put_words (if n16 then [features_9116, ble_roles s, push_bit 8 (of_bool (three_wire_coex s)) OR bt_bdr_mode s, anchor_point_gap s]
                    else [0, 0, 0, 0]) @ [0, 0])"

definition common_dev_frame :: "mgmt_common \<Rightarrow> u8 list" where
  "common_dev_frame c =
     put_words [len_queue (length (config_vals c)) RSI_COEX_Q, COMMON_DEV_CONFIG, 0, 0, 0, 0, 0, 0] @ config_vals c"

definition rsi_send_common_dev_params :: "mgmt_common \<Rightarrow> int \<times> mgmt_common" where
  "rsi_send_common_dev_params c = send_command c id (common_dev_frame c)"

definition feature_enable :: "mgmt_common \<Rightarrow> u32" where
  "feature_enable c =
     (let f = features c;
          bits = (if dpd f \<noteq> 0 then BIT 3 else 0) OR (if sifs_tx_enable f \<noteq> 0 then BIT 2 else 0)
                 OR (ps_options f AND BIT 0) OR (ps_options f AND BIT 1) OR wlan_pwrsave_options c
      in if bits AND BIT 5 \<noteq> 0 then bits OR BIT 7 OR push_bit 28 4 else bits)"

definition features_payload :: "mgmt_common \<Rightarrow> u8 list" where
  "features_payload c =
     (let f = features c
      in [pll_mode f, rf_type f, wireless_mode f, enable_ppe f, afe_type f, 0, 0, 0] @ put_le32 (feature_enable c))"

definition features_frame :: "mgmt_common \<Rightarrow> u8 list" where
  "features_frame c =
     put_words [len_queue (length (features_payload c)) RSI_WIFI_MGMT_Q, FEATURES_ENABLE, 0, 0, 0, 0, 0, 0] @ features_payload c"

definition rsi_send_w9116_features :: "mgmt_common \<Rightarrow> int \<times> mgmt_common" where
  "rsi_send_w9116_features c = send_command c id (features_frame c)"

text \<open>
  \<open>rsi_send_bt_reg_params\<close>, with the function that sends a Bluetooth packet. An unsupported power
  index is refused after the buffer was allocated, which is then lost.
\<close>

definition bt_reg_frame :: "mgmt_common \<Rightarrow> u8 list" where
  "bt_reg_frame c =
     (let s = settings c
      in if DEV_MODEL_9116 (device_model c)
         then put_words [len_queue 9 RSI_BT_MGMT_Q, 0, 0, 0, 0, 0, 0, 0x55] @
              [0, 0, bt_rf_type s AND 0x0F, ble_tx_pwr_inx s, ble_pwr_save_options s AND 0x0F] @ put_le32 (ble_vendor_feature_bitmap s)
         else put_words [len_queue 6 RSI_BT_MGMT_Q, 0, 0, 0, 0, 0, 0, 0x55] @
              [(bt_rf_tx_power_mode s AND 0x0F) OR (bt_rf_rx_power_mode s AND 0xF0), 0, 0, 0, 0, 0])"

definition rsi_send_bt_reg_params :: "(u8 list \<Rightarrow> int) \<Rightarrow> mgmt_common \<Rightarrow> int \<times> mgmt_common" where
  "rsi_send_bt_reg_params send c =
     (let (ok, c1) = alloc_skb c
      in if \<not> ok then (- ENOMEM, c1)
         else if is_915 (settings c1) \<and> ble_tx_pwr_inx (settings c1) \<le> 63 then (- EINVAL, c1\<lparr>leaks := Suc (leaks c1)\<rparr>)
         else (send (bt_reg_frame c1), c1))"

section \<open>Radio capabilities\<close>

definition radio_word5 :: "mgmt_common \<Rightarrow> u16" where
  "radio_word5 c =
     (if channel_width c \<noteq> BW_40MHZ then 0
      else if driver_mode c \<noteq> RF_EVAL_MODE_ON
      then (if fsm_state c \<noteq> FSM_MAC_INIT_DONE then 0
            else case hw_conf c of
              HT40_PLUS \<Rightarrow> LOWER_20_ENABLE OR drop_bit 12 LOWER_20_ENABLE
            | HT40_MINUS \<Rightarrow> UPPER_20_ENABLE OR drop_bit 12 UPPER_20_ENABLE
            | NO_HT40 \<Rightarrow> push_bit 12 1 OR FULL40M_ENABLE)
      else if per_ch_bw c \<noteq> 0 then push_bit 12 (per_ch_bw c) OR FULL40M_ENABLE else 0)"

definition radio_word7 :: "mgmt_common \<Rightarrow> u16" where
  "radio_word7 c =
     (let w = 0x1 OR (if channel_width c = BW_40MHZ then push_bit 3 1 else 0)
      in if device_model c = RSI_DEV_9116 \<and> channel_width c = BW_20MHZ then w AND NOT 0x3 else w)"

text \<open>One entry of \<open>qos_params\<close>: the least and largest contention window, AIFSN and TXOP.\<close>

definition qos_entry :: "mgmt_common \<Rightarrow> nat \<Rightarrow> u16 list" where
  "qos_entry c ii =
     (let e = edca c ! (ii mod 4); jj = (if ii > 5 then 1 else 0);
          q = (if ii < MAX_HW_QUEUES - 4
               then [cw_min e + jj, cw_max e + jj, ucast (edca_aifs e), push_bit 5 (edca_txop_limit e)]
               else [0, 0, 0, 0]);
          q1 = (if q ! 0 = 0 then [7, 0x3f, 2, 0] else q)
      in if ii = 9 \<or> ii = 11 then q1[3 := 0xffff] else if ii = 10 then q1[3 := 0] else q1)"

text \<open>The MU EDCA parameters of a queue: \<open>cw_max\<close>, the halves of \<open>cw_min\<close>, the enable bits, the timer and AIFSN.\<close>

definition mu_edca_entry :: "u16 \<Rightarrow> u16 \<Rightarrow> u8 \<Rightarrow> u8 \<Rightarrow> u16 \<Rightarrow> u8 list" where
  "mu_edca_entry cwmax cwmin en timer aifsn =
     put_le16 cwmax @ [ucast cwmin, en, ucast (drop_bit 8 cwmin), timer] @ put_le16 aifsn"

definition mu_edca_of :: "edca_params \<Rightarrow> u8 \<Rightarrow> u8 list" where
  "mu_edca_of e en =
     (let cw = (\<lambda>k :: u8. of_nat (2 ^ unat k - 1) :: u16)
      in mu_edca_entry (cw (drop_bit 4 (mu_ecw_min_max e))) (cw (mu_ecw_min_max e AND 0xF)) en (mu_timer e) (ucast (mu_aifsn e AND 0xF)))"

definition mu_edca_default :: "nat \<Rightarrow> u8 list" where
  "mu_edca_default ii =
     (let (hi, lo, aifsn) = (if ii \<ge> 8 then (7, 3, 2)
                             else [(1023, 15, 7), (1023, 15, 3), (15, 7, 2), (7, 3, 2)] ! (ii mod 4))
      in mu_edca_entry hi lo (BIT 7) 0 aifsn)"

definition mu_edca_table :: "mgmt_common \<Rightarrow> u8 list" where
  "mu_edca_table c =
     (if \<not> (ax_enabled (ax_params c) \<and> \<not> beacon_enabled c) then concat (map mu_edca_default [0..<MAX_HW_QUEUES])
      else concat (map (\<lambda>ii. if ii < MAX_HW_QUEUES - 4
                             then mu_edca_of (edca c ! (ii mod 4))
                                    (if edca_susp (ax_params c) \<noteq> 0 \<and> ii < 4 then BIT 7 OR BIT 6 else BIT 7)
                             else mu_edca_of (edca c ! 3) (BIT 7)) [0..<MAX_HW_QUEUES]))"

text \<open>The 802.11ax half of the frame, filled for the 9117 and later.\<close>

definition radio_ax :: "mgmt_common \<Rightarrow> u8 list" where
  "radio_ax c =
     (let ax = ax_params c;
          valids = (if mbssid_mask_value ax > 0 then BIT 4 else 0) OR BIT 3 OR BIT 2 OR BIT 1
                   OR (if spatial_reuse_en ax then BIT 5 else 0);
          spr = (if ax_enabled ax \<and> \<not> beacon_enabled c then push_bit 14 (ucast (ipps_valid ax)) else 0)
                OR ucast (bss_color ax) OR push_bit 10 (ucast (mbssid_mask_value ax));
          trigger = ucast (trigger_resp_ind c) OR (if bsr_support c then BIT 6 else 0);
          obss = ucast (obss_pd_min ax) OR push_bit 8 (ucast (obss_pd_max ax))
      in put_le32 valids @ mu_edca_table c @ put_words [spr, trigger, BIT 1, obss] @
         put_le32 0xffffffff @ put_le32 0xffffffff @ put_le32 0 @ put_le32 0 @ put_words [0, 0])"

definition radio_payload :: "mgmt_common \<Rightarrow> u8 list" where
  "radio_payload c =
     put_words (concat (map (qos_entry c) [0..<MAX_HW_QUEUES])) @ [0, 0, 0, 0] @
     put_words [580, 346, 360, 2720, 9440, 0] @
     (if RSI_DEV_9117 \<le> device_model c then radio_ax c else replicate 128 0)"

definition radio_frame :: "mgmt_common \<Rightarrow> u8 list" where
  "radio_frame c =
     put_words [len_queue (length (radio_payload c)) RSI_WIFI_MGMT_Q, RADIO_CAPABILITIES, 0, 0,
                ucast (channel c) OR push_bit 8 RSI_RF_TYPE, radio_word5 c, 0, radio_word7 c] @ radio_payload c"

definition rsi_load_radio_caps :: "mgmt_common \<Rightarrow> int \<times> mgmt_common" where
  "rsi_load_radio_caps c = send_command c id (radio_frame c)"

section \<open>Virtual interfaces and keys\<close>

text \<open>\<open>mode\<close> and \<open>vap_status\<close> are the numbers of \<open>enum opmode\<close> and \<open>enum vap_status\<close>.\<close>

definition vap_ctrl_rate :: "mgmt_common \<Rightarrow> u32" where
  "vap_ctrl_rate c =
     (let rate = (if band_5ghz c \<or> p2p_enabled c then 0x8b else 0)
      in case hw_conf c of
           NO_HT40 \<Rightarrow> rate
         | HT40_MINUS \<Rightarrow> rate OR push_bit 16 (ucast UPPER_20_ENABLE)
         | HT40_PLUS \<Rightarrow> rate OR push_bit 16 (ucast LOWER_20_ENABLE))"

definition vap_payload :: "mgmt_common \<Rightarrow> u8 list \<Rightarrow> u8 list" where
  "vap_payload c addr =
     addr @ put_le16 90 @ replicate 6 0 @ put_le16 0 @ put_le32 0 @ put_words [2352, rts_threshold c] @
     put_le32 0x8b @ put_le32 (vap_ctrl_rate c) @ put_le32 0 @
     put_words [beacon_interval c, ucast (dtim_cnt c), 20, txop_dur_rts_threshold c]"

definition vap_frame :: "mgmt_common \<Rightarrow> nat \<Rightarrow> u8 list \<Rightarrow> u8 \<Rightarrow> u8 \<Rightarrow> u8 list" where
  "vap_frame c mode addr vap_id vap_status =
     put_words [len_queue (length (vap_payload c addr)) RSI_WIFI_MGMT_Q, VAP_CAPABILITIES, push_bit 8 (ucast vap_status), 0,
                of_nat mode OR push_bit 8 (ucast (channel_width c)), 0, 0,
                push_bit 8 (ucast vap_id) OR push_bit 4 (ucast (mac_id c)) OR ucast (radio_id c)] @ vap_payload c addr"

definition rsi_set_vap_capabilities :: "nat \<Rightarrow> u8 list \<Rightarrow> u8 \<Rightarrow> u8 \<Rightarrow> mgmt_common \<Rightarrow> int \<times> mgmt_common" where
  "rsi_set_vap_capabilities mode addr vap_id vap_status c =
     send_command c (\<lambda>c. c\<lparr>last_vap_type := mode, last_vap_addr := addr\<rparr>) (vap_frame c mode addr vap_id vap_status)"

definition dynamic_frame :: "mgmt_common \<Rightarrow> u8 list" where
  "dynamic_frame c =
     put_words [len_queue 6 RSI_WIFI_MGMT_Q, VAP_DYNAMIC_UPDATE, 0,
                (if use_protection c then BIT 1 else 0) OR (if fixed_rate_en c then BIT 0 else 0),
                rts_threshold c, txop_dur_rts_threshold c, hw_bmiss_threshold c, 0] @
     put_words [(if fixed_rate_en c then fixed_rate c else 0), 0, keep_alive_period c]"

definition rsi_send_vap_dynamic_update :: "mgmt_common \<Rightarrow> int \<times> mgmt_common" where
  "rsi_send_vap_dynamic_update c = send_command c id (dynamic_frame c)"

text \<open>
  \<open>rsi_load_key\<close>. \<open>ap\<close> says whether the interface is an access point or group owner. The 144 bytes
  behind the descriptor are the four keys of 32 bytes and the two MIC keys; \<open>put_at\<close> is the
  \<open>memcpy\<close> into them. Without key data the function clears \<open>&set_key[FRAME_DESC_SZ]\<close>, which is
  16 structures behind the buffer.
\<close>

datatype key_type = RSI_PAIRWISE_KEY | RSI_GROUP_KEY | RSI_OTHER_KEY

abbreviation (input) WLAN_CIPHER_SUITE_WEP40 :: u32 where "WLAN_CIPHER_SUITE_WEP40 \<equiv> 0x000FAC01"
abbreviation (input) WLAN_CIPHER_SUITE_TKIP :: u32 where "WLAN_CIPHER_SUITE_TKIP \<equiv> 0x000FAC02"
abbreviation (input) WLAN_CIPHER_SUITE_WEP104 :: u32 where "WLAN_CIPHER_SUITE_WEP104 \<equiv> 0x000FAC05"
abbreviation (input) KEY_TYPE_CLEAR :: u32 where "KEY_TYPE_CLEAR \<equiv> 0"

definition is_wep :: "u32 \<Rightarrow> bool" where
  [rsi_defs]: "is_wep cipher = (cipher = WLAN_CIPHER_SUITE_WEP40 \<or> cipher = WLAN_CIPHER_SUITE_WEP104)"

definition put_at :: "nat \<Rightarrow> u8 list \<Rightarrow> u8 list \<Rightarrow> u8 list" where
  "put_at off bytes buf = take off buf @ bytes @ drop (off + length bytes) buf"

definition key_index :: "key_type \<Rightarrow> u32 \<Rightarrow> u8 \<Rightarrow> u8" where
  [rsi_defs]: "key_index ty cipher key_id = (if ty = RSI_PAIRWISE_KEY \<and> \<not> is_wep cipher then 0 else key_id)"

definition key_descriptor :: "bool \<Rightarrow> key_type \<Rightarrow> u32 \<Rightarrow> u16 \<Rightarrow> u8 \<Rightarrow> u16" where
  "key_descriptor ap ty cipher key_len key_id =
     (if ty = RSI_GROUP_KEY then (if ap then BIT 7 else 0) OR push_bit 1 1 else 0)
     OR (if is_wep cipher then BIT 2 OR (if 13 \<le> key_len then BIT 3 else 0)
         else if cipher \<noteq> KEY_TYPE_CLEAR then BIT 4 OR (if cipher = WLAN_CIPHER_SUITE_TKIP then BIT 5 else 0) else 0)
     OR BIT 13 OR push_bit 14 (ucast (key_index ty cipher key_id))"

definition key_area :: "ptr \<Rightarrow> u16 \<Rightarrow> u32 \<Rightarrow> u8 \<Rightarrow> u8 list" where
  "key_area data key_len cipher key_id =
     (let keys = (if is_wep cipher then put_at (32 * unat key_id + 1) (bytes_at data 0 (2 * unat key_len)) (replicate 144 0)
                  else put_at 0 (bytes_at data 0 (unat key_len)) (replicate 144 0))
      in put_at 136 (bytes_at data 24 8) (put_at 128 (bytes_at data 16 8) keys))"

definition rsi_load_key ::
  "bool \<Rightarrow> u8 \<Rightarrow> ptr option \<Rightarrow> u16 \<Rightarrow> key_type \<Rightarrow> u8 \<Rightarrow> u32 \<Rightarrow> int \<Rightarrow> mgmt_common \<Rightarrow> int \<times> mgmt_common" where
  "rsi_load_key ap vap_id data key_len ty key_id cipher sta_id c =
     (let (ok, c1) = alloc_skb c
      in if \<not> ok then (- ENOMEM, c1)
         else if ty = RSI_PAIRWISE_KEY \<and> ap \<and> int (max_stations c1) \<le> sta_id then (- 1, c1\<lparr>leaks := Suc (leaks c1)\<rparr>)
         else
           let words = [len_queue 144 RSI_WIFI_MGMT_Q, SET_KEY_REQ, 0, 0, key_descriptor ap ty cipher key_len key_id, 0, 0,
                        of_int sta_id OR push_bit 8 (ucast vap_id)]
           in case data of
                None \<Rightarrow> queue_internal (put_words words @ replicate 144 0) (c1\<lparr>overrun := True\<rparr>)
              | Some p \<Rightarrow>
                let area = key_area p key_len cipher (key_index ty cipher key_id)
                in queue_internal (put_words words @ take 144 area) (if length area > 144 then c1\<lparr>overrun := True\<rparr> else c1))"

section \<open>The device can tell a command's length and queue\<close>

text \<open>\<open>rsi_get_length\<close> and \<open>rsi_get_queueno\<close> of rsi/rsi_mgmt.h.\<close>

definition rsi_get_length :: "u8 list \<Rightarrow> nat \<Rightarrow> nat" where
  "rsi_get_length d offset = unat (get_words (drop offset d) 0 AND 0x0fff)"

definition rsi_get_queueno :: "u8 list \<Rightarrow> nat \<Rightarrow> u16" where
  "rsi_get_queueno d offset = drop_bit 12 (get_words (drop offset d) 0 AND 0x7000)"

lemma internal_word0:
  assumes "2 \<le> length d"
  shows "get_words (internal_mgmt_bytes d) 0 = get_words d 0 OR BIT 15"
  using assms unfolding get_words_def internal_mgmt_bytes_def
  by (simp, intro bit_word_eqI) (auto simp: bit_simps bit_BIT)

lemma internal_length_queue:
  assumes "n < 4096" "unat q < 8"
  shows "rsi_get_length (internal_mgmt_bytes (put_words (len_queue n q # ws) @ rest)) 0 = n"
    "rsi_get_queueno (internal_mgmt_bytes (put_words (len_queue n q # ws) @ rest)) 0 = q"
proof -
  let ?w = "len_queue n q OR BIT 15"
  have w: "get_words (internal_mgmt_bytes (put_words (len_queue n q # ws) @ rest)) 0 = ?w"
    using internal_word0 [of "put_words (len_queue n q # ws) @ rest"] get_put_words [of 0 "len_queue n q # ws" rest]
    by simp
  have m: "(0xFFF :: u16) = mask 12" "(0x7000 :: u16) = push_bit 12 (mask 3)" by (simp_all add: mask_eq_exp_minus_1)
  have "?w AND 0xFFF = len_queue n q AND 0xFFF"
    unfolding m by (rule bit_word_eqI) (auto simp: bit_simps bit_BIT)
  then show "rsi_get_length (internal_mgmt_bytes (put_words (len_queue n q # ws) @ rest)) 0 = n"
    using len_queue_fields(1) [of n q] assms w by (simp add: rsi_get_length_def)
  have q: "drop_bit 12 (len_queue n q) = q" using len_queue_fields(2) [of n q] assms by simp
  have "drop_bit 12 (?w AND 0x7000) = q AND mask 3"
    unfolding m by (subst (2) q [symmetric], rule bit_word_eqI) (auto simp: bit_simps bit_BIT)
  moreover have "q AND mask 3 = q"
    using low_bits_div [of q 3] assms(2) by (intro bit_word_eqI) (auto simp: bit_simps)
  ultimately show "rsi_get_queueno (internal_mgmt_bytes (put_words (len_queue n q # ws) @ rest)) 0 = q"
    using w by (simp add: rsi_get_queueno_def)
qed

text \<open>The layouts of the payloads have the sizes of the C structures.\<close>

lemma payload_sizes [simp]:
  "length (boot_payload c) = (if DEV_MODEL_9116 (device_model c) then 85 else 113)" "length (config_vals c) = 32"
  "length (features_payload c) = 12" "length (vap_payload c addr) = 38 + length addr"
  by (simp_all add: boot_payload_def boot_params_20_def boot_params_40_def boot_params_9116_20_def boot_params_9116_40_def
      boot_head_def boot_sleep_def device_clk_info_def config_vals_def features_payload_def vap_payload_def Let_def)

lemma mu_edca_sizes: "length (mu_edca_table c) = 96"
proof -
  have "length (mu_edca_default ii) = 8" "length (mu_edca_of e en) = 8" for ii e en
    by (simp_all add: mu_edca_default_def mu_edca_of_def mu_edca_entry_def Let_def split: prod.splits)
  then show ?thesis
    using length_concat_const [of "[0..<12]" mu_edca_default 8] by (auto simp: mu_edca_table_def intro!: length_concat_const [where n = 8, THEN trans])
qed

lemma radio_size [simp]: "length (radio_payload c) = 240"
proof -
  have "length (qos_entry c ii) = 4" for ii by (simp add: qos_entry_def Let_def)
  then have "length (concat (map (qos_entry c) [0..<12])) = 48" using length_concat_const [of "[0..<12]" "qos_entry c" 4] by simp
  moreover have "length (radio_ax c) = 128" by (simp add: radio_ax_def mu_edca_sizes Let_def)
  ultimately show ?thesis by (simp add: radio_payload_def)
qed

text \<open>A command whose descriptor tells the device its queue and the exact length of its payload.\<close>

definition announced :: "u16 \<Rightarrow> u8 list \<Rightarrow> bool" where
  "announced q d \<longleftrightarrow>
     FRAME_DESC_SZ \<le> length d \<and> rsi_get_length (internal_mgmt_bytes d) 0 = length d - FRAME_DESC_SZ \<and>
     rsi_get_queueno (internal_mgmt_bytes d) 0 = q"

lemma announced_frame:
  "length ws = 7 \<Longrightarrow> n < 4096 \<Longrightarrow> unat q < 8 \<Longrightarrow> length payload = n \<Longrightarrow> announced q (put_words (len_queue n q # ws) @ payload)"
  by (simp add: announced_def internal_length_queue)

text \<open>
  Every command frame as it is queued tells the device its queue and the exact length of its
  payload: the boot parameters of both device families, the device configuration, the
  features, the radio capabilities, the capabilities and the update of an interface, and the
  commands of one descriptor.
\<close>
theorem commands_announced:
  "announced RSI_WIFI_MGMT_Q (bootup_frame c) \<and> announced RSI_COEX_Q (common_dev_frame c) \<and>
   announced RSI_WIFI_MGMT_Q (features_frame c) \<and> announced RSI_WIFI_MGMT_Q (radio_frame c) \<and>
   announced RSI_WIFI_MGMT_Q (dynamic_frame c) \<and> announced RSI_WIFI_MGMT_Q (desc_frame ty w2 w3 w4 w5 w6 w7) \<and>
   (length addr = 6 \<longrightarrow> announced RSI_WIFI_MGMT_Q (vap_frame c mode addr vap_id vap_status))"
  using announced_frame [of "[ty, w2, w3, w4, w5, w6, w7]" 0 RSI_WIFI_MGMT_Q "[]"]
  by (auto simp: bootup_frame_def common_dev_frame_def features_frame_def radio_frame_def dynamic_frame_def desc_frame_def
      vap_frame_def intro!: announced_frame)

text \<open>A driver as it is before the card is ready.\<close>

definition example_mgmt :: "nat \<Rightarrow> mgmt_common" where
  "example_mgmt mode =
     \<lparr>device_model = RSI_DEV_9116, fsm_state = FSM_CARD_NOT_READY, driver_mode = mode, band_5ghz = False, num_supp_bands = 1,
      channel_width = 0, rts_threshold = 0, txop_dur_rts_threshold = 0, channel = 1, min_rate = 0, iface_down = True, endpoint = 0,
      ta_aggr = 3, rf_pwr_mode = 0, wlan_rf_power_mode = 0, tx_power = 20, dtim_cnt = 2, beacon_interval = 100,
      features = \<lparr>pll_mode = 0, rf_type = 1, wireless_mode = 0, afe_type = 1, enable_ppe = 0, dpd = 0, sifs_tx_enable = 0,
                  ps_options = 0\<rparr>,
      wlan_pwrsave_options = 0, hw_bmiss_threshold = 20, keep_alive_period = 90, mac_id = 0, radio_id = 0, mac_addr = [],
      rf_reset = False, bb_rf_prog_count = 0, antenna_diversity = 0, enable_ng_cb = False, value_of_ng_cb = 0, use_protection = False,
      fixed_rate_en = False, fixed_rate = 0, p2p_enabled = False, beacon_enabled = False, trigger_resp_ind = 0, bsr_support = False,
      max_stations = 32, last_vap_type = 0, last_vap_addr = [],
      edca = replicate 4 \<lparr>cw_min = 15, cw_max = 1023, edca_aifs = 2, edca_txop_limit = 0, mu_aifsn = 0, mu_ecw_min_max = 0, mu_timer = 0\<rparr>,
      start_tx_aggr = replicate 16 False,
      settings = \<lparr>lp_ps_handshake_mode = 0, ulp_ps_handshake_mode = 2, unused_ulp_gpio = 0xF, unused_soc_gpio = 0, oper_mode = 1,
        dfs_region = 0, obm_ant_sel_val = 2, peer_dist = 0, bt_feature_bitmap = 0, uart_debug = 0, xtal_good_time = 0, ext_opt = 0,
        host_intf_on_demand = 0, crystal_as_sleep_clk = 0, sleep_ind_gpio_sel = False, feature_bitmap_9116 = 0, pta_config = 0,
        ble_roles = 0, three_wire_coex = False, bt_bdr_mode = 0, anchor_point_gap = 0, data_inactive_interval = 0, bt_rf_type = 1,
        ble_tx_pwr_inx = 30, ble_pwr_save_options = 0, ble_vendor_feature_bitmap = 0, bt_rf_tx_power_mode = 0,
        bt_rf_rx_power_mode = 0, is_915 = False\<rparr>,
      ax_params = no_ax, hw_conf = NO_HT40, per_ch_bw = 0, eeprom_length = 0, eeprom_offset = 0, eeprom_init = False,
      boot_clk_9116_20 = 0x01042001, mgmt_alloc = (\<lambda>_. True), mgmt_allocs = 0, mgmt_queue = [], tx_events = 0, overrun = False,
      leaks = 0\<rparr>"

lemma commands_announced_witness:
  "announced RSI_WIFI_MGMT_Q (vap_frame (example_mgmt 1) 1 [0, 0x23, 0xa7, 1, 2, 3] 0 1)"
  using commands_announced [of "example_mgmt 1" _ _ _ _ _ _ _ "[0, 0x23, 0xa7, 1, 2, 3]" 1 0 1] by simp

section \<open>Keys\<close>

lemma length_put_at: "off + length bytes \<le> length buf \<Longrightarrow> length (put_at off bytes buf) = length buf"
  by (simp add: put_at_def)

lemma put_at_reads:
  assumes "off + length bytes \<le> length buf"
  shows "take (length bytes) (drop off (put_at off bytes buf)) = bytes"
    "i + k \<le> off \<Longrightarrow> take k (drop i (put_at off bytes buf)) = take k (drop i buf)"
  using assms by (auto simp: put_at_def nth_append intro!: nth_equalityI)

lemma key_area_fields:
  assumes "unat key_len \<le> 32" "\<not> is_wep cipher"
  shows "length (key_area p key_len cipher k) = 144"
    "take (unat key_len) (key_area p key_len cipher k) = bytes_at p 0 (unat key_len)"
    "take 8 (drop 128 (key_area p key_len cipher k)) = bytes_at p 16 8"
    "take 8 (drop 136 (key_area p key_len cipher k)) = bytes_at p 24 8"
proof -
  let ?keys = "put_at 0 (bytes_at p 0 (unat key_len)) (replicate 144 0)"
  let ?tx = "put_at 128 (bytes_at p 16 8) ?keys"
  have k: "length ?keys = 144" using assms(1) length_put_at [of 0 "bytes_at p 0 (unat key_len)" "replicate 144 0"] by simp
  then have x: "length ?tx = 144" using length_put_at [of 128 "bytes_at p 16 8" ?keys] by simp
  have a: "key_area p key_len cipher k = put_at 136 (bytes_at p 24 8) ?tx" using assms(2) by (simp add: key_area_def)
  show "length (key_area p key_len cipher k) = 144" using a x length_put_at [of 136 "bytes_at p 24 8" ?tx] by simp
  show "take 8 (drop 136 (key_area p key_len cipher k)) = bytes_at p 24 8"
    using put_at_reads(1) [of 136 "bytes_at p 24 8" ?tx] a x by simp
  show "take 8 (drop 128 (key_area p key_len cipher k)) = bytes_at p 16 8"
    using put_at_reads(2) [of 136 "bytes_at p 24 8" ?tx 128 8] put_at_reads(1) [of 128 "bytes_at p 16 8" ?keys] a k x by simp
  show "take (unat key_len) (key_area p key_len cipher k) = bytes_at p 0 (unat key_len)"
    using put_at_reads(2) [of 136 "bytes_at p 24 8" ?tx 0 "unat key_len"] put_at_reads(2) [of 128 "bytes_at p 16 8" ?keys 0 "unat key_len"]
      put_at_reads(1) [of 0 "bytes_at p 0 (unat key_len)" "replicate 144 0"] a k x assms(1) by simp
qed

text \<open>
  C27. A key of at most 32 bytes for a cipher other than WEP arrives in the firmware as it was
  given: the command queued holds the key, the two halves of the MIC key and the key
  descriptor, and nothing is written beyond it. Without a key (the command that clears one)
  the command is queued too, but the driver has then cleared 144 bytes at an address 2560 bytes
  behind the buffer.
\<close>
theorem load_key_installs:
  assumes "rsi_load_key ap vap_id data key_len ty key_id cipher sta_id c = (0, c')"
    "unat key_len \<le> 32" "\<not> is_wep cipher" "\<not> overrun c"
  shows "\<exists>d. mgmt_queue c' = mgmt_queue c @ [d] \<and> length d = 160 \<and> cmd_type d = 0xA \<and>
    get_words d 4 = key_descriptor ap ty cipher key_len key_id \<and>
    (case data of None \<Rightarrow> overrun c'
     | Some p \<Rightarrow> \<not> overrun c' \<and> take (unat key_len) (drop 16 d) = bytes_at p 0 (unat key_len) \<and>
                take 8 (drop 144 d) = bytes_at p 16 8 \<and> drop 152 d = bytes_at p 24 8)"
proof -
  let ?words = "[len_queue 144 RSI_WIFI_MGMT_Q, SET_KEY_REQ, 0, 0, key_descriptor ap ty cipher key_len key_id, 0, 0,
      of_int sta_id OR push_bit 8 (ucast vap_id)] :: u16 list"
  have d: "length (internal_mgmt_bytes (put_words ?words @ area)) = 160 \<and> cmd_type (internal_mgmt_bytes (put_words ?words @ area)) = 0xA \<and>
      get_words (internal_mgmt_bytes (put_words ?words @ area)) 4 = key_descriptor ap ty cipher key_len key_id \<and>
      drop 16 (internal_mgmt_bytes (put_words ?words @ area)) = area"
    if "length area = 144" for area
    using that by (simp add: cmd_type_def put_words_nth_type get_put_words)
  let ?c1 = "c\<lparr>mgmt_allocs := Suc (mgmt_allocs c)\<rparr>"
  have r: "(case data of None \<Rightarrow> queue_internal (put_words ?words @ replicate 144 0) (?c1\<lparr>overrun := True\<rparr>)
         | Some p \<Rightarrow> let area = key_area p key_len cipher (key_index ty cipher key_id)
                    in queue_internal (put_words ?words @ take 144 area) (if length area > 144 then ?c1\<lparr>overrun := True\<rparr> else ?c1)) = (0, c')"
    using assms(1) by (auto simp: rsi_load_key_def alloc_skb_def Let_def split: if_splits)
  show ?thesis
  proof (cases data)
    case None
    have "mgmt_queue c' = mgmt_queue c @ [internal_mgmt_bytes (put_words ?words @ replicate 144 0)]" "overrun c'"
      using r None d [of "replicate 144 0"] by (auto simp: queue_internal_def cmd_type_def Let_def)
    then show ?thesis using None d [of "replicate 144 0"] by simp
  next
    case (Some p)
    let ?area = "key_area p key_len cipher (key_index ty cipher key_id)"
    note f = key_area_fields [OF assms(2,3), of p "key_index ty cipher key_id"]
    have tail: "drop 144 x = drop 128 (drop 16 x)" "drop 152 x = drop 136 (drop 16 x)" for x :: "u8 list"
      by simp_all
    have "mgmt_queue c' = mgmt_queue c @ [internal_mgmt_bytes (put_words ?words @ ?area)]" "\<not> overrun c'"
      using r Some assms(4) f(1) d [of ?area] by (auto simp: queue_internal_def cmd_type_def Let_def)
    moreover have "drop 144 (internal_mgmt_bytes (put_words ?words @ ?area)) = drop 128 ?area"
        "drop 152 (internal_mgmt_bytes (put_words ?words @ ?area)) = drop 136 ?area"
      unfolding tail using d [OF f(1)] by simp_all
    moreover have "drop 136 ?area = bytes_at p 24 8" using f(1,4) by simp
    ultimately show ?thesis using Some d [OF f(1)] f by simp
  qed
qed

lemma load_key_installs_witness:
  "\<exists>d. mgmt_queue (snd (rsi_load_key False 0 (Some (\<lambda>i. of_nat i)) 16 RSI_PAIRWISE_KEY 0 0x000FAC04 0 (example_mgmt 1))) = [d] \<and>
       take 16 (drop 16 d) = map of_nat [0..<16]"
proof -
  obtain st c' where r: "rsi_load_key False 0 (Some (\<lambda>i. of_nat i)) 16 RSI_PAIRWISE_KEY 0 0x000FAC04 0 (example_mgmt 1) = (st, c')"
    by fastforce
  moreover have "st = 0"
    using r by (auto simp: rsi_load_key_def alloc_skb_def queue_internal_def example_mgmt_def Let_def)
  ultimately show ?thesis
    using load_key_installs [of False 0 "Some (\<lambda>i. of_nat i)" 16 RSI_PAIRWISE_KEY 0 "0x000FAC04" 0 "example_mgmt 1" c']
    by (auto simp: is_wep_def example_mgmt_def bytes_at_def)
qed

end
