(* ===== verification/Fsm.thy ===== *)
theory Fsm
  imports Mgmt_Frames
begin

text \<open>
  The state machine that brings the device up (rsi/rsi_91x_mgmt.c): the card-ready indications
  and the confirmations of the device drive \<open>fsm_state\<close> from \<open>FSM_CARD_NOT_READY\<close> to
  \<open>FSM_MAC_INIT_DONE\<close>, one command frame per step.

  A received message is a \<open>ptr\<close>, so that bytes behind its end read as anything. What the
  handlers do in other parts of the driver and in mac80211 is a record \<open>fsm_ops\<close> of operations on a
  state \<open>'w\<close> of those parts. A result None means that a handler does not return.
\<close>

section \<open>State\<close>

record efuse_map_s =
  efuse_map_version :: u16
  module_version :: u16
  module_part_no :: u16
  mfg_sw_version :: u16
  module_type :: u16
  chip_version :: u16
  m4sb_cert_en :: u16
  mfg_sw_subversion :: u16
  chip_id_no :: u32
  sdb_mode :: u16

record per_params =
  per_enable :: bool
  aggr_enable :: bool
  aggr_count :: u16

record bgscan_flags =
  hwscan_en :: bool
  send_initial_bgscan_chan :: bool
  num_user_channels :: u8
  debugfs_bgscan :: bool
  debugfs_bgscan_en :: bool
  debugfs_stop_bgscan :: bool
  bgscan_enabled :: bool            \<comment> \<open>\<open>bgscan_en\<close>\<close>
  bgscan_in_prog :: bool
  hw_scan_cancel :: bool
  cancel_hw_scan_events :: nat

text \<open>The survey of automatic channel selection: per channel the busy time and the noise.\<close>

record survey_state =
  vif0 :: "iftype option"
  auto_chan_sel :: bool
  survey_idx :: nat
  n_channels :: nat
  rsi_survey :: "(u16 \<times> int) list"

record 'w fsm_common =
  cmd :: mgmt_common
  world :: 'w
  common_hal_tx_access :: bool
  acx_module :: bool
  usb_buffer_status_reg :: u32
  efuse_map :: efuse_map_s
  random_bytes :: "u8 list"
  reinit_hw :: bool
  data_qs_blocked :: bool
  queues_woken :: nat
  wlan_init_completions :: nat
  per :: per_params
  no_of_per_fragments :: u16
  tx_running :: u8
  survey :: survey_state
  chan_set_events :: nat
  mgmt_cfm_events :: nat
  bg :: bgscan_flags
  bb_data :: "u8 list"
  bb_values :: u16
  sta_stats :: "u8 list"
  rx_rssi :: "u8 list"
  fsm_overrun :: bool
  start_bgscan :: bool
  eapol4_confirm :: bool
  probe_cfm_events :: nat
  init_done :: bool
  acx_stop_beacon :: bool
  null_deref :: bool                \<comment> \<open>ghost: \<open>vif\<close> was dereferenced although it is NULL\<close>

record 'w fsm_ops =
  mac80211_attach :: "'w \<Rightarrow> int \<times> 'w"
  bb_prog_data_to_app :: "'w \<Rightarrow> int \<times> 'w"
  start_per_burst :: "'w \<Rightarrow> 'w"
  handle_ps_confirm :: "ptr \<Rightarrow> 'w \<Rightarrow> int \<times> 'w"
  send_bgscan_params :: "bool \<Rightarrow> bgscan_flags \<times> 'w \<Rightarrow> bgscan_flags \<times> 'w"
  send_bgscan_probe_req :: "'w \<Rightarrow> 'w"
  scan_completed :: "'w \<Rightarrow> 'w"
  init_bgscan :: "'w \<Rightarrow> 'w"
  process_rx_stats :: "'w \<Rightarrow> 'w"
  rssi_to_app :: "'w \<Rightarrow> 'w"
  diag_response_to_app :: "u8 \<Rightarrow> 'w \<Rightarrow> 'w"
  indicate_null_frame :: "nat \<Rightarrow> int \<Rightarrow> 'w \<Rightarrow> 'w"
  user_ps_enabled :: "'w \<Rightarrow> bool"
  enable_ps :: "'w \<Rightarrow> 'w"
  ulp_sleep_notify :: "ptr \<Rightarrow> 'w \<Rightarrow> 'w"
  connection_loss :: "'w \<Rightarrow> 'w"
  indicate_bcnmiss :: "mgmt_common \<Rightarrow> 'w \<Rightarrow> 'w"
  resume_conn_channel :: "'w \<Rightarrow> 'w"
  send_beacon_frame :: "'w \<Rightarrow> 'w"
  mgmt_pkt_to_core :: "mgmt_common \<Rightarrow> ptr \<Rightarrow> nat \<Rightarrow> 'w \<Rightarrow> (int \<times> 'w) option"
  pause_wifi :: "'w \<Rightarrow> 'w"
  resume_wifi :: "'w \<Rightarrow> 'w"
  disable_ps_from_device :: "'w \<Rightarrow> 'w"
  real_time_stats_to_app :: "u8 list \<Rightarrow> 'w \<Rightarrow> 'w"

definition set_fsm :: "fsm_state \<Rightarrow> 'w fsm_common \<Rightarrow> 'w fsm_common" where
  [rsi_defs]: "set_fsm s c = c\<lparr>cmd := (cmd c)\<lparr>fsm_state := s\<rparr>\<rparr>"

abbreviation (input) state :: "'w fsm_common \<Rightarrow> fsm_state" where "state c \<equiv> fsm_state (cmd c)"

definition in_world :: "('w \<Rightarrow> 'w) \<Rightarrow> 'w fsm_common \<Rightarrow> 'w fsm_common" where
  [rsi_defs]: "in_world f c = c\<lparr>world := f (world c)\<rparr>"

definition bgscan_params :: "'w fsm_ops \<Rightarrow> bool \<Rightarrow> 'w fsm_common \<Rightarrow> 'w fsm_common" where
  [rsi_defs]: "bgscan_params ops enable c = (let (b, w) = send_bgscan_params ops enable (bg c, world c) in c\<lparr>bg := b, world := w\<rparr>)"

text \<open>A command of \<open>Mgmt_Frames\<close> sent from a handler.\<close>

definition command :: "(mgmt_common \<Rightarrow> int \<times> mgmt_common) \<Rightarrow> 'w fsm_common \<Rightarrow> int \<times> 'w fsm_common" where
  [rsi_defs]: "command f c = (let (status, m) = f (cmd c) in (status, c\<lparr>cmd := m\<rparr>))"

text \<open>The usual step: send the command; the next state when it was queued, else \<open>fail\<close>.\<close>

definition advance :: "(mgmt_common \<Rightarrow> int \<times> mgmt_common) \<Rightarrow> fsm_state \<Rightarrow> fsm_state option \<Rightarrow> int \<Rightarrow> 'w fsm_common \<Rightarrow> int \<times> 'w fsm_common" where
  "advance f next_state fail err c =
     (let (status, c1) = command f c
      in if status = 0 then (0, set_fsm next_state c1)
         else (err, case fail of None \<Rightarrow> c1 | Some s \<Rightarrow> set_fsm s c1))"

abbreviation (input) MAGIC_WORD :: u8 where "MAGIC_WORD \<equiv> 0x5A"

definition msg_len :: "ptr \<Rightarrow> nat" where
  "msg_len msg = unat (get_le16 msg 0 AND 0xfff)"

section \<open>Card ready\<close>

text \<open>\<open>rsi_set_default_parameters\<close>, for the settings the model keeps.\<close>

definition rsi_set_default_parameters :: "mgmt_common \<Rightarrow> mgmt_common" where
  "rsi_set_default_parameters m =
     m\<lparr>band_5ghz := False, channel_width := BW_20MHZ, rts_threshold := 2353, channel := 1, min_rate := 0xffff,
       fsm_state := FSM_CARD_NOT_READY, iface_down := True, endpoint := 0, ta_aggr := 3, wlan_rf_power_mode := 0,
       tx_power := 20, dtim_cnt := 2, beacon_interval := 100,
       features := (features m)\<lparr>pll_mode := 0, rf_type := 1, wireless_mode := 0, enable_ppe := 0, afe_type := 1, dpd := 0,
                                sifs_tx_enable := 0\<rparr>,
       hw_bmiss_threshold := 20, keep_alive_period := 90, txop_dur_rts_threshold := 1023\<rparr>"

definition mac_given :: "ptr \<Rightarrow> bool" where
  "mac_given msg \<longleftrightarrow> \<not> (msg 16 \<noteq> MAGIC_WORD \<or> msg 21 = 0)"

definition card_mac :: "'w fsm_common \<Rightarrow> ptr \<Rightarrow> u8 list" where
  "card_mac c msg =
     (if mac_given msg then bytes_at msg 20 6 else [0x00, 0x23, 0xa7] @ take 3 (random_bytes c))"

definition card_efuse :: "ptr \<Rightarrow> efuse_map_s \<Rightarrow> efuse_map_s" where
  "card_efuse msg e =
     (if msg 16 = MAGIC_WORD \<and> bit (msg 7) 0
      then \<lparr>efuse_map_version = ucast (msg 28), module_version = ucast (msg 30), module_part_no = get_le16 msg 31,
            mfg_sw_version = ucast (msg 34), module_type = ucast (msg 35), chip_version = ucast (msg 36),
            m4sb_cert_en = ucast (msg 37 AND BIT 3), mfg_sw_subversion = ucast (msg 39), chip_id_no = get_le32 msg 40,
            sdb_mode = get_le16 msg 44\<rparr>
      else e)"

text \<open>The first indication, from the common part of the firmware.\<close>

definition common_card_settings :: "'w fsm_common \<Rightarrow> ptr \<Rightarrow> 'w fsm_common" where
  "common_card_settings c msg =
     (let m = (if bit (msg 15) 2 then (cmd c)\<lparr>settings := (settings (cmd c))\<lparr>is_915 := True\<rparr>\<rparr> else cmd c)
      in c\<lparr>acx_module := (acx_module c \<or> bit (msg 15) 0), common_hal_tx_access := True, cmd := rsi_set_default_parameters m\<rparr>)"

definition common_card_ready :: "'w fsm_common \<Rightarrow> ptr \<Rightarrow> int \<times> 'w fsm_common" where
  "common_card_ready c msg =
     (if bit (msg 15) 0 \<and> bit (msg 15) 1 then (- EINVAL, c\<lparr>acx_module := True, common_hal_tx_access := True\<rparr>)
      else advance rsi_send_common_dev_params FSM_COMMON_DEV_PARAMS_SENT None (- EINVAL) (common_card_settings c msg))"

text \<open>
  The second one, from the WLAN part, with the MAC address. An address refused leaves the state
  unchanged, but is kept.
\<close>

definition mac_refused :: "'w fsm_common \<Rightarrow> ptr \<Rightarrow> bool" where
  "mac_refused c msg \<longleftrightarrow>
     DEV_MODEL_9116 (device_model (cmd c)) \<and> mac_given msg \<and>
     msg 23 = 0xff \<and> msg 24 = 0xff \<and> msg 25 > 0xfc"

definition wlan_card_settings :: "'w fsm_common \<Rightarrow> ptr \<Rightarrow> 'w fsm_common" where
  "wlan_card_settings c msg =
     (let c1 = (if DEV_MODEL_9116 (device_model (cmd c))
                then c\<lparr>cmd := (cmd c)\<lparr>mac_addr := card_mac c msg, band_5ghz := (\<not> mac_given msg \<or> msg 27 = 0x03)\<rparr>,
                       efuse_map := card_efuse msg (efuse_map c)\<rparr>
                else c)
      in c1\<lparr>usb_buffer_status_reg := get_le32 msg 8\<rparr>)"

definition wlan_card_ready :: "'w fsm_common \<Rightarrow> ptr \<Rightarrow> int \<times> 'w fsm_common" where
  "wlan_card_ready c msg =
     (if mac_refused c msg then (- EINVAL, c\<lparr>cmd := (cmd c)\<lparr>mac_addr := card_mac c msg\<rparr>\<rparr>)
      else advance rsi_load_bootup_params FSM_BOOT_PARAMS_SENT (Some FSM_CARD_NOT_READY) (- EINVAL) (wlan_card_settings c msg))"

definition rsi_handle_card_ready :: "'w fsm_common \<Rightarrow> ptr \<Rightarrow> int \<times> 'w fsm_common" where
  "rsi_handle_card_ready c msg =
     (case state c of
        FSM_CARD_NOT_READY \<Rightarrow> common_card_ready c msg
      | FSM_COMMON_DEV_PARAMS_SENT \<Rightarrow> wlan_card_ready c msg
      | _ \<Rightarrow> (- EINVAL, c))"

section \<open>The confirmations of the bring-up\<close>

definition on_common_dev_config :: "'w fsm_common \<Rightarrow> int \<times> 'w fsm_common" where
  "on_common_dev_config c =
     (if state c = FSM_COMMON_DEV_PARAMS_SENT
      then advance rsi_load_bootup_params FSM_BOOT_PARAMS_SENT (Some FSM_CARD_NOT_READY) (- EINVAL) c
      else (0, c))"

definition set_eeprom :: "u32 \<Rightarrow> u32 \<Rightarrow> 'w fsm_common \<Rightarrow> 'w fsm_common" where
  [rsi_defs]: "set_eeprom len off c = c\<lparr>cmd := (cmd c)\<lparr>eeprom_length := len, eeprom_offset := off\<rparr>\<rparr>"

definition on_bootup_params :: "'w fsm_common \<Rightarrow> int \<times> 'w fsm_common" where
  "on_bootup_params c =
     (if state c \<noteq> FSM_BOOT_PARAMS_SENT then (0, c)
      else if DEV_MODEL_9116 (device_model (cmd c))
      then advance rsi_send_reset_mac FSM_RESET_MAC_SENT None (- EINVAL)
             (c\<lparr>cmd := (cmd c)\<lparr>num_supp_bands := (if band_5ghz (cmd c) then 2 else 1)\<rparr>\<rparr>)
      else advance rsi_eeprom_read FSM_EEPROM_READ_MAC_ADDR (Some FSM_CARD_NOT_READY) (- EINVAL) (set_eeprom 11 40 c))"

definition on_eeprom_read :: "'w fsm_common \<Rightarrow> ptr \<Rightarrow> int \<times> 'w fsm_common" where
  "on_eeprom_read c msg =
     (if state c = FSM_EEPROM_READ_MAC_ADDR
      then (if msg_len msg = 0 then (- EINVAL, c)
            else if msg 16 = MAGIC_WORD
            then advance rsi_eeprom_read FSM_EEPROM_READ_RF_TYPE (Some FSM_CARD_NOT_READY) 0
                   (set_eeprom 4 424 (c\<lparr>cmd := (cmd c)\<lparr>mac_addr := bytes_at msg 21 6\<rparr>\<rparr>))
            else (0, set_fsm FSM_CARD_NOT_READY c))
      else if state c = FSM_EEPROM_READ_RF_TYPE
      then (if msg_len msg = 0 then (- EINVAL, c)
            else if msg 16 = MAGIC_WORD
            then advance rsi_send_reset_mac FSM_RESET_MAC_SENT None (- EINVAL)
                   (if msg 17 AND 0x3 = 0x3 then c\<lparr>cmd := (cmd c)\<lparr>band_5ghz := True, num_supp_bands := 2\<rparr>\<rparr>
                    else if msg 17 AND 0x3 = 0x1 then c\<lparr>cmd := (cmd c)\<lparr>band_5ghz := False, num_supp_bands := 1\<rparr>\<rparr>
                    else c)
            else (0, set_fsm FSM_CARD_NOT_READY c))
      else (0, c))"

definition on_reset_mac :: "'w fsm_common \<Rightarrow> int \<times> 'w fsm_common" where
  "on_reset_mac c =
     (if state c = FSM_RESET_MAC_SENT then advance rsi_load_radio_caps FSM_RADIO_CAPS_SENT None (- EINVAL) c else (0, c))"

definition on_radio_caps :: "'w fsm_common \<Rightarrow> int \<times> 'w fsm_common" where
  "on_radio_caps c =
     (if state c \<noteq> FSM_RADIO_CAPS_SENT then (0, c)
      else
        let c1 = c\<lparr>cmd := (cmd c)\<lparr>rf_reset := True\<rparr>\<rparr>;
            (status, c2) = (if DEV_MODEL_9116 (device_model (cmd c1)) then command rsi_send_w9116_features c1 else (0, c1))
        in if status \<noteq> 0 then (- EINVAL, c2)
           else advance rsi_program_bb_rf FSM_BB_RF_PROG_SENT None (- EINVAL) c2)"

definition on_bb_rf_prog :: "'w fsm_ops \<Rightarrow> 'w fsm_common \<Rightarrow> int \<times> 'w fsm_common" where
  "on_bb_rf_prog ops c =
     (if state c \<noteq> FSM_BB_RF_PROG_SENT then (0, c)
      else
        let count = bb_rf_prog_count (cmd c) - 1;
            c1 = c\<lparr>cmd := (cmd c)\<lparr>bb_rf_prog_count := count\<rparr>\<rparr>
        in if count \<noteq> 0 then (0, c1)
           else
             let c2 = set_fsm FSM_MAC_INIT_DONE c1
             in if reinit_hw c2
                then (0, c2\<lparr>data_qs_blocked := False, queues_woken := Suc (queues_woken c2),
                            wlan_init_completions := Suc (wlan_init_completions c2), reinit_hw := False\<rparr>)
                else if driver_mode (cmd c2) \<noteq> RF_EVAL_MODE_ON
                then (let (status, w) = mac80211_attach ops (world c2) in (status, c2\<lparr>world := w\<rparr>))
                else (0, c2))"

section \<open>Other confirmations\<close>

text \<open>
  The data of a register read, copied over the 2048 bytes of \<open>bb_rf_read.Data\<close>, and the
  statistics, copied over the 180 bytes of \<open>sta_info\<close>; the length is the one in the message.
\<close>

definition copy_over :: "nat \<Rightarrow> u8 list \<Rightarrow> u8 list \<Rightarrow> u8 list" where
  "copy_over capacity bytes buf = take capacity (bytes @ drop (length bytes) buf)"

definition on_bb_data :: "'w fsm_ops \<Rightarrow> 'w fsm_common \<Rightarrow> ptr \<Rightarrow> int \<times> 'w fsm_common" where
  "on_bb_data ops c msg =
     (let len = msg_len msg
      in if len = 0 then (0, c)
         else
           let (status, w) = bb_prog_data_to_app ops (world c);
               c1 = c\<lparr>bb_data := copy_over 2048 (bytes_at msg 16 len) (bb_data c), bb_values := of_nat (len div 2), world := w,
                      fsm_overrun := (fsm_overrun c \<or> 2048 < len)\<rparr>
           in (if status < 0 then - 1 else 0, c1))"

definition on_stats :: "'w fsm_ops \<Rightarrow> 'w fsm_common \<Rightarrow> ptr \<Rightarrow> int \<times> 'w fsm_common" where
  "on_stats ops c msg =
     (0, c\<lparr>sta_stats := copy_over 180 (bytes_at msg 16 (msg_len msg)) (sta_stats c), world := process_rx_stats ops (world c),
           fsm_overrun := (fsm_overrun c \<or> 180 < msg_len msg)\<rparr>)"

text \<open>
  The loop over the fragments of a burst (\<open>no_of_fragments\<close>, an \<open>int\<close> that only counts down when
  the test is enabled). None: it does not return.
\<close>

partial_function (option) per_burst_loop :: "bool \<Rightarrow> bool \<Rightarrow> ('w \<Rightarrow> 'w) \<Rightarrow> u32 \<Rightarrow> 'w \<Rightarrow> 'w option" where
  "per_burst_loop enable aggr burst n w =
     (let w1 = (if enable then burst w else w); n1 = (if enable then n - 1 else n)
      in if n1 \<noteq> 0 \<and> aggr then per_burst_loop enable aggr burst n1 w1 else Some w1)"

abbreviation (input) BURST_RUNNING :: u8 where "BURST_RUNNING \<equiv> 2"

definition on_ampdu_ind :: "'w fsm_ops \<Rightarrow> 'w fsm_common \<Rightarrow> (int \<times> 'w fsm_common) option" where
  "on_ampdu_ind ops c =
     (if driver_mode (cmd c) \<noteq> RF_EVAL_MODE_ON then Some (0, c)
      else case per_burst_loop (per_enable (per c)) (aggr_enable (per c)) (start_per_burst ops) (ucast (aggr_count (per c))) (world c) of
             None \<Rightarrow> None
           | Some w \<Rightarrow> Some (0, (set_fsm FSM_MAC_INIT_DONE c)\<lparr>world := w, no_of_per_fragments := aggr_count (per c),
                                                            tx_running := BURST_RUNNING\<rparr>))"

text \<open>The end of a scan: a survey entry for automatic channel selection, and \<open>chan_set_event\<close>.\<close>

definition survey_entry :: "ptr \<Rightarrow> survey_state \<Rightarrow> survey_state" where
  "survey_entry msg s =
     (if vif0 s = Some NL80211_IFTYPE_AP \<and> auto_chan_sel s \<and> survey_idx s < n_channels s \<and> survey_idx s < 39
      then s\<lparr>rsi_survey := (rsi_survey s)[survey_idx s := (get_le16 msg 16, - int (unat (msg 18)))], survey_idx := Suc (survey_idx s)\<rparr>
      else s)"

definition on_scan_request :: "'w fsm_common \<Rightarrow> ptr \<Rightarrow> int \<times> 'w fsm_common" where
  "on_scan_request c msg = (0, c\<lparr>survey := survey_entry msg (survey c), chan_set_events := Suc (chan_set_events c)\<rparr>)"

text \<open>The end of a background scan.\<close>

definition set_bgscan_en :: "bool \<Rightarrow> 'w fsm_common \<Rightarrow> 'w fsm_common" where
  [rsi_defs]: "set_bgscan_en b c = c\<lparr>bg := (bg c)\<lparr>bgscan_enabled := b\<rparr>\<rparr>"

definition debugfs_bgscan_done :: "'w fsm_ops \<Rightarrow> 'w fsm_common \<Rightarrow> 'w fsm_common" where
  "debugfs_bgscan_done ops c =
     (if \<not> debugfs_bgscan_en (bg c) then c
      else
        let c1 = (if debugfs_stop_bgscan (bg c)
                  then let c0 = set_bgscan_en False (bgscan_params ops False c)
                       in in_world (init_bgscan ops) (c0\<lparr>bg := (bg c0)\<lparr>debugfs_stop_bgscan := False, debugfs_bgscan := False\<rparr>\<rparr>)
                  else set_bgscan_en True (bgscan_params ops True c))
        in c1\<lparr>bg := (bg c1)\<lparr>debugfs_bgscan_en := False\<rparr>\<rparr>)"

definition on_bgscan_probe :: "'w fsm_ops \<Rightarrow> 'w fsm_common \<Rightarrow> int \<times> 'w fsm_common" where
  "on_bgscan_probe ops c =
     (let c1 =
        (if \<not> hwscan_en (bg c) then c
         else if send_initial_bgscan_chan (bg c)
         then set_bgscan_en True (in_world (send_bgscan_probe_req ops) (bgscan_params ops True c))
         else
           let many = (num_user_channels (bg c) > 24 \<and> \<not> debugfs_bgscan (bg c));
               c1 = (if many then set_bgscan_en False (bgscan_params ops False c) else c);
               c2 = in_world (scan_completed ops) c1;
               c3 = debugfs_bgscan_done ops (c2\<lparr>bg := (bg c2)\<lparr>bgscan_in_prog := False\<rparr>\<rparr>)
           in c3\<lparr>bg := (bg c3)\<lparr>hwscan_en := False\<rparr>\<rparr>)
      in (0, if hw_scan_cancel (bg c1)
             then c1\<lparr>bg := (bg c1)\<lparr>cancel_hw_scan_events := Suc (cancel_hw_scan_events (bg c1))\<rparr>\<rparr> else c1))"

section \<open>The dispatcher\<close>

definition rsi_handle_ta_confirm :: "'w fsm_ops \<Rightarrow> 'w fsm_common \<Rightarrow> ptr \<Rightarrow> (int \<times> 'w fsm_common) option" where
  "rsi_handle_ta_confirm ops c msg =
     (let sub_type = msg 15
      in if sub_type = 0x28 then Some (on_common_dev_config c)
         else if sub_type = 0xC then Some (on_bootup_params c)
         else if sub_type = 0xE then Some (on_eeprom_read c msg)
         else if sub_type = 0x1 then Some (on_reset_mac c)
         else if sub_type = 0x2 then Some (on_radio_caps c)
         else if sub_type \<in> {0x14, 0x1F, 0x3} then Some (on_bb_data ops c msg)
         else if sub_type \<in> {0x4, 0x15} then Some (on_bb_rf_prog ops c)
         else if sub_type = 0x12 then on_ampdu_ind ops c
         else if sub_type = 0x6 then Some (on_scan_request c msg)
         else if sub_type = 0x5
         then (let (status, w) = handle_ps_confirm ops msg (world c)
               in Some (status, c\<lparr>world := w, mgmt_cfm_events := Suc (mgmt_cfm_events c)\<rparr>))
         else if sub_type = 0x17 then Some (on_bgscan_probe ops c)
         else if sub_type = 0x13 then Some (on_stats ops c msg)
         else if sub_type = 0x4C then Some (0, (in_world (rssi_to_app ops) c)\<lparr>rx_rssi := bytes_at msg 16 2\<rparr>)
         else if sub_type = 0x2F then Some (0, in_world (diag_response_to_app ops (msg 17)) c)
         else Some (0, c))"

section \<open>Received management packets\<close>

text \<open>The status of a transmission: confirmations of probe requests, of the last EAPOL frame and of null frames.\<close>

definition on_eapol4 :: "'w fsm_ops \<Rightarrow> 'w fsm_common \<Rightarrow> ptr \<Rightarrow> 'w fsm_common" where
  "on_eapol4 ops c msg =
     (if msg 12 = 0 then c
      else case vif0 (survey c) of
        None \<Rightarrow> c\<lparr>null_deref := True\<rparr>
      | Some ty \<Rightarrow>
        if ty \<noteq> NL80211_IFTYPE_STATION then c
        else
          let (status, c1) = command (rsi_send_block_unblock_frame False) (c\<lparr>start_bgscan := True, eapol4_confirm := True\<rparr>);
              c2 = (if status = 0 then c1\<lparr>data_qs_blocked := False\<rparr> else c1)
          in if user_ps_enabled ops (world c2) then in_world (enable_ps ops) c2 else c2)"

definition on_null_confirm :: "'w fsm_ops \<Rightarrow> 'w fsm_common \<Rightarrow> ptr \<Rightarrow> 'w fsm_common" where
  "on_null_confirm ops c msg =
     (case vif0 (survey c) of
        None \<Rightarrow> c\<lparr>null_deref := True\<rparr>
      | Some ty \<Rightarrow>
        let i = (if ty = NL80211_IFTYPE_STATION then 32 else unat (msg 13))
        in in_world (indicate_null_frame ops i (if msg 12 \<noteq> 0 then 0 else 1)) (if 32 < i then c\<lparr>fsm_overrun := True\<rparr> else c))"

definition on_tx_status :: "'w fsm_ops \<Rightarrow> 'w fsm_common \<Rightarrow> ptr \<Rightarrow> 'w fsm_common" where
  "on_tx_status ops c msg =
     (if msg 15 = 2 then c\<lparr>probe_cfm_events := Suc (probe_cfm_events c)\<rparr>
      else if msg 15 = 1 then on_eapol4 ops c msg
      else if msg 15 = 3 then on_null_confirm ops c msg
      else c)"

definition on_beacon_event :: "'w fsm_ops \<Rightarrow> 'w fsm_common \<Rightarrow> int \<times> 'w fsm_common" where
  "on_beacon_event ops c =
     (if \<not> init_done c \<or> iface_down (cmd c) \<or> \<not> beacon_enabled (cmd c) then (- 1, c)
      else if acx_stop_beacon c then (- EINVAL, c)
      else (0, in_world (send_beacon_frame ops) c))"

text \<open>
  The records of a statistics message: 42 bytes for transmission, 24 for reception, each
  announced by the low nibble of its first byte.
\<close>

function real_time_stats :: "'w fsm_ops \<Rightarrow> ptr \<Rightarrow> nat \<Rightarrow> u8 \<Rightarrow> nat \<Rightarrow> 'w \<Rightarrow> 'w" where
  "real_time_stats ops msg len stat_type next_stat w =
     (if next_stat < len \<and> stat_type \<in> {1, 2}
      then let n = (if stat_type = 1 then 42 else 24 :: nat)
           in real_time_stats ops msg len (msg (next_stat + n) AND 0xf) (next_stat + n)
                (real_time_stats_to_app ops (bytes_at msg next_stat n) w)
      else w)"
  by auto
termination
  by (relation "measure (\<lambda>(ops, msg, len, stat_type, next_stat, w). len - next_stat)") auto

definition rsi_mgmt_pkt_recv :: "'w fsm_ops \<Rightarrow> 'w fsm_common \<Rightarrow> ptr \<Rightarrow> (int \<times> 'w fsm_common) option" where
  "rsi_mgmt_pkt_recv ops c msg =
     (let ty = msg 2; len = msg_len msg
      in if ty = 0x01 then rsi_handle_ta_confirm ops c msg
         else if ty = 0x00 then Some (rsi_handle_card_ready c msg)
         else if ty = 0x04 then Some (0, on_tx_status ops c msg)
         else if ty = 0x06 then Some (0, in_world (ulp_sleep_notify ops msg) c)
         else if ty = 0x0C
         then Some (0, if bit (msg 15) 0 then in_world (connection_loss ops) c
                       else in_world (\<lambda>w. resume_conn_channel ops (indicate_bcnmiss ops (cmd c) w)) c)
         else if ty = 0x08 then Some (on_beacon_event ops c)
         else if ty = 0x02 then map_option (\<lambda>(status, w). (status, c\<lparr>world := w\<rparr>)) (mgmt_pkt_to_core ops (cmd c) msg len (world c))
         else if ty = 0x1C then Some (if msg 15 = 0x6F \<or> msg 15 = 0x71 then - 1 else 0, c)
         else if ty = 0x35
         then Some (0, in_world (if msg 15 = 1 then pause_wifi ops else if msg 15 = 2 then resume_wifi ops
                                 else disable_ps_from_device ops) c)
         else if ty = 0x2E then Some (0, in_world (real_time_stats ops msg len (msg 16 AND 0xf) 16) c)
         else Some (0, c))"

end
