(* ===== verification/Bringup.thy ===== *)
theory Bringup
  imports Fsm
begin

text \<open>
  What the state machine of theory \<open>Fsm\<close> guarantees: the state tells exactly which commands
  have been queued since the card became ready, whatever the device sends; with memory the
  bring-up reaches \<open>FSM_MAC_INIT_DONE\<close>; a confirmation nobody waits for changes nothing.
\<close>

section \<open>The commands of the bring-up\<close>

text \<open>The types of the bring-up commands queued so far, oldest first.\<close>

definition bringup_types :: "mgmt_common \<Rightarrow> u8 list" where
  "bringup_types m = filter (\<lambda>t. t \<in> {0x28, 0xC, 0xE, 0x1, 0x2, 0x33, 0x15}) (map cmd_type (mgmt_queue m))"

text \<open>Those since the last \<open>COMMON_DEV_CONFIG\<close> (0x28).\<close>

fun since_ready :: "u8 list \<Rightarrow> u8 list" where
  "since_ready [] = []"
| "since_ready (t # ts) = (if 0x28 \<in> set ts then since_ready ts else if t = 0x28 then t # ts else [])"

lemma since_ready_ready [simp]: "since_ready (ts @ [0x28]) = [0x28]"
  by (induction ts) auto

lemma since_ready_nonempty: "since_ready ts \<noteq> [] \<longleftrightarrow> 0x28 \<in> set ts"
  by (induction ts) auto

lemma since_ready_snoc: "t \<noteq> 0x28 \<Longrightarrow> since_ready ts \<noteq> [] \<Longrightarrow> since_ready (ts @ [t]) = since_ready ts @ [t]"
  by (induction ts) (auto simp: since_ready_nonempty split: if_splits)

text \<open>
  The commands of a bring-up up to a state, in the order the device is to get them; \<open>k\<close> is the
  number of \<open>FEATURES_ENABLE\<close> commands, which the 9116 and later get before the baseband is programmed.
\<close>

definition up_to_reset :: "rsi_dev_model \<Rightarrow> u8 list" where
  [rsi_defs]: "up_to_reset model = [0x28, 0xC] @ (if DEV_MODEL_9116 model then [] else [0xE, 0xE]) @ [0x1]"

fun expected :: "rsi_dev_model \<Rightarrow> fsm_state \<Rightarrow> nat \<Rightarrow> u8 list option" where
  "expected model FSM_COMMON_DEV_PARAMS_SENT k = Some [0x28]"
| "expected model FSM_BOOT_PARAMS_SENT k = Some [0x28, 0xC]"
| "expected model FSM_EEPROM_READ_MAC_ADDR k = (if DEV_MODEL_9116 model then None else Some [0x28, 0xC, 0xE])"
| "expected model FSM_EEPROM_READ_RF_TYPE k = (if DEV_MODEL_9116 model then None else Some [0x28, 0xC, 0xE, 0xE])"
| "expected model FSM_RESET_MAC_SENT k = Some (up_to_reset model)"
| "expected model FSM_RADIO_CAPS_SENT k = Some (up_to_reset model @ [0x2] @ replicate k 0x33)"
| "expected model FSM_BB_RF_PROG_SENT k =
     (if DEV_MODEL_9116 model \<longleftrightarrow> 0 < k then Some (up_to_reset model @ [0x2] @ replicate k 0x33 @ [0x15]) else None)"
| "expected model FSM_MAC_INIT_DONE k =
     (if DEV_MODEL_9116 model \<longleftrightarrow> 0 < k then Some (up_to_reset model @ [0x2] @ replicate k 0x33 @ [0x15]) else None)"
| "expected model _ k = None"

definition bringup_inv :: "mgmt_common \<Rightarrow> bool" where
  "bringup_inv m \<longleftrightarrow>
     fsm_state m = FSM_CARD_NOT_READY \<or>
     (\<exists>k. (\<not> DEV_MODEL_9116 (device_model m) \<longrightarrow> k = 0) \<and>
          expected (device_model m) (fsm_state m) k = Some (since_ready (bringup_types m)))"

section \<open>What a command does\<close>

text \<open>The parts of the state the invariant speaks of.\<close>

definition same_bringup :: "mgmt_common \<Rightarrow> mgmt_common \<Rightarrow> bool" where
  [rsi_defs]: "same_bringup m m' \<longleftrightarrow>
     fsm_state m' = fsm_state m \<and> device_model m' = device_model m \<and> driver_mode m' = driver_mode m \<and>
     bringup_types m' = bringup_types m"

lemma same_bringup_inv: "same_bringup m m' \<Longrightarrow> bringup_inv m \<Longrightarrow> bringup_inv m'"
  by (simp add: same_bringup_def bringup_inv_def)

text \<open>\<open>f\<close> queues one command of type \<open>t\<close> or fails and queues nothing.\<close>

definition sends :: "u8 \<Rightarrow> (mgmt_common \<Rightarrow> int \<times> mgmt_common) \<Rightarrow> bool" where
  "sends t f \<longleftrightarrow>
     (\<forall>m st m'. f m = (st, m') \<longrightarrow>
        fsm_state m' = fsm_state m \<and> device_model m' = device_model m \<and> driver_mode m' = driver_mode m \<and>
        bringup_types m' = (if st = 0 then bringup_types m @ [t] else bringup_types m))"

lemma send_command_sends:
  assumes "\<And>m. f m = send_command m (effect m) (frame m)" "\<And>m. frame m ! 2 = t" "t \<in> {0x28, 0xC, 0xE, 0x1, 0x2, 0x33, 0x15}"
    "\<And>m n. fsm_state (effect m n) = fsm_state n \<and> device_model (effect m n) = device_model n \<and>
          driver_mode (effect m n) = driver_mode n \<and> mgmt_queue (effect m n) = mgmt_queue n"
  shows "sends t f"
  using assms(2-4) unfolding sends_def assms(1)
  by (auto simp: send_command_def alloc_skb_def queue_internal_def bringup_types_def cmd_type_def Let_def)

lemma bringup_commands:
  "sends 0x28 rsi_send_common_dev_params" "sends 0xC rsi_load_bootup_params" "sends 0xE rsi_eeprom_read"
  "sends 0x1 rsi_send_reset_mac" "sends 0x2 rsi_load_radio_caps" "sends 0x33 rsi_send_w9116_features"
  "sends 0x15 rsi_program_bb_rf"
  by (rule send_command_sends,
      simp only: rsi_send_common_dev_params_def rsi_load_bootup_params_def rsi_eeprom_read_def rsi_send_reset_mac_def
        rsi_load_radio_caps_def rsi_send_w9116_features_def rsi_program_bb_rf_def,
      simp_all add: put_words_nth_type desc_frame_type bootup_frame_def eeprom_frame_def common_dev_frame_def features_frame_def
        radio_frame_def)+

lemma command_sends:
  assumes "sends t f" "command f c = (st, c')"
  shows "\<exists>m. f (cmd c) = (st, m) \<and> c' = c\<lparr>cmd := m\<rparr>" "fsm_state (cmd c') = fsm_state (cmd c)"
    "device_model (cmd c') = device_model (cmd c)" "driver_mode (cmd c') = driver_mode (cmd c)"
    "bringup_types (cmd c') = (if st = 0 then bringup_types (cmd c) @ [t] else bringup_types (cmd c))"
  using assms by (auto simp: command_def sends_def split: prod.splits)

lemma set_fsm_simps [simp]: "cmd (set_fsm s c) = (cmd c)\<lparr>fsm_state := s\<rparr>" "bringup_types (m\<lparr>fsm_state := s\<rparr>) = bringup_types m"
  by (simp_all add: set_fsm_def bringup_types_def)

text \<open>A step of the state machine: one command more and the next state, or the state of the failure.\<close>

lemma advance_cases:
  assumes "advance f s fail err c = (st, c')" "sends t f"
  obtains (sent) "bringup_types (cmd c') = bringup_types (cmd c) @ [t]" "state c' = s" "st = 0"
      "device_model (cmd c') = device_model (cmd c)" "driver_mode (cmd c') = driver_mode (cmd c)"
  | (failed) "bringup_types (cmd c') = bringup_types (cmd c)" "state c' = (case fail of None \<Rightarrow> state c | Some s \<Rightarrow> s)" "st = err"
      "device_model (cmd c') = device_model (cmd c)" "driver_mode (cmd c') = driver_mode (cmd c)"
proof -
  obtain st1 c1 where r: "command f c = (st1, c1)" by fastforce
  note k = command_sends [OF assms(2) r]
  show ?thesis
  proof (cases "st1 = 0")
    case True
    then show ?thesis using assms(1) r k by (intro sent) (auto simp: advance_def)
  next
    case False
    then show ?thesis using assms(1) r k by (intro failed) (auto simp: advance_def split: option.splits)
  qed
qed

section \<open>The invariant\<close>

definition keeps_bringup :: "'w fsm_common \<Rightarrow> 'w fsm_common \<Rightarrow> bool" where
  "keeps_bringup c c' \<longleftrightarrow>
     device_model (cmd c') = device_model (cmd c) \<and> driver_mode (cmd c') = driver_mode (cmd c) \<and>
     (bringup_inv (cmd c) \<longrightarrow> bringup_inv (cmd c'))"

lemma keeps_refl [simp]: "keeps_bringup c c"
  by (simp add: keeps_bringup_def)

lemma keeps_same: "same_bringup (cmd c) (cmd c') \<Longrightarrow> keeps_bringup c c'"
  using same_bringup_inv by (auto simp: keeps_bringup_def same_bringup_def)

lemma keeps_trans: "keeps_bringup c d \<Longrightarrow> keeps_bringup d e \<Longrightarrow> keeps_bringup c e"
  by (simp add: keeps_bringup_def)

definition extends_to :: "mgmt_common \<Rightarrow> u8 \<Rightarrow> fsm_state \<Rightarrow> bool" where
  "extends_to m t s \<longleftrightarrow>
     (\<exists>k. (\<not> DEV_MODEL_9116 (device_model m) \<longrightarrow> k = 0) \<and>
          expected (device_model m) s k = Some (since_ready (bringup_types m @ [t])))"

lemma extends_intro:
  assumes "bringup_inv m" "fsm_state m \<noteq> FSM_CARD_NOT_READY" "t \<noteq> 0x28"
    "\<And>k ts. \<not> DEV_MODEL_9116 (device_model m) \<longrightarrow> k = 0 \<Longrightarrow> expected (device_model m) (fsm_state m) k = Some ts \<Longrightarrow>
       ts \<noteq> [] \<and> (\<exists>k'. (\<not> DEV_MODEL_9116 (device_model m) \<longrightarrow> k' = 0) \<and> expected (device_model m) s k' = Some (ts @ [t]))"
  shows "extends_to m t s"
proof -
  from assms(1,2) obtain k where k: "\<not> DEV_MODEL_9116 (device_model m) \<longrightarrow> k = 0"
      "expected (device_model m) (fsm_state m) k = Some (since_ready (bringup_types m))"
    by (auto simp: bringup_inv_def)
  from assms(4) [OF k] show ?thesis using since_ready_snoc [OF assms(3)] by (simp add: extends_to_def)
qed

text \<open>A step keeps the invariant when it appends what the next state expects.\<close>

lemma advance_keeps_from:
  assumes "advance f s fail err d = (st, c')" "keeps_bringup c d" "sends t f" "fail \<in> {None, Some FSM_CARD_NOT_READY}"
    "bringup_inv (cmd c) \<Longrightarrow> bringup_inv (cmd d) \<Longrightarrow> extends_to (cmd d) t s"
  shows "keeps_bringup c c'"
  using assms(1,3)
proof (cases rule: advance_cases)
  case sent
  have "bringup_inv (cmd c')" if "extends_to (cmd d) t s"
    using that sent by (simp add: bringup_inv_def extends_to_def)
  then show ?thesis using assms(2,5) sent(4,5) by (simp add: keeps_bringup_def)
next
  case failed
  have "bringup_inv (cmd c')" if "bringup_inv (cmd d)"
    using that failed assms(4) by (auto simp: bringup_inv_def)
  then show ?thesis using assms(2) failed(4,5) by (simp add: keeps_bringup_def)
qed

lemmas advance_keeps = advance_keeps_from [OF _ keeps_refl]

lemma bringup_types_updates [simp]:
  "bringup_types (m\<lparr>settings := x1\<rparr>) = bringup_types m" "bringup_types (m\<lparr>mac_addr := x2\<rparr>) = bringup_types m"
  "bringup_types (m\<lparr>band_5ghz := x3\<rparr>) = bringup_types m" "bringup_types (m\<lparr>num_supp_bands := x4\<rparr>) = bringup_types m"
  "bringup_types (m\<lparr>eeprom_length := x5\<rparr>) = bringup_types m" "bringup_types (m\<lparr>eeprom_offset := x6\<rparr>) = bringup_types m"
  "bringup_types (m\<lparr>rf_reset := x7\<rparr>) = bringup_types m" "bringup_types (m\<lparr>bb_rf_prog_count := x8\<rparr>) = bringup_types m"
  "bringup_types (rsi_set_default_parameters m) = bringup_types m"
  by (simp_all add: bringup_types_def rsi_set_default_parameters_def)

lemma defaults_simps [simp]: "device_model (rsi_set_default_parameters m) = device_model m"
    "driver_mode (rsi_set_default_parameters m) = driver_mode m"
    "fsm_state (rsi_set_default_parameters m) = FSM_CARD_NOT_READY" "mgmt_alloc (rsi_set_default_parameters m) = mgmt_alloc m"
  by (simp_all add: rsi_set_default_parameters_def)

lemma extends_ready: "extends_to m 0x28 FSM_COMMON_DEV_PARAMS_SENT"
  by (simp add: extends_to_def exI [of _ 0])

lemma card_settings_same:
  "state c = FSM_CARD_NOT_READY \<Longrightarrow> same_bringup (cmd c) (cmd (common_card_settings c msg))"
  "same_bringup (cmd c) (cmd (wlan_card_settings c msg))"
  by (simp_all add: common_card_settings_def wlan_card_settings_def same_bringup_def Let_def)

text \<open>Settings changed on the way do not matter.\<close>

lemma advance_keeps_after:
  assumes "advance f s fail err d = (st, c')" "same_bringup (cmd c) (cmd d)" "sends t f" "fail \<in> {None, Some FSM_CARD_NOT_READY}"
    "bringup_inv (cmd d) \<Longrightarrow> extends_to (cmd d) t s"
  shows "keeps_bringup c c'"
  using advance_keeps_from [OF assms(1) keeps_same [OF assms(2)] assms(3,4)] assms(5) by blast

lemma common_card_ready_keeps:
  assumes "common_card_ready c msg = (st, c')" "state c = FSM_CARD_NOT_READY"
  shows "keeps_bringup c c'"
proof (cases "bit (msg 15) 0 \<and> bit (msg 15) 1")
  case True
  then show ?thesis using assms by (intro keeps_same) (auto simp: common_card_ready_def same_bringup_def)
next
  case False
  then have "advance rsi_send_common_dev_params FSM_COMMON_DEV_PARAMS_SENT None (- EINVAL) (common_card_settings c msg) = (st, c')"
    using assms(1) by (auto simp: common_card_ready_def)
  then show ?thesis
    using card_settings_same(1) [OF assms(2)] bringup_commands(1)
    by (rule advance_keeps_after) (simp_all add: extends_ready)
qed

lemma extends_boot: "bringup_inv m \<Longrightarrow> fsm_state m = FSM_COMMON_DEV_PARAMS_SENT \<Longrightarrow> extends_to m 0xC FSM_BOOT_PARAMS_SENT"
  by (rule extends_intro) auto

lemma wlan_settings_state [simp]: "state (wlan_card_settings c msg) = state c"
  using card_settings_same(2) [of c msg] by (simp add: same_bringup_def)

lemma wlan_card_ready_keeps:
  assumes "wlan_card_ready c msg = (st, c')" "state c = FSM_COMMON_DEV_PARAMS_SENT"
  shows "keeps_bringup c c'"
proof (cases "mac_refused c msg")
  case True
  then show ?thesis using assms by (intro keeps_same) (auto simp: wlan_card_ready_def same_bringup_def)
next
  case False
  then have "advance rsi_load_bootup_params FSM_BOOT_PARAMS_SENT (Some FSM_CARD_NOT_READY) (- EINVAL) (wlan_card_settings c msg) = (st, c')"
    using assms(1) by (simp add: wlan_card_ready_def)
  then show ?thesis
    using card_settings_same(2) bringup_commands(2)
    by (rule advance_keeps_after) (simp_all add: assms(2) extends_boot)
qed

section \<open>Every handler keeps it\<close>

lemma card_ready_keeps: "rsi_handle_card_ready c msg = (st, c') \<Longrightarrow> keeps_bringup c c'"
  by (auto simp: rsi_handle_card_ready_def dest: common_card_ready_keeps wlan_card_ready_keeps split: fsm_state.splits)

lemma common_dev_config_keeps: "on_common_dev_config c = (st, c') \<Longrightarrow> keeps_bringup c c'"
  by (auto simp: on_common_dev_config_def split: if_splits intro!: advance_keeps [OF _ bringup_commands(2)] extends_boot)

lemma bootup_params_keeps:
  assumes "on_bootup_params c = (st, c')"
  shows "keeps_bringup c c'"
proof (cases "state c = FSM_BOOT_PARAMS_SENT")
  case True
  show ?thesis
  proof (cases "DEV_MODEL_9116 (device_model (cmd c))")
    case n16: True
    let ?d = "c\<lparr>cmd := (cmd c)\<lparr>num_supp_bands := (if band_5ghz (cmd c) then 2 else 1)\<rparr>\<rparr>"
    have "advance rsi_send_reset_mac FSM_RESET_MAC_SENT None (- EINVAL) ?d = (st, c')"
      using assms True n16 by (simp add: on_bootup_params_def)
    then show ?thesis
      by (rule advance_keeps_after [OF _ _ bringup_commands(4)])
        (use True n16 in \<open>auto simp: same_bringup_def up_to_reset_def intro!: extends_intro\<close>)
  next
    case False
    have "advance rsi_eeprom_read FSM_EEPROM_READ_MAC_ADDR (Some FSM_CARD_NOT_READY) (- EINVAL) (set_eeprom 11 40 c) = (st, c')"
      using assms True False by (simp add: on_bootup_params_def)
    then show ?thesis
      by (rule advance_keeps_after [OF _ _ bringup_commands(3)])
        (use True False in \<open>auto simp: same_bringup_def set_eeprom_def intro!: extends_intro\<close>)
  qed
next
  case False
  then show ?thesis using assms by (simp add: on_bootup_params_def)
qed

lemma not_ready_keeps: "keeps_bringup c (set_fsm FSM_CARD_NOT_READY c)"
  by (simp add: keeps_bringup_def bringup_inv_def)

lemma eeprom_read_keeps:
  assumes "on_eeprom_read c msg = (st, c')"
  shows "keeps_bringup c c'"
proof -
  consider (mac) "state c = FSM_EEPROM_READ_MAC_ADDR" "msg_len msg \<noteq> 0" "msg 16 = MAGIC_WORD"
    | (rf) "state c = FSM_EEPROM_READ_RF_TYPE" "msg_len msg \<noteq> 0" "msg 16 = MAGIC_WORD"
    | (rest) "c' = c \<or> c' = set_fsm FSM_CARD_NOT_READY c"
    using assms by (auto simp: on_eeprom_read_def split: if_splits)
  then show ?thesis
  proof cases
    case mac
    let ?d = "set_eeprom 4 424 (c\<lparr>cmd := (cmd c)\<lparr>mac_addr := bytes_at msg 21 6\<rparr>\<rparr>)"
    have "advance rsi_eeprom_read FSM_EEPROM_READ_RF_TYPE (Some FSM_CARD_NOT_READY) 0 ?d = (st, c')"
      using assms mac by (simp add: on_eeprom_read_def)
    then show ?thesis
      by (rule advance_keeps_after [OF _ _ bringup_commands(3)])
        (use mac in \<open>auto simp: same_bringup_def set_eeprom_def intro!: extends_intro split: if_splits\<close>)
  next
    case rf
    let ?d = "if msg 17 AND 0x3 = 0x3 then c\<lparr>cmd := (cmd c)\<lparr>band_5ghz := True, num_supp_bands := 2\<rparr>\<rparr>
              else if msg 17 AND 0x3 = 0x1 then c\<lparr>cmd := (cmd c)\<lparr>band_5ghz := False, num_supp_bands := 1\<rparr>\<rparr> else c"
    have "advance rsi_send_reset_mac FSM_RESET_MAC_SENT None (- EINVAL) ?d = (st, c')"
      using assms rf by (simp add: on_eeprom_read_def)
    then show ?thesis
      by (rule advance_keeps_after [OF _ _ bringup_commands(4)])
        (use rf in \<open>auto simp: same_bringup_def up_to_reset_def intro!: extends_intro split: if_splits\<close>)
  next
    case rest
    then show ?thesis using not_ready_keeps by auto
  qed
qed

lemma reset_mac_keeps: "on_reset_mac c = (st, c') \<Longrightarrow> keeps_bringup c c'"
  by (auto simp: on_reset_mac_def up_to_reset_def split: if_splits
      intro!: advance_keeps [OF _ bringup_commands(5)] extends_intro exI [of _ 0])

text \<open>The features command is one more \<open>FEATURES_ENABLE\<close> in the same state.\<close>

lemma features_keep:
  assumes "command rsi_send_w9116_features c = (st, c')" "state c = FSM_RADIO_CAPS_SENT" "DEV_MODEL_9116 (device_model (cmd c))"
  shows "keeps_bringup c c'" "state c' = FSM_RADIO_CAPS_SENT" "DEV_MODEL_9116 (device_model (cmd c'))"
    "bringup_inv (cmd c) \<Longrightarrow> st = 0 \<Longrightarrow>
       \<exists>k > 0. since_ready (bringup_types (cmd c')) = up_to_reset (device_model (cmd c)) @ [0x2] @ replicate k 0x33"
proof -
  note k = command_sends [OF bringup_commands(6) assms(1)]
  show "state c' = FSM_RADIO_CAPS_SENT" "DEV_MODEL_9116 (device_model (cmd c'))" using k assms(2,3) by simp_all
  have sent: "since_ready (bringup_types (cmd c')) = up_to_reset (device_model (cmd c)) @ [0x2] @ replicate (Suc n) 0x33"
    if "st = 0" "since_ready (bringup_types (cmd c)) = up_to_reset (device_model (cmd c)) @ [0x2] @ replicate n 0x33" for n
  proof -
    have "since_ready (bringup_types (cmd c')) = since_ready (bringup_types (cmd c)) @ [0x33]"
      using k(5) that by (simp add: since_ready_snoc)
    with that show ?thesis by (simp add: replicate_append_same)
  qed
  have inv: "\<exists>n. since_ready (bringup_types (cmd c)) = up_to_reset (device_model (cmd c)) @ [0x2] @ replicate n 0x33"
    if "bringup_inv (cmd c)"
  proof -
    from that assms(2) obtain n where
      "expected (device_model (cmd c)) FSM_RADIO_CAPS_SENT n = Some (since_ready (bringup_types (cmd c)))"
      by (auto simp: bringup_inv_def simp del: expected.simps)
    then show ?thesis by (metis expected.simps(6) option.inject)
  qed
  show "\<exists>k > 0. since_ready (bringup_types (cmd c')) = up_to_reset (device_model (cmd c)) @ [0x2] @ replicate k 0x33"
    if "bringup_inv (cmd c)" "st = 0"
    using inv [OF that(1)] sent [OF that(2)] by blast
  show "keeps_bringup c c'"
  proof (cases "st = 0")
    case True
    have "bringup_inv (cmd c')" if "bringup_inv (cmd c)"
    proof -
      from inv [OF that] obtain n where "since_ready (bringup_types (cmd c)) = up_to_reset (device_model (cmd c)) @ [0x2] @ replicate n 0x33" ..
      from sent [OF True this] show ?thesis using k assms(2,3) by (auto simp: bringup_inv_def simp del: replicate_Suc)
    qed
    then show ?thesis using k by (simp add: keeps_bringup_def)
  next
    case False
    then show ?thesis using k by (intro keeps_same) (simp add: same_bringup_def)
  qed
qed

lemma radio_caps_keeps:
  assumes "on_radio_caps c = (st, c')"
  shows "keeps_bringup c c'"
proof (cases "state c = FSM_RADIO_CAPS_SENT")
  case state: True
  let ?c1 = "c\<lparr>cmd := (cmd c)\<lparr>rf_reset := True\<rparr>\<rparr>"
  have k1: "keeps_bringup c ?c1" by (rule keeps_same) (simp add: same_bringup_def)
  show ?thesis
  proof (cases "DEV_MODEL_9116 (device_model (cmd c))")
    case n16: True
    obtain st2 c2 where f: "command rsi_send_w9116_features ?c1 = (st2, c2)" by fastforce
    note k2 = features_keep [OF f]
    have k12: "keeps_bringup c c2" using keeps_trans [OF k1 k2(1)] state n16 by simp
    show ?thesis
    proof (cases "st2 = 0")
      case True
      have a: "advance rsi_program_bb_rf FSM_BB_RF_PROG_SENT None (- EINVAL) c2 = (st, c')"
        using assms state n16 f True by (simp add: on_radio_caps_def Let_def)
      have "extends_to (cmd c2) 0x15 FSM_BB_RF_PROG_SENT" if "bringup_inv (cmd ?c1)"
      proof -
        from k2(4) [OF _ _ that True] state n16 obtain n where
          n: "0 < n" "since_ready (bringup_types (cmd c2)) = up_to_reset (device_model (cmd c)) @ [0x2] @ replicate n 0x33"
          by auto
        moreover have "device_model (cmd c2) = device_model (cmd c)" using k12 by (simp add: keeps_bringup_def)
        ultimately show ?thesis
          using n16 since_ready_snoc [of "0x15" "bringup_types (cmd c2)"] by (auto simp: extends_to_def intro!: exI [of _ n])
      qed
      with a k12 bringup_commands(7) show ?thesis
        using k1 by (rule_tac advance_keeps_from) (auto simp: keeps_bringup_def)
    next
      case False
      then have "c' = c2" using assms state n16 f by (simp add: on_radio_caps_def Let_def)
      with k12 show ?thesis by simp
    qed
  next
    case False
    have "advance rsi_program_bb_rf FSM_BB_RF_PROG_SENT None (- EINVAL) ?c1 = (st, c')"
      using assms state False by (simp add: on_radio_caps_def Let_def)
    then show ?thesis
      by (rule advance_keeps_after [OF _ _ bringup_commands(7)])
        (use state False in \<open>auto simp: same_bringup_def up_to_reset_def intro!: extends_intro\<close>)
  qed
next
  case False
  then show ?thesis using assms by (simp add: on_radio_caps_def)
qed

lemma bb_rf_prog_keeps:
  assumes "on_bb_rf_prog ops c = (st, c')"
  shows "keeps_bringup c c'"
proof (cases "state c = FSM_BB_RF_PROG_SENT")
  case True
  then have "cmd c' = (cmd c)\<lparr>bb_rf_prog_count := bb_rf_prog_count (cmd c) - 1\<rparr> \<or>
      cmd c' = (cmd c)\<lparr>bb_rf_prog_count := bb_rf_prog_count (cmd c) - 1, fsm_state := FSM_MAC_INIT_DONE\<rparr>"
    using assms by (auto simp: on_bb_rf_prog_def Let_def set_fsm_def split: if_splits prod.splits)
  then show ?thesis using True by (auto simp: keeps_bringup_def bringup_inv_def)
next
  case False
  then show ?thesis using assms by (simp add: on_bb_rf_prog_def)
qed

text \<open>The handlers of every other message leave the bring-up alone; some queue a command of another kind.\<close>

lemma command_other:
  assumes "command (rsi_send_block_unblock_frame b) c = (st, c')"
  shows "same_bringup (cmd c) (cmd c')"
proof -
  have "cmd_type (internal_mgmt_bytes (desc_frame BLOCK_HW_QUEUE w2 w3 w4 w5 w6 w7)) = 0x9" for w2 w3 w4 w5 w6 w7
    by (simp add: cmd_type_def desc_frame_type)
  then show ?thesis
    using assms by (auto simp: command_def rsi_send_block_unblock_frame_def send_command_def alloc_skb_def queue_internal_def
        bringup_types_def same_bringup_def Let_def desc_frame_type split: if_splits)
qed

lemma cmd_updates [simp]: "cmd (in_world f c) = cmd c" "cmd (bgscan_params ops e c) = cmd c" "cmd (set_bgscan_en b c) = cmd c"
  by (simp_all add: in_world_def bgscan_params_def set_bgscan_en_def split: prod.splits)

lemma bgscan_probe_cmd: "cmd (snd (on_bgscan_probe ops c)) = cmd c"
  by (simp add: on_bgscan_probe_def debugfs_bgscan_done_def Let_def)

lemma tx_status_keeps: "keeps_bringup c (on_tx_status ops c msg)"
proof -
  have "same_bringup (cmd c) (cmd (on_eapol4 ops c msg))"
  proof -
    obtain st c1 where r: "command (rsi_send_block_unblock_frame False) (c\<lparr>start_bgscan := True, eapol4_confirm := True\<rparr>) = (st, c1)"
      by fastforce
    from command_other [OF r] show ?thesis
      by (auto simp: on_eapol4_def r same_bringup_def Let_def split: option.splits)
  qed
  then show ?thesis
    by (intro keeps_same) (auto simp: on_tx_status_def on_null_confirm_def same_bringup_def Let_def split: option.splits)
qed

lemma cmd_same_keeps: "cmd c' = cmd c \<Longrightarrow> keeps_bringup c c'"
  by (simp add: keeps_same same_bringup_def)

lemma ta_confirm_keeps:
  assumes "rsi_handle_ta_confirm ops c msg = Some (st, c')" "driver_mode (cmd c) \<noteq> RF_EVAL_MODE_ON"
  shows "keeps_bringup c c'"
proof -
  consider "on_common_dev_config c = (st, c')" | "on_bootup_params c = (st, c')" | "on_eeprom_read c msg = (st, c')"
    | "on_reset_mac c = (st, c')" | "on_radio_caps c = (st, c')" | "on_bb_rf_prog ops c = (st, c')" | "cmd c' = cmd c"
    using assms bgscan_probe_cmd [of ops c]
    by (auto simp: rsi_handle_ta_confirm_def Let_def on_bb_data_def on_stats_def on_ampdu_ind_def on_scan_request_def
        split: if_splits prod.splits)
  then show ?thesis
    by cases (auto intro: common_dev_config_keeps bootup_params_keeps eeprom_read_keeps reset_mac_keeps radio_caps_keeps
        bb_rf_prog_keeps cmd_same_keeps)
qed

lemma mgmt_recv_keeps:
  assumes "rsi_mgmt_pkt_recv ops c msg = Some (st, c')" "driver_mode (cmd c) \<noteq> RF_EVAL_MODE_ON"
  shows "keeps_bringup c c'"
proof -
  consider "rsi_handle_ta_confirm ops c msg = Some (st, c')" | "rsi_handle_card_ready c msg = (st, c')"
    | "c' = on_tx_status ops c msg" | "cmd c' = cmd c"
    using assms(1) by (auto simp: rsi_mgmt_pkt_recv_def on_beacon_event_def Let_def split: if_splits prod.splits)
  then show ?thesis
    using ta_confirm_keeps [OF _ assms(2)] card_ready_keeps tx_status_keeps cmd_same_keeps by cases auto
qed

section \<open>The order of the bring-up\<close>

text \<open>
  The runs of the state machine: any messages in any order, and at any time a firmware assertion
  (\<open>on_fw_assert\<close> of theory \<open>Sdio_Irq\<close>) or a restart, which set \<open>FSM_CARD_NOT_READY\<close>. The callbacks of
  mac80211, which queue some of the same commands once the state is \<open>FSM_MAC_INIT_DONE\<close>, are not steps of
  these runs.
\<close>

inductive fsm_reach :: "'w fsm_ops \<Rightarrow> 'w fsm_common \<Rightarrow> 'w fsm_common \<Rightarrow> bool" for ops c0 where
  start: "fsm_reach ops c0 c0"
| recv: "fsm_reach ops c0 c \<Longrightarrow> rsi_mgmt_pkt_recv ops c msg = Some (st, c') \<Longrightarrow> fsm_reach ops c0 c'"
| restart: "fsm_reach ops c0 c \<Longrightarrow> fsm_reach ops c0 (set_fsm FSM_CARD_NOT_READY c)"

lemma reach_keeps:
  assumes "fsm_reach ops c0 c" "driver_mode (cmd c0) \<noteq> RF_EVAL_MODE_ON"
  shows "keeps_bringup c0 c"
  using assms(1)
proof induction
  case start
  show ?case by simp
next
  case (recv c msg st c')
  then have "driver_mode (cmd c) \<noteq> RF_EVAL_MODE_ON" using assms(2) by (simp add: keeps_bringup_def)
  then show ?case using recv mgmt_recv_keeps keeps_trans by blast
next
  case (restart c)
  then show ?case using not_ready_keeps keeps_trans by blast
qed

text \<open>
  C1. In every run of received messages and restarts, in any driver mode but RF evaluation (\<open>ampdu_ind_returns\<close>
  below is an exception there), whatever the device sends, in whatever order, and whichever allocations fail: outside
  \<open>FSM_CARD_NOT_READY\<close> the commands queued since the device was last configured are exactly
  those that lead to the current state, in order and without a gap. In particular
  \<open>FSM_MAC_INIT_DONE\<close> is reached only after configuration, boot parameters, the EEPROM reads of a 9113,
  MAC reset, radio capabilities, the features of a 9116 and later and the baseband programming. Commands that
  callbacks of mac80211 queue after the bring-up are outside this statement.
\<close>
theorem bringup_order:
  assumes "fsm_reach ops c0 c" "state c0 = FSM_CARD_NOT_READY" "driver_mode (cmd c0) \<noteq> RF_EVAL_MODE_ON" "state c \<noteq> FSM_CARD_NOT_READY"
  shows "\<exists>k. expected (device_model (cmd c0)) (state c) k = Some (since_ready (bringup_types (cmd c))) \<and>
             (\<not> DEV_MODEL_9116 (device_model (cmd c0)) \<longrightarrow> k = 0)"
proof -
  have k: "keeps_bringup c0 c" using reach_keeps [OF assms(1,3)] .
  moreover have "bringup_inv (cmd c0)" using assms(2) by (simp add: bringup_inv_def)
  ultimately have "bringup_inv (cmd c)" "device_model (cmd c) = device_model (cmd c0)" by (simp_all add: keeps_bringup_def)
  with assms(4) show ?thesis by (auto simp: bringup_inv_def)
qed

section \<open>The bring-up completes\<close>

definition memory :: "mgmt_common \<Rightarrow> bool" where
  "memory m \<longleftrightarrow> (\<forall>n. mgmt_alloc m n)"

text \<open>\<open>c'\<close> is \<open>c\<close> in the state \<open>s\<close>, after the commands \<open>ts\<close>.\<close>

definition progress :: "'w fsm_common \<Rightarrow> fsm_state \<Rightarrow> u8 list \<Rightarrow> 'w fsm_common \<Rightarrow> bool" where
  "progress c s ts c' \<longleftrightarrow>
     state c' = s \<and> bringup_types (cmd c') = bringup_types (cmd c) @ ts \<and> memory (cmd c') \<and>
     device_model (cmd c') = device_model (cmd c) \<and> driver_mode (cmd c') = driver_mode (cmd c) \<and>
     world c' = world c \<and> reinit_hw c' = reinit_hw c"

lemma progress_trans: "progress c s ts d \<Longrightarrow> progress d s' ts' e \<Longrightarrow> progress c s' (ts @ ts') e"
  by (simp add: progress_def)

definition works :: "(mgmt_common \<Rightarrow> int \<times> mgmt_common) \<Rightarrow> bool" where
  "works f \<longleftrightarrow> (\<forall>m. memory m \<longrightarrow> fst (f m) = 0 \<and> mgmt_alloc (snd (f m)) = mgmt_alloc m)"

lemma bringup_commands_work:
  "works rsi_send_common_dev_params" "works rsi_load_bootup_params" "works rsi_eeprom_read" "works rsi_send_reset_mac"
  "works rsi_load_radio_caps" "works rsi_send_w9116_features" "works rsi_program_bb_rf"
  by (simp_all add: works_def memory_def rsi_send_common_dev_params_def rsi_load_bootup_params_def rsi_eeprom_read_def
      rsi_send_reset_mac_def rsi_load_radio_caps_def rsi_send_w9116_features_def rsi_program_bb_rf_def send_command_def
      alloc_skb_def queue_internal_def Let_def)

lemma command_works:
  assumes "works f" "sends t f" "memory (cmd c)"
  obtains m where "command f c = (0, c\<lparr>cmd := m\<rparr>)" "f (cmd c) = (0, m)" "progress c (state c) [t] (c\<lparr>cmd := m\<rparr>)"
proof -
  obtain m where f: "f (cmd c) = (0, m)" using assms(1,3) by (metis prod.collapse works_def)
  moreover have "mgmt_alloc m = mgmt_alloc (cmd c)" using assms(1,3) f by (metis snd_conv works_def)
  moreover have "fsm_state m = state c \<and> device_model m = device_model (cmd c) \<and> driver_mode m = driver_mode (cmd c) \<and>
      bringup_types m = bringup_types (cmd c) @ [t]"
    using assms(2) f unfolding sends_def by fastforce
  ultimately have "progress c (state c) [t] (c\<lparr>cmd := m\<rparr>)"
    using assms(3) unfolding progress_def memory_def by simp
  moreover have "command f c = (0, c\<lparr>cmd := m\<rparr>)" using f by (simp add: command_def)
  ultimately show ?thesis using that f by blast
qed

lemma advance_works:
  assumes "works f" "sends t f" "memory (cmd c)"
  shows "\<exists>c'. advance f s fail err c = (0, c') \<and> progress c s [t] c' \<and> cmd c' = (snd (f (cmd c)))\<lparr>fsm_state := s\<rparr>"
proof -
  obtain m where m: "command f c = (0, c\<lparr>cmd := m\<rparr>)" "f (cmd c) = (0, m)" "progress c (state c) [t] (c\<lparr>cmd := m\<rparr>)"
    using command_works [OF assms] .
  then show ?thesis
    by (intro exI [of _ "set_fsm s (c\<lparr>cmd := m\<rparr>)"]) (simp add: advance_def progress_def set_fsm_def memory_def)
qed

text \<open>Settings changed before the command is sent.\<close>

definition same_run :: "'w fsm_common \<Rightarrow> 'w fsm_common \<Rightarrow> bool" where
  [rsi_defs]: "same_run c d \<longleftrightarrow>
     bringup_types (cmd d) = bringup_types (cmd c) \<and> device_model (cmd d) = device_model (cmd c) \<and>
     driver_mode (cmd d) = driver_mode (cmd c) \<and> mgmt_alloc (cmd d) = mgmt_alloc (cmd c) \<and>
     world d = world c \<and> reinit_hw d = reinit_hw c"

lemma advance_from:
  assumes "works f" "sends t f" "memory (cmd c)" "same_run c d"
  shows "\<exists>c'. advance f s fail err d = (0, c') \<and> progress c s [t] c' \<and> cmd c' = (snd (f (cmd d)))\<lparr>fsm_state := s\<rparr>"
proof -
  have "memory (cmd d)" using assms(3,4) by (simp add: memory_def same_run_def)
  from advance_works [OF assms(1,2) this] show ?thesis using assms(4) unfolding progress_def same_run_def by fastforce
qed

definition card_ready_msg :: "ptr \<Rightarrow> bool" where
  "card_ready_msg msg \<longleftrightarrow> msg 2 = 0 \<and> \<not> (bit (msg 15) 0 \<and> bit (msg 15) 1)"

definition confirm_msg :: "u8 \<Rightarrow> ptr \<Rightarrow> bool" where
  "confirm_msg t msg \<longleftrightarrow> msg 2 = 1 \<and> msg 15 = t"

definition eeprom_msg :: "ptr \<Rightarrow> bool" where
  "eeprom_msg msg \<longleftrightarrow> confirm_msg 0xE msg \<and> msg_len msg \<noteq> 0 \<and> msg 16 = MAGIC_WORD"

definition step_to :: "'w fsm_ops \<Rightarrow> 'w fsm_common \<Rightarrow> ptr \<Rightarrow> fsm_state \<Rightarrow> u8 list \<Rightarrow> bool" where
  "step_to ops c msg s ts \<longleftrightarrow> (\<exists>c'. rsi_mgmt_pkt_recv ops c msg = Some (0, c') \<and> progress c s ts c')"

lemma step_toI:
  assumes "rsi_mgmt_pkt_recv ops c msg = Some (advance f s fail err d)" "works f" "sends t f" "memory (cmd c)" "same_run c d"
  shows "step_to ops c msg s [t]"
  using advance_from [OF assms(2-5), of s fail err] assms(1) unfolding step_to_def by auto

lemma recv_confirm: "confirm_msg t msg \<Longrightarrow> rsi_mgmt_pkt_recv ops c msg = rsi_handle_ta_confirm ops c msg"
  by (simp add: rsi_mgmt_pkt_recv_def confirm_msg_def)

lemma recv_card_ready: "card_ready_msg msg \<Longrightarrow> rsi_mgmt_pkt_recv ops c msg = Some (rsi_handle_card_ready c msg)"
  by (simp add: rsi_mgmt_pkt_recv_def card_ready_msg_def)

lemma step_card_ready:
  assumes "card_ready_msg msg" "state c = FSM_CARD_NOT_READY" "memory (cmd c)"
  shows "step_to ops c msg FSM_COMMON_DEV_PARAMS_SENT [0x28]"
proof (rule step_toI [OF _ bringup_commands_work(1) bringup_commands(1) assms(3)])
  show "rsi_mgmt_pkt_recv ops c msg = Some (advance rsi_send_common_dev_params FSM_COMMON_DEV_PARAMS_SENT None (- EINVAL) (common_card_settings c msg))"
    using assms by (auto simp: recv_card_ready rsi_handle_card_ready_def common_card_ready_def card_ready_msg_def)
  show "same_run c (common_card_settings c msg)"
    by (simp add: same_run_def common_card_settings_def Let_def)
qed

lemma step_wlan_ready:
  assumes "card_ready_msg msg" "state c = FSM_COMMON_DEV_PARAMS_SENT" "memory (cmd c)"
    "\<not> (mac_given msg \<and> msg 23 = 0xff \<and> msg 24 = 0xff \<and> msg 25 > 0xfc)"
  shows "step_to ops c msg FSM_BOOT_PARAMS_SENT [0xC]"
proof (rule step_toI [OF _ bringup_commands_work(2) bringup_commands(2) assms(3)])
  show "rsi_mgmt_pkt_recv ops c msg = Some (advance rsi_load_bootup_params FSM_BOOT_PARAMS_SENT (Some FSM_CARD_NOT_READY) (- EINVAL) (wlan_card_settings c msg))"
    using assms by (auto simp: recv_card_ready rsi_handle_card_ready_def wlan_card_ready_def mac_refused_def)
  show "same_run c (wlan_card_settings c msg)"
    by (simp add: same_run_def wlan_card_settings_def Let_def)
qed

lemma step_boot_9116:
  assumes "confirm_msg 0xC msg" "state c = FSM_BOOT_PARAMS_SENT" "memory (cmd c)" "DEV_MODEL_9116 (device_model (cmd c))"
  shows "step_to ops c msg FSM_RESET_MAC_SENT [0x1]"
proof (rule step_toI [OF _ bringup_commands_work(4) bringup_commands(4) assms(3)])
  show "rsi_mgmt_pkt_recv ops c msg = Some (advance rsi_send_reset_mac FSM_RESET_MAC_SENT None (- EINVAL) (c\<lparr>cmd := (cmd c)\<lparr>num_supp_bands := (if band_5ghz (cmd c) then 2 else 1)\<rparr>\<rparr>))"
    using assms by (simp add: recv_confirm rsi_handle_ta_confirm_def confirm_msg_def rsi_mgmt_pkt_recv_def on_bootup_params_def)
  show "same_run c (c\<lparr>cmd := (cmd c)\<lparr>num_supp_bands := (if band_5ghz (cmd c) then 2 else 1)\<rparr>\<rparr>)"
    by (simp add: same_run_def )
qed

lemma step_boot_9113:
  assumes "confirm_msg 0xC msg" "state c = FSM_BOOT_PARAMS_SENT" "memory (cmd c)" "\<not> DEV_MODEL_9116 (device_model (cmd c))"
  shows "step_to ops c msg FSM_EEPROM_READ_MAC_ADDR [0xE]"
proof (rule step_toI [OF _ bringup_commands_work(3) bringup_commands(3) assms(3)])
  show "rsi_mgmt_pkt_recv ops c msg = Some (advance rsi_eeprom_read FSM_EEPROM_READ_MAC_ADDR (Some FSM_CARD_NOT_READY) (- EINVAL) (set_eeprom 11 40 c))"
    using assms by (simp add: recv_confirm rsi_handle_ta_confirm_def confirm_msg_def rsi_mgmt_pkt_recv_def on_bootup_params_def)
  show "same_run c (set_eeprom 11 40 c)"
    by (simp add: same_run_def set_eeprom_def)
qed

lemma step_eeprom_mac:
  assumes "eeprom_msg msg" "state c = FSM_EEPROM_READ_MAC_ADDR" "memory (cmd c)"
  shows "step_to ops c msg FSM_EEPROM_READ_RF_TYPE [0xE]"
proof (rule step_toI [OF _ bringup_commands_work(3) bringup_commands(3) assms(3)])
  show "rsi_mgmt_pkt_recv ops c msg = Some (advance rsi_eeprom_read FSM_EEPROM_READ_RF_TYPE (Some FSM_CARD_NOT_READY) 0 (set_eeprom 4 424 (c\<lparr>cmd := (cmd c)\<lparr>mac_addr := bytes_at msg 21 6\<rparr>\<rparr>)))"
    using assms by (simp add: recv_confirm rsi_handle_ta_confirm_def confirm_msg_def rsi_mgmt_pkt_recv_def on_eeprom_read_def eeprom_msg_def)
  show "same_run c (set_eeprom 4 424 (c\<lparr>cmd := (cmd c)\<lparr>mac_addr := bytes_at msg 21 6\<rparr>\<rparr>))"
    by (simp add: same_run_def set_eeprom_def)
qed

lemma step_eeprom_rf:
  assumes "eeprom_msg msg" "state c = FSM_EEPROM_READ_RF_TYPE" "memory (cmd c)"
  shows "step_to ops c msg FSM_RESET_MAC_SENT [0x1]"
proof (rule step_toI [OF _ bringup_commands_work(4) bringup_commands(4) assms(3)])
  show "rsi_mgmt_pkt_recv ops c msg = Some (advance rsi_send_reset_mac FSM_RESET_MAC_SENT None (- EINVAL) (if msg 17 AND 0x3 = 0x3 then c\<lparr>cmd := (cmd c)\<lparr>band_5ghz := True, num_supp_bands := 2\<rparr>\<rparr>
       else if msg 17 AND 0x3 = 0x1 then c\<lparr>cmd := (cmd c)\<lparr>band_5ghz := False, num_supp_bands := 1\<rparr>\<rparr> else c))"
    using assms by (simp add: recv_confirm rsi_handle_ta_confirm_def confirm_msg_def rsi_mgmt_pkt_recv_def on_eeprom_read_def eeprom_msg_def)
  show "same_run c (if msg 17 AND 0x3 = 0x3 then c\<lparr>cmd := (cmd c)\<lparr>band_5ghz := True, num_supp_bands := 2\<rparr>\<rparr>
       else if msg 17 AND 0x3 = 0x1 then c\<lparr>cmd := (cmd c)\<lparr>band_5ghz := False, num_supp_bands := 1\<rparr>\<rparr> else c)"
    by (simp add: same_run_def )
qed

lemma step_reset_mac:
  assumes "confirm_msg 0x1 msg" "state c = FSM_RESET_MAC_SENT" "memory (cmd c)"
  shows "step_to ops c msg FSM_RADIO_CAPS_SENT [0x2]"
proof (rule step_toI [OF _ bringup_commands_work(5) bringup_commands(5) assms(3)])
  show "rsi_mgmt_pkt_recv ops c msg = Some (advance rsi_load_radio_caps FSM_RADIO_CAPS_SENT None (- EINVAL) (c))"
    using assms by (simp add: recv_confirm rsi_handle_ta_confirm_def confirm_msg_def rsi_mgmt_pkt_recv_def on_reset_mac_def)
  show "same_run c (c)"
    by (simp add: same_run_def )
qed


lemma program_bb_rf_count: "works rsi_program_bb_rf \<Longrightarrow> memory m \<Longrightarrow> bb_rf_prog_count (snd (rsi_program_bb_rf m)) = 1"
  by (simp add: memory_def rsi_program_bb_rf_def send_command_def alloc_skb_def queue_internal_def Let_def)

lemma step_radio_caps:
  assumes "confirm_msg 0x2 msg" "state c = FSM_RADIO_CAPS_SENT" "memory (cmd c)"
  shows "\<exists>c'. rsi_mgmt_pkt_recv ops c msg = Some (0, c') \<and> bb_rf_prog_count (cmd c') = 1 \<and>
    progress c FSM_BB_RF_PROG_SENT (if DEV_MODEL_9116 (device_model (cmd c)) then [0x33, 0x15] else [0x15]) c'"
proof -
  let ?c1 = "c\<lparr>cmd := (cmd c)\<lparr>rf_reset := True\<rparr>\<rparr>"
  have r: "rsi_mgmt_pkt_recv ops c msg = Some (on_radio_caps c)"
    using assms(1) by (simp add: recv_confirm rsi_mgmt_pkt_recv_def rsi_handle_ta_confirm_def confirm_msg_def)
  have m1: "memory (cmd ?c1)" using assms(3) by (simp add: memory_def)
  obtain c2 where c2: "(if DEV_MODEL_9116 (device_model (cmd ?c1)) then command rsi_send_w9116_features ?c1 else (0, ?c1)) = (0, c2)"
      "progress c FSM_RADIO_CAPS_SENT (if DEV_MODEL_9116 (device_model (cmd c)) then [0x33] else []) c2"
  proof (cases "DEV_MODEL_9116 (device_model (cmd c))")
    case True
    obtain m where "command rsi_send_w9116_features ?c1 = (0, ?c1\<lparr>cmd := m\<rparr>)" "progress ?c1 (state ?c1) [0x33] (?c1\<lparr>cmd := m\<rparr>)"
      using command_works [OF bringup_commands_work(6) bringup_commands(6) m1] .
    then show ?thesis using True assms(2) by (intro that [of "?c1\<lparr>cmd := m\<rparr>"]) (simp_all add: progress_def)
  next
    case False
    then show ?thesis using assms(2,3) by (intro that [of ?c1]) (simp_all add: progress_def memory_def)
  qed
  have m2: "memory (cmd c2)" using c2(2) by (simp add: progress_def)
  obtain c3 where c3: "advance rsi_program_bb_rf FSM_BB_RF_PROG_SENT None (- EINVAL) c2 = (0, c3)"
      "progress c2 FSM_BB_RF_PROG_SENT [0x15] c3" "cmd c3 = (snd (rsi_program_bb_rf (cmd c2)))\<lparr>fsm_state := FSM_BB_RF_PROG_SENT\<rparr>"
    using advance_works [OF bringup_commands_work(7) bringup_commands(7) m2] by blast
  have "on_radio_caps c = (0, c3)" using assms(2) c2(1) c3(1) by (auto simp: on_radio_caps_def Let_def split: if_splits)
  moreover have "bb_rf_prog_count (cmd c3) = 1" using c3(3) program_bb_rf_count [OF bringup_commands_work(7) m2] by simp
  ultimately show ?thesis using r progress_trans [OF c2(2) c3(2)] by (auto split: if_splits)
qed

lemma step_bb_rf:
  assumes "confirm_msg 0x15 msg" "state c = FSM_BB_RF_PROG_SENT" "bb_rf_prog_count (cmd c) = 1"
    "driver_mode (cmd c) \<noteq> RF_EVAL_MODE_ON" "\<not> reinit_hw c"
  shows "\<exists>st c'. rsi_mgmt_pkt_recv ops c msg = Some (st, c') \<and> state c' = FSM_MAC_INIT_DONE \<and>
    bringup_types (cmd c') = bringup_types (cmd c) \<and> (st, world c') = mac80211_attach ops (world c)"
proof -
  obtain st w where w: "mac80211_attach ops (world c) = (st, w)" by fastforce
  have "rsi_mgmt_pkt_recv ops c msg = Some (on_bb_rf_prog ops c)"
    using assms(1) by (simp add: recv_confirm rsi_mgmt_pkt_recv_def rsi_handle_ta_confirm_def confirm_msg_def)
  moreover have "on_bb_rf_prog ops c =
      (st, (set_fsm FSM_MAC_INIT_DONE (c\<lparr>cmd := (cmd c)\<lparr>bb_rf_prog_count := 0\<rparr>\<rparr>))\<lparr>world := w\<rparr>)"
    using assms(2-5) w by (simp add: on_bb_rf_prog_def Let_def set_fsm_def)
  ultimately show ?thesis using w by (simp add: set_fsm_def)
qed

text \<open>A run of messages; None when one of them is never finished with.\<close>

fun recv_all :: "'w fsm_ops \<Rightarrow> 'w fsm_common \<Rightarrow> ptr list \<Rightarrow> 'w fsm_common option" where
  "recv_all ops c [] = Some c"
| "recv_all ops c (msg # msgs) = (case rsi_mgmt_pkt_recv ops c msg of None \<Rightarrow> None | Some (st, c') \<Rightarrow> recv_all ops c' msgs)"

lemma recv_step:
  "step_to ops c msg s ts \<Longrightarrow> (\<And>d. progress c s ts d \<Longrightarrow> \<exists>e. recv_all ops d msgs = Some e \<and> P e) \<Longrightarrow>
   \<exists>e. recv_all ops c (msg # msgs) = Some e \<and> P e"
  by (auto simp: step_to_def)

definition bringup_done :: "'w fsm_ops \<Rightarrow> 'w fsm_common \<Rightarrow> u8 list \<Rightarrow> 'w fsm_common \<Rightarrow> bool" where
  "bringup_done ops c ts e \<longleftrightarrow>
     state e = FSM_MAC_INIT_DONE \<and> bringup_types (cmd e) = bringup_types (cmd c) @ ts \<and> world e = snd (mac80211_attach ops (world c))"

lemma bringup_done_from: "progress c s ts d \<Longrightarrow> bringup_done ops d us e \<Longrightarrow> bringup_done ops c (ts @ us) e"
  by (simp add: progress_def bringup_done_def)

definition last_commands :: "rsi_dev_model \<Rightarrow> u8 list" where
  [rsi_defs]: "last_commands model = [0x2] @ (if DEV_MODEL_9116 model then [0x33] else []) @ [0x15]"

lemma bringup_tail:
  assumes "state c = FSM_RESET_MAC_SENT" "memory (cmd c)" "driver_mode (cmd c) \<noteq> RF_EVAL_MODE_ON" "\<not> reinit_hw c"
    "confirm_msg 0x1 reset" "confirm_msg 0x2 radio" "confirm_msg 0x15 bb"
  shows "\<exists>e. recv_all ops c [reset, radio, bb] = Some e \<and> bringup_done ops c (last_commands (device_model (cmd c))) e"
proof (rule recv_step [OF step_reset_mac [OF assms(5,1,2)]])
  fix d assume d: "progress c FSM_RADIO_CAPS_SENT [0x2] d"
  let ?ts = "if DEV_MODEL_9116 (device_model (cmd d)) then [0x33, 0x15] else [0x15 :: u8]"
  obtain c2 where c2: "rsi_mgmt_pkt_recv ops d radio = Some (0, c2)" "bb_rf_prog_count (cmd c2) = 1"
      "progress d FSM_BB_RF_PROG_SENT ?ts c2"
    using step_radio_caps [OF assms(6), of d] d by (auto simp: progress_def)
  have p: "progress c FSM_BB_RF_PROG_SENT ([0x2] @ ?ts) c2" using progress_trans [OF d c2(3)] .
  then obtain st e where e: "rsi_mgmt_pkt_recv ops c2 bb = Some (st, e)" "state e = FSM_MAC_INIT_DONE"
      "bringup_types (cmd e) = bringup_types (cmd c2)" "(st, world e) = mac80211_attach ops (world c2)"
    using step_bb_rf [OF assms(7), of c2 ops] c2(2) assms(3,4) by (auto simp: progress_def)
  then have "recv_all ops d [radio, bb] = Some e" using c2(1) by simp
  moreover have "bringup_done ops c (last_commands (device_model (cmd c))) e"
    using e p d by (auto simp: bringup_done_def progress_def last_commands_def dest: arg_cong [of _ _ snd])
  ultimately show "\<exists>e. recv_all ops d [radio, bb] = Some e \<and> bringup_done ops c (last_commands (device_model (cmd c))) e"
    by blast
qed

lemma done_step:
  assumes "step_to ops c msg s ts"
    "\<And>d. progress c s ts d \<Longrightarrow> \<exists>e. recv_all ops d msgs = Some e \<and> bringup_done ops d us e"
  shows "\<exists>e. recv_all ops c (msg # msgs) = Some e \<and> bringup_done ops c (ts @ us) e"
  using recv_step [OF assms(1), of msgs "bringup_done ops c (ts @ us)"] assms(2) bringup_done_from by blast

text \<open>The state \<open>s\<close> of a run that can go on.\<close>

definition going :: "rsi_dev_model \<Rightarrow> fsm_state \<Rightarrow> 'w fsm_common \<Rightarrow> bool" where
  "going model s c \<longleftrightarrow>
     state c = s \<and> memory (cmd c) \<and> device_model (cmd c) = model \<and> driver_mode (cmd c) \<noteq> RF_EVAL_MODE_ON \<and> \<not> reinit_hw c"

lemma going_on: "going model s c \<Longrightarrow> progress c s' ts d \<Longrightarrow> going model s' d"
  by (simp add: going_def progress_def)

lemma going_step:
  assumes "going model s c" "going model s c \<Longrightarrow> step_to ops c msg s' ts"
    "\<And>d. going model s' d \<Longrightarrow> \<exists>e. recv_all ops d msgs = Some e \<and> bringup_done ops d us e"
  shows "\<exists>e. recv_all ops c (msg # msgs) = Some e \<and> bringup_done ops c (ts @ us) e"
  using done_step [OF assms(2) [OF assms(1)] assms(3) [OF going_on [OF assms(1)]]] .

lemma bringup_from_boot:
  assumes "confirm_msg 0xC boot" "eeprom_msg e1" "eeprom_msg e2"
    "confirm_msg 0x1 reset" "confirm_msg 0x2 radio" "confirm_msg 0x15 bb" "going model FSM_BOOT_PARAMS_SENT c"
  shows "\<exists>e. recv_all ops c (boot # (if DEV_MODEL_9116 model then [] else [e1, e2]) @ [reset, radio, bb]) = Some e \<and>
    bringup_done ops c ((if DEV_MODEL_9116 model then [] else [0xE, 0xE]) @ [0x1] @ last_commands model) e"
proof -
  have tail: "\<exists>e. recv_all ops d [reset, radio, bb] = Some e \<and> bringup_done ops d (last_commands model) e"
    if "going model FSM_RESET_MAC_SENT d" for d
    using bringup_tail [OF _ _ _ _ assms(4-6), of d ops] that by (auto simp: going_def)
  show ?thesis
  proof (cases "DEV_MODEL_9116 model")
    case True
    have "step_to ops c boot FSM_RESET_MAC_SENT [0x1]"
      using step_boot_9116 [OF assms(1), of c ops] assms(7) True by (simp add: going_def)
    from going_step [OF assms(7) this tail] True show ?thesis by simp
  next
    case False
    have 1: "step_to ops c boot FSM_EEPROM_READ_MAC_ADDR [0xE]"
      using step_boot_9113 [OF assms(1), of c ops] assms(7) False by (simp add: going_def)
    have 3: "\<exists>e. recv_all ops d [e2, reset, radio, bb] = Some e \<and> bringup_done ops d ([0x1] @ last_commands model) e"
      if d: "going model FSM_EEPROM_READ_RF_TYPE d" for d
      by (rule going_step [OF d _ tail]) (simp_all add: step_eeprom_rf [OF assms(3)] going_def)
    have 2: "\<exists>e. recv_all ops d [e1, e2, reset, radio, bb] = Some e \<and> bringup_done ops d ([0xE] @ [0x1] @ last_commands model) e"
      if d: "going model FSM_EEPROM_READ_MAC_ADDR d" for d
      by (rule going_step [OF d _ 3]) (simp_all add: step_eeprom_mac [OF assms(2)] going_def)
    from going_step [OF assms(7) 1 2] False show ?thesis by simp
  qed
qed

text \<open>
  C15. With memory for the commands, a MAC address that is not refused, and in every driver mode but RF evaluation, the two card-ready indications and the confirmations
  bring the device to \<open>FSM_MAC_INIT_DONE\<close>, whatever else is in the messages: each message
  queues its command, the whole sequence is the one the device model needs, and mac80211 is
  attached once, at the end.
\<close>
theorem bringup_completes:
  assumes "state c = FSM_CARD_NOT_READY" "memory (cmd c)" "driver_mode (cmd c) \<noteq> RF_EVAL_MODE_ON" "\<not> reinit_hw c"
    "card_ready_msg r1" "card_ready_msg r2" "\<not> (mac_given r2 \<and> r2 23 = 0xff \<and> r2 24 = 0xff \<and> r2 25 > 0xfc)"
    "confirm_msg 0xC boot" "eeprom_msg e1" "eeprom_msg e2"
    "confirm_msg 0x1 reset" "confirm_msg 0x2 radio" "confirm_msg 0x15 bb"
  shows "\<exists>e. recv_all ops c ([r1, r2, boot] @ (if DEV_MODEL_9116 (device_model (cmd c)) then [] else [e1, e2]) @ [reset, radio, bb]) = Some e \<and>
    bringup_done ops c (up_to_reset (device_model (cmd c)) @ last_commands (device_model (cmd c))) e"
proof -
  have c: "going (device_model (cmd c)) FSM_CARD_NOT_READY c" using assms(1-4) by (simp add: going_def)
  have wlan: "step_to ops d r2 FSM_BOOT_PARAMS_SENT [0xC]" if "going model FSM_COMMON_DEV_PARAMS_SENT d" for d model
    using step_wlan_ready [OF assms(6) _ _ assms(7), of d ops] that by (simp add: going_def)
  have ready: "step_to ops c r1 FSM_COMMON_DEV_PARAMS_SENT [0x28]" using step_card_ready [OF assms(5,1,2)] .
  from going_step [OF c ready going_step [OF _ wlan bringup_from_boot [OF assms(8-13)]]]
  show ?thesis by (simp add: up_to_reset_def)
qed

section \<open>Confirmations nobody waits for\<close>

text \<open>The states in which a confirmation is waited for, by its type.\<close>

definition awaited_in :: "u8 \<Rightarrow> fsm_state set" where
  "awaited_in t =
     (if t = 0x28 then {FSM_COMMON_DEV_PARAMS_SENT} else if t = 0xC then {FSM_BOOT_PARAMS_SENT}
      else if t = 0xE then {FSM_EEPROM_READ_MAC_ADDR, FSM_EEPROM_READ_RF_TYPE} else if t = 0x1 then {FSM_RESET_MAC_SENT}
      else if t = 0x2 then {FSM_RADIO_CAPS_SENT} else {FSM_BB_RF_PROG_SENT})"

text \<open>
  C25. A confirmation of the bring-up that is not waited for (repeated, out of order, or late)
  is accepted and changes nothing: no command is queued, no setting and no state is touched.
\<close>
theorem stray_confirm_ignored:
  assumes "confirm_msg t msg" "t \<in> {0x28, 0xC, 0xE, 0x1, 0x2, 0x4, 0x15}" "state c \<notin> awaited_in t"
  shows "rsi_mgmt_pkt_recv ops c msg = Some (0, c)"
proof -
  have m: "msg 2 = 1" "msg 15 = t" using assms(1) by (simp_all add: confirm_msg_def)
  have "rsi_mgmt_pkt_recv ops c msg = rsi_handle_ta_confirm ops c msg" using m by (simp add: rsi_mgmt_pkt_recv_def)
  also from assms(2) have "\<dots> = Some (0, c)"
    by (elim insertE emptyE)
      (use m assms(3) in \<open>simp_all add: rsi_handle_ta_confirm_def awaited_in_def on_common_dev_config_def on_bootup_params_def
        on_eeprom_read_def on_reset_mac_def on_radio_caps_def on_bb_rf_prog_def\<close>)
  finally show ?thesis .
qed

section \<open>The burst loop\<close>

lemma burst_steps:
  "unat (n - 1) = k \<Longrightarrow> per_burst_loop True True burst n w = Some ((burst ^^ Suc k) w)"
proof (induction k arbitrary: n w)
  case 0
  then have "n - 1 = 0" by (simp add: unat_eq_0)
  then show ?case by (subst per_burst_loop.simps) simp
next
  case (Suc k)
  then have nz: "n - 1 \<noteq> 0" by auto
  then have "unat (n - 1 - 1) = k" using Suc.prems by (subst unat_minus_one) simp_all
  from Suc.IH [OF this, of "burst w"] nz show ?case
    by (subst per_burst_loop.simps) (simp add: Let_def funpow_swap1)
qed

lemma burst_hangs:
  assumes "per_burst_loop e a burst n w = Some v"
  shows "\<not> (\<not> e \<and> a \<and> n \<noteq> 0)"
proof (rule per_burst_loop.raw_induct [OF _ assms])
  fix f e a burst n w v
  assume IH: "\<And>e a burst n w v. f e a burst n w = Some v \<Longrightarrow> \<not> (\<not> e \<and> a \<and> n \<noteq> 0)"
    and body: "(let w1 = if e then burst w else w; n1 = if e then n - 1 else n
       in if n1 \<noteq> 0 \<and> a then f e a burst n1 w1 else Some w1) = Some v"
  show "\<not> (\<not> e \<and> a \<and> n \<noteq> 0)"
  proof
    assume c: "\<not> e \<and> a \<and> n \<noteq> 0"
    then have "f e a burst n w = Some v" using body by simp
    from IH [OF this] c show False by blast
  qed
qed

lemma burst_once: "\<not> a \<Longrightarrow> per_burst_loop e a burst n w = Some (if e then burst w else w)"
    "n = 0 \<Longrightarrow> \<not> e \<Longrightarrow> per_burst_loop e a burst n w = Some w"
  by (subst per_burst_loop.simps, simp)+

text \<open>
  In evaluation mode an aggregation confirmation sets \<open>FSM_MAC_INIT_DONE\<close> from any state,
  skipping the bring-up. And it is not always finished with: when aggregation is enabled with a
  fragment count but the test itself is not enabled, the loop that sends the fragments never ends.
\<close>
theorem ampdu_ind_returns:
  assumes "driver_mode (cmd c) = RF_EVAL_MODE_ON"
  shows "(on_ampdu_ind ops c = None \<longleftrightarrow> aggr_enable (per c) \<and> \<not> per_enable (per c) \<and> aggr_count (per c) \<noteq> 0) \<and>
    (\<forall>st c'. on_ampdu_ind ops c = Some (st, c') \<longrightarrow> state c' = FSM_MAC_INIT_DONE)"
proof -
  let ?n = "ucast (aggr_count (per c)) :: u32"
  have n: "?n = 0 \<longleftrightarrow> aggr_count (per c) = 0" by (metis ucast_0 ucast_u16_u32_u16)
  let ?loop = "per_burst_loop (per_enable (per c)) (aggr_enable (per c)) (start_per_burst ops) ?n (world c)"
  have "?loop = None \<longleftrightarrow> aggr_enable (per c) \<and> \<not> per_enable (per c) \<and> ?n \<noteq> 0"
  proof (cases "aggr_enable (per c) \<and> \<not> per_enable (per c) \<and> ?n \<noteq> 0")
    case True
    then show ?thesis using burst_hangs by (metis option.exhaust)
  next
    case False
    then consider "\<not> aggr_enable (per c)" | "?n = 0" "\<not> per_enable (per c)" | "aggr_enable (per c)" "per_enable (per c)" by blast
    then have "\<exists>v. ?loop = Some v"
    proof cases
      case 3
      then show ?thesis using burst_steps [of ?n _ "start_per_burst ops" "world c", OF refl] by simp
    qed (simp_all add: burst_once)
    with False show ?thesis by auto
  qed
  with n assms show ?thesis by (auto simp: on_ampdu_ind_def set_fsm_def split: option.splits)
qed

section \<open>Examples\<close>

text \<open>The rest of the driver in the examples counts the calls of \<open>rsi_mac80211_attach\<close>.\<close>

definition example_fsm :: "'w \<Rightarrow> nat \<Rightarrow> 'w fsm_common" where
  "example_fsm w mode =
     \<lparr>cmd = example_mgmt mode, world = w, common_hal_tx_access = False, acx_module = False, usb_buffer_status_reg = 0,
      efuse_map = \<lparr>efuse_map_version = 0, module_version = 0, module_part_no = 0, mfg_sw_version = 0, module_type = 0,
        chip_version = 0, m4sb_cert_en = 0, mfg_sw_subversion = 0, chip_id_no = 0, sdb_mode = 0\<rparr>,
      random_bytes = [1, 2, 3], reinit_hw = False, data_qs_blocked = False, queues_woken = 0, wlan_init_completions = 0,
      per = \<lparr>per_enable = False, aggr_enable = True, aggr_count = 4\<rparr>, no_of_per_fragments = 0, tx_running = 0,
      survey = \<lparr>vif0 = None, auto_chan_sel = False, survey_idx = 0, n_channels = 0, rsi_survey = []\<rparr>, chan_set_events = 0,
      mgmt_cfm_events = 0,
      bg = \<lparr>hwscan_en = False, send_initial_bgscan_chan = False, num_user_channels = 0, debugfs_bgscan = False,
        debugfs_bgscan_en = False, debugfs_stop_bgscan = False, bgscan_enabled = False, bgscan_in_prog = False,
        hw_scan_cancel = False, cancel_hw_scan_events = 0\<rparr>,
      bb_data = [], bb_values = 0, sta_stats = [], rx_rssi = [], fsm_overrun = False, start_bgscan = False, eapol4_confirm = False,
      probe_cfm_events = 0, init_done = False, acx_stop_beacon = False, null_deref = False\<rparr>"

definition example_ops :: "nat fsm_ops" where
  "example_ops =
     \<lparr>mac80211_attach = (\<lambda>n. (0, Suc n)), bb_prog_data_to_app = (\<lambda>n. (0, n)), start_per_burst = id,
      handle_ps_confirm = (\<lambda>_ n. (0, n)), send_bgscan_params = (\<lambda>_ x. x), send_bgscan_probe_req = id, scan_completed = id,
      init_bgscan = id, process_rx_stats = id, rssi_to_app = id, diag_response_to_app = (\<lambda>_. id),
      indicate_null_frame = (\<lambda>_ _. id), user_ps_enabled = (\<lambda>_. False), enable_ps = id, ulp_sleep_notify = (\<lambda>_. id),
      connection_loss = id, indicate_bcnmiss = (\<lambda>_. id), resume_conn_channel = id, send_beacon_frame = id,
      mgmt_pkt_to_core = (\<lambda>_ _ _ n. Some (0, n)), pause_wifi = id, resume_wifi = id, disable_ps_from_device = id,
      real_time_stats_to_app = (\<lambda>_. id)\<rparr>"

text \<open>A message of type \<open>ty\<close> and subtype \<open>t\<close>, with a magic word and no MAC address behind its descriptor.\<close>

definition example_msg :: "u8 \<Rightarrow> u8 \<Rightarrow> ptr" where
  "example_msg ty t = (\<lambda>i. if i = 0 then 16 else if i = 2 then ty else if i = 15 then t else if i = 16 then MAGIC_WORD else 0)"

lemma example_msgs:
  "card_ready_msg (example_msg 0 0)" "\<not> mac_given (example_msg 0 0)" "confirm_msg t (example_msg 1 t)" "eeprom_msg (example_msg 1 0xE)"
  by (simp_all add: example_msg_def card_ready_msg_def mac_given_def confirm_msg_def eeprom_msg_def msg_len_def get_le16_def)

lemma bringup_completes_witness:
  "\<exists>e. recv_all example_ops (example_fsm 0 1)
     [example_msg 0 0, example_msg 0 0, example_msg 1 0xC, example_msg 1 0x1, example_msg 1 0x2, example_msg 1 0x15] = Some e \<and>
     state e = FSM_MAC_INIT_DONE \<and> bringup_types (cmd e) = [0x28, 0xC, 0x1, 0x2, 0x33, 0x15] \<and> world e = 1"
  using bringup_completes [of "example_fsm 0 1" "example_msg 0 0" "example_msg 0 0" "example_msg 1 0xC" "example_msg 1 0xE"
      "example_msg 1 0xE" "example_msg 1 0x1" "example_msg 1 0x2" "example_msg 1 0x15" example_ops]
  by (simp add: example_msgs example_fsm_def example_mgmt_def memory_def bringup_done_def up_to_reset_def last_commands_def
      bringup_types_def example_ops_def)

lemma recv_all_reach: "recv_all ops c msgs = Some e \<Longrightarrow> fsm_reach ops c0 c \<Longrightarrow> fsm_reach ops c0 e"
  by (induction msgs arbitrary: c) (auto split: option.splits dest: fsm_reach.recv)

definition example_run :: "nat fsm_common" where
  "example_run = the (recv_all example_ops (example_fsm 0 1) [example_msg 0 0])"

lemma example_run_facts: "fsm_reach example_ops (example_fsm 0 1) example_run" "state example_run = FSM_COMMON_DEV_PARAMS_SENT"
proof -
  have "step_to example_ops (example_fsm 0 1) (example_msg 0 0) FSM_COMMON_DEV_PARAMS_SENT [0x28]"
    by (rule step_card_ready) (simp_all add: example_msgs example_fsm_def example_mgmt_def memory_def)
  then obtain c' where c: "recv_all example_ops (example_fsm 0 1) [example_msg 0 0] = Some c'" "state c' = FSM_COMMON_DEV_PARAMS_SENT"
    by (auto simp: step_to_def progress_def)
  have "example_run = c'" unfolding example_run_def c(1) by simp
  with c(2) recv_all_reach [OF c(1) fsm_reach.start]
  show "fsm_reach example_ops (example_fsm 0 1) example_run" "state example_run = FSM_COMMON_DEV_PARAMS_SENT" by simp_all
qed

lemma bringup_order_witness:
  "\<exists>k. expected RSI_DEV_9116 FSM_COMMON_DEV_PARAMS_SENT k = Some (since_ready (bringup_types (cmd example_run)))"
  using bringup_order [OF example_run_facts(1)] by (simp add: example_run_facts(2) example_fsm_def example_mgmt_def)

lemma stray_confirm_ignored_witness:
  "rsi_mgmt_pkt_recv example_ops (example_fsm 0 1) (example_msg 1 0x15) = Some (0, example_fsm 0 1)"
  using stray_confirm_ignored [of "0x15" "example_msg 1 0x15" "example_fsm 0 1" example_ops]
  by (simp add: example_msgs awaited_in_def example_fsm_def example_mgmt_def)

lemma ampdu_ind_returns_witness: "on_ampdu_ind example_ops (example_fsm 0 2) = None"
  using ampdu_ind_returns [of "example_fsm 0 2" example_ops] by (simp add: example_fsm_def example_mgmt_def)

end
