(* ===== verification/Keys.thy ===== *)
theory Keys
  imports Mgmt_Frames
begin

text \<open>
  Keys and replay detection (rsi/rsi_91x_mac80211.c): \<open>rsi_mac80211_set_key\<close>, which installs and
  removes a key when mac80211 asks for it, and \<open>rsi_validate_pn\<close>, which compares the packet number
  of a received group frame with the last one accepted.

  What these functions share with the command frames is a \<open>mgmt_common\<close>; the rest of their state
  is \<open>rx_sec\<close>. \<open>hdrlen\<close> is the kernel's \<open>ieee80211_hdrlen\<close>, the length of the 802.11 header for a
  frame control word.
\<close>

section \<open>State\<close>

record key_conf =
  cipher :: u32
  keyidx :: u8
  pairwise :: bool
  keylen :: u8
  key_data :: ptr

text \<open>An interface with its \<open>vif_priv\<close>; the packet numbers are 6 bytes, the most significant first.\<close>

record rx_vif =
  vif_type :: iftype
  vif_assoc :: bool
  vif_bssid :: "u8 list"
  vif_channel :: "u16 option"
  vap_id :: u8
  vif_key :: "key_conf option"
  rx_pn_valid :: bool
  rx_bcmc_pn :: "u8 list"
  rx_bcmc_pn_prev :: "u8 list"
  prev_keyid :: u8

record rx_sec =
  rx_vifs :: "rx_vif option list"
  sc_nvifs :: nat
  gtk_cipher :: u32
  ptk_cipher :: u32
  ap_key :: "key_conf option"          \<comment> \<open>\<open>common->key\<close>\<close>
  key_stations :: "(u8 list option \<times> int) list"
  sec_start_bgscan :: bool
  sec_qs_blocked :: bool

text \<open>\<open>struct ieee80211_key_seq\<close>, as \<open>ieee80211_get_key_rx_seq\<close> fills it for the key.\<close>

record key_seq =
  seq_pn :: "u8 list"
  seq_iv32 :: u32
  seq_iv16 :: u16

abbreviation (input) WLAN_CIPHER_SUITE_CCMP :: u32 where "WLAN_CIPHER_SUITE_CCMP \<equiv> 0x000FAC04"
abbreviation (input) WLAN_CIPHER_SUITE_CCMP_256 :: u32 where "WLAN_CIPHER_SUITE_CCMP_256 \<equiv> 0x000FAC0A"
abbreviation (input) WLAN_CIPHER_SUITE_AES_CMAC :: u32 where "WLAN_CIPHER_SUITE_AES_CMAC \<equiv> 0x000FAC06"
abbreviation (input) EOPNOTSUPP :: int where "EOPNOTSUPP \<equiv> 95"

definition rsi_is_cipher_wep :: "'z rx_sec_scheme \<Rightarrow> bool" where
  "rsi_is_cipher_wep s \<longleftrightarrow> is_wep (gtk_cipher s) \<and> ptk_cipher s = 0"

definition set_vif :: "nat \<Rightarrow> (rx_vif \<Rightarrow> rx_vif) \<Rightarrow> 'z rx_sec_scheme \<Rightarrow> 'z rx_sec_scheme" where
  [rsi_defs]: "set_vif i f s = s\<lparr>rx_vifs := (rx_vifs s)[i := map_option f (rx_vifs s ! i)]\<rparr>"

section \<open>Installing and removing keys\<close>

definition ap_vif :: "rx_vif \<Rightarrow> bool" where
  [rsi_defs]: "ap_vif v \<longleftrightarrow> vif_type v = NL80211_IFTYPE_AP \<or> vif_type v = NL80211_IFTYPE_P2P_GO"

definition key_station :: "'z rx_sec_scheme \<Rightarrow> nat \<Rightarrow> u8 list \<Rightarrow> int option" where
  "key_station s count mac =
     map_option (\<lambda>i. snd (key_stations s ! i))
       (List.find (\<lambda>i. case fst (key_stations s ! i) of
                         None \<Rightarrow> False
                       | Some addr \<Rightarrow> is_broadcast_ether_addr mac \<or> addr = mac) [0..<count])"

text \<open>\<open>rsi_load_key\<close> takes type and number of the interface added last. None: there is no such interface.\<close>

definition load_vif_key :: "'z rx_sec_scheme \<Rightarrow> key_conf \<Rightarrow> key_type \<Rightarrow> int \<Rightarrow> mgmt_common \<Rightarrow> (int \<times> mgmt_common) option" where
  "load_vif_key s key ty sta_id m =
     (case rx_vifs s ! (sc_nvifs s - 1) of
        None \<Rightarrow> None
      | Some v \<Rightarrow> Some (rsi_load_key (ap_vif v) (vap_id v) (Some (key_data key)) (ucast (keylen key)) ty (keyidx key) (cipher key) sta_id m))"

definition key_config_first ::
  "rx_vif \<Rightarrow> key_conf \<Rightarrow> int \<Rightarrow> mgmt_common \<Rightarrow> 'z rx_sec_scheme \<Rightarrow> (int \<times> mgmt_common) option" where
  "key_config_first v key sta_id m s =
     (if \<not> ap_vif v \<and> is_wep (cipher key) then load_vif_key s key RSI_PAIRWISE_KEY sta_id m else Some (0, m))"

definition key_sta_id :: "rx_vif \<Rightarrow> u8 list option \<Rightarrow> mgmt_common \<Rightarrow> 'z rx_sec_scheme \<Rightarrow> int" where
  "key_sta_id v sta m s =
     (if ap_vif v then case sta of None \<Rightarrow> 0
                       | Some addr \<Rightarrow> (case key_station s (max_stations m) addr of None \<Rightarrow> 0 | Some n \<Rightarrow> n)
      else 0)"

definition rsi_hal_key_config ::
  "rx_vif \<Rightarrow> key_conf \<Rightarrow> u8 list option \<Rightarrow> mgmt_common \<Rightarrow> 'z rx_sec_scheme \<Rightarrow> (int \<times> mgmt_common \<times> 'z rx_sec_scheme) option" where
  "rsi_hal_key_config v key sta m s =
     (let ty = (if pairwise key then RSI_PAIRWISE_KEY else RSI_GROUP_KEY);
          sta_id = key_sta_id v sta m s;
          s1 = (if ap_vif v then s\<lparr>ap_key := Some key\<rparr> else s)
      in case key_config_first v key sta_id m s of
           None \<Rightarrow> None
         | Some (st0, m1) \<Rightarrow>
           if st0 \<noteq> 0 then Some (st0, m1, s1)
           else case load_vif_key s key ty sta_id m1 of
             None \<Rightarrow> None
           | Some (status, m2) \<Rightarrow>
             if vif_type v = NL80211_IFTYPE_STATION \<and> is_wep (cipher key)
             then (let (st, m3) = rsi_send_block_unblock_frame False m2
                   in Some (status, m3, s1\<lparr>sec_start_bgscan := True, sec_qs_blocked := (if st = 0 then False else sec_qs_blocked s1)\<rparr>))
             else Some (status, m2, s1))"

text \<open>The packet number a group key starts with.\<close>

definition tkip_pn :: "key_seq \<Rightarrow> u8 list" where
  "tkip_pn q = [ucast (drop_bit 24 (seq_iv32 q)), ucast (drop_bit 16 (seq_iv32 q)), ucast (drop_bit 8 (seq_iv32 q)), ucast (seq_iv32 q),
                ucast (drop_bit 8 (seq_iv16 q)), ucast (seq_iv16 q)]"

definition start_pn :: "key_conf \<Rightarrow> key_seq \<Rightarrow> rx_vif \<Rightarrow> rx_vif" where
  "start_pn key q v =
     (if cipher key \<in> {WLAN_CIPHER_SUITE_CCMP, WLAN_CIPHER_SUITE_CCMP_256, WLAN_CIPHER_SUITE_AES_CMAC}
      then v\<lparr>rx_bcmc_pn := seq_pn q, rx_pn_valid := True, vif_key := Some key\<rparr>
      else if cipher key = WLAN_CIPHER_SUITE_TKIP
      then v\<lparr>rx_bcmc_pn := tkip_pn q, rx_pn_valid := True, vif_key := Some key\<rparr>
      else v)"

definition forget_key :: "rx_vif \<Rightarrow> rx_vif" where
  "forget_key v =
     (let v1 = (case vif_key v of None \<Rightarrow> v | Some k \<Rightarrow> v\<lparr>prev_keyid := keyidx k, rx_bcmc_pn_prev := rx_bcmc_pn v\<rparr>)
      in v1\<lparr>rx_bcmc_pn := replicate 6 0, rx_pn_valid := False, vif_key := None\<rparr>)"

datatype set_key_cmd = SET_KEY | DISABLE_KEY | OTHER_KEY_CMD

abbreviation (input) RSI_AES_CMAC :: u8 where "RSI_AES_CMAC \<equiv> 4"

definition rsi_mac80211_set_key ::
  "set_key_cmd \<Rightarrow> nat \<Rightarrow> u8 list option \<Rightarrow> key_conf \<Rightarrow> key_seq \<Rightarrow> mgmt_common \<Rightarrow> 'z rx_sec_scheme \<Rightarrow>
   (int \<times> mgmt_common \<times> 'z rx_sec_scheme) option" where
  "rsi_mac80211_set_key cmd i sta key q m s =
     (if keyidx key = RSI_AES_CMAC then Some (0, m, s)
      else case rx_vifs s ! i of
        None \<Rightarrow> None
      | Some v \<Rightarrow>
        (case cmd of
           SET_KEY \<Rightarrow>
             (case rsi_hal_key_config v key sta m s of
                None \<Rightarrow> None
              | Some (status, m1, s1) \<Rightarrow>
                if status \<noteq> 0 then Some (status, m1, s1)
                else if pairwise key then Some (0, m1, s1\<lparr>ptk_cipher := cipher key\<rparr>)
                else Some (0, m1, set_vif i (start_pn key q) (s1\<lparr>gtk_cipher := cipher key\<rparr>)))
         | DISABLE_KEY \<Rightarrow> rsi_hal_key_config v key sta m (set_vif i forget_key s)
         | OTHER_KEY_CMD \<Rightarrow> Some (- EOPNOTSUPP, m, s)))"

section \<open>Replay detection\<close>

text \<open>The C \<open>memcmp\<close> of two byte strings of the same length.\<close>

fun memcmp :: "u8 list \<Rightarrow> u8 list \<Rightarrow> int" where
  "memcmp (x # xs) (y # ys) = (if x < y then - 1 else if y < x then 1 else memcmp xs ys)"
| "memcmp _ _ = 0"

text \<open>
  The loop over the interfaces: the last station interface associated with the sender decides;
  when that one has no key or no valid number there is none.
\<close>

definition pn_choice :: "'z rx_sec_scheme \<Rightarrow> u8 list \<Rightarrow> nat option \<Rightarrow> nat \<Rightarrow> nat option" where
  "pn_choice s sender found i =
     (case rx_vifs s ! i of
        None \<Rightarrow> found
      | Some v \<Rightarrow>
        if vif_type v \<noteq> NL80211_IFTYPE_STATION \<and> vif_type v \<noteq> NL80211_IFTYPE_P2P_CLIENT \<or> \<not> vif_assoc v \<or> vif_bssid v \<noteq> sender
        then found
        else if vif_key v = None \<or> \<not> rx_pn_valid v then None else Some i)"

definition pn_vif :: "'z rx_sec_scheme \<Rightarrow> u8 list \<Rightarrow> nat option" where
  "pn_vif s sender = foldl (pn_choice s sender) None [0..<sc_nvifs s]"

definition frame_keyid :: "(u16 \<Rightarrow> nat) \<Rightarrow> u8 list \<Rightarrow> u8" where
  "frame_keyid hdrlen d = drop_bit 6 (d ! (hdrlen (frame_control d) + 3) AND 0xC0)"

definition frame_pn :: "(u16 \<Rightarrow> nat) \<Rightarrow> u32 \<Rightarrow> u8 list \<Rightarrow> u8 list" where
  "frame_pn hdrlen ciph d =
     (let h = hdrlen (frame_control d)
      in [d ! (h + 7), d ! (h + 6), d ! (h + 5), d ! (h + 4)] @
         (if ciph = WLAN_CIPHER_SUITE_CCMP then [d ! (h + 1), d ! h] else [d ! h, d ! (h + 2)]))"

definition check_pn :: "(u16 \<Rightarrow> nat) \<Rightarrow> key_conf \<Rightarrow> u8 list \<Rightarrow> rx_vif \<Rightarrow> int \<times> rx_vif" where
  "check_pn hdrlen key d v =
     (let keyid = frame_keyid hdrlen d; cur = frame_pn hdrlen (cipher key) d
      in if keyid = keyidx key
         then (if memcmp cur (rx_bcmc_pn v) \<le> 0 then (- 1, v) else (0, v\<lparr>rx_bcmc_pn := cur\<rparr>))
         else if keyid = prev_keyid v
         then (if memcmp cur (rx_bcmc_pn_prev v) \<le> 0 then (- 1, v) else (0, v\<lparr>rx_bcmc_pn_prev := cur\<rparr>))
         else (0, v))"

definition rsi_validate_pn :: "(u16 \<Rightarrow> nat) \<Rightarrow> 'z rx_sec_scheme \<Rightarrow> u8 list \<Rightarrow> int \<times> 'z rx_sec_scheme" where
  "rsi_validate_pn hdrlen s d =
     (if \<not> is_broadcast_ether_addr (wlh_addr1 d) \<and> \<not> is_multicast_ether_addr (wlh_addr1 d) then (1, s)
      else case pn_vif s (wlh_addr2 d) of
        None \<Rightarrow> (1, s)
      | Some i \<Rightarrow>
        (case rx_vifs s ! i of
           Some v \<Rightarrow> (case vif_key v of
                        Some key \<Rightarrow> let (status, v') = check_pn hdrlen key d v in (status, set_vif i (\<lambda>_. v') s)
                      | None \<Rightarrow> (1, s))
         | None \<Rightarrow> (1, s)))"


subsection \<open>Comparing packet numbers\<close>

text \<open>The packet number as a number of 48 bits.\<close>

primrec pn_value :: "u8 list \<Rightarrow> nat" where
  "pn_value [] = 0"
| "pn_value (b # bs) = unat b * 256 ^ length bs + pn_value bs"

lemma pn_value_bound: "pn_value bs < 256 ^ length bs"
proof (induction bs)
  case (Cons b bs)
  have "unat b * 256 ^ length bs + pn_value bs < unat b * 256 ^ length bs + 256 ^ length bs" using Cons by simp
  also have "\<dots> = (unat b + 1) * 256 ^ length bs" by simp
  also have "\<dots> \<le> 256 * 256 ^ length bs" using unat_u8_bound [of b] by (intro mult_right_mono) auto
  finally show ?case by simp
qed simp

lemma pn_value_less:
  assumes "x < y" "length xs = length ys"
  shows "pn_value (x # xs) < pn_value (y # ys)"
proof -
  have "pn_value (x # xs) < unat x * 256 ^ length xs + 256 ^ length xs" using pn_value_bound [of xs] by simp
  also have "\<dots> = (unat x + 1) * 256 ^ length ys" using assms(2) by simp
  also have "\<dots> \<le> unat y * 256 ^ length ys" using assms(1) by (intro mult_right_mono) (auto simp: word_less_nat_alt)
  finally show ?thesis by simp
qed

lemma memcmp_value: "length xs = length ys \<Longrightarrow> memcmp xs ys \<le> 0 \<longleftrightarrow> pn_value xs \<le> pn_value ys"
proof (induction xs ys rule: memcmp.induct)
  case (1 x xs y ys)
  then have l: "length xs = length ys" by simp
  consider "x < y" | "y < x" | "x = y" by (rule linorder_cases)
  then show ?case
  proof cases
    case 1
    then show ?thesis using pn_value_less [OF _ l] by (simp add: less_imp_le del: pn_value.simps)
  next
    case 2
    then show ?thesis using pn_value_less [OF _ l [symmetric]] by (simp add: not_le less_not_sym del: pn_value.simps)
  next
    case 3
    then show ?thesis using 1 l by simp
  qed
qed simp_all

lemma length_frame_pn [simp]: "length (frame_pn hdrlen ciph d) = 6"
  by (simp add: frame_pn_def Let_def)

subsection \<open>No replay\<close>

text \<open>What the choice of the interface looks at.\<close>

definition same_guard :: "rx_vif \<Rightarrow> rx_vif \<Rightarrow> bool" where
  "same_guard v v' \<longleftrightarrow> vif_type v' = vif_type v \<and> vif_assoc v' = vif_assoc v \<and> vif_bssid v' = vif_bssid v \<and>
     vif_key v' = vif_key v \<and> rx_pn_valid v' = rx_pn_valid v"

lemma pn_vif_Some:
  assumes "pn_vif s sender = Some i"
  obtains v k where "rx_vifs s ! i = Some v" "vif_bssid v = sender" "vif_key v = Some k"
proof -
  have "foldl (pn_choice s sender) None [0..<n] = Some i \<Longrightarrow> \<exists>v k. rx_vifs s ! i = Some v \<and> vif_bssid v = sender \<and> vif_key v = Some k" for n
    by (induction n) (auto simp: pn_choice_def split: option.splits if_splits)
  with assms that show ?thesis unfolding pn_vif_def by blast
qed

lemma pn_vif_set_vif:
  assumes "rx_vifs s ! i = Some v" "same_guard v v'" "i < length (rx_vifs s)"
  shows "pn_vif (set_vif i (\<lambda>_. v') s) sender = pn_vif s sender"
proof -
  have "pn_choice (set_vif i (\<lambda>_. v') s) sender found j = pn_choice s sender found j" for found j
    using assms by (cases "j = i") (auto simp: pn_choice_def set_vif_def same_guard_def)
  then have "pn_choice (set_vif i (\<lambda>_. v') s) sender = pn_choice s sender" by blast
  then show ?thesis by (simp add: pn_vif_def set_vif_def)
qed

lemma check_pn_guard: "check_pn hdrlen key d v = (st, v') \<Longrightarrow> same_guard v v'"
  by (auto simp: check_pn_def same_guard_def Let_def split: if_splits)

lemma check_pn_current:
  assumes "check_pn hdrlen key d v = (st, v')" "length (rx_bcmc_pn v) = 6"
  shows "if frame_keyid hdrlen d = keyidx key \<and> 0 \<le> st
         then pn_value (rx_bcmc_pn v) < pn_value (frame_pn hdrlen (cipher key) d) \<and> rx_bcmc_pn v' = frame_pn hdrlen (cipher key) d
         else rx_bcmc_pn v' = rx_bcmc_pn v"
  using assms memcmp_value [of "frame_pn hdrlen (cipher key) d" "rx_bcmc_pn v"]
  by (auto simp: check_pn_def Let_def split: if_splits)

text \<open>
  A group frame of the sender \<open>ap\<close> under the current key; and the frames that a run of
  \<open>rsi_validate_pn\<close> lets through.
\<close>

definition group_frame :: "u8 list \<Rightarrow> bool" where
  [rsi_defs]: "group_frame d \<longleftrightarrow> is_broadcast_ether_addr (wlh_addr1 d) \<or> is_multicast_ether_addr (wlh_addr1 d)"

definition counted :: "(u16 \<Rightarrow> nat) \<Rightarrow> u8 list \<Rightarrow> key_conf \<Rightarrow> u8 list \<Rightarrow> bool" where
  "counted hdrlen ap key d \<longleftrightarrow> group_frame d \<and> wlh_addr2 d = ap \<and> frame_keyid hdrlen d = keyidx key"

primrec accepted_frames :: "(u16 \<Rightarrow> nat) \<Rightarrow> 'z rx_sec_scheme \<Rightarrow> u8 list list \<Rightarrow> u8 list list" where
  "accepted_frames hdrlen s [] = []"
| "accepted_frames hdrlen s (d # ds) =
     (let (st, s') = rsi_validate_pn hdrlen s d in (if st < 0 then [] else [d]) @ accepted_frames hdrlen s' ds)"

lemma validate_cases:
  assumes "rsi_validate_pn hdrlen s d = (st, s')"
  obtains (open_frame) "st = 1" "s' = s" "\<not> (group_frame d \<and> (\<exists>i v k. pn_vif s (wlh_addr2 d) = Some i \<and> rx_vifs s ! i = Some v \<and> vif_key v = Some k))"
  | (checked) i v k v' where "group_frame d" "pn_vif s (wlh_addr2 d) = Some i" "rx_vifs s ! i = Some v" "vif_key v = Some k"
      "check_pn hdrlen k d v = (st, v')" "s' = set_vif i (\<lambda>_. v') s"
proof (cases "group_frame d \<and> (\<exists>i v k. pn_vif s (wlh_addr2 d) = Some i \<and> rx_vifs s ! i = Some v \<and> vif_key v = Some k)")
  case True
  then obtain i v k where r: "pn_vif s (wlh_addr2 d) = Some i" "rx_vifs s ! i = Some v" "vif_key v = Some k" by blast
  obtain st' v' where c: "check_pn hdrlen k d v = (st', v')" by (cases "check_pn hdrlen k d v")
  have "st' = st" "s' = set_vif i (\<lambda>_. v') s"
    using assms True r c by (auto simp: rsi_validate_pn_def group_frame_def)
  then show ?thesis using checked True r c by blast
next
  case False
  then have "st = 1" "s' = s"
    using assms by (auto simp: rsi_validate_pn_def group_frame_def split: if_splits option.splits)
  with False show ?thesis using open_frame by blast
qed

text \<open>What a run keeps: \<open>ap\<close> is the sender interface \<open>i\<close> is guarded against.\<close>

definition guarded :: "u8 list \<Rightarrow> nat \<Rightarrow> key_conf \<Rightarrow> rx_vif \<Rightarrow> 'z rx_sec_scheme \<Rightarrow> bool" where
  "guarded ap i key v s \<longleftrightarrow> pn_vif s ap = Some i \<and> i < length (rx_vifs s) \<and> rx_vifs s ! i = Some v \<and> vif_key v = Some key \<and>
     length (rx_bcmc_pn v) = 6"

lemma validate_step:
  assumes "rsi_validate_pn hdrlen s d = (st, s')" "guarded ap i key v s"
  obtains v' where "guarded ap i key v' s'"
    "if counted hdrlen ap key d \<and> 0 \<le> st
     then pn_value (rx_bcmc_pn v) < pn_value (frame_pn hdrlen (cipher key) d) \<and> rx_bcmc_pn v' = frame_pn hdrlen (cipher key) d
     else rx_bcmc_pn v' = rx_bcmc_pn v"
  using assms(1)
proof (cases rule: validate_cases)
  case open_frame
  then have "\<not> counted hdrlen ap key d" using assms(2) by (auto simp: counted_def guarded_def)
  then show ?thesis using that [of v] open_frame assms(2) by simp
next
  case (checked j u k u')
  note g = check_pn_guard [OF checked(5)]
  note i = assms(2) [unfolded guarded_def]
  obtain u1 k1 where "rx_vifs s ! j = Some u1" "vif_bssid u1 = wlh_addr2 d" using pn_vif_Some [OF checked(2)] by blast
  then have u: "vif_bssid u = wlh_addr2 d" using checked(3) by simp
  obtain v1 k2 where "rx_vifs s ! i = Some v1" "vif_bssid v1 = ap" using pn_vif_Some [of s ap i] i by blast
  then have v: "vif_bssid v = ap" using i by simp
  show ?thesis
  proof (cases "j = i")
    case True
    then have e: "u = v" "k = key" "rx_vifs s' ! i = Some u'" using checked i by (auto simp: set_vif_def)
    note c = check_pn_current [OF checked(5), unfolded e(1,2)]
    have len: "length (rx_bcmc_pn v) = 6" using i by simp
    have "length (rx_bcmc_pn u') = 6" using c [OF len] len by (auto split: if_splits)
    moreover have "pn_vif s' ap = Some i" using pn_vif_set_vif [OF checked(3) g] True checked(6) i by simp
    ultimately have "guarded ap i key u' s'"
      using e g i checked(6) True by (auto simp: guarded_def same_guard_def set_vif_def)
    then show ?thesis using that [of u'] c [OF len] e(1) u v checked(1) by (auto simp: counted_def)
  next
    case False
    then have "wlh_addr2 d \<noteq> ap" using checked(2) i by auto
    moreover have "rx_vifs s' ! i = Some v" using False checked(6) i by (simp add: set_vif_def)
    moreover have "pn_vif s' ap = Some i"
    proof (cases "j < length (rx_vifs s)")
      case True
      then show ?thesis using pn_vif_set_vif [OF checked(3) g] checked(6) i by simp
    next
      case F: False
      then have "rx_vifs s' = rx_vifs s" "sc_nvifs s' = sc_nvifs s" using checked(6) F by (simp_all add: set_vif_def list_update_beyond)
      then have "pn_vif s' ap = pn_vif s ap" by (simp add: pn_vif_def pn_choice_def [abs_def])
      then show ?thesis using i by simp
    qed
    ultimately show ?thesis using that [of v] i checked(6) by (auto simp: counted_def guarded_def set_vif_def)
  qed
qed

text \<open>
  C10. Replay detection: while a group key is installed, the frames an access point sends under that key
  and the driver accepts have strictly increasing packet numbers, all above the number the key
  started with, whatever other frames arrive in between. A captured frame is never accepted again.
\<close>
theorem replay_protected:
  assumes "guarded ap i key v s"
  shows "sorted_wrt (<) (pn_value (rx_bcmc_pn v) #
    map (\<lambda>d. pn_value (frame_pn hdrlen (cipher key) d)) (filter (counted hdrlen ap key) (accepted_frames hdrlen s ds)))"
  using assms
proof (induction ds arbitrary: s v)
  case (Cons d ds)
  obtain st s' where r: "rsi_validate_pn hdrlen s d = (st, s')" by fastforce
  obtain v' where g: "guarded ap i key v' s'" and c: "if counted hdrlen ap key d \<and> 0 \<le> st
     then pn_value (rx_bcmc_pn v) < pn_value (frame_pn hdrlen (cipher key) d) \<and> rx_bcmc_pn v' = frame_pn hdrlen (cipher key) d
     else rx_bcmc_pn v' = rx_bcmc_pn v"
    using validate_step [OF r Cons.prems] by blast
  from c Cons.IH [OF g] r show ?case
    by (cases "counted hdrlen ap key d"; cases "0 \<le> st") (auto intro: less_trans)
qed simp

text \<open>A station associated with an access point, with a group key whose packet numbers start at 0.\<close>

definition example_key :: key_conf where
  "example_key = \<lparr>cipher = 0x000FAC04, keyidx = 1, pairwise = False, keylen = 16, key_data = (\<lambda>_. 0)\<rparr>"

definition example_vif :: rx_vif where
  "example_vif = \<lparr>vif_type = NL80211_IFTYPE_STATION, vif_assoc = True, vif_bssid = [2, 0, 0, 0, 0, 1], vif_channel = Some 6, vap_id = 0,
     vif_key = Some example_key, rx_pn_valid = True, rx_bcmc_pn = [0, 0, 0, 0, 0, 0], rx_bcmc_pn_prev = [0, 0, 0, 0, 0, 0], prev_keyid = 0\<rparr>"

definition example_sec :: rx_sec where
  "example_sec = \<lparr>rx_vifs = [Some example_vif, None, None], sc_nvifs = 1, gtk_cipher = 0x000FAC04, ptk_cipher = 0x000FAC04,
     ap_key = None, key_stations = [], sec_start_bgscan = False, sec_qs_blocked = False\<rparr>"

text \<open>A broadcast frame of the access point with packet number \<open>n\<close> under key 1.\<close>

definition example_group_frame :: "u8 \<Rightarrow> u8 list" where
  "example_group_frame n =
     [0x08, 0x42, 0, 0, 0xFF, 0xFF, 0xFF, 0xFF, 0xFF, 0xFF, 2, 0, 0, 0, 0, 1, 0, 0, 0, 0, 0, 0, 0, 0, n, 0, 0, 0x60, 0, 0, 0, 0]"

lemma example_guarded: "guarded [2, 0, 0, 0, 0, 1] 0 example_key example_vif example_sec"
  by (simp add: guarded_def pn_vif_def pn_choice_def example_sec_def example_vif_def example_key_def)

lemma example_frame_reads:
  "group_frame (example_group_frame n)" "wlh_addr2 (example_group_frame n) = [2, 0, 0, 0, 0, 1]"
  "frame_keyid (\<lambda>_. 24) (example_group_frame n) = 1" "frame_pn (\<lambda>_. 24) 0x000FAC04 (example_group_frame n) = [0, 0, 0, 0, 0, n]"
  by (simp_all add: example_group_frame_def group_frame_def is_multicast_ether_addr_def addr_at_def frame_keyid_def frame_pn_def Let_def)

definition example_at :: "u8 \<Rightarrow> rx_sec" where
  "example_at k = set_vif 0 (\<lambda>v. v\<lparr>rx_bcmc_pn := [0, 0, 0, 0, 0, k]\<rparr>) example_sec"

lemma example_step:
  "accepted_frames (\<lambda>_. 24) (example_at k) (example_group_frame n # ds) =
     (if n \<le> k then accepted_frames (\<lambda>_. 24) (example_at k) ds
      else example_group_frame n # accepted_frames (\<lambda>_. 24) (example_at n) ds)"
proof -
  let ?v = "example_vif\<lparr>rx_bcmc_pn := [0, 0, 0, 0, 0, k]\<rparr>"
  have p: "pn_vif (example_at k) [2, 0, 0, 0, 0, 1] = Some 0" "rx_vifs (example_at k) ! 0 = Some ?v" "vif_key ?v = Some example_key"
    by (simp_all add: pn_vif_def pn_choice_def example_at_def example_sec_def example_vif_def set_vif_def example_key_def)
  have c: "check_pn (\<lambda>_. 24) example_key (example_group_frame n) ?v =
      (if n \<le> k then (- 1, ?v) else (0, ?v\<lparr>rx_bcmc_pn := [0, 0, 0, 0, 0, n]\<rparr>))"
    using example_frame_reads [of n] by (auto simp: check_pn_def example_key_def)
  have "rsi_validate_pn (\<lambda>_. 24) (example_at k) (example_group_frame n) = (if n \<le> k then (- 1, example_at k) else (0, example_at n))"
    using example_frame_reads(1,2) [of n] p c
    by (auto simp: rsi_validate_pn_def group_frame_def example_at_def set_vif_def example_sec_def)
  then show ?thesis by simp
qed

lemma replay_protected_witness:
  "accepted_frames (\<lambda>_. 24) example_sec [example_group_frame 5, example_group_frame 5, example_group_frame 3, example_group_frame 9]
     = [example_group_frame 5, example_group_frame 9] \<and>
   sorted_wrt (<) [0, 5, 9 :: nat]"
proof -
  have e: "example_sec = example_at 0" by (simp add: example_at_def example_sec_def example_vif_def set_vif_def)
  have "counted (\<lambda>_. 24) [2, 0, 0, 0, 0, 1] example_key (example_group_frame n)" for n
    by (simp add: counted_def example_frame_reads example_key_def)
  then show ?thesis
    using replay_protected [OF example_guarded, of "\<lambda>_. 24" "[example_group_frame 5, example_group_frame 5, example_group_frame 3, example_group_frame 9]"]
    unfolding e by (simp add: example_step example_frame_reads(4) example_key_def example_vif_def del: accepted_frames.simps(2))
qed

section \<open>Removing a key\<close>

lemma load_vif_key_forget:
  "i < length (rx_vifs s) \<Longrightarrow> load_vif_key (set_vif i forget_key s) key ty sta_id m = load_vif_key s key ty sta_id m"
  by (cases "i = sc_nvifs s - 1") (auto simp: load_vif_key_def set_vif_def ap_vif_def forget_key_def Let_def split: option.splits)

lemma set_vif_simps [simp]:
  "key_stations (set_vif i f s) = key_stations s" "sec_qs_blocked (set_vif i f s) = sec_qs_blocked s"
  "set_vif i f s\<lparr>ap_key := k\<rparr> = set_vif i f (s\<lparr>ap_key := k\<rparr>)"
  "set_vif i f s\<lparr>sec_start_bgscan := b\<rparr> = set_vif i f (s\<lparr>sec_start_bgscan := b\<rparr>)"
  "set_vif i f s\<lparr>sec_qs_blocked := b\<rparr> = set_vif i f (s\<lparr>sec_qs_blocked := b\<rparr>)"
  by (simp_all add: set_vif_def)

lemma hal_key_config_forget:
  assumes "i < length (rx_vifs s)"
  shows "rsi_hal_key_config v key sta m (set_vif i forget_key s) =
    map_option (\<lambda>(st, m', s'). (st, m', set_vif i forget_key s')) (rsi_hal_key_config v key sta m s)"
proof -
  have "key_station (set_vif i forget_key s) n a = key_station s n a" for n a by (simp add: key_station_def)
  then have k: "key_sta_id v sta m (set_vif i forget_key s) = key_sta_id v sta m s" by (simp add: key_sta_id_def split: option.split)
  have l: "load_vif_key (set_vif i forget_key s) key ty sta_id m' = load_vif_key s key ty sta_id m'" for ty sta_id m'
    by (rule load_vif_key_forget [OF assms])
  then have f: "key_config_first v key sta_id m' (set_vif i forget_key s) = key_config_first v key sta_id m' s" for sta_id m'
    by (simp add: key_config_first_def)
  let ?id = "key_sta_id v sta m s"
  show ?thesis
  proof (cases "key_config_first v key ?id m s")
    case None
    then show ?thesis by (simp add: rsi_hal_key_config_def k f)
  next
    case (Some r)
    obtain st0 m1 where r: "r = (st0, m1)" by (cases r)
    show ?thesis
    proof (cases "load_vif_key s key (if pairwise key then RSI_PAIRWISE_KEY else RSI_GROUP_KEY) ?id m1")
      case None
      then show ?thesis using Some r by (simp add: rsi_hal_key_config_def k f l)
    next
      case (Some r2)
      obtain st m2 where r2: "r2 = (st, m2)" by (cases r2)
      obtain st3 m3 where u: "rsi_send_block_unblock_frame False m2 = (st3, m3)" by fastforce
      show ?thesis using \<open>key_config_first v key ?id m s = Some r\<close> r Some r2 u by (simp add: rsi_hal_key_config_def k f l Let_def)
    qed
  qed
qed

lemma hal_key_config_vifs:
  "rsi_hal_key_config v key sta m s = Some (st, m', s') \<Longrightarrow> rx_vifs s' = rx_vifs s \<and> sc_nvifs s' = sc_nvifs s"
  by (auto simp: rsi_hal_key_config_def Let_def split: option.splits prod.splits if_splits)

text \<open>
  Removing any key of an interface, a pairwise key or an old group key included, sends the
  device the same command as installing it, with the key in it, and it turns replay
  detection off for that interface: every group frame of its access point is let
  through, whatever its packet number, until the next group key is installed.
\<close>
theorem disable_key_effects:
  assumes "rsi_mac80211_set_key DISABLE_KEY i sta key q m s = Some (st, m', s')" "keyidx key \<noteq> RSI_AES_CMAC"
    "sc_nvifs s = Suc i" "i < length (rx_vifs s)" "rx_vifs s ! i = Some v"
    "vif_type v = NL80211_IFTYPE_STATION" "vif_assoc v" "wlh_addr2 d = vif_bssid v"
  shows "(\<exists>st2 s2. rsi_mac80211_set_key SET_KEY i sta key q m s = Some (st2, m', s2)) \<and> rsi_validate_pn hdrlen s' d = (1, s')"
proof -
  have k: "rsi_hal_key_config v key sta m (set_vif i forget_key s) = Some (st, m', s')"
    using assms(1,2,5) by (simp add: rsi_mac80211_set_key_def)
  then obtain s1 where h: "rsi_hal_key_config v key sta m s = Some (st, m', s1)" and s': "s' = set_vif i forget_key s1"
    using hal_key_config_forget [OF assms(4)] by auto
  have "rx_vifs s' ! i = Some (forget_key v)" "sc_nvifs s' = Suc i" "vif_bssid (forget_key v) = vif_bssid v"
      "vif_type (forget_key v) = vif_type v" "vif_assoc (forget_key v) = vif_assoc v" "vif_key (forget_key v) = None"
    using hal_key_config_vifs [OF h] s' assms(3-5) by (simp_all add: set_vif_def forget_key_def Let_def split: option.splits)
  then have "pn_vif s' (vif_bssid v) = None" using assms(6,7) by (simp add: pn_vif_def pn_choice_def)
  then have "rsi_validate_pn hdrlen s' d = (1, s')" using assms(8) by (simp add: rsi_validate_pn_def)
  then show ?thesis using h assms(2,5) by (auto simp: rsi_mac80211_set_key_def)
qed

lemma disable_key_effects_witness:
  "\<exists>st m' s'. rsi_mac80211_set_key DISABLE_KEY 0 None (example_key\<lparr>keyidx := 2\<rparr>) \<lparr>seq_pn = [], seq_iv32 = 0, seq_iv16 = 0\<rparr>
     (example_mgmt 1) example_sec = Some (st, m', s') \<and> rsi_validate_pn (\<lambda>_. 24) s' (example_group_frame 0) = (1, s')"
proof -
  have "rsi_hal_key_config example_vif (example_key\<lparr>keyidx := 2\<rparr>) None (example_mgmt 1) (set_vif 0 forget_key example_sec) \<noteq> None"
    by (simp add: rsi_hal_key_config_def load_vif_key_def key_config_first_def ap_vif_def is_wep_def example_key_def example_vif_def
        example_sec_def set_vif_def forget_key_def Let_def split: prod.splits)
  then obtain st m' s' where r: "rsi_mac80211_set_key DISABLE_KEY 0 None (example_key\<lparr>keyidx := 2\<rparr>)
      \<lparr>seq_pn = [], seq_iv32 = 0, seq_iv16 = 0\<rparr> (example_mgmt 1) example_sec = Some (st, m', s')"
    by (auto simp: rsi_mac80211_set_key_def example_sec_def example_key_def)
  show ?thesis
    using disable_key_effects [OF r, of example_vif "example_group_frame 0" "\<lambda>_. 24"] r example_frame_reads(2) [of 0]
    by (auto simp: example_sec_def example_vif_def example_key_def)
qed

end
