(* ===== verification/Rx_Frame.thy ===== *)
theory Rx_Frame
  imports Keys
begin

text \<open>
  A received frame on its way to mac80211 (rsi/rsi_91x_mac80211.c, and \<open>rsi_prepare_skb\<close> and
  \<open>rsi_mgmt_pkt_to_core\<close> of rsi/rsi_91x_main.c and rsi/rsi_91x_mgmt.c): the copy out of the received
  buffer, the signal level and its monitoring, the check and removal of the encryption
  header, and the header of the subframes of an A-MSDU.

  A result None means that the kernel dies: a copy or a push beyond the end of a buffer.
\<close>

section \<open>State\<close>

text \<open>\<open>rx_rssi\<close> and \<open>signal\<close> are the bits of an \<open>s8\<close>.\<close>

record rx_skb =
  rx_data :: "u8 list"
  rx_headroom :: nat
  rx_rssi :: u8
  rx_chan :: u16

record rx_status =
  signal :: u8
  on_5ghz :: bool
  freq :: nat
  rx_decrypted :: bool
  rx_iv_stripped :: bool
  rx_mmic_stripped :: bool
  rx_mic_stripped :: bool

record cqm_info =
  last_cqm_event_rssi :: u8
  rssi_thold :: int
  rssi_hyst :: u32

datatype cqm_event = CQM_LOW | CQM_HIGH

text \<open>
  \<open>skb_pad\<close> is the kernel's \<open>NET_SKB_PAD\<close>, the headroom of a new buffer; \<open>stale\<close> the bytes that happen to
  lie behind the data of a short buffer.
\<close>

record rx_common = rx_sec +
  amsdu_bit :: nat
  last_mac_hdr :: "u8 list"
  cqm_info :: cqm_info
  cqm_events :: "(cqm_event \<times> u8) list"
  beacon_losses :: nat
  rx_alloc :: "nat \<Rightarrow> u32 \<Rightarrow> bool"
  rx_allocs :: nat
  skb_pad :: nat
  stale :: ptr
  to_os :: "(u8 list \<times> rx_status) list"
  rx_freed :: nat

text \<open>
  Functions of the kernel, and the processing of the elements of a beacon (\<open>process_rx_mgmt_beacon\<close>,
  which records the multiple-BSSID settings of the access point).
\<close>

record 'z rx_env =
  hdrlen :: "u16 \<Rightarrow> nat"
  channel_to_frequency :: "u8 \<Rightarrow> bool \<Rightarrow> nat"
  process_rx_mgmt_beacon :: "u8 list \<Rightarrow> 'z rx_common_scheme \<Rightarrow> 'z rx_common_scheme"

abbreviation (input) ENOLINK :: int where "ENOLINK \<equiv> 67"

section \<open>Signal level\<close>

definition rsi_get_connected_channel :: "mgmt_common \<Rightarrow> 'z rx_sec_scheme \<Rightarrow> u16" where
  "rsi_get_connected_channel m s =
     (if iface_down m \<or> rx_vifs s ! 0 = None then - 22
      else case rx_vifs s ! (sc_nvifs s - 1) of
        None \<Rightarrow> - 22
      | Some v \<Rightarrow> (case vif_channel v of None \<Rightarrow> 0 | Some ch \<Rightarrow> ch))"

text \<open>
  \<open>rsi_perform_cqm\<close>: \<open>rssi_hyst\<close> is a \<open>u32\<close>, so the comparisons with the last reported level are
  unsigned comparisons of 32 bits, those with the threshold are signed.
\<close>

definition cqm_decision :: "cqm_info \<Rightarrow> u8 \<Rightarrow> cqm_event option" where
  "cqm_decision i rssi =
     (let r = (scast rssi :: u32); last_event = (scast (last_cqm_event_rssi i) :: u32); first = (last_cqm_event_rssi i = 0)
      in if sint rssi < rssi_thold i \<and> (first \<or> r < last_event - rssi_hyst i) then Some CQM_LOW
         else if rssi_thold i < sint rssi \<and> (first \<or> last_event + rssi_hyst i < r) then Some CQM_HIGH
         else None)"

definition rsi_perform_cqm :: "mgmt_common \<Rightarrow> u8 \<Rightarrow> 'z rx_common_scheme \<Rightarrow> 'z rx_common_scheme" where
  "rsi_perform_cqm m rssi s =
     (if iface_down m then s
      else case cqm_decision (cqm_info s) rssi of
        None \<Rightarrow> s
      | Some e \<Rightarrow> s\<lparr>cqm_info := (cqm_info s)\<lparr>last_cqm_event_rssi := rssi\<rparr>, cqm_events := cqm_events s @ [(e, rssi)]\<rparr>)"

definition rsi_indicate_bcnmiss :: "mgmt_common \<Rightarrow> 'z rx_common_scheme \<Rightarrow> 'z rx_common_scheme" where
  "rsi_indicate_bcnmiss m s = (if iface_down m then s else s\<lparr>beacon_losses := Suc (beacon_losses s)\<rparr>)"

section \<open>Encryption header\<close>

definition has_protected :: "u16 \<Rightarrow> bool" where
  [rsi_defs]: "has_protected fc = bit fc 14"

definition is_frag :: "u8 list \<Rightarrow> bool" where
  "is_frag d \<longleftrightarrow> bit (frame_control d) 10 \<or> d ! 22 AND 0x0F \<noteq> 0"

text \<open>\<open>memmove\<close> of the \<open>n\<close> header bytes by \<open>k\<close> towards the end, within the buffer.\<close>

definition move_header :: "nat \<Rightarrow> nat \<Rightarrow> u8 list \<Rightarrow> u8 list" where
  "move_header k n d = take (length d) (take k d @ take n d @ drop (k + n) d)"

definition skb_pull :: "nat \<Rightarrow> u8 list \<Rightarrow> u8 list" where
  [rsi_defs]: "skb_pull k d = (if length d < k then d else drop k d)"

abbreviation (input) IEEE80211_CCMP_HDR_LEN :: nat where "IEEE80211_CCMP_HDR_LEN \<equiv> 8"

definition base_status :: "'z rx_env \<Rightarrow> rx_skb \<Rightarrow> rx_status" where
  "base_status env skb =
     (let ch = (ucast (rx_chan skb) :: u8); five = (32 \<le> ch \<and> ch \<le> 173)
      in \<lparr>signal = - rx_rssi skb, on_5ghz = five, freq = channel_to_frequency env ch five, rx_decrypted = False,
          rx_iv_stripped = False, rx_mmic_stripped = False, rx_mic_stripped = False\<rparr>)"

text \<open>
  The data that \<open>hdr\<close> still points to, the data of the buffer afterwards, and the flags; None: the
  frame was freed. \<open>hdr\<close> keeps pointing to where the header was before it moved.
\<close>

definition strip_encryption ::
  "'z rx_env \<Rightarrow> mgmt_common \<Rightarrow> u8 list \<Rightarrow> rx_status \<Rightarrow> 'z rx_common_scheme \<Rightarrow> (u8 list \<times> u8 list \<times> rx_status) option \<times> 'z rx_common_scheme" where
  "strip_encryption env m d st s =
     (let n = hdrlen env (frame_control d)
      in if \<not> has_protected (frame_control d) then (Some (d, d, st), s)
         else if rsi_is_cipher_wep s
         then (Some (move_header 4 n d, skb_pull 4 (move_header 4 n d), st\<lparr>rx_iv_stripped := True, rx_decrypted := True\<rparr>), s)
         else if driver_mode m = SNIFFER_MODE
         then (Some (d, d, st\<lparr>rx_iv_stripped := True, rx_decrypted := True\<rparr>), s)
         else if length d < n + IEEE80211_CCMP_HDR_LEN then (None, s\<lparr>rx_freed := Suc (rx_freed s)\<rparr>)
         else
           let (pn, s1) = rsi_validate_pn (hdrlen env) s d
           in if pn < 0 then (None, s1\<lparr>rx_freed := Suc (rx_freed s1)\<rparr>)
              else if is_frag d then (Some (d, d, st\<lparr>rx_mic_stripped := True, rx_decrypted := True\<rparr>), s1)
              else (Some (move_header 8 n d, skb_pull 8 (move_header 8 n d),
                          st\<lparr>rx_mmic_stripped := True, rx_iv_stripped := True, rx_decrypted := True\<rparr>), s1))"

definition rsi_fill_rx_status ::
  "'z rx_env \<Rightarrow> mgmt_common \<Rightarrow> rx_skb \<Rightarrow> 'z rx_common_scheme \<Rightarrow> (rx_skb \<times> rx_status) option \<times> 'z rx_common_scheme" where
  "rsi_fill_rx_status env m skb s =
     (case strip_encryption env m (rx_data skb) (base_status env skb) s of
        (None, s1) \<Rightarrow> (None, s1)
      | (Some (hdr, d, st), s1) \<Rightarrow>
        let s2 = (case rx_vifs s1 ! (sc_nvifs s1 - 1) of
                    None \<Rightarrow> s1
                  | Some v \<Rightarrow>
                    if vif_type v = NL80211_IFTYPE_STATION \<and> vif_assoc v \<and> vif_bssid v = wlh_addr2 hdr \<and>
                       ieee80211_is_beacon (frame_control hdr)
                    then rsi_perform_cqm m (signal st) s1 else s1)
        in (Some (skb\<lparr>rx_data := d\<rparr>, st), s2))"

section \<open>To mac80211\<close>

text \<open>
  A subframe of an A-MSDU comes without header. \<open>amsdu_bit\<close> is 1 for the first one, whose
  header is kept, 2 for those in the middle and 3 for the last; 0 outside an A-MSDU.
\<close>

definition amsdu_header :: "rx_skb \<Rightarrow> 'z rx_common_scheme \<Rightarrow> (rx_skb \<times> 'z rx_common_scheme) option" where
  "amsdu_header skb s =
     (if amsdu_bit s = 1 then Some (skb, s\<lparr>last_mac_hdr := bytes_at (ptr_of (stale s) (rx_data skb)) 0 26\<rparr>)
      else if amsdu_bit s = 2 \<or> amsdu_bit s = 3
      then (if rx_headroom skb < 26 then None
            else Some (skb\<lparr>rx_data := last_mac_hdr s @ rx_data skb, rx_headroom := rx_headroom skb - 26\<rparr>,
                       if amsdu_bit s = 3 then s\<lparr>last_mac_hdr := replicate 26 0, amsdu_bit := 0\<rparr> else s))
      else Some (skb, s))"

definition rsi_indicate_pkt_to_os ::
  "'z rx_env \<Rightarrow> mgmt_common \<Rightarrow> rx_skb \<Rightarrow> 'z rx_common_scheme \<Rightarrow> 'z rx_common_scheme option" where
  "rsi_indicate_pkt_to_os env m skb s =
     (if iface_down m \<or> sc_nvifs s = 0 then Some (s\<lparr>rx_freed := Suc (rx_freed s)\<rparr>)
      else case amsdu_header skb s of
        None \<Rightarrow> None
      | Some (skb1, s1) \<Rightarrow>
        (case rsi_fill_rx_status env m skb1 s1 of
           (None, s2) \<Rightarrow> Some s2
         | (Some (skb2, st), s2) \<Rightarrow>
           Some (if driver_mode m = SNIFFER_MODE \<and> length (rx_data skb2) \<le> 4 then s2\<lparr>rx_freed := Suc (rx_freed s2)\<rparr>
                 else s2\<lparr>to_os := to_os s2 @ [(rx_data skb2, st)]\<rparr>)))"

text \<open>\<open>dev_alloc_skb\<close> of the given size.\<close>

definition rx_alloc_skb :: "u32 \<Rightarrow> 'z rx_common_scheme \<Rightarrow> bool \<times> 'z rx_common_scheme" where
  [rsi_defs]: "rx_alloc_skb bytes s = (rx_alloc s (rx_allocs s) bytes, s\<lparr>rx_allocs := Suc (rx_allocs s)\<rparr>)"

text \<open>
  \<open>rsi_prepare_skb\<close>. The subtraction of the extended descriptor is one of 32 bits, the offset
  of the payload has 8. When the sum with \<open>FRAME_DESC_SZ\<close> wraps around, the copy is longer
  than the buffer.
\<close>

definition rsi_prepare_skb ::
  "mgmt_common \<Rightarrow> ptr \<Rightarrow> u32 \<Rightarrow> u8 \<Rightarrow> 'z rx_common_scheme \<Rightarrow> (rx_skb option \<times> 'z rx_common_scheme) option" where
  "rsi_prepare_skb m buf pkt_len extended_desc s =
     (if pkt_len = 0 then Some (None, s)
      else
        let n = (if pkt_len > 8000 then 8000 else pkt_len) - ucast extended_desc;
            bytes = n + 16;
            (ok, s1) = rx_alloc_skb bytes s
        in if \<not> ok then Some (None, s1)
           else if bytes < n then None
           else Some (Some \<lparr>rx_data = bytes_at buf (unat (extended_desc + 16)) (unat n), rx_headroom = skb_pad s1,
                            rx_rssi = buf 16, rx_chan = rsi_get_connected_channel m s1\<rparr>, s1))"

text \<open>A management frame (\<open>rsi_mgmt_pkt_to_core\<close>, without \<open>CONFIG_RSI_11K\<close> and \<open>CONFIG_TWT_SUPPORT\<close>).\<close>

definition rsi_mgmt_pkt_to_core ::
  "'z rx_env \<Rightarrow> mgmt_common \<Rightarrow> ptr \<Rightarrow> nat \<Rightarrow> 'z rx_common_scheme \<Rightarrow> (int \<times> 'z rx_common_scheme) option" where
  "rsi_mgmt_pkt_to_core env m msg len s =
     (let pad = unat (msg 4)
      in if sc_nvifs s = 0 then Some (- ENOLINK, s)
         else if iface_down m then Some (- ENODEV, s)
         else if len \<le> pad then Some (- EINVAL, s)
         else
           let (ok, s1) = rx_alloc_skb (of_nat (len - pad)) s
           in if \<not> ok then Some (- ENOMEM, s1)
              else
                let skb = \<lparr>rx_data = bytes_at msg (16 + pad) (len - pad), rx_headroom = skb_pad s1, rx_rssi = msg 16,
                           rx_chan = ucast (msg 15)\<rparr>;
                    s2 = (if ieee80211_is_beacon (frame_control (rx_data skb))
                          then process_rx_mgmt_beacon env (rx_data skb) s1 else s1)
                in (case rsi_indicate_pkt_to_os env m skb s2 of None \<Rightarrow> None | Some s3 \<Rightarrow> Some (0, s3)))"

text \<open>What \<open>rsi_read_pkt\<close> notes of the position of a frame in an A-MSDU, from a word of its descriptor.\<close>

definition note_amsdu :: "u32 \<Rightarrow> 'z rx_common_scheme \<Rightarrow> 'z rx_common_scheme" where
  "note_amsdu w s =
     (if bit w 25 then s\<lparr>amsdu_bit := (if bit w 22 then 1 else if bit w 23 then 3 else 2)\<rparr> else s)"

section \<open>Signal level monitoring\<close>

text \<open>What the monitoring means to compute, in signed arithmetic.\<close>

definition cqm_reference :: "int \<Rightarrow> int \<Rightarrow> int \<Rightarrow> int \<Rightarrow> cqm_event option" where
  "cqm_reference thold hyst last_event rssi =
     (if rssi < thold \<and> (last_event = 0 \<or> rssi < last_event - hyst) then Some CQM_LOW
      else if thold < rssi \<and> (last_event = 0 \<or> last_event + hyst < rssi) then Some CQM_HIGH
      else None)"

lemma sint_u8: "sint (x :: u8) \<ge> - 128" "sint (x :: u8) < 128"
  using sint_greater_eq [of x] sint_less [of x] by simp_all

lemma uint_wi: "- 4294967296 \<le> k \<Longrightarrow> k < 0 \<Longrightarrow> uint (word_of_int k :: u32) = k + 4294967296"
    "0 \<le> k \<Longrightarrow> k < 4294967296 \<Longrightarrow> uint (word_of_int k :: u32) = k"
  using mod_pos_pos_trivial [of "k + 4294967296" 4294967296] mod_pos_pos_trivial [of k 4294967296] by (auto simp: uint_word_of_int)

lemma scast_wi:
  fixes h :: u32
  shows "(scast (x :: u8) :: u32) = word_of_int (sint x)" "scast x - h = word_of_int (sint x - uint h)" "scast x + h = word_of_int (sint x + uint h)"
proof -
  show e: "(scast x :: u32) = word_of_int (sint x)" by (rule scast_eq)
  have h: "h = word_of_int (uint h)" by simp
  show "scast x - h = word_of_int (sint x - uint h)" by (subst h) (simp only: e wi_hom_sub)
  show "scast x + h = word_of_int (sint x + uint h)" by (subst h) (simp only: e wi_hom_add)
qed

text \<open>
  C21. The monitoring of the signal level is what it means to be, for levels and a last reported
  level below 0 dBm and a hysteresis below 128: an event when the level leaves the last
  reported one by more than the hysteresis, on the far side of the threshold. Only close to 0 dBm,
  when last level plus hysteresis is not negative, the unsigned comparison lets every level above the
  threshold through: the hysteresis has no effect there.
\<close>
theorem cqm_reference_equiv:
  assumes "sint rssi < 0" "sint (last_cqm_event_rssi i) \<le> 0" "uint (rssi_hyst i) < 128"
  shows "if last_cqm_event_rssi i = 0 \<or> sint (last_cqm_event_rssi i) + uint (rssi_hyst i) < 0
    then cqm_decision i rssi = cqm_reference (rssi_thold i) (uint (rssi_hyst i)) (sint (last_cqm_event_rssi i)) (sint rssi)
    else rssi_thold i < sint rssi \<longrightarrow> cqm_decision i rssi = Some CQM_HIGH"
proof -
  let ?l = "sint (last_cqm_event_rssi i)" and ?h = "uint (rssi_hyst i)" and ?r = "sint rssi"
  have b: "- 128 \<le> ?l" "- 128 \<le> ?r" "0 \<le> ?h" using sint_u8 by simp_all
  have z: "last_cqm_event_rssi i = 0 \<longleftrightarrow> ?l = 0" using signed_word_eqI [of "last_cqm_event_rssi i" 0] by auto
  have r: "uint (scast rssi :: u32) = ?r + 4294967296" unfolding scast_wi(1) by (rule uint_wi(1)) (use assms b in linarith)+
  have low: "(scast rssi :: u32) < scast (last_cqm_event_rssi i) - rssi_hyst i \<longleftrightarrow> ?r < ?l - ?h" if "?l < 0"
  proof -
    have "uint (word_of_int (?l - ?h) :: u32) = ?l - ?h + 4294967296" by (rule uint_wi(1)) (use that assms b in linarith)+
    then show ?thesis unfolding word_less_def r scast_wi(2) by linarith
  qed
  have high: "scast (last_cqm_event_rssi i) + rssi_hyst i < (scast rssi :: u32) \<longleftrightarrow> \<not> ?l + ?h < 0 \<or> ?l + ?h < ?r" if "?l < 0"
  proof (cases "?l + ?h < 0")
    case True
    have "uint (word_of_int (?l + ?h) :: u32) = ?l + ?h + 4294967296" by (rule uint_wi(1)) (use True assms b in linarith)+
    then show ?thesis using True unfolding word_less_def r scast_wi(3) by linarith
  next
    case False
    have "uint (word_of_int (?l + ?h) :: u32) = ?l + ?h" by (rule uint_wi(2)) (use False that assms b in linarith)+
    then show ?thesis using False that assms b unfolding word_less_def r scast_wi(3) by linarith
  qed
  show ?thesis
    using low high assms z unfolding cqm_decision_def cqm_reference_def Let_def by (cases "?l = 0") auto
qed

lemma cqm_reference_equiv_witness:
  "cqm_decision \<lparr>last_cqm_event_rssi = 196, rssi_thold = - 70, rssi_hyst = 5\<rparr> 176 = Some CQM_LOW"
proof -
  have "sint (176 :: u8) = - 80" "sint (196 :: u8) = - 60" by simp_all
  then show ?thesis
    using cqm_reference_equiv [of 176 "\<lparr>last_cqm_event_rssi = 196, rssi_thold = - 70, rssi_hyst = 5\<rparr>"]
    by (simp add: cqm_reference_def)
qed

section \<open>Delivery\<close>

text \<open>A driver whose interface is up, in an ordinary mode.\<close>

definition receiving :: "mgmt_common \<Rightarrow> 'z rx_common_scheme \<Rightarrow> bool" where
  "receiving m s \<longleftrightarrow> \<not> iface_down m \<and> driver_mode m \<noteq> SNIFFER_MODE \<and> 0 < sc_nvifs s"

text \<open>The state after a delivery: only \<open>to_os\<close> and the monitoring have changed.\<close>

definition delivered :: "u8 list \<times> rx_status \<Rightarrow> 'z rx_common_scheme \<Rightarrow> 'z rx_common_scheme \<Rightarrow> bool" where
  "delivered f s s' \<longleftrightarrow>
     s' = s\<lparr>to_os := to_os s @ [f], cqm_info := cqm_info s', cqm_events := cqm_events s'\<rparr>"

lemma delivered_simps:
  assumes "delivered f s s'"
  shows "to_os s' = to_os s @ [f]" "amsdu_bit s' = amsdu_bit s" "last_mac_hdr s' = last_mac_hdr s" "sc_nvifs s' = sc_nvifs s"
    "rx_freed s' = rx_freed s" "skb_pad s' = skb_pad s" "rx_alloc s' = rx_alloc s" "rx_common.more s' = rx_common.more s"
    "rx_vifs s' = rx_vifs s"
  by (subst assms [unfolded delivered_def]; simp)+

lemma fill_plain:
  assumes "\<not> has_protected (frame_control (rx_data skb))"
  obtains s' where "rsi_fill_rx_status env m skb s = (Some (skb, base_status env skb), s')"
    "s' = s\<lparr>cqm_info := cqm_info s', cqm_events := cqm_events s'\<rparr>"
proof -
  have "rsi_perform_cqm m g s = s\<lparr>cqm_info := cqm_info (rsi_perform_cqm m g s), cqm_events := cqm_events (rsi_perform_cqm m g s)\<rparr>" for g
    by (simp add: rsi_perform_cqm_def split: option.splits)
  then show ?thesis
    using that assms by (auto simp: rsi_fill_rx_status_def strip_encryption_def Let_def split: option.splits)
qed

text \<open>An unprotected frame reaches mac80211 as it is, behind the header of its A-MSDU.\<close>

lemma indicate_plain:
  assumes "receiving m s" "amsdu_header skb s = Some (skb1, s1)" "sc_nvifs s1 = sc_nvifs s" "\<not> has_protected (frame_control (rx_data skb1))"
  obtains s' where "rsi_indicate_pkt_to_os env m skb s = Some s'" "delivered (rx_data skb1, base_status env skb1) s1 s'"
proof -
  obtain s2 where f: "rsi_fill_rx_status env m skb1 s1 = (Some (skb1, base_status env skb1), s2)"
      "s2 = s1\<lparr>cqm_info := cqm_info s2, cqm_events := cqm_events s2\<rparr>"
    using fill_plain [OF assms(4)] by blast
  have "to_os s2 = to_os s1" by (subst f(2)) simp
  then have "delivered (rx_data skb1, base_status env skb1) s1 (s2\<lparr>to_os := to_os s2 @ [(rx_data skb1, base_status env skb1)]\<rparr>)"
    unfolding delivered_def by (subst (1) f(2)) simp
  then show ?thesis
    using that f(1) assms by (simp add: rsi_indicate_pkt_to_os_def receiving_def)
qed

text \<open>The subframes of an A-MSDU as they arrive, each with the word of its descriptor.\<close>

definition receive_subframe ::
  "'z rx_env \<Rightarrow> mgmt_common \<Rightarrow> u32 \<times> rx_skb \<Rightarrow> 'z rx_common_scheme \<Rightarrow> 'z rx_common_scheme option" where
  "receive_subframe env m f s = rsi_indicate_pkt_to_os env m (snd f) (note_amsdu (fst f) s)"

primrec receive_all ::
  "'z rx_env \<Rightarrow> mgmt_common \<Rightarrow> (u32 \<times> rx_skb) list \<Rightarrow> 'z rx_common_scheme \<Rightarrow> 'z rx_common_scheme option" where
  "receive_all env m [] s = Some s"
| "receive_all env m (f # fs) s = (case receive_subframe env m f s of None \<Rightarrow> None | Some s' \<Rightarrow> receive_all env m fs s')"

definition amsdu_first :: "u32 \<times> rx_skb \<Rightarrow> bool" where
  "amsdu_first f \<longleftrightarrow> bit (fst f) 25 \<and> bit (fst f) 22"

definition amsdu_middle :: "u32 \<times> rx_skb \<Rightarrow> bool" where
  "amsdu_middle f \<longleftrightarrow> bit (fst f) 25 \<and> \<not> bit (fst f) 22 \<and> \<not> bit (fst f) 23 \<and> 26 \<le> rx_headroom (snd f)"

definition amsdu_last :: "u32 \<times> rx_skb \<Rightarrow> bool" where
  "amsdu_last f \<longleftrightarrow> bit (fst f) 25 \<and> \<not> bit (fst f) 22 \<and> bit (fst f) 23 \<and> 26 \<le> rx_headroom (snd f)"

text \<open>A header of 26 bytes that belongs to an unprotected frame.\<close>

definition plain_header :: "u8 list \<Rightarrow> bool" where
  "plain_header h \<longleftrightarrow> length h = 26 \<and> \<not> has_protected (frame_control h)"

lemma plain_header_append: "plain_header h \<Longrightarrow> \<not> has_protected (frame_control (h @ d))"
  by (auto simp: plain_header_def frame_control_def nth_append)

lemma receiving_note [simp]: "receiving m (note_amsdu w s) = receiving m s"
  by (simp add: receiving_def note_amsdu_def)

lemma delivered_receiving: "delivered f s s' \<Longrightarrow> receiving m s' = receiving m s"
  by (simp add: receiving_def delivered_simps)

lemma subframe_with_header:
  assumes "receiving m s" "plain_header (last_mac_hdr s)" "amsdu_middle f \<or> amsdu_last f"
  obtains s' where "receive_subframe env m f s = Some s'" "map fst (to_os s') = map fst (to_os s) @ [last_mac_hdr s @ rx_data (snd f)]"
    "receiving m s'" "if amsdu_last f then amsdu_bit s' = 0 else last_mac_hdr s' = last_mac_hdr s"
proof -
  let ?s = "note_amsdu (fst f) s" and ?skb = "snd f\<lparr>rx_data := last_mac_hdr s @ rx_data (snd f), rx_headroom := rx_headroom (snd f) - 26\<rparr>"
  let ?s1 = "if amsdu_last f then ?s\<lparr>last_mac_hdr := replicate 26 0, amsdu_bit := 0\<rparr> else ?s"
  have h: "amsdu_header (snd f) ?s = Some (?skb, ?s1)"
  proof -
    have "amsdu_bit ?s = (if amsdu_last f then 3 else 2)" "26 \<le> rx_headroom (snd f)" "last_mac_hdr ?s = last_mac_hdr s"
      using assms(3) unfolding amsdu_middle_def amsdu_last_def note_amsdu_def by fastforce+
    then show ?thesis by (cases "amsdu_last f") (simp_all add: amsdu_header_def)
  qed
  have p: "receiving m ?s" "sc_nvifs ?s1 = sc_nvifs ?s" "\<not> has_protected (frame_control (rx_data ?skb))"
    using assms(1) plain_header_append [OF assms(2)] by simp_all
  obtain s' where s': "rsi_indicate_pkt_to_os env m (snd f) ?s = Some s'" and d: "delivered (rx_data ?skb, base_status env ?skb) ?s1 s'"
    using indicate_plain [OF p(1) h p(2,3)] by blast
  have r: "receiving m ?s1" using assms(1) by (simp add: receiving_def note_amsdu_def)
  have "map fst (to_os s') = map fst (to_os s) @ [last_mac_hdr s @ rx_data (snd f)]" "receiving m s'"
      "if amsdu_last f then amsdu_bit s' = 0 else last_mac_hdr s' = last_mac_hdr s"
    using delivered_simps [OF d] delivered_receiving [OF d] r by (auto simp: note_amsdu_def)
  then show ?thesis using that s' by (simp add: receive_subframe_def)
qed

lemma subframe_first:
  assumes "receiving m s" "plain_header (take 26 (rx_data (snd f)))" "amsdu_first f"
  obtains s' where "receive_subframe env m f s = Some s'" "map fst (to_os s') = map fst (to_os s) @ [rx_data (snd f)]"
    "receiving m s'" "last_mac_hdr s' = take 26 (rx_data (snd f))"
proof -
  let ?s = "note_amsdu (fst f) s"
  have len: "26 \<le> length (rx_data (snd f))" using assms(2) by (auto simp: plain_header_def min_def split: if_splits)
  have np: "\<not> has_protected (frame_control (rx_data (snd f)))"
    using plain_header_append [OF assms(2), of "drop 26 (rx_data (snd f))"] by simp
  have h: "amsdu_header (snd f) ?s = Some (snd f, ?s\<lparr>last_mac_hdr := take 26 (rx_data (snd f))\<rparr>)"
    using assms(3) len by (simp add: amsdu_header_def amsdu_first_def note_amsdu_def bytes_at_ptr_of)
  have p: "receiving m ?s" "sc_nvifs (?s\<lparr>last_mac_hdr := take 26 (rx_data (snd f))\<rparr>) = sc_nvifs ?s" using assms(1) by simp_all
  obtain s' where s': "rsi_indicate_pkt_to_os env m (snd f) ?s = Some s'"
      and d: "delivered (rx_data (snd f), base_status env (snd f)) (?s\<lparr>last_mac_hdr := take 26 (rx_data (snd f))\<rparr>) s'"
    using indicate_plain [OF p(1) h p(2) np] by blast
  have "receiving m (?s\<lparr>last_mac_hdr := take 26 (rx_data (snd f))\<rparr>)" using assms(1) by (simp add: receiving_def note_amsdu_def)
  then show ?thesis
    using that s' delivered_simps [OF d] delivered_receiving [OF d] by (auto simp: receive_subframe_def note_amsdu_def)
qed

lemma middles_and_last:
  assumes "receiving m s" "plain_header (last_mac_hdr s)" "\<forall>f \<in> set mids. amsdu_middle f" "amsdu_last l"
  shows "\<exists>s'. receive_all env m (mids @ [l]) s = Some s' \<and> amsdu_bit s' = 0 \<and>
    map fst (to_os s') = map fst (to_os s) @ map (\<lambda>f. last_mac_hdr s @ rx_data (snd f)) (mids @ [l])"
  using assms
proof (induction mids arbitrary: s)
  case Nil
  obtain s1 where "receive_subframe env m l s = Some s1" "map fst (to_os s1) = map fst (to_os s) @ [last_mac_hdr s @ rx_data (snd l)]"
      "amsdu_bit s1 = 0"
    using subframe_with_header [OF Nil(1,2), of l env] Nil(4) by auto
  then show ?case by simp
next
  case (Cons f fs)
  have nl: "\<not> amsdu_last f" using Cons.prems(3) by (simp add: amsdu_middle_def amsdu_last_def)
  obtain s1 where s1: "receive_subframe env m f s = Some s1" "map fst (to_os s1) = map fst (to_os s) @ [last_mac_hdr s @ rx_data (snd f)]"
      "receiving m s1" "last_mac_hdr s1 = last_mac_hdr s"
    using subframe_with_header [OF Cons.prems(1,2), of f env] Cons.prems(3) nl by auto
  then show ?case using Cons.IH [of s1] Cons.prems by auto
qed

text \<open>
  C22. The subframes of an unprotected A-MSDU that arrive one after the other, the first with a QoS data header of 26 bytes
  and the others in buffers with 26 bytes of headroom, on an interface that is up, reach mac80211 each behind the
  802.11 header of the first one, in order, and the driver is outside an A-MSDU again afterwards. Of protected
  subframes nothing is stated: they pass through the check and removal of the encryption header besides.
\<close>
theorem amsdu_reassembled:
  assumes "receiving m s" "amsdu_first f" "plain_header (take 26 (rx_data (snd f)))"
    "\<forall>g \<in> set mids. amsdu_middle g" "amsdu_last l"
  shows "\<exists>s'. receive_all env m (f # mids @ [l]) s = Some s' \<and> amsdu_bit s' = 0 \<and>
    map fst (to_os s') = map fst (to_os s) @ rx_data (snd f) # map (\<lambda>g. take 26 (rx_data (snd f)) @ rx_data (snd g)) (mids @ [l])"
proof -
  obtain s1 where "receive_subframe env m f s = Some s1" "map fst (to_os s1) = map fst (to_os s) @ [rx_data (snd f)]"
      "receiving m s1" "last_mac_hdr s1 = take 26 (rx_data (snd f))"
    using subframe_first [OF assms(1,3,2)] by blast
  then show ?thesis using middles_and_last [of m s1 mids l env] assms(3-5) by auto
qed

text \<open>
  A management frame that arrives between two subframes of an A-MSDU reaches mac80211 with the 26
  bytes of the A-MSDU's header in front of its own, and so does every frame after an A-MSDU whose last
  subframe was lost: nothing but a last subframe takes the driver out of an A-MSDU.
\<close>
theorem amsdu_interrupted:
  assumes "receiving m s" "plain_header (last_mac_hdr s)" "amsdu_bit s = 2" "26 \<le> skb_pad s"
    "unat (msg 4) < len" "len < 4096" "rx_alloc s (rx_allocs s) (of_nat (len - unat (msg 4)))"
    "\<not> ieee80211_is_beacon (frame_control (bytes_at msg (16 + unat (msg 4)) (len - unat (msg 4))))"
  shows "\<exists>s'. rsi_mgmt_pkt_to_core env m msg len s = Some (0, s') \<and> amsdu_bit s' = 2 \<and>
    map fst (to_os s') = map fst (to_os s) @ [last_mac_hdr s @ bytes_at msg (16 + unat (msg 4)) (len - unat (msg 4))]"
proof -
  let ?data = "bytes_at msg (16 + unat (msg 4)) (len - unat (msg 4))" and ?s = "s\<lparr>rx_allocs := Suc (rx_allocs s)\<rparr>"
  let ?skb = "\<lparr>rx_data = ?data, rx_headroom = skb_pad s, rx_rssi = msg 16, rx_chan = ucast (msg 15)\<rparr>"
  let ?skb1 = "?skb\<lparr>rx_data := last_mac_hdr s @ ?data, rx_headroom := skb_pad s - 26\<rparr>"
  have h: "amsdu_header ?skb ?s = Some (?skb1, ?s)" using assms(3,4) by (simp add: amsdu_header_def)
  have r: "receiving m ?s" using assms(1) by (simp add: receiving_def)
  have np: "\<not> has_protected (frame_control (rx_data ?skb1))" using plain_header_append [OF assms(2)] by simp
  obtain s' where s': "rsi_indicate_pkt_to_os env m ?skb ?s = Some s'" and d: "delivered (rx_data ?skb1, base_status env ?skb1) ?s s'"
    using indicate_plain [OF r h refl np] by blast
  then show ?thesis
    using assms delivered_simps [OF d] by (simp add: rsi_mgmt_pkt_to_core_def rx_alloc_skb_def receiving_def)
qed

section \<open>Examples\<close>

definition example_rx :: rx_common where
  "example_rx =
     \<lparr>rx_vifs = [Some example_vif, None, None], sc_nvifs = 1, gtk_cipher = 0, ptk_cipher = 0, ap_key = None, key_stations = [],
      sec_start_bgscan = False, sec_qs_blocked = False, amsdu_bit = 0, last_mac_hdr = replicate 26 0,
      cqm_info = \<lparr>last_cqm_event_rssi = 0, rssi_thold = 0, rssi_hyst = 0\<rparr>, cqm_events = [], beacon_losses = 0,
      rx_alloc = (\<lambda>_ _. True), rx_allocs = 0, skb_pad = 64, stale = (\<lambda>_. 0), to_os = [], rx_freed = 0\<rparr>"

definition example_env :: "unit rx_env" where
  "example_env = \<lparr>hdrlen = (\<lambda>_. 24), channel_to_frequency = (\<lambda>_ _. 0), process_rx_mgmt_beacon = (\<lambda>_ s. s)\<rparr>"

definition example_up :: mgmt_common where
  "example_up = (example_mgmt 1)\<lparr>iface_down := False\<rparr>"

lemma example_receiving: "receiving example_up example_rx"
  by (simp add: receiving_def example_up_def example_rx_def example_mgmt_def)

text \<open>An unprotected QoS data header.\<close>

definition example_header :: "u8 list" where
  "example_header = [0x88, 0x02] @ replicate 24 0"

lemma example_header_plain: "plain_header example_header"
  by (simp add: plain_header_def example_header_def frame_control_def has_protected_def bit_simps)

definition example_skb :: "u8 list \<Rightarrow> rx_skb" where
  "example_skb d = \<lparr>rx_data = d, rx_headroom = 64, rx_rssi = 40, rx_chan = 6\<rparr>"

lemma amsdu_reassembled_witness:
  "\<exists>s'. receive_all example_env example_up
      [(BIT 25 OR BIT 22, example_skb (example_header @ [1])), (BIT 25, example_skb [2]), (BIT 25 OR BIT 23, example_skb [3])] example_rx = Some s' \<and>
    map fst (to_os s') = [example_header @ [1], example_header @ [2], example_header @ [3]]"
proof -
  have "length example_header = 26" by (simp add: example_header_def)
  then show ?thesis
    using amsdu_reassembled [OF example_receiving, of "(BIT 25 OR BIT 22, example_skb (example_header @ [1]))" "[(BIT 25, example_skb [2])]"
        "(BIT 25 OR BIT 23, example_skb [3])" example_env] example_header_plain
    by (auto simp: amsdu_first_def amsdu_middle_def amsdu_last_def example_skb_def bit_simps bit_BIT example_rx_def)
qed

lemma amsdu_interrupted_witness:
  "\<exists>s'. rsi_mgmt_pkt_to_core example_env example_up (\<lambda>_. 0) 24 (example_rx\<lparr>amsdu_bit := 2, last_mac_hdr := example_header\<rparr>) = Some (0, s') \<and>
    map fst (to_os s') = [example_header @ replicate 24 0]"
proof -
  let ?s = "example_rx\<lparr>amsdu_bit := 2, last_mac_hdr := example_header\<rparr>"
  have r: "receiving example_up ?s" using example_receiving by (simp add: receiving_def)
  have b: "bytes_at (\<lambda>_. 0) 16 24 = replicate 24 0" by (intro nth_equalityI) simp_all
  show ?thesis
    using amsdu_interrupted [OF r, of "\<lambda>_. 0" 24 example_env] example_header_plain
    by (auto simp: b example_rx_def fc_is_def frame_control_def)
qed

end
