(* ===== verification/Rx_Path.thy ===== *)
theory Rx_Path
  imports Rx_Frame Bringup Power_Save
begin

text \<open>
  The receive path (\<open>rsi_read_pkt\<close> of rsi/rsi_91x_main.c and the receive threads of
  rsi/rsi_91x_sdio_ops.c and rsi/rsi_91x_usb_ops.c): a buffer from the bus holds several packets one after
  the other, each with its length, the offset of its descriptor and the descriptor, and every
  packet goes to the handler of its queue.

  Here the parts meet: the world in which the state machine of \<open>Fsm\<close> runs is the state of the receive half
  of mac80211 (\<open>Rx_Frame\<close>) and of power save (\<open>Power_Save\<close>), and \<open>driver_ops\<close> puts their
  functions into its table of operations. The frames power save queues are kept in a queue of their own.
\<close>

section \<open>The driver\<close>

text \<open>\<open>time_left\<close> is what remains of the traffic timer, \<open>var_interval - (jiffies - old_jiffies)\<close>.\<close>

record rx_world = rx_common +
  power :: ps_adapter
  due_time :: nat
  time_left :: nat

type_synonym world_env = "unit rx_world_ext rx_env"

definition in_power :: "(ps_adapter \<Rightarrow> ps_adapter) \<Rightarrow> rx_world \<Rightarrow> rx_world" where
  [rsi_defs]: "in_power f w = w\<lparr>power := f (power w)\<rparr>"

text \<open>The handling of the message \<open>DISABLE_PS_FROM_LMAC\<close> (mgmt.c), by its subtype.\<close>

definition pause_traffic :: "rx_world \<Rightarrow> rx_world" where
  "pause_traffic w = (in_power (\<lambda>a. a\<lparr>wifi_paused := True\<rparr>) w)\<lparr>due_time := time_left w\<rparr>"

definition resume_traffic :: "rx_world \<Rightarrow> rx_world" where
  "resume_traffic w =
     in_power (\<lambda>a. let a1 = a\<lparr>wifi_paused := False\<rparr> in if due_time w \<noteq> 0 then a1\<lparr>ps_timer := Some (due_time w)\<rparr> else a1) w"

definition disable_from_lmac :: "rx_world \<Rightarrow> rx_world" where
  "disable_from_lmac = in_power (\<lambda>a. check_traffic_pwr_save (a\<lparr>disable_ps_from_lmac := True\<rparr>))"

text \<open>The operations the message handlers call: those modelled here in place, the others from \<open>ext\<close>.\<close>

definition driver_ops :: "world_env \<Rightarrow> rx_world fsm_ops \<Rightarrow> rx_world fsm_ops" where
  "driver_ops env ext = ext
     \<lparr>handle_ps_confirm := (\<lambda>msg w. let (status, a) = rsi_handle_ps_confirm (power w) msg in (status, w\<lparr>power := a\<rparr>)),
      user_ps_enabled := (\<lambda>w. user_ps_en (power w)),
      enable_ps := in_power rsi_enable_ps,
      indicate_bcnmiss := rsi_indicate_bcnmiss,
      mgmt_pkt_to_core := rsi_mgmt_pkt_to_core env,
      pause_wifi := pause_traffic,
      resume_wifi := resume_traffic,
      disable_ps_from_device := disable_from_lmac\<rparr>"

section \<open>Packets in a received buffer\<close>

abbreviation (input) RSI_ZIGB_Q :: u16 where "RSI_ZIGB_Q \<equiv> 1"

definition desc_queueno :: "ptr \<Rightarrow> u16" where
  "desc_queueno p = drop_bit 12 (get_le16 p 0 AND 0x7000)"

definition desc_length :: "ptr \<Rightarrow> u32" where
  "desc_length p = ucast (get_le16 p 0 AND 0x0fff)"

definition rsi_get_extended_desc :: "ptr \<Rightarrow> u8" where
  "rsi_get_extended_desc p = ucast (get_le16 p 4 AND 0x00ff)"

text \<open>Traffic seen while power save is on (\<open>check_traffic_pwr_save\<close>).\<close>

definition note_traffic :: "rx_world \<Rightarrow> rx_world" where
  "note_traffic w =
     (case rx_vifs w ! 0 of
        None \<Rightarrow> w
      | Some v \<Rightarrow>
        let a = power w
        in if user_ps_en a \<and> (monitor_interval (ps_info a) \<noteq> 0 \<or> disable_ps_from_lmac a) \<and> vif_type v = NL80211_IFTYPE_STATION
           then in_power check_traffic_pwr_save w else w)"

text \<open>A data packet; the flag says whether a buffer for it could be had.\<close>

definition read_data :: "world_env \<Rightarrow> ptr \<Rightarrow> rx_world fsm_common \<Rightarrow> (bool \<times> rx_world fsm_common) option" where
  "read_data env p c =
     (case rsi_prepare_skb (cmd c) p (desc_length p) (rsi_get_extended_desc p) (world c) of
        None \<Rightarrow> None
      | Some (None, w) \<Rightarrow> Some (False, c\<lparr>world := w\<rparr>)
      | Some (Some skb, w) \<Rightarrow>
        (case rsi_indicate_pkt_to_os env (cmd c) skb (note_amsdu (get_le32 p 28) (note_traffic w)) of
           None \<Rightarrow> None
         | Some w' \<Rightarrow> Some (True, c\<lparr>world := w'\<rparr>)))"

text \<open>One round of the loop: leave it with success, with an error, or go on by so many bytes.\<close>

datatype read_result = Read_Stop | Read_Fail | Read_Next nat

definition read_one ::
  "world_env \<Rightarrow> rx_world fsm_ops \<Rightarrow> ptr \<Rightarrow> rx_world fsm_common \<Rightarrow> (read_result \<times> rx_world fsm_common) option" where
  "read_one env ops frame_desc c =
     (let actual_length = unat (get_le16 frame_desc 0); offset = unat (get_le16 frame_desc 2);
          p = ptr_add frame_desc offset; queueno = desc_queueno p
      in if queueno \<noteq> RSI_ZIGB_Q \<and> (actual_length < 4 + FRAME_DESC_SZ \<or> offset < 4) then Some (Read_Stop, c)
         else if queueno = RSI_COEX_Q \<or> queueno = RSI_WIFI_MGMT_Q
         then map_option (\<lambda>(_, c'). (Read_Next actual_length, c')) (rsi_mgmt_pkt_recv (driver_ops env ops) c p)
         else if queueno = RSI_WIFI_DATA_Q
         then map_option (\<lambda>(ok, c'). (if ok then Read_Next actual_length else Read_Fail, c')) (read_data env p c)
         else Some (Read_Fail, c))"

lemma read_one_next: "read_one env ops fd c = Some (Read_Next n, c') \<Longrightarrow> 20 \<le> n"
  by (auto simp: read_one_def Let_def split: if_splits)

function read_loop ::
  "world_env \<Rightarrow> rx_world fsm_ops \<Rightarrow> ptr \<Rightarrow> nat \<Rightarrow> int \<Rightarrow> rx_world fsm_common \<Rightarrow> (int \<times> rx_world fsm_common) option" where
  "read_loop env ops rx_pkt index rcv_pkt_len c =
     (case read_one env ops (ptr_add rx_pkt index) c of
        None \<Rightarrow> None
      | Some (Read_Stop, c') \<Rightarrow> Some (0, c')
      | Some (Read_Fail, c') \<Rightarrow> Some (- EINVAL, c')
      | Some (Read_Next n, c') \<Rightarrow>
        if 0 < rcv_pkt_len - int n then read_loop env ops rx_pkt (index + n) (rcv_pkt_len - int n) c' else Some (0, c'))"
  by pat_completeness auto
termination
  by (relation "measure (\<lambda>(env, ops, rx_pkt, index, rcv, c). nat rcv)") (auto dest: read_one_next)

declare read_loop.simps [simp del]

definition rsi_read_pkt ::
  "world_env \<Rightarrow> rx_world fsm_ops \<Rightarrow> ptr \<Rightarrow> int \<Rightarrow> rx_world fsm_common \<Rightarrow> (int \<times> rx_world fsm_common) option" where
  "rsi_read_pkt env ops rx_pkt rcv_pkt_len c = read_loop env ops rx_pkt 0 rcv_pkt_len c"

section \<open>The receive threads\<close>

text \<open>
  The inner loop of \<open>rsi_sdio_rx_thread\<close>, over the buffers in its queue (data and length). The flag
  is False when the thread has returned; the buffers behind the failing one stay in the queue.
\<close>

fun sdio_rx_drain ::
  "world_env \<Rightarrow> rx_world fsm_ops \<Rightarrow> (ptr \<times> nat) list \<Rightarrow> rx_world fsm_common \<Rightarrow> (bool \<times> (ptr \<times> nat) list \<times> rx_world fsm_common) option" where
  "sdio_rx_drain env ops [] c = Some (True, [], c)"
| "sdio_rx_drain env ops ((p, len) # q) c =
     (case rsi_read_pkt env ops p (int len) c of
        None \<Rightarrow> None
      | Some (status, c') \<Rightarrow> if status \<noteq> 0 then Some (False, q, c') else sdio_rx_drain env ops q c')"

text \<open>The inner loop of \<open>rsi_usb_rx_thread\<close>: a buffer holds one packet, and errors are only logged.\<close>

fun usb_rx_drain :: "world_env \<Rightarrow> rx_world fsm_ops \<Rightarrow> ptr list \<Rightarrow> rx_world fsm_common \<Rightarrow> rx_world fsm_common option" where
  "usb_rx_drain env ops [] c = Some c"
| "usb_rx_drain env ops (p # q) c =
     (case rsi_read_pkt env ops p 0 c of None \<Rightarrow> None | Some (_, c') \<Rightarrow> usb_rx_drain env ops q c')"

section \<open>An aggregate of data frames\<close>

text \<open>The bytes of \<open>xs\<close> lie at \<open>p\<close>.\<close>

definition holds :: "ptr \<Rightarrow> u8 list \<Rightarrow> bool" where
  "holds p xs \<longleftrightarrow> bytes_at p 0 (length xs) = xs"

lemma holds_append: "holds p (xs @ ys) \<longleftrightarrow> holds p xs \<and> holds (ptr_add p (length xs)) ys"
  using bytes_at_append [of p 0 "length xs" "length ys"] by (auto simp: holds_def append_eq_append_conv)

lemma holds_nth: "holds p xs \<Longrightarrow> i < length xs \<Longrightarrow> p i = xs ! i"
  by (metis add_0 holds_def nth_bytes_at)

lemma get_le16_ptr_add: "get_le16 (ptr_add p k) i = get_le16 p (k + i)"
  by (simp add: get_le16_def ptr_add_def add.assoc)

lemma holds_get_le16: "holds p (put_le16 w) \<Longrightarrow> get_le16 p 0 = w"
  using holds_nth [of p "put_le16 w" 0] holds_nth [of p "put_le16 w" 1]
  by (simp add: get_le16_def put_le16_def) (rule bit_word_eqI, auto simp: bit_simps)

lemma holds_words:
  assumes "holds p (put_words ws)" "i < length ws"
  shows "get_le16 p (2 * i) = ws ! i"
proof -
  have "put_words ws = put_words (take i ws) @ put_le16 (ws ! i) @ put_words (drop (Suc i) ws)"
    using id_take_nth_drop [OF assms(2)] by (metis append_Cons append_assoc append_self_conv2 concat_append map_append put_words_Cons put_words_def)
  then have "holds (ptr_add p (2 * i)) (put_le16 (ws ! i))" using assms by (auto simp: holds_append)
  then show ?thesis using holds_get_le16 [of "ptr_add p (2 * i)"] by (simp add: get_le16_ptr_add)
qed

lemma len_queue_reads:
  assumes "n < 4096" "unat q < 8"
  shows "drop_bit 12 (len_queue n q AND 0x7000) = q" "unat (len_queue n q AND 0x0fff) = n"
proof -
  have m: "(0x7000 :: u16) = push_bit 12 (mask 3)" by (simp add: mask_eq_exp_minus_1)
  have q: "drop_bit 12 (len_queue n q) = q" using len_queue_fields(2) [of n q] assms by simp
  have "drop_bit 12 (len_queue n q AND 0x7000) = drop_bit 12 (len_queue n q) AND mask 3"
    unfolding m by (rule bit_word_eqI) (auto simp: bit_simps)
  also have "\<dots> = q" unfolding q using low_bits_div [of q 3] assms(2) by (intro bit_word_eqI) (auto simp: bit_simps)
  finally show "drop_bit 12 (len_queue n q AND 0x7000) = q" .
  show "unat (len_queue n q AND 0x0fff) = n" using len_queue_fields(1) [of n q] assms by simp
qed

text \<open>
  A data packet as the device puts it into a buffer: lengths, a gap, the descriptor with the length
  of the extended descriptor in word 2, the extended descriptor and the frame.
\<close>

record data_pkt =
  dp_gap :: "u8 list"
  dp_type :: u16
  dp_words :: "u16 list"
  dp_ext :: "u8 list"
  dp_frame :: "u8 list"

definition pkt_words :: "data_pkt \<Rightarrow> u16 list" where
  "pkt_words d = [len_queue (length (dp_ext d) + length (dp_frame d)) RSI_WIFI_DATA_Q, dp_type d, of_nat (length (dp_ext d))] @ dp_words d"

definition encode_pkt :: "data_pkt \<Rightarrow> u8 list" where
  "encode_pkt d =
     put_le16 (of_nat (20 + length (dp_gap d) + length (dp_ext d) + length (dp_frame d))) @ put_le16 (of_nat (4 + length (dp_gap d))) @
     dp_gap d @ put_words (pkt_words d) @ dp_ext d @ dp_frame d"

definition pkt_fits :: "data_pkt \<Rightarrow> bool" where
  "pkt_fits d \<longleftrightarrow> length (dp_words d) = 5 \<and> length (encode_pkt d) < 65536 \<and>
     length (dp_ext d) + length (dp_frame d) < 4096 \<and> 16 \<le> length (dp_ext d) \<and> length (dp_ext d) < 240 \<and> 0 < length (dp_frame d)"

text \<open>A frame that is neither protected nor a subframe of an A-MSDU.\<close>

definition pkt_plain :: "data_pkt \<Rightarrow> bool" where
  "pkt_plain d \<longleftrightarrow> \<not> bit (dp_ext d ! 15) 1 \<and> \<not> has_protected (frame_control (dp_frame d))"

text \<open>
  The reference: what becomes of one packet, given as its extended descriptor and frame, and of a
  sequence of packets, which ends at the first one for which there is no buffer.
\<close>

definition ext_word :: "data_pkt \<Rightarrow> u32" where
  "ext_word d = get_le32 (\<lambda>i. dp_ext d ! i) 12"

definition receive_pkt :: "world_env \<Rightarrow> data_pkt \<Rightarrow> rx_world fsm_common \<Rightarrow> (bool \<times> rx_world fsm_common) option" where
  "receive_pkt env d c =
     (let (ok, w) = rx_alloc_skb (of_nat (length (dp_frame d)) + 16) (world c);
          skb = \<lparr>rx_data = dp_frame d, rx_headroom = skb_pad w, rx_rssi = dp_ext d ! 0, rx_chan = rsi_get_connected_channel (cmd c) w\<rparr>
      in if \<not> ok then Some (False, c\<lparr>world := w\<rparr>)
         else map_option (\<lambda>w. (True, c\<lparr>world := w\<rparr>)) (rsi_indicate_pkt_to_os env (cmd c) skb (note_amsdu (ext_word d) (note_traffic w))))"

primrec receive_pkts :: "world_env \<Rightarrow> data_pkt list \<Rightarrow> rx_world fsm_common \<Rightarrow> (int \<times> rx_world fsm_common) option" where
  "receive_pkts env [] c = Some (0, c)"
| "receive_pkts env (d # ds) c =
     (case receive_pkt env d c of
        None \<Rightarrow> None
      | Some (ok, c') \<Rightarrow> if ok then receive_pkts env ds c' else Some (- EINVAL, c'))"

lemma length_encode: "length (dp_words d) = 5 \<Longrightarrow> length (encode_pkt d) = 20 + length (dp_gap d) + length (dp_ext d) + length (dp_frame d)"
  by (simp add: encode_pkt_def pkt_words_def)

text \<open>What the driver reads of such a packet.\<close>

lemma encoded_reads:
  assumes "holds fd (encode_pkt d)" "pkt_fits d"
  defines "p \<equiv> ptr_add fd (4 + length (dp_gap d))"
  shows "unat (get_le16 fd 0) = length (encode_pkt d)" "unat (get_le16 fd 2) = 4 + length (dp_gap d)"
    "desc_queueno p = RSI_WIFI_DATA_Q" "desc_length p = of_nat (length (dp_ext d) + length (dp_frame d))"
    "rsi_get_extended_desc p = of_nat (length (dp_ext d))" "get_le32 p 28 = ext_word d" "p 16 = dp_ext d ! 0"
    "bytes_at p (16 + length (dp_ext d)) (length (dp_frame d)) = dp_frame d"
proof -
  let ?n = "length (dp_ext d) + length (dp_frame d)"
  have w5: "length (dp_words d) = 5" and bounds: "length (encode_pkt d) < 65536" "?n < 4096" using assms(2) by (simp_all add: pkt_fits_def)
  have h: "holds fd (put_le16 (of_nat (length (encode_pkt d))))" "holds (ptr_add fd 2) (put_le16 (of_nat (4 + length (dp_gap d))))"
      "holds p (put_words (pkt_words d))" "holds (ptr_add p 16) (dp_ext d)" "holds (ptr_add p (16 + length (dp_ext d))) (dp_frame d)"
    using assms(1) w5 length_encode [OF w5] unfolding encode_pkt_def p_def
    by (simp_all add: holds_append pkt_words_def numeral_eq_Suc)
  show "unat (get_le16 fd 0) = length (encode_pkt d)" using holds_get_le16 [OF h(1)] bounds by (simp add: unat_of_nat_small)
  show "unat (get_le16 fd 2) = 4 + length (dp_gap d)"
    using holds_get_le16 [OF h(2)] bounds length_encode [OF w5] by (simp add: get_le16_ptr_add unat_of_nat_small del: of_nat_add)
  have w: "get_le16 p 0 = len_queue ?n RSI_WIFI_DATA_Q" "get_le16 p 4 = of_nat (length (dp_ext d))"
    using holds_words [OF h(3), of 0] holds_words [OF h(3), of 2] by (simp_all add: pkt_words_def)
  show "desc_queueno p = RSI_WIFI_DATA_Q" using len_queue_reads(1) [OF bounds(2)] w by (simp add: desc_queueno_def)
  show "desc_length p = of_nat ?n"
    using arg_cong [OF len_queue_reads(2) [OF bounds(2), of RSI_WIFI_DATA_Q], of "of_nat :: nat \<Rightarrow> u32"] w by (simp add: desc_length_def)
  have "(ucast ((of_nat k :: u16) AND 0x00ff) :: u8) = of_nat k" for k
  proof -
    have "(0x00ff :: u16) = mask 8" by (simp add: mask_eq_exp_minus_1)
    then show ?thesis by (intro bit_word_eqI) (auto simp: bit_simps)
  qed
  then show "rsi_get_extended_desc p = of_nat (length (dp_ext d))" using w by (simp add: rsi_get_extended_desc_def)
  have e: "p (16 + k) = dp_ext d ! k" if "k < 16" for k
    using holds_nth [OF h(4), of k] assms(2) that by (simp add: pkt_fits_def ptr_add_def)
  show "p 16 = dp_ext d ! 0" using e [of 0] by simp
  show "get_le32 p 28 = ext_word d" using e [of 12] e [of 13] e [of 14] e [of 15] by (simp add: get_le32_def ext_word_def)
  show "bytes_at p (16 + length (dp_ext d)) (length (dp_frame d)) = dp_frame d"
    using h(5) by (simp add: holds_def)
qed

text \<open>A driver that receives frames, outside an A-MSDU, with memory for buffers.\<close>

definition reading :: "rx_world fsm_common \<Rightarrow> bool" where
  "reading c \<longleftrightarrow> receiving (cmd c) (world c) \<and> amsdu_bit (world c) = 0 \<and> (\<forall>n k. rx_alloc (world c) n k)"

definition took :: "u8 list list \<Rightarrow> rx_world fsm_common \<Rightarrow> rx_world fsm_common \<Rightarrow> bool" where
  "took fs c c' \<longleftrightarrow> map fst (to_os (world c')) = map fst (to_os (world c)) @ fs \<and> cmd c' = cmd c \<and> reading c'"

lemma took_append: "took fs c d \<Longrightarrow> took gs d e \<Longrightarrow> took (fs @ gs) c e"
  by (simp add: took_def)

lemma note_traffic_fields [simp]:
  "to_os (note_traffic w) = to_os w" "amsdu_bit (note_traffic w) = amsdu_bit w" "sc_nvifs (note_traffic w) = sc_nvifs w"
  "rx_alloc (note_traffic w) = rx_alloc w" "receiving m (note_traffic w) = receiving m w"
  by (auto simp: note_traffic_def in_power_def Let_def receiving_def split: option.splits)

lemma prepare_pkt:
  assumes "0 < length f" "length e < 240" "length e + length f < 4096" "bytes_at p (16 + length e) (length f) = f"
  shows "rsi_prepare_skb m p (of_nat (length e + length f)) (of_nat (length e)) s =
    (let (ok, s1) = rx_alloc_skb (of_nat (length f) + 16) s
     in Some (if ok then Some \<lparr>rx_data = f, rx_headroom = skb_pad s1, rx_rssi = p 16, rx_chan = rsi_get_connected_channel m s1\<rparr> else None, s1))"
proof -
  let ?n = "of_nat (length e + length f) :: u32"
  have n: "unat ?n = length e + length f" using assms(3) by (intro unat_of_nat_small) simp
  have e: "unat (of_nat (length e) :: u8) = length e" using assms(2) by (intro unat_of_nat_small) simp
  then have ue: "(ucast (of_nat (length e) :: u8) :: u32) = of_nat (length e)" by (metis of_nat_unat)
  have nz: "?n \<noteq> 0" "\<not> ?n > 8000" using n assms(1,3) by (auto simp: word_less_nat_alt unat_eq_zero)
  have d: "?n - of_nat (length e) = of_nat (length f)" by simp
  have f: "unat (of_nat (length f) :: u32) = length f" using assms(3) by (intro unat_of_nat_small) simp
  have f16: "unat (of_nat (length f) + 16 :: u32) = length f + 16"
    using unat_of_nat_small [of "length f + 16", where 'a = 32] assms(3) by simp
  have e16: "unat (of_nat (length e) + 16 :: u8) = 16 + length e"
    using unat_of_nat_small [of "length e + 16", where 'a = 8] assms(2) by simp
  have "\<not> of_nat (length f) + 16 < (of_nat (length f) :: u32)" using f f16 by (simp add: word_less_nat_alt)
  then show ?thesis
    using nz(1) assms(4) unfolding rsi_prepare_skb_def Let_def ue if_not_P [OF nz(2)] d
    by (simp add: rx_alloc_skb_def e16 f)
qed

text \<open>One packet of the buffer.\<close>

lemma read_data_pkt:
  assumes "holds fd (encode_pkt d)" "pkt_fits d"
  shows "read_one env ops fd c =
    map_option (\<lambda>(ok, c'). (if ok then Read_Next (length (encode_pkt d)) else Read_Fail, c')) (receive_pkt env d c)"
proof -
  let ?p = "ptr_add fd (4 + length (dp_gap d))"
  note r = encoded_reads [OF assms]
  have ok: "0 < length (dp_frame d)" "length (dp_ext d) < 240" "length (dp_ext d) + length (dp_frame d) < 4096"
    using assms(2) by (auto simp: pkt_fits_def)
  obtain ok s1 where al: "rx_alloc_skb (of_nat (length (dp_frame d)) + 16) (world c) = (ok, s1)" by fastforce
  let ?skb = "\<lparr>rx_data = dp_frame d, rx_headroom = skb_pad s1, rx_rssi = dp_ext d ! 0, rx_chan = rsi_get_connected_channel (cmd c) s1\<rparr>"
  have s: "rsi_prepare_skb (cmd c) ?p (desc_length ?p) (rsi_get_extended_desc ?p) (world c) = Some (if ok then Some ?skb else None, s1)"
    unfolding r(4,5) prepare_pkt [OF ok r(8)] al r(7) by simp
  have "read_data env ?p c = receive_pkt env d c"
    unfolding read_data_def receive_pkt_def s al r(6) by (cases ok) (auto simp: Let_def split: option.split)
  then show ?thesis
    using r(1-3) length_encode [of d] assms(2)
    by (cases "receive_pkt env d c") (auto simp: read_one_def pkt_fits_def Let_def)
qed

text \<open>The whole buffer is its packets, one after the other.\<close>

lemma read_loop_pkts:
  assumes "holds (ptr_add p index) (concat (map encode_pkt (d # ds)))" "\<forall>x \<in> set (d # ds). pkt_fits x"
    "rcv = int (length (concat (map encode_pkt (d # ds))))"
  shows "read_loop env ops p index rcv c = receive_pkts env (d # ds) c"
  using assms
proof (induction ds arbitrary: d index c rcv)
  case Nil
  have "read_one env ops (ptr_add p index) c =
      map_option (\<lambda>(ok, c'). (if ok then Read_Next (length (encode_pkt d)) else Read_Fail, c')) (receive_pkt env d c)"
    using Nil by (intro read_data_pkt) auto
  then show ?case using Nil.prems(3)
    by (cases "receive_pkt env d c") (auto simp: read_loop.simps [of env ops p index])
next
  case (Cons e es)
  have h: "holds (ptr_add p index) (encode_pkt d)" "holds (ptr_add p (index + length (encode_pkt d))) (concat (map encode_pkt (e # es)))"
    using Cons.prems(1) by (simp_all add: holds_append)
  have one: "read_one env ops (ptr_add p index) c =
      map_option (\<lambda>(ok, c'). (if ok then Read_Next (length (encode_pkt d)) else Read_Fail, c')) (receive_pkt env d c)"
    using Cons.prems(2) by (intro read_data_pkt h) simp
  have "length (encode_pkt e) > 0" using Cons.prems(2) by (simp add: length_encode pkt_fits_def)
  then have pos: "0 < rcv - int (length (encode_pkt d))" unfolding Cons.prems(3) by (simp del: length_greater_0_conv)
  have IH: "read_loop env ops p (index + length (encode_pkt d)) (rcv - int (length (encode_pkt d))) c1 = receive_pkts env (e # es) c1" for c1
    by (rule Cons.IH [OF h(2)]) (use Cons.prems(2,3) in auto)
  show ?case
  proof (cases "receive_pkt env d c")
    case None
    then show ?thesis using one by (simp add: read_loop.simps [of env ops p index])
  next
    case (Some r)
    then show ?thesis using one pos IH
      by (cases r; cases "fst r") (simp_all add: read_loop.simps [of env ops p index rcv c] receive_pkts.simps(2) [of env d] del: receive_pkts.simps(2))
  qed
qed

text \<open>A plain packet reaches mac80211.\<close>

lemma receive_plain:
  assumes "reading c" "16 \<le> length (dp_ext d)" "pkt_plain d"
  shows "\<exists>c'. receive_pkt env d c = Some (True, c') \<and> took [dp_frame d] c c'"
proof -
  let ?s1 = "world c\<lparr>rx_allocs := Suc (rx_allocs (world c))\<rparr>"
  let ?skb = "\<lparr>rx_data = dp_frame d, rx_headroom = skb_pad ?s1, rx_rssi = dp_ext d ! 0, rx_chan = rsi_get_connected_channel (cmd c) ?s1\<rparr>"
  let ?s = "note_amsdu (ext_word d) (note_traffic ?s1)"
  have "\<not> bit (ext_word d) 25" using assms(3) by (auto simp: ext_word_def get_le32_def pkt_plain_def bit_simps dest: bit_imp_le_length)
  then have a: "?s = note_traffic ?s1" by (simp add: note_amsdu_def)
  have rc: "receiving (cmd c) ?s" using assms(1) a by (simp add: reading_def receiving_def)
  have h: "amsdu_header ?skb ?s = Some (?skb, ?s)" using assms(1) a by (simp add: amsdu_header_def reading_def)
  have np: "\<not> has_protected (frame_control (rx_data ?skb))" using assms(3) by (simp add: pkt_plain_def)
  obtain w where w: "rsi_indicate_pkt_to_os env (cmd c) ?skb ?s = Some w" "delivered (rx_data ?skb, base_status env ?skb) ?s w"
    using indicate_plain [OF rc h refl np] by blast
  have t: "took [dp_frame d] c (c\<lparr>world := w\<rparr>)"
    using delivered_simps [OF w(2)] delivered_receiving [OF w(2)] rc a assms(1) by (simp add: took_def reading_def)
  have "receive_pkt env d c = Some (True, c\<lparr>world := w\<rparr>)"
    using w(1) assms(1) by (simp add: receive_pkt_def rx_alloc_skb_def reading_def Let_def)
  with t show ?thesis by blast
qed

lemma receive_plains:
  "\<forall>d \<in> set ds. 16 \<le> length (dp_ext d) \<and> pkt_plain d \<Longrightarrow> reading c \<Longrightarrow>
   \<exists>c'. receive_pkts env ds c = Some (0, c') \<and> took (map dp_frame ds) c c'"
proof (induction ds arbitrary: c)
  case Nil
  then show ?case by (simp add: took_def)
next
  case (Cons d ds)
  obtain c1 where c1: "receive_pkt env d c = Some (True, c1)" "took [dp_frame d] c c1"
    using receive_plain [OF Cons.prems(2), of d env] Cons.prems(1) by auto
  moreover obtain c2 where "receive_pkts env ds c1 = Some (0, c2)" "took (map dp_frame ds) c1 c2"
    using Cons.IH [of c1] Cons.prems(1) c1(2) by (auto simp: took_def)
  ultimately show ?case using took_append [OF c1(2), of "map dp_frame ds" c2] by simp
qed

text \<open>
  C8. A buffer that holds any number of data packets of up to 4095 bytes, extended descriptor (16 to 239 bytes) and
  frame together, is taken apart exactly into these packets, whatever the gaps between them, the frames (protected
  ones and subframes of an A-MSDU included), the memory and the state of the interface: the outcome is that of
  handling the packets one after the other up to the first without a buffer. So, with memory, an interface that is up and outside an A-MSDU,
  frames that are neither protected nor subframes of an A-MSDU all reach mac80211, in order and unchanged.
\<close>
theorem aggregate_delivered:
  assumes "holds p (concat (map encode_pkt ds))" "ds \<noteq> []" "\<forall>d \<in> set ds. pkt_fits d"
  shows "rsi_read_pkt env ops p (int (length (concat (map encode_pkt ds)))) c = receive_pkts env ds c \<and>
    (reading c \<and> (\<forall>d \<in> set ds. pkt_plain d) \<longrightarrow>
      (\<exists>c'. rsi_read_pkt env ops p (int (length (concat (map encode_pkt ds)))) c = Some (0, c') \<and>
        map fst (to_os (world c')) = map fst (to_os (world c)) @ map dp_frame ds \<and> cmd c' = cmd c))"
proof -
  obtain d es where ds: "ds = d # es" using assms(2) by (cases ds) auto
  have e: "rsi_read_pkt env ops p (int (length (concat (map encode_pkt ds)))) c = receive_pkts env ds c"
    unfolding rsi_read_pkt_def ds by (rule read_loop_pkts) (use assms ds in auto)
  have "\<forall>d \<in> set ds. 16 \<le> length (dp_ext d)" using assms(3) by (simp add: pkt_fits_def)
  then show ?thesis unfolding e using receive_plains [of ds c env] by (auto simp: took_def)
qed

section \<open>Packets that stop the driver\<close>

text \<open>A buffer that starts with a data packet with so many bytes behind the descriptor, of which \<open>e\<close> are claimed to belong to the extended descriptor.\<close>

definition data_packet_at :: "ptr \<Rightarrow> nat \<Rightarrow> nat \<Rightarrow> bool" where
  "data_packet_at fd n e \<longleftrightarrow>
     (let p = ptr_add fd (unat (get_le16 fd 2))
      in 20 \<le> unat (get_le16 fd 0) \<and> 4 \<le> unat (get_le16 fd 2) \<and> desc_queueno p = RSI_WIFI_DATA_Q \<and>
         unat (desc_length p) = n \<and> unat (rsi_get_extended_desc p) = e)"

lemma desc_length_bound: "unat (desc_length p) < 4096"
proof -
  have "get_le16 p 0 AND 0x0fff \<le> 0x0fff" by (simp add: word_and_le1)
  then have "unat (get_le16 p 0 AND 0x0fff) < 4096" by (simp add: word_le_nat_alt)
  then show ?thesis by (simp add: desc_length_def unsigned_ucast_eq take_bit_nat_eq_self)
qed

lemma desc_length_cases:
  assumes "unat (desc_length p) = n" "unat (rsi_get_extended_desc q) = e"
  shows "\<not> desc_length p > 8000" "desc_length p - ucast (rsi_get_extended_desc q) = word_of_int (int n - int e)" "n < 4096" "e < 256"
proof -
  have "unat (rsi_get_extended_desc q) < 2 ^ LENGTH(8)" by (rule unsigned_less)
  then show n: "n < 4096" and "e < 256" using assms desc_length_bound [of p] by simp_all
  show "\<not> desc_length p > 8000" using assms(1) n by (simp add: word_less_nat_alt)
  have "desc_length p = of_nat n" "(ucast (rsi_get_extended_desc q) :: u32) = of_nat e"
    unfolding assms(1) [symmetric] assms(2) [symmetric] by simp_all
  then show "desc_length p - ucast (rsi_get_extended_desc q) = word_of_int (int n - int e)" by simp
qed

lemma prepare_none:
  assumes "unat (desc_length p) = n" "unat (rsi_get_extended_desc q) = e" "e \<le> n"
    "n = 0 \<or> \<not> rx_alloc s (rx_allocs s) (of_nat (n - e) + 16)"
  shows "\<exists>s'. rsi_prepare_skb m p' (desc_length p) (rsi_get_extended_desc q) s = Some (None, s')"
proof (cases "n = 0")
  case True
  then show ?thesis using assms(1) by (simp add: rsi_prepare_skb_def unat_eq_zero)
next
  case False
  then have "desc_length p \<noteq> 0" using assms(1) by auto
  moreover have "word_of_int (int n - int e) = (of_nat (n - e) :: u32)" using assms(3) by (simp add: of_nat_diff)
  ultimately show ?thesis
    using assms(4) False desc_length_cases [OF assms(1,2)] by (simp add: rsi_prepare_skb_def rx_alloc_skb_def)
qed

lemma prepare_crash:
  assumes "unat (desc_length p) = n" "unat (rsi_get_extended_desc q) = e" "0 < n" "n < e" "e \<le> n + 16"
    "rx_alloc s (rx_allocs s) (of_nat (n + 16 - e))"
  shows "rsi_prepare_skb m p' (desc_length p) (rsi_get_extended_desc q) s = None"
proof -
  note d = desc_length_cases [OF assms(1,2)]
  let ?n = "word_of_int (int n - int e) :: u32"
  have "desc_length p \<noteq> 0" using assms(1,3) by auto
  moreover have b: "?n + 16 = of_nat (n + 16 - e)" using assms(5) by (simp add: of_nat_diff)
  moreover have "?n + 16 < ?n"
  proof -
    have "unat (?n + 16) = n + 16 - e" unfolding b using d(3) by (intro unat_of_nat_small) simp
    moreover have "unat ?n = 2 ^ 32 + n - e"
    proof -
      have "?n = of_nat (2 ^ 32 + n - e)" using d(4) by (simp add: of_nat_diff)
      moreover have "unat (of_nat (2 ^ 32 + n - e) :: u32) = 2 ^ 32 + n - e" using assms(4) by (intro unat_of_nat_small) simp
      ultimately show ?thesis by simp
    qed
    ultimately show ?thesis using d(3,4) assms(4,5) by (simp add: word_less_nat_alt)
  qed
  ultimately show ?thesis using assms(6) d(1,2) by (simp add: rsi_prepare_skb_def rx_alloc_skb_def del: of_int_diff)
qed

lemma read_pkt_data:
  "data_packet_at p n e \<Longrightarrow>
   rsi_read_pkt env ops p rcv c =
     (case read_data env (ptr_add p (unat (get_le16 p 2))) c of
        None \<Rightarrow> None
      | Some (False, c') \<Rightarrow> Some (- EINVAL, c')
      | Some (True, c') \<Rightarrow>
        if 0 < rcv - int (unat (get_le16 p 0)) then read_loop env ops p (unat (get_le16 p 0)) (rcv - int (unat (get_le16 p 0))) c'
        else Some (0, c'))"
  by (simp add: rsi_read_pkt_def read_loop.simps [of env ops p 0] read_one_def data_packet_at_def Let_def split: option.splits)

text \<open>
  C38. One data packet without payload, or one for which there is no memory, ends reception over SDIO: the
  receive thread returns, and the buffers behind it are never read. Over USB the thread goes on
  with the next buffer.
\<close>
theorem one_packet_ends_sdio_reception:
  assumes "data_packet_at p n e" "e \<le> n" "n = 0 \<or> \<not> rx_alloc (world c) (rx_allocs (world c)) (of_nat (n - e) + 16)"
  shows "\<exists>c'. sdio_rx_drain env ops ((p, len) # q) c = Some (False, q, c') \<and>
    usb_rx_drain env ops (p # ps) c = usb_rx_drain env ops ps c'"
proof -
  let ?p = "ptr_add p (unat (get_le16 p 2))"
  have n: "unat (desc_length ?p) = n" "unat (rsi_get_extended_desc ?p) = e" using assms(1) unfolding data_packet_at_def Let_def by blast+
  obtain s' where "rsi_prepare_skb (cmd c) ?p (desc_length ?p) (rsi_get_extended_desc ?p) (world c) = Some (None, s')"
    using prepare_none [OF n assms(2,3)] by blast
  then have "read_data env ?p c = Some (False, c\<lparr>world := s'\<rparr>)" by (simp add: read_data_def)
  then show ?thesis by (simp add: read_pkt_data [OF assms(1)])
qed

text \<open>
  A data packet that claims an extended descriptor longer than itself, by at most 16 bytes, kills the
  kernel: the length of the copy wraps around to nearly 4 GB while the buffer allocated for it
  has at most 15 bytes.
\<close>
theorem short_data_packet_crashes:
  assumes "data_packet_at p n e" "0 < n" "n < e" "e \<le> n + 16" "rx_alloc (world c) (rx_allocs (world c)) (of_nat (n + 16 - e))"
  shows "rsi_read_pkt env ops p rcv c = None"
proof -
  let ?p = "ptr_add p (unat (get_le16 p 2))"
  have n: "unat (desc_length ?p) = n" "unat (rsi_get_extended_desc ?p) = e" using assms(1) unfolding data_packet_at_def Let_def by blast+
  have "read_data env ?p c = None" using prepare_crash [OF n assms(2-5)] by (simp add: read_data_def)
  then show ?thesis by (simp add: read_pkt_data [OF assms(1)])
qed

section \<open>Examples\<close>

definition memory_of :: "u8 list \<Rightarrow> ptr" where
  "memory_of xs = (\<lambda>i. if i < length xs then xs ! i else 0)"

lemma holds_memory_of: "holds (memory_of xs) xs"
  unfolding holds_def by (intro nth_equalityI) (simp_all add: memory_of_def)

definition example_world :: rx_world where
  "example_world = rx_common.extend example_rx (rx_world.fields example_power 0 0)"

definition example_common :: "rx_world fsm_common" where
  "example_common = (example_fsm example_world 1)\<lparr>cmd := example_up\<rparr>"

lemma example_world_fields [simp]: "amsdu_bit example_world = 0" "to_os example_world = []" "rx_alloc example_world = (\<lambda>_ _. True)"
    "receiving example_up example_world"
  using example_receiving by (simp_all add: example_world_def rx_common.defs rx_world.defs example_rx_def receiving_def)

lemma example_reading: "reading example_common"
  by (simp add: reading_def example_common_def example_fsm_def)

definition example_pkt :: "u8 list \<Rightarrow> u8 \<Rightarrow> data_pkt" where
  "example_pkt gap x = \<lparr>dp_gap = gap, dp_type = 0, dp_words = replicate 5 0, dp_ext = replicate 16 0, dp_frame = [0x88, 2, x]\<rparr>"

definition example_env_w :: world_env where
  "example_env_w = \<lparr>hdrlen = (\<lambda>_. 24), channel_to_frequency = (\<lambda>_ _. 0), process_rx_mgmt_beacon = (\<lambda>_ s. s)\<rparr>"

definition example_ops_w :: "rx_world fsm_ops" where
  "example_ops_w =
     \<lparr>mac80211_attach = Pair 0, bb_prog_data_to_app = Pair 0, start_per_burst = id, handle_ps_confirm = (\<lambda>_. Pair 0),
      send_bgscan_params = (\<lambda>_. id), send_bgscan_probe_req = id, scan_completed = id, init_bgscan = id, process_rx_stats = id,
      rssi_to_app = id, diag_response_to_app = (\<lambda>_. id), indicate_null_frame = (\<lambda>_ _. id), user_ps_enabled = (\<lambda>_. False),
      enable_ps = id, ulp_sleep_notify = (\<lambda>_. id), connection_loss = id, indicate_bcnmiss = (\<lambda>_. id), resume_conn_channel = id,
      send_beacon_frame = id, mgmt_pkt_to_core = (\<lambda>_ _ _ w. Some (0, w)), pause_wifi = id, resume_wifi = id,
      disable_ps_from_device = id, real_time_stats_to_app = (\<lambda>_. id)\<rparr>"

lemma example_pkts_ok:
  "\<forall>d \<in> set [example_pkt [] 7, example_pkt [0, 0] 8]. pkt_fits d"
  "\<forall>d \<in> set [example_pkt [] 7, example_pkt [0, 0] 8]. pkt_plain d"
  by (simp_all add: pkt_fits_def pkt_plain_def example_pkt_def encode_pkt_def pkt_words_def frame_control_def has_protected_def bit_simps)

lemma aggregate_delivered_witness:
  "\<exists>c'. rsi_read_pkt example_env_w example_ops_w (memory_of (encode_pkt (example_pkt [] 7) @ encode_pkt (example_pkt [0, 0] 8))) 80
     example_common = Some (0, c') \<and> map fst (to_os (world c')) = [[0x88, 2, 7], [0x88, 2, 8]]"
proof -
  let ?ds = "[example_pkt [] 7, example_pkt [0, 0] 8]"
  let ?p = "memory_of (encode_pkt (example_pkt [] 7) @ encode_pkt (example_pkt [0, 0] 8))"
  have h: "holds ?p (concat (map encode_pkt ?ds))" using holds_memory_of by simp
  have n: "int (length (concat (map encode_pkt ?ds))) = 80" by (simp add: length_encode example_pkt_def)
  have f: "map dp_frame ?ds = [[0x88, 2, 7], [0x88, 2, 8]]" by (simp add: example_pkt_def)
  have o: "to_os (world example_common) = []" by (simp add: example_common_def example_fsm_def)
  show ?thesis
    using mp [OF conjunct2 [OF aggregate_delivered [OF h list.distinct(2) example_pkts_ok(1), of example_env_w example_ops_w example_common]]
      conjI [OF example_reading example_pkts_ok(2)]]
    unfolding n f o list.map(1) append_Nil by (elim exE conjE) (intro exI conjI)
qed

text \<open>A buffer with a data packet whose extended descriptor claims \<open>e\<close> of its \<open>n\<close> bytes.\<close>

definition example_buffer :: "u8 \<Rightarrow> u8 \<Rightarrow> ptr" where
  "example_buffer n e = memory_of [20, 0, 4, 0, n, 0x50, 0, 0, e, 0, 0, 0, 0, 0, 0, 0]"

lemma example_buffers: "data_packet_at (example_buffer 0 0) 0 0" "data_packet_at (example_buffer 1 2) 1 2"
  by (simp_all add: data_packet_at_def example_buffer_def memory_of_def get_le16_def desc_queueno_def desc_length_def
      rsi_get_extended_desc_def ptr_add_def)

lemma one_packet_ends_sdio_reception_witness:
  "\<exists>c'. sdio_rx_drain example_env_w example_ops_w [(example_buffer 0 0, 64), (example_buffer 1 2, 64)] example_common =
      Some (False, [(example_buffer 1 2, 64)], c')"
  using one_packet_ends_sdio_reception [OF example_buffers(1), of example_common example_env_w example_ops_w 64 "[(example_buffer 1 2, 64)]" "[]"]
  by auto

lemma short_data_packet_crashes_witness: "rsi_read_pkt example_env_w example_ops_w (example_buffer 1 2) 64 example_common = None"
  using short_data_packet_crashes [OF example_buffers(2), of example_common example_env_w example_ops_w 64]
  by (simp add: example_common_def example_fsm_def)

end
