(* ===== verification/Probe.thy ===== *)
theory Probe
  imports Hal_Tx
begin

text \<open>
  The probe request the driver builds for a scan (\<open>rsi_send_probe_request\<close> of rsi/rsi_91x_mgmt.c): the
  802.11 frame and the packet that \<open>rsi_prepare_mgmt_desc\<close> makes of it.

  The frame is built in a buffer of the length of the frame and 64 bytes; the 64 bytes are reserved in
  front of it only after it was cleared, so its last 64 bytes are not cleared, but every byte is written.
\<close>

abbreviation (input) SCAN_MGMT_Q :: nat where "SCAN_MGMT_Q \<equiv> 4"

text \<open>
  The header, the SSID and the elements of the request. The function is only called for an index below the
  number of SSIDs, so that the branch for a request without any, which copies two bytes more, is never taken.
\<close>

definition probe_request :: "u8 list \<Rightarrow> u8 list \<Rightarrow> u8 list \<Rightarrow> u8 list" where
  "probe_request mac ssid ie =
     put_le16 0x0040 @ [0, 0] @ replicate 6 0xFF @ mac @ replicate 6 0xFF @ [0, 0] @ [0, of_nat (length ssid)] @ ssid @ ie"

definition probe_buffer :: "nat \<Rightarrow> nat \<Rightarrow> u8 list \<Rightarrow> tx_skb" where
  "probe_buffer addr room frame =
     \<lparr>skb_data = frame, data_addr = addr, headroom = room, skb_priority = SCAN_MGMT_Q, skb_protocol = 0, encap = False, internal_pkt = False,
      internal_hdr_size = room, port_ctrl = False, dont_encrypt = False, req_tx_status = False, hw_key = False, ctl_vif = True, skb_tid = 0,
      skb_sta_id = 0\<rparr>"

text \<open>The packet for the queue, unless the descriptor cannot be prepared.\<close>

definition probe_packet :: "'s hal_common \<Rightarrow> nat \<Rightarrow> nat \<Rightarrow> u8 list \<Rightarrow> u8 list option" where
  "probe_packet h addr room frame =
     (let (status, skb, _) = rsi_prepare_mgmt_desc h (probe_buffer addr room frame)
      in if status = 0 then Some (skb_data skb) else None)"

text \<open>The view the transmit functions have of the state of the scan.\<close>

definition hal_view :: "bool \<Rightarrow> bool \<Rightarrow> 's hal_common \<Rightarrow> 's hal_common" where
  "hal_view scanning is_5ghz h = h\<lparr>scan_in_prog := scanning, band_5ghz := is_5ghz\<rparr>"

section \<open>Its fields\<close>

text \<open>The SSID of a probe request, as a receiver reads it.\<close>

definition ssid_of :: "u8 list \<Rightarrow> u8 list option" where
  "ssid_of frame = (if frame ! 24 = 0 then Some (take (unat (frame ! 25)) (drop 26 frame)) else None)"

lemma length_probe_request: "length mac = 6 \<Longrightarrow> length (probe_request mac ssid ie) = 26 + length ssid + length ie"
  by (simp add: probe_request_def)

lemma probe_request_control: "frame_control (probe_request mac ssid ie) = 0x0040"
  by (simp add: probe_request_def frame_control_def put_le16_def)

lemma probe_request_fields:
  assumes "length mac = 6" "length ssid \<le> 32"
  shows "wlh_addr2 (probe_request mac ssid ie) = mac"
    "ssid_of (probe_request mac ssid ie) = Some ssid"
proof -
  have n: "unat (of_nat (length ssid) :: u8) = length ssid" using assms(2) by (simp add: unat_of_nat_small)
  show "wlh_addr2 (probe_request mac ssid ie) = mac"
    using assms(1) by (simp add: probe_request_def addr_at_def put_le16_def numeral_eq_Suc)
  have "drop 26 (probe_request mac ssid ie) = ssid @ ie" "probe_request mac ssid ie ! 24 = 0"
      "probe_request mac ssid ie ! 25 = of_nat (length ssid)"
    using assms(1) by (simp_all add: probe_request_def nth_append)
  then show "ssid_of (probe_request mac ssid ie) = Some ssid" using n by (simp add: ssid_of_def)
qed

section \<open>Its packet\<close>

lemma or_word_other: "i \<noteq> j \<Longrightarrow> desc_word (or_word i w d) ! j = desc_word d ! j" "length (desc_word (or_word i w d)) = length (desc_word d)"
    "i \<noteq> j \<Longrightarrow> desc_word (set_word i w d) ! j = desc_word d ! j" "length (desc_word (set_word i w d)) = length (desc_word d)"
    "desc_word (d\<lparr>retry_cnt := n\<rparr>) = desc_word d"
  by (simp_all add: or_word_def set_word_def)

lemma mgmt_desc_type:
  assumes "\<not> ieee80211_is_probe_resp (frame_control wh)"
  shows "desc_word (mgmt_desc h hs len wh) ! 1 = 0" "length (desc_word (mgmt_desc h hs len wh)) = 8"
  using assms by (simp_all add: mgmt_desc_def or_word_other Let_def set_word_def desc_zero_def)

text \<open>The packet is the frame behind a descriptor of the type of frames of mac80211.\<close>

lemma probe_packet_frame:
  assumes "probe_packet h addr room (probe_request mac ssid ie) = Some d"
  shows "d ! 2 = 0" "\<exists>n. drop n d = probe_request mac ssid ie"
proof -
  let ?f = "probe_request mac ssid ie"
  let ?skb = "probe_buffer addr room ?f"
  have fc: "\<not> ieee80211_is_probe_resp (frame_control ?f)" "\<not> ieee80211_is_action (frame_control ?f)"
    by (simp_all add: probe_request_control fc_is_def)
  have "\<exists>w2 w3 hs len. d = put_desc (or_word 4 w2 (or_word 7 w3 (mgmt_desc h hs len ?f))) (take hs (skb_data
      ((skb_push (skb_push ?skb 20) (data_addr (skb_push ?skb 20) mod 64))\<lparr>internal_hdr_size := hs\<rparr>))) @ ?f"
    using assms(1) fc
    by (auto simp: probe_packet_def rsi_prepare_mgmt_desc_def Let_def probe_buffer_def split: if_split_asm option.splits)
  then obtain w2 w3 hs len bytes where d: "d = put_desc (or_word 4 w2 (or_word 7 w3 (mgmt_desc h hs len ?f))) bytes @ ?f" by blast
  have "1 < length (desc_word (or_word 4 w2 (or_word 7 w3 (mgmt_desc h hs len ?f))))"
    using mgmt_desc_type(2) [OF fc(1), of h hs len] by (simp add: or_word_other)
  then have "d ! 2 = ucast (desc_word (or_word 4 w2 (or_word 7 w3 (mgmt_desc h hs len ?f))) ! 1)"
    unfolding d put_desc_def append_assoc by (rule put_words_nth_type)
  then show "d ! 2 = 0" using mgmt_desc_type(1) [OF fc(1), of h hs len] by (simp add: or_word_other)
  show "\<exists>n. drop n d = ?f" using d by (intro exI [of _ "length d - length ?f"]) simp
qed

subsection \<open>A concrete transmit side\<close>

definition example_probe_bus :: "unit rsi_host_intf_ops" where
  "example_probe_bus = \<lparr>read_pkt = None, write_pkt = (\<lambda>s p n. (0, s)), master_access_msword = None, write_reg_multiple = (\<lambda>s a p n. (0, s)),
     master_reg_read = (\<lambda>s a n. (0, None, s)), master_reg_write = (\<lambda>s a d n. (0, s)), load_data_master_write = (\<lambda>s a n b p. (0, s)),
     ta_reset_ops = None, check_hw_queue_status = (\<lambda>s q. (1, s))\<rparr>"

definition example_probe_hal :: "unit hal_common" where
  "example_probe_hal = \<lparr>vifs = [Some example_vif], hal_stations = [], hal_max_stations = 0, hw_ok = True, hal_iface_down = False,
     usb_full_speed = False, ps_on = False, cipher_wep = False, min_rate = 0xFFFF, fixed_rate_en = False, fixed_rate = 0, conf_ht40 = NO_HT40,
     sgi = False, ax_params = no_ax, enable_er_su = False, config_er_su = 0, eapol4_confirmed = False, band_5ghz = False, scan_in_prog = False,
     p2p_enabled = False, minimum_basic_rate = 0, hal_bgscan_en = False, cur_channel = 1, connected_channel = 1, acx_module = False,
     beacon_cnt = 0, wlan_intention = False, bt_intention = False, hal_tx_access = True, common_intention = False, tx_access = (\<lambda>_. 0),
     tx_access_calls = 0, behind_skb = (\<lambda>_. 0), hal_ops = example_probe_bus, bus = (), hal_freed_count = replicate 6 0,
     reported = [], freed = [], panicked = False\<rparr>"

definition example_probe :: "u8 list" where
  "example_probe = probe_request [2, 0, 0, 0, 0, 9] [0x41, 0x42] []"

lemma example_probe_packet:
  "\<exists>d. probe_packet (hal_view scanning b example_probe_hal) 128 128 example_probe = Some d"
proof -
  have "wlh_addr2 example_probe = [2, 0, 0, 0, 0, 9]" "length example_probe = 28"
      "frame_control example_probe = 0x40"
    using probe_request_fields(1) [of "[2, 0, 0, 0, 0, 9]" "[0x41, 0x42]" "[]"] length_probe_request probe_request_control
    by (simp_all add: example_probe_def)
  then show ?thesis
    by (simp add: probe_packet_def rsi_prepare_mgmt_desc_def hal_view_def example_probe_hal_def probe_buffer_def rsi_get_vif_def
        example_vif_def is_ap_kind_def fc_is_def Let_def)
qed

end
