(* ===== verification/Rates.thy ===== *)
theory Rates
  imports Keys
begin

text \<open>
  Transmission rates: the table of rates sent to the device when a station is connected
  (\<open>rsi_send_auto_rate_request\<close> of rsi/rsi_91x_mgmt.c), and in rsi/rsi_91x_mac80211.c the lowest rate of a connection
  (\<open>rsi_set_min_rate\<close>) and the rate the user fixes (\<open>rsi_mac80211_set_rate_mask\<close>).

  The command is built in place by loops over an index that other loops go on with. It is modelled
  as the list of its 55 words: 8 of the descriptor, 7 parameters and 40 rates. \<open>rate_at\<close> reads a rate
  by its index, which the code lets become -1: the word before the rates is \<open>collision_tolerance\<close>.
  The tables \<open>rsi_mcsrates\<close> and \<open>rsi_he_rates\<close> are global variables the code writes to.
\<close>

section \<open>State\<close>

text \<open>What mac80211 knows of a station; rates and masks are given by band (0: 2.4 GHz, 1: 5 GHz).\<close>

record sta_caps =
  supp_rates :: "u32 list"
  ht_supported :: bool
  cap_sgi_20 :: bool
  cap_sgi_40 :: bool

text \<open>
  The state goes on from that of the interfaces and keys (\<open>rx_sec\<close>). \<open>rate_band\<close> is the band of the current channel,
  \<open>stray\<close> what lies behind the rate tables, \<open>before_bitrate\<close> the word before the array \<open>bitrate\<close>, \<open>kz_ok\<close>
  whether the two allocations of arrays succeed.
\<close>

record rate_common = rx_sec +
  rate_band :: nat
  bitrate_mask :: "u16 list"
  fixedrate_mask :: "u32 list"
  vif_is_ht :: bool
  vif_sgi :: bool
  country_jp :: bool
  mac80211_cur_channel :: u8
  enable_er_su :: bool
  config_er_su :: u8
  rate_field_params :: u32
  mcs_rates :: "u16 list"
  he_rates :: "u16 list"
  min_supported_rate :: u16
  stray :: "nat \<Rightarrow> u16"
  before_bitrate :: u16
  kz_ok :: "bool \<times> bool"

abbreviation (input) RSI_RATE_6 :: u16 where "RSI_RATE_6 \<equiv> 0x8b"
abbreviation (input) RSI_RATE_12 :: u16 where "RSI_RATE_12 \<equiv> 0x8a"
abbreviation (input) RSI_RATE_2 :: u16 where "RSI_RATE_2 \<equiv> 0x2"
abbreviation (input) RSI_RATE_MCS0 :: u16 where "RSI_RATE_MCS0 \<equiv> 0x100"
abbreviation (input) RSI_RATE_MCS4 :: u16 where "RSI_RATE_MCS4 \<equiv> 0x104"
abbreviation (input) STD_RATE_36 :: u16 where "STD_RATE_36 \<equiv> 0x48"
abbreviation (input) STD_RATE_5_5 :: u16 where "STD_RATE_5_5 \<equiv> 0xB"
abbreviation (input) STD_RATE_01 :: u16 where "STD_RATE_01 \<equiv> 0x2"
abbreviation (input) AX_MCS0 :: u16 where "AX_MCS0 \<equiv> 0x400"
abbreviation (input) AX_MCS1 :: u16 where "AX_MCS1 \<equiv> 0x401"
abbreviation (input) AX_MCS2 :: u16 where "AX_MCS2 \<equiv> 0x402"
abbreviation (input) AUTO_RATE_IND :: u16 where "AUTO_RATE_IND \<equiv> 0xB"

definition is_sta :: "rx_vif option \<Rightarrow> bool" where
  [rsi_defs]: "is_sta v \<longleftrightarrow> (case v of None \<Rightarrow> False | Some x \<Rightarrow> vif_type x = NL80211_IFTYPE_STATION)"

definition last_vif :: "'z rx_sec_scheme \<Rightarrow> rx_vif option" where
  [rsi_defs]: "last_vif s = rx_vifs s ! (sc_nvifs s - 1)"

text \<open>\<open>rsi_rates\<close>: the bit rates in units of 500 kb/s (\<open>bitrate / 5\<close>), and the codes of the hardware.\<close>

definition rsi_bitrates :: "u16 list" where
  "rsi_bitrates = [0x02, 0x04, 0x0B, 0x16, 0x0C, 0x12, 0x18, 0x24, 0x30, 0x48, 0x60, 0x6c]"

definition rsi_hw_values :: "u16 list" where
  "rsi_hw_values = [0x0, 0x2, 0x4, 0x6, 0x8b, 0x8f, 0x8a, 0x8e, 0x89, 0x8d, 0x88, 0x8c]"

definition rsi_mcsrates :: "u16 list" where
  "rsi_mcsrates = [0x100, 0x101, 0x102, 0x103, 0x104, 0x105, 0x106, 0x107]"

definition rsi_he_rates :: "u16 list" where
  "rsi_he_rates = [0x400, 0x400, 0x401, 0x402, 0x403, 0x404, 0x405, 0x406, 0x407]"

definition er_su_rates :: "u16 list" where
  "er_su_rates = [0x400, 0x400, 0x400, 0x400, 0x400, 0x400, 0x400, 0x401, 0x402]"

definition mcs_bitrates :: "u16 list" where
  "mcs_bitrates = [13, 26, 39, 52, 78, 104, 117, 130]"

section \<open>The table of rates\<close>

text \<open>The first index of a value, as the search loops find it.\<close>

definition first_index :: "u16 \<Rightarrow> u16 list \<Rightarrow> nat option" where
  "first_index x xs = List.find (\<lambda>i. xs ! i = x) [0..<length xs]"

text \<open>The result of \<open>rsi_map_rates\<close>, and its offset, which starts as \<open>kk\<close>.\<close>

definition rsi_map_rates :: "u16 \<Rightarrow> nat \<Rightarrow> bool \<times> nat" where
  "rsi_map_rates rate kk =
     (case first_index rate mcs_bitrates of
        Some k \<Rightarrow> (False, k)
      | None \<Rightarrow> (True, case first_index rate rsi_bitrates of Some k \<Rightarrow> k | None \<Rightarrow> kk))"

definition evaluate_moderate_rateindex :: "u16 list \<Rightarrow> u16 \<Rightarrow> nat \<Rightarrow> u32" where
  "evaluate_moderate_rateindex bits moderate_rate sz =
     (case List.find (\<lambda>i. bits ! i \<le> moderate_rate) [0..<sz] of Some i \<Rightarrow> of_nat i | None \<Rightarrow> of_nat sz - 1)"

text \<open>
  The mode of the connection: table size, moderate rate, whether only HT rates are used, and the bitmap
  left. \<open>b_mode\<close> and \<open>g_mode\<close> have 8 bits: of the OFDM rates, bits 4 to 11, only bits 4 to 7 count.
\<close>

definition b_mode :: "u32 \<Rightarrow> bool" where
  [rsi_defs]: "b_mode bm \<longleftrightarrow> (ucast (bm AND 0xf) :: u8) \<noteq> 0"

definition g_mode :: "u32 \<Rightarrow> bool" where
  [rsi_defs]: "g_mode bm \<longleftrightarrow> (ucast (bm AND 0xff0) :: u8) \<noteq> 0"

definition select_mode :: "u32 \<Rightarrow> bool \<Rightarrow> bool \<Rightarrow> nat \<times> u16 \<times> bool \<times> u32" where
  "select_mode bm0 is_ht jp14 =
     (let bm = bm0 AND NOT (BIT 5); no_cck = bm AND NOT (BIT 2 OR BIT 3)
      in if g_mode bm0 \<and> b_mode bm0 \<and> is_ht then (11, STD_RATE_36, False, no_cck)
         else if g_mode bm0 \<and> b_mode bm0 then (9, STD_RATE_36, False, no_cck)
         else if g_mode bm0 \<and> is_ht then (9, STD_RATE_36, False, bm)
         else if g_mode bm0 then (7, STD_RATE_36, False, bm)
         else if b_mode bm0
         then (if jp14 then (4, STD_RATE_01, False, no_cck) else (4, STD_RATE_5_5, False, bm))
         else if is_ht then (9, RSI_RATE_MCS4, True, bm)
         else (0, 0, False, bm))"

text \<open>The rates of the bitmap, sorted by the kernel's \<open>sort\<close> with \<open>rsi_compare\<close>, the highest first.\<close>

definition selected_rates :: "u32 \<Rightarrow> u16 list" where
  "selected_rates bm = rev (sort (map ((!) rsi_bitrates) (filter (bit bm) [0..<12])))"

text \<open>The frame while its rates are filled in: \<open>fi\<close> is the index of the next rate, \<open>fn\<close> that into \<open>bitrate\<close>.\<close>

record fill =
  words :: "u16 list"
  fi :: nat
  bits :: "u16 list"
  fn :: nat

definition rate_at :: "u16 list \<Rightarrow> int \<Rightarrow> u16" where
  "rate_at ws i = ws ! nat (15 + i)"

definition put_rate :: "nat \<Rightarrow> u16 \<Rightarrow> u16 list \<Rightarrow> u16 list" where
  "put_rate i v ws = ws[15 + i := v]"

definition add_rate :: "u16 \<Rightarrow> u16 \<Rightarrow> fill \<Rightarrow> fill" where
  "add_rate v b f = f\<lparr>words := put_rate (fi f) v (words f), fi := Suc (fi f), bits := (bits f)[fn f := b], fn := Suc (fn f)\<rparr>"

text \<open>The one or two HT rates at the top.\<close>

definition ht_head :: "bool \<Rightarrow> bool \<Rightarrow> u16 list \<Rightarrow> fill \<Rightarrow> fill" where
  "ht_head is_ht is_sgi tbl f =
     (let top = tbl ! 7; f1 = (if is_sgi then add_rate (top OR BIT 9) (top OR BIT 9) f else f)
      in if is_ht then add_rate top top f1 else f)"

text \<open>The loop of the HT-only mode; the third argument is \<open>kk + 1\<close>.\<close>

fun mcs_down :: "u16 list \<Rightarrow> nat \<Rightarrow> nat \<Rightarrow> fill \<Rightarrow> fill" where
  "mcs_down tbl lim 0 f = f"
| "mcs_down tbl lim (Suc kk) f = (if fi f < lim then mcs_down tbl lim kk (add_rate (tbl ! kk) (tbl ! kk) f) else f)"

text \<open>The loop of the other modes. In 802.11ax the rate of 12 Mb/s is put twice.\<close>

definition add_legacy :: "bool \<Rightarrow> u16 \<Rightarrow> nat \<Rightarrow> fill \<Rightarrow> fill" where
  "add_legacy is_he rate kk f =
     (let v = rsi_hw_values ! kk;
          f1 = f\<lparr>words := put_rate (fi f) v (words f)\<rparr>;
          f2 = (if is_he \<and> v = RSI_RATE_12 then f1\<lparr>fi := Suc (fi f1), words := put_rate (Suc (fi f1)) v (words f1)\<rparr> else f1)
      in f2\<lparr>fi := Suc (fi f2), bits := (bits f2)[fn f2 := rate], fn := Suc (fn f2)\<rparr>)"

fun legacy_rates :: "bool \<Rightarrow> u16 list \<Rightarrow> nat \<Rightarrow> fill \<Rightarrow> fill" where
  "legacy_rates is_he [] kk f = f"
| "legacy_rates is_he (rate # rates) kk f =
     (let (legacy, kk') = rsi_map_rates rate kk
      in legacy_rates is_he rates kk' (if legacy then add_legacy is_he rate kk' f else f))"

text \<open>The rest of the first half repeats its last rate.\<close>

definition stuff_one :: "u16 \<Rightarrow> fill \<Rightarrow> fill" where
  "stuff_one before f =
     f\<lparr>words := put_rate (fi f) (rate_at (words f) (int (fi f) - 1)) (words f), fi := Suc (fi f),
       bits := (bits f)[fn f := (if fn f = 0 then before else bits f ! (fn f - 1))], fn := Suc (fn f)\<rparr>"

function stuff_upper :: "u16 \<Rightarrow> nat \<Rightarrow> fill \<Rightarrow> fill" where
  "stuff_upper before lim f = (if fi f < lim then stuff_upper before lim (stuff_one before f) else f)"
  by auto
termination
  by (relation "measure (\<lambda>(before, lim, f). lim - fi f)") (auto simp: stuff_one_def)

declare stuff_upper.simps [simp del]

text \<open>A loop of the second half: rates from index \<open>kk\<close> of a table down (argument \<open>kk + 1\<close>), where the table gives one.\<close>

fun fill_down :: "(nat \<Rightarrow> u16 option) \<Rightarrow> nat \<Rightarrow> nat \<Rightarrow> nat \<times> u16 list \<Rightarrow> nat \<times> u16 list" where
  "fill_down g lim 0 (ii, ws) = (ii, ws)"
| "fill_down g lim (Suc kk) (ii, ws) =
     (if ii < lim then fill_down g lim kk (Suc ii, case g kk of None \<Rightarrow> ws | Some v \<Rightarrow> put_rate ii v ws) else (ii, ws))"

abbreviation (input) ER_SU_ONLY :: u8 where "ER_SU_ONLY \<equiv> 2"
abbreviation (input) ERSU_HE_MIXED :: u8 where "ERSU_HE_MIXED \<equiv> 1"
abbreviation (input) ENABLE_ER_SU :: u16 where "ENABLE_ER_SU \<equiv> 0x4000"

definition er_only :: "'z rate_common_scheme \<Rightarrow> bool" where
  [rsi_defs]: "er_only r \<longleftrightarrow> enable_er_su r \<and> config_er_su r = ER_SU_ONLY"

text \<open>The rate of 802.11ax at an index. For another value of \<open>config_er_su\<close> none is written.\<close>

definition he_rate :: "'z rate_common_scheme \<Rightarrow> u16 list \<Rightarrow> nat \<Rightarrow> u16 option" where
  "he_rate r tbl kk =
     (let x = tbl ! kk; p = ucast (rate_field_params r)
      in if \<not> (enable_er_su r \<and> config_er_su r \<noteq> 0)
         then Some (if x = RSI_RATE_6 \<or> x = RSI_RATE_12 then x else x OR p)
         else if config_er_su r = ER_SU_ONLY then Some (er_su_rates ! kk OR p OR ENABLE_ER_SU)
         else if config_er_su r = ERSU_HE_MIXED
         then Some (if x = RSI_RATE_12 \<or> x = RSI_RATE_6 then x
                    else if x = AX_MCS2 \<or> x = AX_MCS1 then x OR p OR ENABLE_ER_SU else x OR p)
         else None)"

definition he_half :: "'z rate_common_scheme \<Rightarrow> u16 list \<Rightarrow> bool \<Rightarrow> nat \<Rightarrow> nat \<times> u16 list \<Rightarrow> nat \<times> u16 list" where
  "he_half r tbl is_sgi lim x =
     (let (ii, ws) = x; p = ucast (rate_field_params r);
          sgi_rate = (if er_only r then AX_MCS2 OR (p OR ENABLE_ER_SU) else tbl ! 8 OR (p AND NOT (BIT 12)))
      in fill_down (he_rate r tbl) lim 9 (if is_sgi then (Suc ii, put_rate ii sgi_rate ws) else (ii, ws)))"

definition ht_half :: "u16 list \<Rightarrow> bool \<Rightarrow> nat \<Rightarrow> nat \<times> u16 list \<Rightarrow> nat \<times> u16 list" where
  "ht_half tbl is_sgi lim x =
     (let (ii, ws) = x
      in fill_down (\<lambda>kk. Some (tbl ! kk)) lim 8 (if is_sgi then (Suc ii, put_rate ii (tbl ! 7 OR BIT 9) ws) else (ii, ws)))"

text \<open>The rest of the second half: one fixed rate, or the rates from index \<open>k\<close> on.\<close>

function stuff_lower :: "u16 option \<Rightarrow> nat \<Rightarrow> int \<Rightarrow> nat \<times> u16 list \<Rightarrow> u16 list" where
  "stuff_lower fixed lim k (ii, ws) =
     (if ii < lim
      then case fixed of
             Some v \<Rightarrow> stuff_lower fixed lim k (Suc ii, put_rate ii v ws)
           | None \<Rightarrow> stuff_lower fixed lim (k + 1) (Suc ii, put_rate ii (rate_at ws k) ws)
      else ws)"
  by pat_completeness auto
termination
  by (relation "measure (\<lambda>(fixed, lim, k, ii, ws). lim - ii)") auto

declare stuff_lower.simps [simp del]

section \<open>The command\<close>

definition updated_params :: "mgmt_common \<Rightarrow> bool" where
  [rsi_defs]: "updated_params c \<longleftrightarrow> \<not> bit (feature_bitmap_9116 (settings c)) 0"

text \<open>With the updated parameters the two lowest MCS rates are replaced in the tables, for good.\<close>

definition update_tables :: "mgmt_common \<Rightarrow> 'z rate_common_scheme \<Rightarrow> 'z rate_common_scheme" where
  "update_tables c r =
     (if updated_params c
      then r\<lparr>mcs_rates := (mcs_rates r)[0 := RSI_RATE_6, 1 := RSI_RATE_12], he_rates := (he_rates r)[0 := RSI_RATE_6, 1 := RSI_RATE_12]\<rparr>
      else r)"

text \<open>
  The words before the rates. Word 7 of the descriptor is assigned, not extended, when the channel has 40
  MHz. Three words are filled in at the end.
\<close>

definition auto_rate_flags :: "mgmt_common \<Rightarrow> u16 \<Rightarrow> u16" where
  "auto_rate_flags c sta_id =
     (let w = (if updated_params c then 0 else BIT 4) OR (if bit (feature_bitmap_9116 (settings c)) 4 then BIT 5 else 0);
          w1 = (if channel_width c = BW_40MHZ then 1 else w)
      in w1 OR push_bit 8 sta_id)"

definition auto_rate_head :: "mgmt_common \<Rightarrow> u16 \<Rightarrow> u16 list" where
  "auto_rate_head c sta_id =
     [0, AUTO_RATE_IND, 0, 0, 0, 0, 0, auto_rate_flags c sta_id] @
     (if updated_params c then [2, 9, 81, 0, 65, 0, 9] else [3, 3, 27, 0, 65, 0, 3])"

definition sgi_capable :: "sta_caps \<Rightarrow> bool" where
  [rsi_defs]: "sgi_capable sta \<longleftrightarrow> cap_sgi_20 sta \<or> cap_sgi_40 sta"

text \<open>Bitmap, HT and short guard interval of the connection.\<close>

definition rate_inputs :: "'z rate_common_scheme \<Rightarrow> sta_caps \<Rightarrow> u32 \<times> bool \<times> bool" where
  "rate_inputs r sta =
     (let (bm, is_ht, is_sgi) =
        (if is_sta (rx_vifs r ! 0) then (ucast (bitrate_mask r ! rate_band r), vif_is_ht r, vif_sgi r)
         else (supp_rates sta ! rate_band r, ht_supported sta, sgi_capable sta))
      in (if rate_band r = 1 then push_bit 4 bm else bm, is_ht, is_sgi))"

definition upper_half ::
  "'z rate_common_scheme \<Rightarrow> bool \<Rightarrow> bool \<Rightarrow> bool \<Rightarrow> bool \<Rightarrow> u32 \<Rightarrow> nat \<Rightarrow> u16 list \<Rightarrow> fill" where
  "upper_half r is_he is_ht is_sgi n_only bm table_sz head =
     (let f = ht_head is_ht is_sgi (mcs_rates r)
                \<lparr>words = head @ replicate 40 0, fi = 0, bits = replicate 20 0, fn = 0\<rparr>
      in if n_only then mcs_down (mcs_rates r) table_sz 7 f
         else legacy_rates is_he (selected_rates bm) (if is_ht then 6 else 7) f)"

text \<open>All words of the command, the moderate index and the lowest rate that is not aggregated.\<close>

definition auto_rate_words :: "mgmt_common \<Rightarrow> 'z rate_common_scheme \<Rightarrow> sta_caps \<Rightarrow> u16 \<Rightarrow> u16 list \<times> u16" where
  "auto_rate_words c r sta sta_id =
     (let (bm0, is_ht, is_sgi) = rate_inputs r sta;
          is_he = ax_enabled (ax_params c);
          (sz0, moderate, n_only, bm) = select_mode bm0 is_ht (country_jp r \<and> mac80211_cur_channel r = 14);
          sz = (if is_he then Suc sz0 else sz0);
          f = upper_half r is_he is_ht is_sgi n_only bm sz (auto_rate_head c sta_id);
          lowest = int (fi f) - 1;
          f1 = stuff_upper (before_bitrate r) sz f;
          he_sta = (is_he \<and> is_sta (rx_vifs r ! 0));
          half = (if he_sta then he_half r (he_rates r) is_sgi (2 * sz) (fi f1, words f1)
                  else if is_ht then ht_half (mcs_rates r) is_sgi (2 * sz) (fi f1, words f1)
                  else (fi f1, words f1));
          fixed = (if he_sta \<and> er_only r then Some (AX_MCS0 OR ucast (rate_field_params r) OR ENABLE_ER_SU) else None);
          ws = stuff_lower fixed (2 * sz) (lowest - 1) half
      in (ws[11 := of_nat (2 * sz), 13 := ucast (evaluate_moderate_rateindex (bits f1) moderate sz), 0 := len_queue 94 RSI_WIFI_MGMT_Q],
          rate_at (words f1) lowest))"

text \<open>\<open>rsi_send_auto_rate_request\<close>. None: the second array is used without a test of its allocation, the first interface without a test that there is one.\<close>

definition rsi_send_auto_rate_request ::
  "sta_caps \<Rightarrow> u16 \<Rightarrow> mgmt_common \<Rightarrow> 'z rate_common_scheme \<Rightarrow> (int \<times> mgmt_common \<times> 'z rate_common_scheme) option" where
  "rsi_send_auto_rate_request sta sta_id c r =
     (let (ok, c1) = alloc_skb c
      in if \<not> ok \<or> \<not> fst (kz_ok r) then Some (- ENOMEM, c1, r)
         else if \<not> snd (kz_ok r) \<or> rx_vifs r ! 0 = None then None
         else let r1 = update_tables c1 r;
                  (ws, lowest) = auto_rate_words c1 r1 sta sta_id;
                  (status, c2) = queue_internal (put_words ws) c1
              in Some (status, c2, r1\<lparr>min_supported_rate := lowest\<rparr>))"

section \<open>The lowest rate of a connection\<close>

text \<open>\<open>rsi_set_min_rate\<close>; None: there is no interface. For an access point the mask passes through the 16 bits of \<open>bitrate_mask\<close>.\<close>

definition min_rate_mask :: "'z rate_common_scheme \<Rightarrow> sta_caps \<Rightarrow> u16 \<times> u32" where
  "min_rate_mask r sta =
     (let b = rate_band r
      in if map_option vif_type (last_vif r) = Some NL80211_IFTYPE_AP then (ucast (fixedrate_mask r ! b), ucast (ucast (fixedrate_mask r ! b) :: u16))
         else (ucast (supp_rates sta ! b), fixedrate_mask r ! b AND supp_rates sta ! b))"

definition min_rate_of :: "'z rate_common_scheme \<Rightarrow> bool \<Rightarrow> u32 \<Rightarrow> u16" where
  "min_rate_of r is_ht bm =
     (let legacy = (if bm AND 0xfff \<noteq> 0 then List.find (bit bm) [0..<12] else None);
          ht = (if is_ht \<and> drop_bit 12 bm \<noteq> 0 then List.find (bit (drop_bit 12 bm)) [0..<8] else None)
      in case ht of Some i \<Rightarrow> mcs_rates r ! i
         | None \<Rightarrow> (case legacy of Some i \<Rightarrow> rsi_hw_values ! i | None \<Rightarrow> 0xffff))"

definition rsi_set_min_rate :: "sta_caps \<Rightarrow> mgmt_common \<Rightarrow> 'z rate_common_scheme \<Rightarrow> (mgmt_common \<times> 'z rate_common_scheme) option" where
  "rsi_set_min_rate sta c r =
     (if last_vif r = None then None
      else
        let (mask, bm) = min_rate_mask r sta;
            r1 = r\<lparr>bitrate_mask := (bitrate_mask r)[rate_band r := mask]\<rparr>;
            r2 = (if is_sta (last_vif r)
                  then r1\<lparr>vif_is_ht := ht_supported sta, vif_sgi := (if sgi_capable sta then True else vif_sgi r1)\<rparr> else r1)
        in Some (c\<lparr>min_rate := min_rate_of r2 (vif_is_ht r2) bm\<rparr>, r2))"

section \<open>A fixed rate\<close>

record bitrate_ctl =
  legacy :: u32
  ht_mcs :: u8
  he_mcs :: u16

datatype rate_type = LEGACY_RATE | MCS_RATE | HE_MCS_RATE

text \<open>A read of a table of rates: the code of \<open>rsi_get_rate_code\<close> does not check its index.\<close>

definition table_at :: "(nat \<Rightarrow> u16) \<Rightarrow> u16 list \<Rightarrow> nat \<Rightarrow> u16" where
  "table_at beyond tbl i = (if i < length tbl then tbl ! i else beyond i)"

definition rsi_get_rate_code :: "'z rate_common_scheme \<Rightarrow> u16 \<Rightarrow> rate_type \<Rightarrow> u16" where
  "rsi_get_rate_code r bitmap ty =
     (if bitmap AND (bitmap - 1) \<noteq> 0 then 0xFF
      else let i = (case List.find (bit bitmap) [0..<16] of Some i \<Rightarrow> i | None \<Rightarrow> 16)
           in case ty of
                MCS_RATE \<Rightarrow> table_at (stray r) (mcs_rates r) i
              | HE_MCS_RATE \<Rightarrow> table_at (stray r) (he_rates r) i OR ucast (rate_field_params r)
              | LEGACY_RATE \<Rightarrow> table_at (stray r) rsi_hw_values (if rate_band r = 1 then i + 4 else i))"

text \<open>The highest legacy rate alone; an empty set stays empty.\<close>

definition highest_bit :: "u16 \<Rightarrow> u16" where
  "highest_bit l = (case List.find (bit l) (rev [0..<12]) of Some i \<Rightarrow> BIT i | None \<Rightarrow> l)"

definition auto_rate_wanted :: "'z rate_common_scheme \<Rightarrow> bitrate_ctl \<Rightarrow> bool" where
  "auto_rate_wanted r m \<longleftrightarrow>
     ht_mcs m = 0xff \<and> (ucast (legacy m) :: u16) = (if rate_band r = 1 then 0xff else 0xfff) \<and> (he_mcs m = 0xff \<or> he_mcs m = 0)"

text \<open>The rate a mask asks for; None: a rate of 802.11ax outside that mode.\<close>

definition wanted_rate :: "mgmt_common \<Rightarrow> 'z rate_common_scheme \<Rightarrow> bitrate_ctl \<Rightarrow> u16 option" where
  "wanted_rate c r m =
     (let he = ax_enabled (ax_params c)
      in if ht_mcs m \<noteq> 0xff then Some (rsi_get_rate_code r (ucast (ht_mcs m)) MCS_RATE)
         else if he \<and> he_mcs m \<noteq> 0xff then Some (rsi_get_rate_code r (he_mcs m) HE_MCS_RATE)
         else if \<not> he \<and> he_mcs m \<noteq> 0xff \<and> he_mcs m \<noteq> 0 then None
         else Some (rsi_get_rate_code r (highest_bit (ucast (legacy m))) LEGACY_RATE))"

text \<open>\<open>rsi_mac80211_set_rate_mask\<close> for an interface that is associated or not.\<close>

definition rsi_mac80211_set_rate_mask :: "bool \<Rightarrow> bitrate_ctl \<Rightarrow> mgmt_common \<Rightarrow> 'z rate_common_scheme \<Rightarrow> int \<times> mgmt_common \<times> 'z rate_common_scheme" where
  "rsi_mac80211_set_rate_mask assoc m c r =
     (if \<not> assoc then (- EINVAL, c, r)
      else
        let r1 = r\<lparr>fixedrate_mask := (fixedrate_mask r)[rate_band r := 0]\<rparr>;
            update = (\<lambda>c. let (status, c') = rsi_send_vap_dynamic_update c in (status, c', r1))
        in if auto_rate_wanted r m then update (c\<lparr>fixed_rate_en := False\<rparr>)
           else case wanted_rate c r1 m of
             None \<Rightarrow> (- EINVAL, c, r1)
           | Some rate \<Rightarrow>
             if rate = 0xFF then (- EINVAL, c, r1)
             else if country_jp r \<and> mac80211_cur_channel r = 14 \<and> rate > RSI_RATE_2 then (0, c, r1)
             else update (c\<lparr>fixed_rate_en := True, fixed_rate := rate\<rparr>))"

section \<open>What the table holds\<close>

text \<open>The rates filled in so far, and those noted in \<open>bitrate\<close>, as lists.\<close>

definition filled :: "u16 list \<Rightarrow> u16 list \<Rightarrow> u16 list \<Rightarrow> fill \<Rightarrow> bool" where
  "filled head xs bs f \<longleftrightarrow> length (words f) = 55 \<and> fi f = length xs \<and> take (15 + length xs) (words f) = head @ xs \<and>
     length (bits f) = 20 \<and> fn f = length bs \<and> take (length bs) (bits f) = bs"

definition rates_so_far :: "u16 list \<Rightarrow> u16 list \<Rightarrow> nat \<times> u16 list \<Rightarrow> bool" where
  "rates_so_far head xs p \<longleftrightarrow> length (snd p) = 55 \<and> fst p = length xs \<and> take (15 + length xs) (snd p) = head @ xs"

lemma take_update: "i < length xs \<Longrightarrow> take (Suc i) (xs[i := v]) = take i xs @ [v]"
  by (simp add: take_Suc_conv_app_nth)

lemma put_rate_grows:
  assumes "rates_so_far head xs (ii, ws)" "length xs < 40"
  shows "rates_so_far head (xs @ [v]) (Suc ii, put_rate ii v ws)"
  using assms take_update [of "15 + length xs" ws v] by (simp add: rates_so_far_def put_rate_def)

lemma add_rate_filled:
  assumes "filled head xs bs f" "length xs < 40" "length bs < 20"
  shows "filled head (xs @ [v]) (bs @ [b]) (add_rate v b f)"
  using assms take_update [of "15 + length xs" "words f" v] take_update [of "length bs" "bits f" b]
  by (simp add: filled_def add_rate_def put_rate_def)

lemma rate_at_filled:
  assumes "filled head xs bs f" "length head = 15" "i < length xs"
  shows "rate_at (words f) (int i) = xs ! i"
proof -
  have "words f ! (15 + i) = take (15 + length xs) (words f) ! (15 + i)" using assms(3) by simp
  also have "\<dots> = xs ! i" using assms(1,2) by (simp add: filled_def nth_append)
  finally show ?thesis by (simp add: rate_at_def nat_add_distrib)
qed

subsection \<open>The first half\<close>

definition head_rates :: "bool \<Rightarrow> bool \<Rightarrow> u16 list \<Rightarrow> u16 list" where
  "head_rates is_ht is_sgi tbl = (if is_ht then (if is_sgi then [tbl ! 7 OR BIT 9] else []) @ [tbl ! 7] else [])"

lemma head_filled:
  assumes "filled head [] [] f"
  shows "filled head (head_rates is_ht is_sgi tbl) (head_rates is_ht is_sgi tbl) (ht_head is_ht is_sgi tbl f)"
proof -
  note one = add_rate_filled [OF assms, of "tbl ! 7 OR BIT 9" "tbl ! 7 OR BIT 9"]
  show ?thesis
    using assms one add_rate_filled [OF assms, of "tbl ! 7" "tbl ! 7"]
      add_rate_filled [of head "[tbl ! 7 OR BIT 9]" "[tbl ! 7 OR BIT 9]" _ "tbl ! 7" "tbl ! 7"]
    by (simp add: ht_head_def head_rates_def Let_def)
qed

lemma mcs_down_filled:
  assumes "filled head xs bs f" "length xs \<le> lim" "lim \<le> 20" "length bs = length xs" "k \<le> length tbl"
  shows "filled head (xs @ take (lim - length xs) (rev (take k tbl))) (bs @ take (lim - length xs) (rev (take k tbl)))
    (mcs_down tbl lim k f)"
  using assms
proof (induction k arbitrary: xs bs f)
  case (Suc k)
  have t: "rev (take (Suc k) tbl) = tbl ! k # rev (take k tbl)" using Suc.prems(5) by (simp add: take_Suc_conv_app_nth)
  show ?case
  proof (cases "length xs < lim")
    case True
    have a: "filled head (xs @ [tbl ! k]) (bs @ [tbl ! k]) (add_rate (tbl ! k) (tbl ! k) f)"
      using add_rate_filled [OF Suc.prems(1)] True Suc.prems by simp
    have "filled head ((xs @ [tbl ! k]) @ take (lim - length (xs @ [tbl ! k])) (rev (take k tbl)))
        ((bs @ [tbl ! k]) @ take (lim - length (xs @ [tbl ! k])) (rev (take k tbl)))
        (mcs_down tbl lim k (add_rate (tbl ! k) (tbl ! k) f))"
      by (rule Suc.IH [OF a]) (use True Suc.prems in auto)
    moreover have "take (lim - length xs) (tbl ! k # rev (take k tbl)) = tbl ! k # take (lim - length (xs @ [tbl ! k])) (rev (take k tbl))"
      using True by (simp add: take_Cons')
    ultimately show ?thesis using True Suc.prems(1) unfolding t by (simp add: filled_def)
  next
    case False
    then show ?thesis using Suc.prems by (simp add: filled_def)
  qed
qed auto

definition hw_rate :: "u16 \<Rightarrow> u16" where
  "hw_rate b = rsi_hw_values ! the (first_index b rsi_bitrates)"

text \<open>No legacy rate has the bit rate of an MCS rate, so every one is found in its own table.\<close>

lemma map_rates_legacy: "b \<in> set rsi_bitrates \<Longrightarrow> \<exists>k. rsi_map_rates b kk = (True, k) \<and> rsi_hw_values ! k = hw_rate b"
  unfolding rsi_bitrates_def
  by (auto simp: rsi_map_rates_def hw_rate_def first_index_def mcs_bitrates_def rsi_bitrates_def upt_rec)

lemma legacy_filled:
  assumes "filled head xs bs f" "length xs + length rs \<le> 20" "length bs = length xs" "set rs \<subseteq> set rsi_bitrates"
  shows "filled head (xs @ map hw_rate rs) (bs @ rs) (legacy_rates False rs kk f)"
  using assms
proof (induction rs arbitrary: xs bs f kk)
  case (Cons b rs)
  obtain k where k: "rsi_map_rates b kk = (True, k)" "rsi_hw_values ! k = hw_rate b"
    using map_rates_legacy [of b kk] Cons.prems(4) by auto
  have a: "add_legacy False b k f = add_rate (hw_rate b) b f" by (simp add: add_legacy_def add_rate_def k(2) Let_def)
  have f: "filled head (xs @ [hw_rate b]) (bs @ [b]) (add_rate (hw_rate b) b f)"
    using add_rate_filled [OF Cons.prems(1)] Cons.prems(2,3) by simp
  have "filled head ((xs @ [hw_rate b]) @ map hw_rate rs) ((bs @ [b]) @ rs) (legacy_rates False rs k (add_rate (hw_rate b) b f))"
    by (rule Cons.IH [OF f]) (use Cons.prems in auto)
  then show ?case by (simp add: k(1) a)
qed auto

lemma stuff_filled:
  assumes "filled head xs bs f" "length head = 15" "xs \<noteq> []" "length xs \<le> lim" "lim \<le> 20" "length bs = length xs"
  shows "filled head (xs @ replicate (lim - length xs) (last xs)) (bs @ replicate (lim - length xs) (last bs)) (stuff_upper before lim f)"
  using assms
proof (induction "lim - length xs" arbitrary: xs bs f)
  case 0
  then have "lim = fi f" "length xs = lim" by (simp_all add: filled_def)
  with 0 show ?case by (simp add: stuff_upper.simps [of before "fi f" f])
next
  case (Suc n)
  have bs: "bs \<noteq> []" using Suc.prems(3,6) by auto
  have i: "rate_at (words f) (int (fi f) - 1) = last xs"
    using rate_at_filled [OF Suc.prems(1,2), of "length xs - 1"] Suc.prems(1,3)
    by (simp add: filled_def last_conv_nth of_nat_diff Suc_leI)
  have fn: "fn f = length bs" and tk: "take (length bs) (bits f) = bs" using Suc.prems(1) by (simp_all add: filled_def)
  have "bits f ! (length bs - 1) = take (length bs) (bits f) ! (length bs - 1)" using bs by simp
  then have j: "(if fn f = 0 then before else bits f ! (fn f - 1)) = last bs"
    unfolding tk fn using bs by (simp add: last_conv_nth)
  have "stuff_one before f = add_rate (last xs) (last bs) f"
    unfolding stuff_one_def add_rate_def i j by simp
  then have f: "filled head (xs @ [last xs]) (bs @ [last bs]) (stuff_one before f)"
    using add_rate_filled [OF Suc.prems(1)] Suc.hyps(2) Suc.prems by simp
  have "filled head ((xs @ [last xs]) @ replicate (lim - length (xs @ [last xs])) (last (xs @ [last xs])))
      ((bs @ [last bs]) @ replicate (lim - length (xs @ [last xs])) (last (bs @ [last bs])))
      (stuff_upper before lim (stuff_one before f))"
    by (rule Suc.hyps(1) [OF _ f]) (use Suc.hyps(2) Suc.prems in auto)
  moreover have "replicate (lim - length xs) v = v # replicate (lim - length (xs @ [last xs])) v" for v :: u16
    using Suc.hyps(2) by (cases "lim - length xs") auto
  moreover have "fi f < lim" using Suc.hyps(2) Suc.prems(1) by (simp add: filled_def)
  ultimately show ?case by (simp add: stuff_upper.simps [of before lim f])
qed

subsection \<open>The second half\<close>

lemma fill_down_rates:
  assumes "rates_so_far head xs p" "length xs \<le> lim" "lim \<le> 40"
    "k \<le> length tbl"
  shows "rates_so_far head (xs @ take (lim - length xs) (rev (take k tbl))) (fill_down (\<lambda>kk. Some (tbl ! kk)) lim k p)"
  using assms
proof (induction k arbitrary: xs p)
  case 0
  then show ?case by (cases p) auto
next
  case (Suc k)
  obtain ii ws where p: "p = (ii, ws)" by (cases p)
  have t: "rev (take (Suc k) tbl) = tbl ! k # rev (take k tbl)" using Suc.prems(4) by (simp add: take_Suc_conv_app_nth)
  have ii: "ii = length xs" using Suc.prems(1) p by (simp add: rates_so_far_def)
  show ?case
  proof (cases "length xs < lim")
    case True
    have a: "rates_so_far head (xs @ [tbl ! k]) (Suc ii, put_rate ii (tbl ! k) ws)"
      using put_rate_grows [of head xs ii ws] Suc.prems True p by simp
    have "rates_so_far head ((xs @ [tbl ! k]) @ take (lim - length (xs @ [tbl ! k])) (rev (take k tbl)))
        (fill_down (\<lambda>kk. Some (tbl ! kk)) lim k (Suc ii, put_rate ii (tbl ! k) ws))"
      by (rule Suc.IH [OF a]) (use True Suc.prems in auto)
    moreover have "take (lim - length xs) (tbl ! k # rev (take k tbl)) = tbl ! k # take (lim - length (xs @ [tbl ! k])) (rev (take k tbl))"
      using True by (simp add: take_Cons')
    ultimately show ?thesis using True unfolding t p by (simp add: ii)
  next
    case False
    then show ?thesis using Suc.prems p ii by simp
  qed
qed

text \<open>Elements of a list repeated at its end, one after the other from index \<open>k\<close> on.\<close>

fun echo :: "nat \<Rightarrow> nat \<Rightarrow> 'a list \<Rightarrow> 'a list" where
  "echo k 0 xs = xs"
| "echo k (Suc n) xs = echo (Suc k) n (xs @ [xs ! k])"

lemma length_echo [simp]: "length (echo k n xs) = length xs + n"
  by (induction k n xs rule: echo.induct) simp_all

lemma set_echo: "k < length xs \<Longrightarrow> set (echo k n xs) = set xs"
  by (induction k n xs rule: echo.induct) auto

lemma stuff_lower_echo:
  assumes "rates_so_far head xs (ii, ws)" "length head = 15" "k < length xs" "length xs \<le> lim" "lim \<le> 40"
  shows "take (15 + lim) (stuff_lower None lim (int k) (ii, ws)) = head @ echo k (lim - length xs) xs \<and>
    length (stuff_lower None lim (int k) (ii, ws)) = 55"
  using assms
proof (induction "lim - length xs" arbitrary: xs ii ws k)
  case 0
  then have "lim = ii" by (simp add: rates_so_far_def)
  with 0 show ?case by (simp add: stuff_lower.simps [of None ii "int k" ii ws] rates_so_far_def)
next
  case (Suc n)
  have ii: "ii = length xs" using Suc.prems(1) by (simp add: rates_so_far_def)
  have "ws ! (15 + k) = take (15 + length xs) ws ! (15 + k)" using Suc.prems(3) by simp
  also have "\<dots> = xs ! k" using Suc.prems(1,2) by (simp add: rates_so_far_def nth_append)
  finally have k: "rate_at ws (int k) = xs ! k" by (simp add: rate_at_def nat_add_distrib)
  have a: "rates_so_far head (xs @ [xs ! k]) (Suc ii, put_rate ii (xs ! k) ws)"
    using put_rate_grows [OF Suc.prems(1)] Suc.hyps(2) Suc.prems(5) by simp
  have "take (15 + lim) (stuff_lower None lim (int (Suc k)) (Suc ii, put_rate ii (xs ! k) ws)) =
        head @ echo (Suc k) (lim - length (xs @ [xs ! k])) (xs @ [xs ! k]) \<and>
      length (stuff_lower None lim (int (Suc k)) (Suc ii, put_rate ii (xs ! k) ws)) = 55"
    by (rule Suc.hyps(1) [OF _ a]) (use Suc.hyps(2) Suc.prems in auto)
  moreover have "lim - length xs = Suc (lim - length (xs @ [xs ! k]))" "length xs < lim" using Suc.hyps(2) by simp_all
  ultimately show ?case
    by (simp add: stuff_lower.simps [of None lim "int k" "length xs" ws] ii k [unfolded ii] add.commute)
qed

subsection \<open>The whole table\<close>

text \<open>
  The reference. The first half of the table holds the rates that are not aggregated, filled up with the
  lowest of them; the second half the HT rates, filled up by going through the table again from the
  last but one of the rates that are not aggregated.
\<close>

definition plain_rates :: "bool \<Rightarrow> bool \<Rightarrow> bool \<Rightarrow> u32 \<Rightarrow> u16 list \<Rightarrow> nat \<Rightarrow> u16 list" where
  "plain_rates n_only is_ht is_sgi bm tbl sz =
     (let top = head_rates is_ht is_sgi tbl
      in top @ (if n_only then take (sz - length top) (rev (take 7 tbl)) else map hw_rate (selected_rates bm)))"

text \<open>The values \<open>bitrate\<close> notes for these rates: the bit rate of a legacy rate, the code of an HT rate.\<close>

definition plain_bitrates :: "bool \<Rightarrow> bool \<Rightarrow> bool \<Rightarrow> u32 \<Rightarrow> u16 list \<Rightarrow> nat \<Rightarrow> u16 list" where
  "plain_bitrates n_only is_ht is_sgi bm tbl sz =
     (let top = head_rates is_ht is_sgi tbl
      in top @ (if n_only then take (sz - length top) (rev (take 7 tbl)) else selected_rates bm))"

text \<open>The index of the first of them that is not above the moderate rate, or of the end of the half.\<close>

definition moderate_reference :: "u16 list \<Rightarrow> u16 \<Rightarrow> nat \<Rightarrow> nat" where
  "moderate_reference bs moderate sz =
     (if \<exists>b \<in> set bs. b \<le> moderate then length (takeWhile (\<lambda>b. moderate < b) bs) else sz - 1)"

definition ht_rates :: "bool \<Rightarrow> bool \<Rightarrow> u16 list \<Rightarrow> u16 list" where
  "ht_rates is_ht is_sgi tbl = (if is_ht then (if is_sgi then [tbl ! 7 OR BIT 9] else []) @ rev tbl else [])"

definition rate_table_reference :: "u16 list \<Rightarrow> u16 list \<Rightarrow> nat \<Rightarrow> u16 list" where
  "rate_table_reference plain ht sz =
     echo (length plain - 2) (sz - length ht) (plain @ replicate (sz - length plain) (last plain) @ ht)"

lemma selected_rates_set: "set (selected_rates bm) \<subseteq> set rsi_bitrates"
proof -
  have "rsi_bitrates ! i \<in> set rsi_bitrates" if "i < 12" for i using that by (intro nth_mem) (simp add: rsi_bitrates_def)
  then show ?thesis by (auto simp: selected_rates_def)
qed

lemma filter_length_mono: "(\<And>x. x \<in> set xs \<Longrightarrow> P x \<Longrightarrow> Q x) \<Longrightarrow> length (filter P xs) \<le> length (filter Q xs)"
  by (induction xs) auto

lemma selected_bound:
  assumes "\<And>i. i < 12 \<Longrightarrow> bit bm i \<Longrightarrow> i \<notin> S"
  shows "length (selected_rates bm) \<le> length (filter (\<lambda>i. i \<notin> S) [0..<12])"
  using assms filter_length_mono [of "[0..<12]" "bit bm" "\<lambda>i. i \<notin> S"] by (simp add: selected_rates_def)

lemma not_b_mode: "\<not> b_mode bm \<Longrightarrow> i < 4 \<Longrightarrow> \<not> bit bm i"
proof
  assume a: "\<not> b_mode bm" "i < 4" "bit bm i"
  have "bit (ucast (bm AND 0xf) :: u8) i"
    using a(2,3) bit_mask_iff [where 'a = int, of 4 i] by (simp add: bit_simps mask_eq_exp_minus_1)
  with a(1) show False by (simp add: b_mode_def)
qed

lemma plain_fits:
  assumes "select_mode bm0 is_ht jp14 = (sz, moderate, n_only, bm)" "g_mode bm0 \<or> n_only"
  shows "n_only \<or> length (selected_rates bm) + (if is_ht then 2 else 0) \<le> sz" "sz \<le> 11" "is_ht \<Longrightarrow> 9 \<le> sz" "n_only \<Longrightarrow> is_ht \<and> sz = 9"
proof -
  have "bit bm i \<Longrightarrow> i \<noteq> 5" for i using assms(1) by (auto simp: select_mode_def Let_def bit_simps bit_BIT split: if_splits)
  moreover have "bit bm i \<Longrightarrow> i \<notin> {2, 3}" if "g_mode bm0" "b_mode bm0" for i
    using assms(1) that by (auto simp: select_mode_def Let_def bit_simps bit_BIT split: if_splits)
  moreover have "bit bm i \<Longrightarrow> \<not> i < 4" if "\<not> b_mode bm0" for i
    using assms(1) not_b_mode [OF that] by (auto simp: select_mode_def Let_def bit_simps bit_BIT split: if_splits)
  ultimately have "g_mode bm0 \<Longrightarrow> b_mode bm0 \<Longrightarrow> length (selected_rates bm) \<le> 9" "\<not> b_mode bm0 \<Longrightarrow> length (selected_rates bm) \<le> 7"
    using selected_bound [of bm "{2, 3, 5}"] selected_bound [of bm "{0, 1, 2, 3, 5}"] by (force simp: upt_rec)+
  then show "n_only \<or> length (selected_rates bm) + (if is_ht then 2 else 0) \<le> sz"
    using assms by (auto simp: select_mode_def Let_def split: if_splits)
  show "sz \<le> 11" "is_ht \<Longrightarrow> 9 \<le> sz" "n_only \<Longrightarrow> is_ht \<and> sz = 9"
    using assms by (auto simp: select_mode_def Let_def split: if_splits)
qed

lemma upper_filled:
  assumes "select_mode bm0 is_ht jp14 = (sz, moderate, n_only, bm)" "g_mode bm0 \<or> n_only" "length (mcs_rates r) = 8" "length head = 15"
    "plain = plain_rates n_only is_ht is_sgi bm (mcs_rates r) sz"
  shows "filled head plain (plain_bitrates n_only is_ht is_sgi bm (mcs_rates r) sz) (upper_half r False is_ht is_sgi n_only bm sz head)"
    "length (plain_bitrates n_only is_ht is_sgi bm (mcs_rates r) sz) = length plain" "length plain \<le> sz"
proof -
  let ?tbl = "mcs_rates r" and ?top = "head_rates is_ht is_sgi (mcs_rates r)"
  note fits = plain_fits [OF assms(1,2)]
  have top: "length ?top \<le> (if is_ht then 2 else 0)" by (simp add: head_rates_def)
  let ?f0 = "\<lparr>words = head @ replicate 40 0, fi = 0, bits = replicate 20 0, fn = 0\<rparr>"
  have "filled head [] [] ?f0" using assms(4) by (simp add: filled_def)
  then have f: "filled head ?top ?top (ht_head is_ht is_sgi ?tbl ?f0)" by (rule head_filled)
  have "n_only \<Longrightarrow> length ?top \<le> sz" using top fits(4) by simp
  then show l: "length plain \<le> sz" using top fits(1) by (auto simp: assms(5) plain_rates_def Let_def)
  show "length (plain_bitrates n_only is_ht is_sgi bm (mcs_rates r) sz) = length plain"
    by (simp add: assms(5) plain_rates_def plain_bitrates_def Let_def)
  show "filled head plain (plain_bitrates n_only is_ht is_sgi bm (mcs_rates r) sz) (upper_half r False is_ht is_sgi n_only bm sz head)"
  proof (cases n_only)
    case True
    show ?thesis
      using True mcs_down_filled [OF f _ _ refl, of sz 7 ?tbl] top fits(2,4) assms(3)
      by (simp add: assms(5) plain_rates_def plain_bitrates_def upper_half_def Let_def)
  next
    case False
    have "length ?top + length (selected_rates bm) \<le> 20" using top fits(1,2) False by auto
    from legacy_filled [OF f this refl selected_rates_set] show ?thesis
      using False by (simp add: assms(5) plain_rates_def plain_bitrates_def upper_half_def Let_def)
  qed
qed

lemma find_index: "List.find (\<lambda>i. P (xs ! i)) [0..<length xs] =
    (if \<exists>x \<in> set xs. P x then Some (length (takeWhile (\<lambda>x. \<not> P x) xs)) else None)"
proof (induction xs)
  case (Cons x xs)
  have f: "List.find Q (map Suc is) = map_option Suc (List.find (Q \<circ> Suc) is)" for Q :: "nat \<Rightarrow> bool" and "is"
    by (induction "is") auto
  have "[0..<length (x # xs)] = 0 # map Suc [0..<length xs]" by (simp add: map_Suc_upt upt_conv_Cons del: upt_Suc)
  then show ?case using Cons.IH by (simp add: f comp_def)
qed simp

lemma moderate_index:
  assumes "bs \<noteq> []" "length bs \<le> sz" "sz \<le> 11" "take sz ws = bs @ replicate (sz - length bs) (last bs)" "sz \<le> length ws"
  shows "ucast (evaluate_moderate_rateindex ws moderate sz) = (of_nat (moderate_reference bs moderate sz) :: u16)"
proof -
  let ?xs = "bs @ replicate (sz - length bs) (last bs)"
  have l: "length ?xs = sz" using assms(2) by simp
  have "ws ! i = ?xs ! i" if "i < sz" for i using that assms(4) by (metis nth_take)
  then have "List.find (\<lambda>i. ws ! i \<le> moderate) [0..<sz] = List.find (\<lambda>i. ?xs ! i \<le> moderate) [0..<length ?xs]"
    unfolding l by (intro find_cong) auto
  also have "\<dots> = (if \<exists>x \<in> set ?xs. x \<le> moderate then Some (length (takeWhile (\<lambda>x. \<not> x \<le> moderate) ?xs)) else None)"
    by (rule find_index)
  also have "\<dots> = (if \<exists>b \<in> set bs. b \<le> moderate then Some (length (takeWhile (\<lambda>b. moderate < b) bs)) else None)"
    using assms(1) by (auto simp: takeWhile_append not_le)
  finally have e: "List.find (\<lambda>i. ws ! i \<le> moderate) [0..<sz] = \<dots>" .
  have "0 < sz" using assms(1,2) by (cases bs) auto
  then have "of_nat sz - 1 = (of_nat (sz - 1) :: u32)" by (simp add: of_nat_diff)
  moreover have "ucast (of_nat k :: u32) = (of_nat k :: u16)" if "k \<le> 11" for k
    by (rule word_unat_eq_iff [THEN iffD2]) (use that in \<open>simp add: unat_ucast unat_of_nat take_bit_nat_def\<close>)
  moreover have "length (takeWhile (\<lambda>b. moderate < b) bs) \<le> 11"
    using length_takeWhile_le [of "\<lambda>b. moderate < b" bs] assms(2,3) by linarith
  ultimately show ?thesis using assms(3) e by (auto simp: evaluate_moderate_rateindex_def moderate_reference_def)
qed

lemma ht_half_rates:
  assumes "rates_so_far head xs p" "length xs = sz" "9 \<le> sz" "sz \<le> 11" "length tbl = 8"
  shows "rates_so_far head (xs @ ht_rates True is_sgi tbl) (ht_half tbl is_sgi (2 * sz) p)"
proof -
  obtain ii ws where p: "p = (ii, ws)" by (cases p)
  let ?xs = "if is_sgi then xs @ [tbl ! 7 OR BIT 9] else xs"
  let ?p = "if is_sgi then (Suc ii, put_rate ii (tbl ! 7 OR BIT 9) ws) else (ii, ws)"
  have "rates_so_far head ?xs ?p" using put_rate_grows [of head xs ii ws] assms p by simp
  then have "rates_so_far head (?xs @ take (2 * sz - length ?xs) (rev (take 8 tbl))) (fill_down (\<lambda>kk. Some (tbl ! kk)) (2 * sz) 8 ?p)"
    by (rule fill_down_rates) (use assms in auto)
  then show ?thesis using assms p by (auto simp: ht_half_def ht_rates_def split: if_splits)
qed

text \<open>
  C3. Outside 802.11ax, and in every mode but the one that has 802.11b rates only, the table of rates sent to
  the device is the one described by the reference, whatever rates the peer supports, if at least two of them
  are not aggregated: the loops over shared indices neither leave a hole nor write beyond it, and every
  rate in it is one of the peer's. The moderate index announced is that of the first rate that is not
  above the moderate rate of the mode.
\<close>
theorem auto_rate_table:
  assumes "rate_inputs r sta = (bm0, is_ht, is_sgi)"
    "select_mode bm0 is_ht (country_jp r \<and> mac80211_cur_channel r = 14) = (sz, moderate, n_only, bm)"
    "\<not> ax_enabled (ax_params c)" "length (mcs_rates r) = 8" "g_mode bm0 \<or> n_only"
    "2 \<le> length (plain_rates n_only is_ht is_sgi bm (mcs_rates r) sz)"
  shows "take (2 * sz) (drop 15 (fst (auto_rate_words c r sta sta_id))) =
      rate_table_reference (plain_rates n_only is_ht is_sgi bm (mcs_rates r) sz) (ht_rates is_ht is_sgi (mcs_rates r)) sz \<and>
    fst (auto_rate_words c r sta sta_id) ! 11 = of_nat (2 * sz) \<and>
    fst (auto_rate_words c r sta sta_id) ! 13 =
      of_nat (moderate_reference (plain_bitrates n_only is_ht is_sgi bm (mcs_rates r) sz) moderate sz) \<and>
    set (take (2 * sz) (drop 15 (fst (auto_rate_words c r sta sta_id)))) =
      set (plain_rates n_only is_ht is_sgi bm (mcs_rates r) sz) \<union> set (ht_rates is_ht is_sgi (mcs_rates r))"
proof -
  let ?head = "auto_rate_head c sta_id" and ?plain = "plain_rates n_only is_ht is_sgi bm (mcs_rates r) sz"
  let ?ht = "ht_rates is_ht is_sgi (mcs_rates r)" and ?f = "upper_half r False is_ht is_sgi n_only bm sz (auto_rate_head c sta_id)"
  let ?f1 = "stuff_upper (before_bitrate r) sz ?f" and ?up = "?plain @ replicate (sz - length ?plain) (last ?plain)"
  let ?bs = "plain_bitrates n_only is_ht is_sgi bm (mcs_rates r) sz"
  note fits = plain_fits [OF assms(2,5)]
  have head: "length ?head = 15" by (simp add: auto_rate_head_def)
  note f = upper_filled(1) [OF assms(2,5,4) head refl] and bs = upper_filled(2) [OF assms(2,5,4) head refl]
    and l = upper_filled(3) [OF assms(2,5,4) head refl]
  have ne: "?plain \<noteq> []" "?bs \<noteq> []" using assms(6) bs by (metis list.size(3) not_numeral_le_zero)+
  have f1: "filled ?head ?up (?bs @ replicate (sz - length ?plain) (last ?bs)) ?f1"
    by (rule stuff_filled [OF f head ne(1) l _ bs]) (use fits(2) in simp)
  have up: "length ?up = sz" using l by simp
  have r1: "rates_so_far ?head ?up (fi ?f1, words ?f1)" using f1 by (simp add: filled_def rates_so_far_def)
  let ?half = "if is_ht then ht_half (mcs_rates r) is_sgi (2 * sz) (fi ?f1, words ?f1) else (fi ?f1, words ?f1)"
  have r2: "rates_so_far ?head (?up @ ?ht) ?half"
    using r1 ht_half_rates [OF r1 up fits(3) fits(2) assms(4), of is_sgi] by (cases is_ht) (simp_all add: ht_rates_def)
  have lht: "length ?ht \<le> sz" using fits(3) assms(4) by (auto simp: ht_rates_def)
  let ?ws = "stuff_lower None (2 * sz) (int (length ?plain - 2)) ?half"
  have e: "take (15 + 2 * sz) ?ws = ?head @ rate_table_reference ?plain ?ht sz" "length ?ws = 55"
    using stuff_lower_echo [of ?head "?up @ ?ht" "fst ?half" "snd ?half" "length ?plain - 2" "2 * sz"] r2 head up lht fits(2) assms(6)
    by (simp_all add: rate_table_reference_def)
  have k: "int (fi ?f) - 1 - 1 = int (length ?plain - 2)" using f assms(6) by (simp add: filled_def of_nat_diff)
  have m: "ucast (evaluate_moderate_rateindex (bits ?f1) moderate sz) = (of_nat (moderate_reference ?bs moderate sz) :: u16)"
    using f1 l fits(2) bs by (intro moderate_index [OF ne(2)]) (simp_all add: filled_def)
  have w: "fst (auto_rate_words c r sta sta_id) =
      ?ws[11 := of_nat (2 * sz), 13 := of_nat (moderate_reference ?bs moderate sz), 0 := len_queue 94 RSI_WIFI_MGMT_Q]"
    unfolding auto_rate_words_def Let_def assms(1) prod.case assms(2) m [symmetric]
    using assms(3) k by (simp only: if_False simp_thms fst_conv prod.case)
  have t: "take (2 * sz) (drop 15 (fst (auto_rate_words c r sta sta_id))) = rate_table_reference ?plain ?ht sz"
    unfolding w using arg_cong [OF e(1), of "drop 15"] head by (simp add: drop_take)
  have "set (rate_table_reference ?plain ?ht sz) = set ?plain \<union> set ?ht"
    using assms(6) ne by (auto simp: rate_table_reference_def set_echo)
  with t w e(2) show ?thesis by simp
qed

text \<open>
  When only one rate is not aggregated and there are no HT rates, filling up the second half starts
  before the table: the parameter \<open>collision_tolerance\<close> is announced to the device as a rate.
\<close>
theorem lone_rate_announces_parameter:
  assumes "rate_inputs r sta = (bm0, False, is_sgi)"
    "select_mode bm0 False (country_jp r \<and> mac80211_cur_channel r = 14) = (sz, moderate, n_only, bm)"
    "\<not> ax_enabled (ax_params c)" "length (mcs_rates r) = 8" "g_mode bm0" "length (selected_rates bm) = 1"
  shows "fst (auto_rate_words c r sta sta_id) ! (15 + sz) = (if updated_params c then 9 else 3)"
proof -
  let ?head = "auto_rate_head c sta_id" and ?plain = "plain_rates n_only False is_sgi bm (mcs_rates r) sz"
  let ?f = "upper_half r False False is_sgi n_only bm sz (auto_rate_head c sta_id)"
  let ?f1 = "stuff_upper (before_bitrate r) sz ?f"
  have head: "length ?head = 15" by (simp add: auto_rate_head_def)
  have g: "g_mode bm0 \<or> n_only" using assms(5) by simp
  have sz: "n_only = False" "0 < sz" "sz \<le> 9" using assms(2,5) by (auto simp: select_mode_def Let_def split: if_splits)
  note f = upper_filled(1) [OF assms(2) g assms(4) head refl, of is_sgi] and bs = upper_filled(2) [OF assms(2) g assms(4) head refl, of is_sgi]
    and l = upper_filled(3) [OF assms(2) g assms(4) head refl, of is_sgi]
  have one: "length ?plain = 1" using assms(6) sz(1) by (simp add: plain_rates_def head_rates_def)
  then have ne: "?plain \<noteq> []" by auto
  obtain bs1 where f1: "filled ?head (?plain @ replicate (sz - length ?plain) (last ?plain)) bs1 ?f1"
    using stuff_filled [OF f head ne l _ bs] sz(3) by fastforce
  have fi: "fi ?f1 = sz" "length (words ?f1) = 55" "int (fi ?f) = 1" using f1 f l one by (simp_all add: filled_def)
  have "words ?f1 ! 14 = take (15 + sz) (words ?f1) ! 14" by simp
  also have "\<dots> = ?head ! 14" using f1 l head by (simp add: filled_def nth_append)
  finally have c: "rate_at (words ?f1) (- 1) = (if updated_params c then 9 else 3)"
    by (simp add: rate_at_def auto_rate_head_def nth_append)
  have keep: "stuff_lower None lim k (ii, ws) ! j = ws ! j" if "j < 15 + ii" for lim k ii ws j
    using that
  proof (induction "lim - ii" arbitrary: k ii ws)
    case 0
    then show ?case by (simp add: stuff_lower.simps [of None lim k ii ws])
  next
    case (Suc n)
    then show ?case
      using Suc.hyps(1) [of "Suc ii" "k + 1" "put_rate ii (rate_at ws k) ws"]
      by (auto simp: stuff_lower.simps [of None lim k ii ws] put_rate_def)
  qed
  have "stuff_lower None (2 * sz) (- 1) (sz, words ?f1) ! (15 + sz) = rate_at (words ?f1) (- 1)"
    using sz(2,3) fi(2) keep [of "15 + sz" "Suc sz" "2 * sz" 0 "put_rate sz (rate_at (words ?f1) (- 1)) (words ?f1)"]
    by (simp add: stuff_lower.simps [of None "2 * sz" "- 1" sz] put_rate_def)
  moreover have "int (fi ?f) - 1 - 1 = - 1" using fi(3) by simp
  ultimately have "fst (auto_rate_words c r sta sta_id) ! (15 + sz) = rate_at (words ?f1) (- 1)"
    unfolding auto_rate_words_def Let_def assms(1) prod.case assms(2) using assms(3) fi(1) sz by simp
  then show ?thesis using c by simp
qed

lemma rate_code_BIT: "k < 16 \<Longrightarrow> rsi_get_rate_code r (BIT k) MCS_RATE = table_at (stray r) (mcs_rates r) k"
  by (simp add: rsi_get_rate_code_def BIT_and_pred find_BIT)

text \<open>
  The first request with the updated parameters replaces the codes of MCS 0 and 1 in the driver's table
  for good: a user who then fixes one of these rates gets 6 or 12 Mb/s instead.
\<close>
theorem mcs0_forgotten:
  assumes "updated_params c" "mgmt_alloc c (mgmt_allocs c)" "kz_ok r = (True, True)" "length (mcs_rates r) = 8" "rx_vifs r ! 0 \<noteq> None"
  shows "\<exists>c' r'. rsi_send_auto_rate_request sta sta_id c r = Some (0, c', r') \<and>
    rsi_get_rate_code r' (BIT 0) MCS_RATE = RSI_RATE_6 \<and> rsi_get_rate_code r' (BIT 1) MCS_RATE = RSI_RATE_12"
proof -
  let ?c = "c\<lparr>mgmt_allocs := Suc (mgmt_allocs c)\<rparr>"
  let ?x = "auto_rate_words ?c (update_tables ?c r) sta sta_id"
  have u: "mcs_rates (update_tables ?c r) = (mcs_rates r)[0 := RSI_RATE_6, 1 := RSI_RATE_12]"
    using assms(1) by (simp add: update_tables_def updated_params_def)
  have "rsi_send_auto_rate_request sta sta_id c r =
      Some (0, snd (queue_internal (put_words (fst ?x)) ?c), update_tables ?c r\<lparr>min_supported_rate := snd ?x\<rparr>)"
    using assms(2,3,5) by (simp add: rsi_send_auto_rate_request_def alloc_skb_def queue_internal_def Let_def split: prod.splits)
  moreover have "rsi_get_rate_code r' (BIT 0) MCS_RATE = RSI_RATE_6 \<and> rsi_get_rate_code r' (BIT 1) MCS_RATE = RSI_RATE_12"
    if "mcs_rates r' = (mcs_rates r)[0 := RSI_RATE_6, 1 := RSI_RATE_12]" for r' :: "'a rate_common_scheme"
    using assms(4) that by (simp add: rate_code_BIT table_at_def)
  moreover have "mcs_rates (update_tables ?c r\<lparr>min_supported_rate := snd ?x\<rparr>) = (mcs_rates r)[0 := RSI_RATE_6, 1 := RSI_RATE_12]"
    using u by simp
  ultimately show ?thesis by blast
qed

section \<open>Fixing a rate\<close>

definition fixes_rate :: "bitrate_ctl \<Rightarrow> mgmt_common \<Rightarrow> 'z rate_common_scheme \<Rightarrow> u16 \<Rightarrow> bool" where
  "fixes_rate m c r rate \<longleftrightarrow>
     (let (status, c', r') = rsi_mac80211_set_rate_mask True m c r
      in if rate = 0xFF then status = - EINVAL \<and> c' = c
         else status = 0 \<and> fixed_rate_en c' \<and> fixed_rate c' = rate \<and> length (mgmt_queue c') = Suc (length (mgmt_queue c)))"

text \<open>
  The rate a mask of MCS rates fixes. One rate: its code. Several: refused. None, as when the user
  gives legacy rates only: whatever lies behind the table of MCS rates, 8 entries beyond its end.
\<close>
theorem mcs_mask_fixes:
  assumes "\<not> (country_jp r \<and> mac80211_cur_channel r = 14)" "mgmt_alloc c (mgmt_allocs c)"
    "length (mcs_rates r) = 8" "ht_mcs m \<noteq> 0xff"
  shows "if ht_mcs m = 0 then fixes_rate m c r (stray r 16)
    else if \<exists>k<8. ht_mcs m = BIT k then \<forall>k<8. ht_mcs m = BIT k \<longrightarrow> fixes_rate m c r (mcs_rates r ! k)
    else fixes_rate m c r 0xFF"
proof -
  let ?r = "r\<lparr>fixedrate_mask := (fixedrate_mask r)[rate_band r := 0]\<rparr>"
  define code where "code = rsi_get_rate_code ?r (ucast (ht_mcs m)) MCS_RATE"
  have w: "wanted_rate c ?r m = Some code" "\<not> auto_rate_wanted r m" using assms(4) by (simp_all add: wanted_rate_def auto_rate_wanted_def code_def)
  have f: "fixes_rate m c r code"
    using assms(1,2) w by (cases "country_jp r") (simp_all add: fixes_rate_def rsi_mac80211_set_rate_mask_def rsi_send_vap_dynamic_update_def send_command_def
        alloc_skb_def queue_internal_def Let_def)
  have "List.find (bit (0 :: u16)) [0..<16] = None" by (simp only: find_None_iff) simp
  then have "code = stray r 16" if "ht_mcs m = 0"
    using that assms(3) unfolding code_def rsi_get_rate_code_def table_at_def by (simp only: that) (simp add: Let_def)
  moreover have "code = mcs_rates r ! k" if "k < 8" "ht_mcs m = BIT k" for k
  proof -
    have "ucast (ht_mcs m) = (BIT k :: u16)" unfolding that(2) by (rule bit_word_eqI) (use that(1) in \<open>auto simp: bit_simps bit_BIT\<close>)
    then show ?thesis using that(1) assms(3) rate_code_BIT [of k ?r] by (simp add: table_at_def code_def)
  qed
  moreover have "code = 0xFF" if "ht_mcs m \<noteq> 0" "\<not> (\<exists>k<8. ht_mcs m = BIT k)"
  proof -
    have "\<not> (\<exists>k<16. (ucast (ht_mcs m) :: u16) = BIT k)"
    proof
      assume "\<exists>k<16. (ucast (ht_mcs m) :: u16) = BIT k"
      then obtain k where k: "k < 16" "(ucast (ht_mcs m) :: u16) = BIT k" by blast
      then have b: "bit (ucast (ht_mcs m) :: u16) n \<longleftrightarrow> n = k" for n by (auto simp: bit_BIT)
      then have "bit (ht_mcs m) k" using b [of k] unfolding bit_ucast_iff by blast
      then have "k < 8" using bit_imp_le_length [of "ht_mcs m" k] by simp
      moreover have "ht_mcs m = BIT k"
      proof (rule bit_word_eqI)
        fix n assume "n < LENGTH(8)"
        then show "bit (ht_mcs m) n = bit (BIT k :: u8) n"
          using b [of n] \<open>k < 8\<close> unfolding bit_ucast_iff bit_BIT by simp
      qed
      ultimately show False using that(2) by blast
    qed
    moreover have "(ucast (ht_mcs m) :: u16) \<noteq> 0"
    proof
      assume "(ucast (ht_mcs m) :: u16) = 0"
      then have "unat (ucast (ht_mcs m) :: u16) = 0" by simp
      then have "ht_mcs m = 0" using unat_u8_bound [of "ht_mcs m"] by (simp add: unat_ucast unat_eq_zero)
      with that(1) show False by simp
    qed
    ultimately have "(ucast (ht_mcs m) :: u16) AND (ucast (ht_mcs m) - 1) \<noteq> 0" using one_bit [of "ucast (ht_mcs m) :: u16"] by auto
    then show ?thesis by (simp add: rsi_get_rate_code_def code_def)
  qed
  ultimately have c: "ht_mcs m = 0 \<Longrightarrow> code = stray r 16" "\<And>k. k < 8 \<Longrightarrow> ht_mcs m = BIT k \<Longrightarrow> code = mcs_rates r ! k"
      "ht_mcs m \<noteq> 0 \<Longrightarrow> \<not> (\<exists>k<8. ht_mcs m = BIT k) \<Longrightarrow> code = 0xFF" by blast+
  show ?thesis
  proof (cases "ht_mcs m = 0")
    case True
    then show ?thesis using f unfolding c(1) [OF True] by (simp only: if_True simp_thms)
  next
    case nz: False
    show ?thesis
    proof (cases "\<exists>k<8. ht_mcs m = BIT k")
      case True
      have "\<forall>k<8. ht_mcs m = BIT k \<longrightarrow> fixes_rate m c r (mcs_rates r ! k)" using f c(2) by metis
      then show ?thesis using nz True by (simp only: if_True if_False simp_thms)
    next
      case False
      then show ?thesis using f nz c(3) by (simp only: if_False simp_thms)
    qed
  qed
qed

section \<open>Examples\<close>

text \<open>A connection at 2.4 GHz with all legacy rates, with and without HT rates, and one with the rate of 6 Mb/s only.\<close>

definition example_rates :: "bool \<Rightarrow> u16 \<Rightarrow> rate_common" where
  "example_rates ht legacy_mask =
     \<lparr>rx_vifs = [Some example_vif, None, None], sc_nvifs = 1, gtk_cipher = 0, ptk_cipher = 0, ap_key = None, key_stations = [],
      sec_start_bgscan = False, sec_qs_blocked = False, rate_band = 0, bitrate_mask = [legacy_mask, 0],
      fixedrate_mask = [0, 0], vif_is_ht = ht, vif_sgi = False, country_jp = False, mac80211_cur_channel = 6, enable_er_su = False,
      config_er_su = 0, rate_field_params = 0, mcs_rates = rsi_mcsrates, he_rates = rsi_he_rates, min_supported_rate = 0,
      stray = (\<lambda>i. of_nat (1000 + i)), before_bitrate = 0, kz_ok = (True, True)\<rparr>"

definition example_sta :: sta_caps where
  "example_sta = \<lparr>supp_rates = [0xfff, 0xff], ht_supported = True, cap_sgi_20 = False, cap_sgi_40 = False\<rparr>"

lemma mcs0_forgotten_witness:
  "\<exists>c' r'. rsi_send_auto_rate_request example_sta 1 (example_mgmt 1) (example_rates True 0xfff) = Some (0, c', r') \<and>
    rsi_get_rate_code r' (BIT 0) MCS_RATE = RSI_RATE_6 \<and> rsi_get_rate_code r' (BIT 1) MCS_RATE = RSI_RATE_12"
  by (rule mcs0_forgotten) (simp_all add: example_rates_def example_mgmt_def rsi_mcsrates_def updated_params_def)

lemma mcs_mask_fixes_witness:
  "fixes_rate \<lparr>legacy = 0, ht_mcs = 0, he_mcs = 0\<rparr> (example_mgmt 1) (example_rates True 0xfff) 1016"
  using mcs_mask_fixes [of "example_rates True 0xfff" "example_mgmt 1" "\<lparr>legacy = 0, ht_mcs = 0, he_mcs = 0\<rparr>"]
  by (simp add: example_rates_def example_mgmt_def rsi_mcsrates_def)

lemma upt_12: "[0..<12] = [0, 1, 2, 3, 4, 5, 6, 7, 8, 9, 10, 11 :: nat]"
  by (simp add: upt_rec)

lemmas example_selection = rate_inputs_def select_mode_def g_mode_def b_mode_def selected_rates_def rsi_bitrates_def upt_12

lemma lone_rate_announces_parameter_witness:
  "fst (auto_rate_words (example_mgmt 1) (example_rates False 0x10) example_sta 0) ! 22 = 9"
proof -
  have r: "rate_inputs (example_rates False 0x10) example_sta = (0x10, False, False)"
      "select_mode 0x10 False (country_jp (example_rates False 0x10) \<and> mac80211_cur_channel (example_rates False 0x10) = 14) =
        (7, STD_RATE_36, False, 0x10)"
    by (simp_all add: example_selection example_rates_def example_vif_def is_sta_def BIT_def)
  have l: "length (selected_rates 0x10) = 1" by (simp add: example_selection)
  show ?thesis
    using lone_rate_announces_parameter [OF r _ _ _ l, of "example_mgmt 1" 0]
    by (simp add: example_rates_def example_mgmt_def rsi_mcsrates_def g_mode_def updated_params_def no_ax_def)
qed

lemma auto_rate_table_witness:
  "take 22 (drop 15 (fst (auto_rate_words (example_mgmt 1) (example_rates True 0xfff) example_sta 0))) =
    [0x107, 0x8c, 0x88, 0x8d, 0x89, 0x8e, 0x8a, 0x8b, 2, 0, 0,
     0x107, 0x106, 0x105, 0x104, 0x103, 0x102, 0x101, 0x100, 2, 0, 0] \<and>
   fst (auto_rate_words (example_mgmt 1) (example_rates True 0xfff) example_sta 0) ! 13 = 3"
proof -
  have r: "rate_inputs (example_rates True 0xfff) example_sta = (0xfff, True, False)"
      "select_mode 0xfff True (country_jp (example_rates True 0xfff) \<and> mac80211_cur_channel (example_rates True 0xfff) = 14) =
        (11, STD_RATE_36, False, 0xfd3)"
    by (simp_all add: example_selection example_rates_def example_vif_def is_sta_def BIT_def)
  have tbl: "mcs_rates (example_rates True 0xfff) = rsi_mcsrates" by (simp add: example_rates_def)
  have p: "plain_rates False True False 0xfd3 rsi_mcsrates 11 = [0x107, 0x8c, 0x88, 0x8d, 0x89, 0x8e, 0x8a, 0x8b, 2, 0]"
    by (simp add: plain_rates_def head_rates_def rsi_mcsrates_def example_selection hw_rate_def first_index_def rsi_hw_values_def)
  have h: "ht_rates True False rsi_mcsrates = [0x107, 0x106, 0x105, 0x104, 0x103, 0x102, 0x101, 0x100]"
    by (simp add: ht_rates_def rsi_mcsrates_def)
  have b: "moderate_reference (plain_bitrates False True False 0xfd3 rsi_mcsrates 11) STD_RATE_36 11 = 3"
    by (simp add: plain_bitrates_def moderate_reference_def head_rates_def rsi_mcsrates_def example_selection)
  have "take (2 * 11) (drop 15 (fst (auto_rate_words (example_mgmt 1) (example_rates True 0xfff) example_sta 0))) =
      rate_table_reference (plain_rates False True False 0xfd3 rsi_mcsrates 11) (ht_rates True False rsi_mcsrates) 11 \<and>
    fst (auto_rate_words (example_mgmt 1) (example_rates True 0xfff) example_sta 0) ! 13 = 3"
    using auto_rate_table [OF r, of "example_mgmt 1" 0] p b unfolding tbl
    by (simp add: example_mgmt_def rsi_mcsrates_def g_mode_def no_ax_def)
  then show ?thesis unfolding p h by (simp add: rate_table_reference_def eval_nat_numeral)
qed

end
