(* ===== verification/Channel.thy ===== *)
theory Channel
  imports Rates Rx_Frame Power_Save
begin

text \<open>
  Channel, band and power: \<open>rsi_band_check\<close> and \<open>rsi_set_channel\<close> of rsi/rsi_91x_mgmt.c, and the callbacks of
  rsi/rsi_91x_mac80211.c that use them: \<open>rsi_mac80211_config\<close> with \<open>rsi_channel_change\<close> and \<open>rsi_config_power\<close>,
  \<open>rsi_resume_conn_channel\<close>, the antenna, the thresholds and the parameters of the transmit queues.

  A result None stands for a NULL pointer that is followed. \<open>BSS_ASSOC\<close> is \<open>vif_assoc\<close> of the interface.
\<close>

section \<open>State\<close>

record ieee_channel =
  ch_hw_value :: u16
  ch_5ghz :: bool
  ch_disabled :: bool
  ch_no_ir :: bool
  ch_radar :: bool
  max_power :: int

text \<open>
  \<open>cur_5ghz\<close> tells the band (\<open>common->band\<close>), \<open>conf_20mhz\<close> and \<open>conf_chan\<close> are what \<open>hw->conf\<close> asks for.
  \<open>acx_efuse\<close> says that the module type in the efuse map is ACX. \<open>passive_time\<close> is the kernel's \<open>HZ / 9\<close>.
\<close>

record chan_common = rate_common +
  ps :: ps_adapter
  cur_5ghz :: bool
  conf_20mhz :: bool
  conf_chan :: ieee_channel
  power_level :: int
  acx_mod :: bool
  acx_efuse :: bool
  auto_chan_sel :: bool
  acs_idx :: nat
  acs_n_channels :: nat
  acs_survey :: "ieee_channel option list"
  antenna_gain :: "u8 list"
  per_power :: u16
  passive_time :: u16
  ap_channel :: "ieee_channel option"
  bgscan_on :: bool
  acx_stop :: bool
  ant_in_use :: u8
  obm_ant_sel :: u8
  scan_count :: nat

abbreviation (input) E2E_MODE :: nat where "E2E_MODE \<equiv> 1"
abbreviation (input) BW_10MHZ :: u8 where "BW_10MHZ \<equiv> 2"
abbreviation (input) BW_5MHZ :: u8 where "BW_5MHZ \<equiv> 3"
abbreviation (input) SCAN_REQUEST :: u16 where "SCAN_REQUEST \<equiv> 0x6"
abbreviation (input) TX_PWR_IN_SNIFFER_MODE :: u16 where "TX_PWR_IN_SNIFFER_MODE \<equiv> 0"
abbreviation (input) ANTENNA_SEL_INT :: u8 where "ANTENNA_SEL_INT \<equiv> 2"
abbreviation (input) ANTENNA_SEL_UFL :: u8 where "ANTENNA_SEL_UFL \<equiv> 3"
abbreviation (input) MAX_RTS_THRESHOLD :: u16 where "MAX_RTS_THRESHOLD \<equiv> 2353"

text \<open>Commands one after the other, as long as they succeed.\<close>

fun commands :: "(mgmt_common \<Rightarrow> int \<times> mgmt_common) list \<Rightarrow> mgmt_common \<Rightarrow> int \<times> mgmt_common" where
  "commands [] c = (0, c)"
| "commands (f # fs) c = (let (status, c1) = f c in if status \<noteq> 0 then (status, c1) else commands fs c1)"

section \<open>Band and channel\<close>

text \<open>The width of the evaluation mode; None: an invalid setting.\<close>

definition eval_width :: "u16 \<Rightarrow> u8 option" where
  "eval_width bw =
     (if bw = 0 then Some BW_20MHZ else if bw \<in> {1, 2, 4, 6} then Some BW_40MHZ
      else if bw = 5 then Some BW_5MHZ else if bw = 7 then Some BW_10MHZ else None)"

definition band_width :: "mgmt_common \<Rightarrow> 'z chan_common_scheme \<Rightarrow> u8 option" where
  "band_width c s =
     (if driver_mode c = RF_EVAL_MODE_ON then eval_width (per_ch_bw c)
      else Some (if conf_20mhz s then BW_20MHZ else BW_40MHZ))"

definition band_endpoint :: "bool \<Rightarrow> u8 \<Rightarrow> u8" where
  "band_endpoint is_5ghz width = (if is_5ghz then (if width \<noteq> 0 then 3 else 2) else (if width \<noteq> 0 then 1 else 0))"

text \<open>The commands that the changes from \<open>c\<close> to \<open>c2\<close> call for.\<close>

definition retune :: "mgmt_common \<Rightarrow> mgmt_common \<Rightarrow> (mgmt_common \<Rightarrow> int \<times> mgmt_common) list" where
  "retune c c2 = (if endpoint c2 \<noteq> endpoint c then [rsi_program_bb_rf] else []) @
     (if channel_width c2 \<noteq> channel_width c then [rsi_load_bootup_params, rsi_load_radio_caps] else [])"

definition rsi_band_check ::
  "bool \<Rightarrow> mgmt_common \<Rightarrow> 'z chan_common_scheme \<Rightarrow> int \<times> mgmt_common \<times> 'z chan_common_scheme" where
  "rsi_band_check is_5ghz c s =
     (let c1 = (if cur_5ghz s \<noteq> is_5ghz then c\<lparr>rf_reset := True\<rparr> else c);
          s1 = s\<lparr>cur_5ghz := is_5ghz\<rparr>
      in case band_width c1 s1 of
           None \<Rightarrow> (- 1, c1, s1)
         | Some width \<Rightarrow>
           let c2 = c1\<lparr>channel_width := width, endpoint := band_endpoint is_5ghz width\<rparr>
           in if driver_mode c = RF_EVAL_MODE_ON \<and> DEV_MODEL_9116 (device_model c) then (0, c2, s1)
              else let (status, c3) = commands (retune c c2) c2
                   in (status, c3, s1))"

definition acs_running :: "'z chan_common_scheme \<Rightarrow> bool" where
  [rsi_defs]: "acs_running s \<longleftrightarrow>
     map_option vif_type (last_vif s) = Some NL80211_IFTYPE_AP \<and> auto_chan_sel s \<and> acs_idx s < acs_n_channels s"

text \<open>
  The command. The antenna gains are of the type \<open>char\<close>. Word 6 holds the power, which stays 0 for a
  channel on which the device must not initiate radiation; bit 15 of word 4 marks that.
\<close>

definition no_initiation :: "'z chan_common_scheme \<Rightarrow> ieee_channel \<Rightarrow> bool" where
  [rsi_defs]: "no_initiation s ch \<longleftrightarrow> \<not> acx_efuse s \<and> (ch_no_ir ch \<or> ch_radar ch)"

definition channel_power :: "mgmt_common \<Rightarrow> 'z chan_common_scheme \<Rightarrow> ieee_channel \<Rightarrow> u16" where
  "channel_power c s ch =
     (if driver_mode c = SNIFFER_MODE then TX_PWR_IN_SNIFFER_MODE
      else if driver_mode c = RF_EVAL_MODE_ON then per_power s
      else if no_initiation s ch then 0
      else of_int (if tx_power c < max_power ch then tx_power c else max_power ch))"

definition channel_frame :: "mgmt_common \<Rightarrow> 'z chan_common_scheme \<Rightarrow> ieee_channel \<Rightarrow> u8 list" where
  "channel_frame c s ch =
     desc_frame SCAN_REQUEST
       (if acs_running s then BIT 8 else 0)
       (if acs_running s then 15 OR push_bit 8 (passive_time s - 10) else 0)
       (ch_hw_value ch OR push_bit 8 (scast (antenna_gain s ! 0)) OR (if no_initiation s ch then BIT 15 else 0))
       (scast (antenna_gain s ! 1) OR (if channel_width c = BW_40MHZ then BIT 8 else 0))
       (channel_power c s ch)
       (ucast (dfs_region (settings c)))"

text \<open>\<open>rsi_set_channel\<close>. The refusal for ACX modules loses the buffer; without a channel nothing is sent.\<close>

definition rsi_set_channel ::
  "ieee_channel option \<Rightarrow> mgmt_common \<Rightarrow> 'z chan_common_scheme \<Rightarrow> (int \<times> mgmt_common \<times> 'z chan_common_scheme) option" where
  "rsi_set_channel chan c s =
     (let (ok, c1) = alloc_skb c
      in if \<not> ok then Some (- ENOMEM, c1, s)
         else case chan of
           None \<Rightarrow> Some (0, c1, s)
         | Some ch \<Rightarrow>
           if driver_mode c = E2E_MODE \<and> acx_mod s \<and> last_vif s = None then None
           else if driver_mode c = E2E_MODE \<and> acx_mod s \<and> map_option vif_type (last_vif s) = Some NL80211_IFTYPE_AP \<and> ch_hw_value ch > 11
           then Some (- EOPNOTSUPP, c1\<lparr>leaks := Suc (leaks c1)\<rparr>, s)
           else let s1 = (if acs_running s then s\<lparr>acs_survey := (acs_survey s)[acs_idx s := Some ch]\<rparr> else s);
                    (status, c2) = queue_internal (channel_frame c1 s ch) (c1\<lparr>channel := ucast (ch_hw_value ch)\<rparr>)
                in Some (status, c2, s1))"

text \<open>Band and channel together, as every caller sets them; the status of the channel counts when the band is set.\<close>

definition tune ::
  "ieee_channel \<Rightarrow> mgmt_common \<Rightarrow> 'z chan_common_scheme \<Rightarrow> (int \<times> mgmt_common \<times> 'z chan_common_scheme) option" where
  "tune ch c s =
     (let (status, c1, s1) = rsi_band_check (ch_5ghz ch) c s
      in if status \<noteq> 0 then Some (status, c1, s1) else rsi_set_channel (Some ch) c1 s1)"

definition ap_kind :: "rx_vif \<Rightarrow> bool" where
  [rsi_defs]: "ap_kind v \<longleftrightarrow> vif_type v = NL80211_IFTYPE_AP \<or> vif_type v = NL80211_IFTYPE_P2P_GO"

text \<open>The data queues are blocked, or unblocked, unless there is no memory for the command.\<close>

definition block_data :: "bool \<Rightarrow> mgmt_common \<Rightarrow> 'z chan_common_scheme \<Rightarrow> mgmt_common \<times> 'z chan_common_scheme" where
  "block_data b c s =
     (let (status, c1) = rsi_send_block_unblock_frame b c in (c1, if status = 0 then s\<lparr>sec_qs_blocked := b\<rparr> else s))"

definition off_channel :: "mgmt_common \<Rightarrow> 'z chan_common_scheme \<Rightarrow> bool" where
  [rsi_defs]: "off_channel c s \<longleftrightarrow> rsi_get_connected_channel c s \<noteq> ch_hw_value (conf_chan s)"

definition rsi_channel_change ::
  "mgmt_common \<Rightarrow> 'z chan_common_scheme \<Rightarrow> (int \<times> mgmt_common \<times> 'z chan_common_scheme) option" where
  "rsi_channel_change c s =
     (let ch = conf_chan s
      in if sc_nvifs s = 0 then Some (- EINVAL, c, s)
         else case last_vif s of
           None \<Rightarrow> None
         | Some v \<Rightarrow>
           if ap_kind v
           then (case tune ch c s of
                   None \<Rightarrow> None
                 | Some (status, c1, s1) \<Rightarrow>
                   if status \<noteq> 0 then Some (- EINVAL, c1, s1) else Some (0, c1, s1\<lparr>ap_channel := Some ch\<rparr>))
           else
             let s1 = s\<lparr>ap_channel := Some ch, mac80211_cur_channel := ucast (ch_hw_value ch)\<rparr>
             in if vif_assoc v \<and> bgscan_on s1 then Some (0, c, s1)
                else
                  let (c2, s2) = (if vif_assoc v \<and> \<not> sec_qs_blocked s1 \<and> off_channel c s1 then block_data True c s1 else (c, s1))
                  in case tune ch c2 s2 of
                       None \<Rightarrow> None
                     | Some (status, c3, s3) \<Rightarrow>
                       if status \<noteq> 0 then Some (- EINVAL, c3, s3)
                       else let (c4, s4) = (if vif_assoc v \<and> sec_qs_blocked s3 \<and> \<not> off_channel c3 s3 then block_data False c3 s3 else (c3, s3))
                            in Some (0, c4, s4))"

text \<open>Back to the channel of the connection (\<open>rsi_resume_conn_channel\<close>), for the interface \<open>v\<close> and its channel.\<close>

definition rsi_resume_conn_channel ::
  "rx_vif option \<Rightarrow> ieee_channel option \<Rightarrow> mgmt_common \<Rightarrow> 'z chan_common_scheme \<Rightarrow> (mgmt_common \<times> 'z chan_common_scheme) option" where
  "rsi_resume_conn_channel vif chan c s =
     (if iface_down c \<or> rx_vifs s ! 0 = None then Some (c, s)
      else case vif of
        None \<Rightarrow> Some (c, s)
      | Some v \<Rightarrow>
        if \<not> vif_assoc v \<and> \<not> ap_kind v then Some (c, s)
        else case chan of
          None \<Rightarrow> Some (c, s)
        | Some ch \<Rightarrow>
          let (_, c1, s1) = rsi_band_check (ch_5ghz ch) c s
          in map_option snd (rsi_set_channel (Some ch) c1 s1))"

section \<open>Configuration\<close>

definition rsi_config_power :: "mgmt_common \<Rightarrow> 'z chan_common_scheme \<Rightarrow> int \<times> mgmt_common" where
  "rsi_config_power c s =
     (if sc_nvifs s = 0 then (- EINVAL, c)
      else if power_level s = tx_power c then (0, c)
      else rsi_send_radio_params_update (c\<lparr>tx_power := power_level s\<rparr>))"

text \<open>
  The bits of \<open>changed\<close>. The test of the RTS threshold uses a flag of another set, \<open>WIPHY_PARAM_RTS_THRESHOLD\<close>, which is bit 3.
\<close>

abbreviation (input) CONF_CHANGE_PS :: nat where "CONF_CHANGE_PS \<equiv> 4"
abbreviation (input) CONF_CHANGE_POWER :: nat where "CONF_CHANGE_POWER \<equiv> 5"
abbreviation (input) CONF_CHANGE_CHANNEL :: nat where "CONF_CHANGE_CHANNEL \<equiv> 6"
abbreviation (input) WIPHY_PARAM_RTS :: nat where "WIPHY_PARAM_RTS \<equiv> 3"

definition conf_ps :: "ps_adapter \<Rightarrow> ps_adapter" where
  "conf_ps a =
     (if \<not> user_ps_en a then (rsi_enable_ps a)\<lparr>user_ps_en := True\<rparr>
      else if ps_state a = PS_ENABLED then (rsi_disable_ps a)\<lparr>user_ps_en := False\<rparr>
      else a)"

text \<open>The status of a call that changes nothing the driver handles is \<open>-EOPNOTSUPP\<close>.\<close>

definition config_channel ::
  "bool \<Rightarrow> mgmt_common \<Rightarrow> 'z chan_common_scheme \<Rightarrow> (int \<times> mgmt_common \<times> 'z chan_common_scheme) option" where
  "config_channel change c s =
     (if \<not> change then Some (- EOPNOTSUPP, c, s)
      else case last_vif s of
        None \<Rightarrow> None
      | Some v \<Rightarrow> rsi_channel_change c
          (if \<not> vif_assoc v \<and> ps_state (ps s) = PS_ENABLED then s\<lparr>ps := (rsi_disable_ps (ps s))\<lparr>user_ps_en := True\<rparr>\<rparr> else s))"

definition rsi_mac80211_config ::
  "u32 \<Rightarrow> mgmt_common \<Rightarrow> 'z chan_common_scheme \<Rightarrow> (int \<times> mgmt_common \<times> 'z chan_common_scheme) option" where
  "rsi_mac80211_config changed c s =
     (if fsm_state c \<noteq> FSM_MAC_INIT_DONE then Some (- ENODEV, c, s)
      else case config_channel (bit changed CONF_CHANGE_CHANNEL) c s of
        None \<Rightarrow> None
      | Some (status, c1, s1) \<Rightarrow>
        if bit changed CONF_CHANGE_CHANNEL \<and> status \<noteq> 0 then Some (- EOPNOTSUPP, c1, s1\<lparr>acx_stop := True\<rparr>)
        else if bit changed CONF_CHANGE_PS \<and> last_vif s = None then None
        else
          let s2 = (if bit changed CONF_CHANGE_CHANNEL then s1\<lparr>acx_stop := False\<rparr> else s1);
              (status2, c2) = (if bit changed CONF_CHANGE_POWER then rsi_config_power c1 s2 else (status, c1));
              s3 = (if bit changed CONF_CHANGE_PS \<and> is_sta (last_vif s) then s2\<lparr>ps := conf_ps (ps s2)\<rparr> else s2);
              (status3, c3) = (if bit changed WIPHY_PARAM_RTS \<and> rts_threshold c2 < MAX_RTS_THRESHOLD
                               then rsi_send_vap_dynamic_update c2 else (status2, c2))
          in Some (status3, c3, s3))"

definition rsi_mac80211_set_rts_threshold :: "u32 \<Rightarrow> mgmt_common \<Rightarrow> int \<times> mgmt_common" where
  "rsi_mac80211_set_rts_threshold value c = (0, snd (rsi_send_vap_dynamic_update (c\<lparr>rts_threshold := ucast value\<rparr>)))"

section \<open>Antenna\<close>

definition rsi_mac80211_set_antenna ::
  "u32 \<Rightarrow> u32 \<Rightarrow> mgmt_common \<Rightarrow> 'z chan_common_scheme \<Rightarrow> int \<times> mgmt_common \<times> 'z chan_common_scheme" where
  "rsi_mac80211_set_antenna tx_ant rx_ant c s =
     (if tx_ant > 1 \<or> rx_ant > 1 then (- EINVAL, c, s)
      else
        let antenna = (if tx_ant \<noteq> 0 then ANTENNA_SEL_UFL else ANTENNA_SEL_INT);
            (status, c1) = (if ant_in_use s \<noteq> antenna then rsi_set_antenna antenna c else (0, c))
        in if status \<noteq> 0 then (- EINVAL, c1, s) else (0, c1, s\<lparr>ant_in_use := antenna\<rparr>))"

definition rsi_mac80211_get_antenna :: "'z chan_common_scheme \<Rightarrow> u32 \<times> u32" where
  "rsi_mac80211_get_antenna s = (if ant_in_use s = ANTENNA_SEL_UFL then 1 else 0, 0)"

text \<open>Every third scan uses the other antenna.\<close>

definition rsi_trigger_antenna_change :: "mgmt_common \<Rightarrow> 'z chan_common_scheme \<Rightarrow> mgmt_common \<times> 'z chan_common_scheme" where
  "rsi_trigger_antenna_change c s =
     (if Suc (scan_count s) \<le> 2 then (c, s\<lparr>scan_count := Suc (scan_count s)\<rparr>)
      else
        let sel = (if ant_in_use s = ANTENNA_SEL_INT then ANTENNA_SEL_UFL else ANTENNA_SEL_INT);
            s1 = s\<lparr>scan_count := 0, obm_ant_sel := sel\<rparr>;
            (status, c1) = rsi_set_antenna sel c
        in (c1, if status \<noteq> 0 then s1 else s1\<lparr>ant_in_use := sel\<rparr>))"

section \<open>Transmit queues\<close>

text \<open>mac80211 numbers the queues VO, VI, BE, BK, the device BK, BE, VI, VO.\<close>

definition hw_queue :: "nat \<Rightarrow> nat" where
  "hw_queue queue = (if queue < 4 then 3 - queue else 1)"

text \<open>\<open>uapsd_bitmap\<close> is changed with the number of the queue, not with its bit.\<close>

definition set_uapsd :: "nat \<Rightarrow> bool \<Rightarrow> u8 \<Rightarrow> u8" where
  [rsi_defs]: "set_uapsd idx b m = (if b then m OR of_nat idx else m AND NOT (of_nat idx))"

definition rsi_mac80211_conf_tx ::
  "nat \<Rightarrow> edca_params \<Rightarrow> bool \<Rightarrow> mgmt_common \<Rightarrow> 'z chan_common_scheme \<Rightarrow> int \<times> mgmt_common \<times> 'z chan_common_scheme" where
  "rsi_mac80211_conf_tx queue params uapsd c s =
     (if 4 \<le> queue then (0, c, s)
      else
        let idx = hw_queue queue;
            c1 = c\<lparr>edca := (edca c)[idx := params]\<rparr>;
            s1 = s\<lparr>ps := (ps s)\<lparr>uapsd_bitmap := set_uapsd idx uapsd (uapsd_bitmap (ps s))\<rparr>\<rparr>
        in (0, if beacon_enabled c1 \<and> queue = 3 then snd (rsi_load_radio_caps c1) else c1, s1))"

section \<open>Properties\<close>

text \<open>A call has queued commands of these types.\<close>

definition sent :: "mgmt_common \<Rightarrow> mgmt_common \<Rightarrow> u8 list \<Rightarrow> bool" where
  "sent c c' ts \<longleftrightarrow> (\<exists>ds. mgmt_queue c' = mgmt_queue c @ ds \<and> map cmd_type ds = ts)"

text \<open>What no command changes.\<close>

definition keeps :: "mgmt_common \<Rightarrow> mgmt_common \<Rightarrow> bool" where
  "keeps c c' \<longleftrightarrow> iface_down c' = iface_down c \<and> mgmt_alloc c' = mgmt_alloc c \<and> endpoint c' = endpoint c \<and>
     channel_width c' = channel_width c \<and> driver_mode c' = driver_mode c"

lemma keeps_same_refl [simp]: "keeps c c"
  by (simp add: keeps_def)

lemma keeps_step: "keeps c d \<Longrightarrow> keeps d e \<Longrightarrow> keeps c e"
  by (simp add: keeps_def)

lemma keeps_queue: "queue_internal f c = (st, c') \<Longrightarrow> keeps c c'"
  by (auto simp: queue_internal_def keeps_def Let_def)

lemma keeps_send:
  assumes "send_command c effect f = (st, c')" "\<And>c. keeps c (effect c)"
  shows "keeps c c'"
proof -
  have "keeps c (c\<lparr>mgmt_allocs := n\<rparr>)" for n by (simp add: keeps_def)
  then show ?thesis
    using assms keeps_queue keeps_step by (auto simp: send_command_def alloc_skb_def split: if_splits) metis
qed

lemma keeps_commands:
  "rsi_program_bb_rf c = (st, c') \<Longrightarrow> keeps c c'" "rsi_load_bootup_params c = (st, c') \<Longrightarrow> keeps c c'"
  "rsi_load_radio_caps c = (st, c') \<Longrightarrow> keeps c c'" "rsi_send_block_unblock_frame b c = (st, c') \<Longrightarrow> keeps c c'"
  unfolding rsi_program_bb_rf_def rsi_load_bootup_params_def rsi_load_radio_caps_def rsi_send_block_unblock_frame_def
  by (rule keeps_send, assumption, simp add: keeps_def)+

lemma keeps_all:
  "commands fs c = (st, c') \<Longrightarrow> (\<And>f c st c'. f \<in> set fs \<Longrightarrow> f c = (st, c') \<Longrightarrow> keeps c c') \<Longrightarrow> keeps c c'"
proof (induction fs arbitrary: c)
  case (Cons f fs)
  obtain st1 c1 where f: "f c = (st1, c1)" by (cases "f c")
  then have k: "keeps c c1" using Cons.prems(2) [of f c st1 c1] f by simp
  show ?case
  proof (cases "st1 = 0")
    case True
    then have "commands fs c1 = (st, c')" using Cons.prems(1) f by simp
    then have "keeps c1 c'" using Cons.IH [of c1] Cons.prems(2) by (meson list.set_intros(2))
    then show ?thesis using k keeps_step by blast
  qed (use k f Cons.prems(1) in simp)
qed simp

lemma keeps_retune: "commands (retune c c2) d = (st, e) \<Longrightarrow> keeps d e"
  by (erule keeps_all) (auto simp: retune_def intro: keeps_commands split: if_splits)

text \<open>A command that is sent whenever there is memory.\<close>

definition sends_type :: "u8 \<Rightarrow> (mgmt_common \<Rightarrow> int \<times> mgmt_common) \<Rightarrow> bool" where
  "sends_type t f \<longleftrightarrow> (\<forall>c. (\<forall>n. mgmt_alloc c n) \<longrightarrow> (\<exists>c'. f c = (0, c') \<and> keeps c c' \<and> sent c c' [t]))"

lemma sends_typeI:
  assumes "\<And>c :: mgmt_common. f c = send_command c (effect c) (frame c)" "\<And>c. frame c ! 2 = t" "t \<noteq> 8"
    "\<And>c d. keeps d (effect c d) \<and> mgmt_queue (effect c d) = mgmt_queue (d :: mgmt_common)"
  shows "sends_type t f"
proof (unfold sends_type_def, intro allI impI)
  fix c :: mgmt_common assume m: "\<forall>n. mgmt_alloc c n"
  let ?c1 = "c\<lparr>mgmt_allocs := Suc (mgmt_allocs c)\<rparr>"
  let ?c' = "(effect c ?c1)\<lparr>mgmt_queue := mgmt_queue c @ [internal_mgmt_bytes (frame c)], tx_events := Suc (tx_events (effect c ?c1))\<rparr>"
  have "f c = (0, ?c')"
    using assms(2-4) m by (simp add: assms(1) send_command_def alloc_skb_def queue_internal_def Let_def)
  moreover have "keeps c ?c'" using assms(4) [of ?c1 c] by (simp add: keeps_def)
  moreover have "sent c ?c' [t]" using assms(2) by (simp add: sent_def cmd_type_def)
  ultimately show "\<exists>c'. f c = (0, c') \<and> keeps c c' \<and> sent c c' [t]" by blast
qed

lemma retune_types:
  "sends_type (0x15) rsi_program_bb_rf" "sends_type (0xC) rsi_load_bootup_params"
  "sends_type (0x2) rsi_load_radio_caps"
  by (rule sends_typeI,
      simp only: rsi_load_bootup_params_def rsi_load_radio_caps_def rsi_program_bb_rf_def,
      simp_all add: put_words_nth_type desc_frame_type bootup_frame_def radio_frame_def keeps_def)+

lemma commands_sent:
  "list_all2 sends_type ts fs \<Longrightarrow> \<forall>n. mgmt_alloc c n \<Longrightarrow> \<exists>c'. commands fs c = (0, c') \<and> keeps c c' \<and> sent c c' ts"
proof (induction ts fs arbitrary: c rule: list_all2_induct)
  case (Cons t ts f fs)
  obtain c1 where 1: "f c = (0, c1)" "keeps c c1" "sent c c1 [t]" using Cons.hyps(1) Cons.prems by (auto simp: sends_type_def)
  then have "\<forall>n. mgmt_alloc c1 n" using Cons.prems by (simp add: keeps_def)
  then obtain c2 where 2: "commands fs c1 = (0, c2)" "keeps c1 c2" "sent c1 c2 ts" using Cons.IH by blast
  have "sent c c2 (t # ts)" using 1(3) 2(3) by (fastforce simp: sent_def)
  then show ?case using 1 2 keeps_step by auto
qed (simp add: sent_def)

definition retuned :: "mgmt_common \<Rightarrow> mgmt_common \<Rightarrow> u8 list" where
  "retuned c c2 = (if endpoint c2 \<noteq> endpoint c then [0x15] else []) @
     (if channel_width c2 \<noteq> channel_width c then [0xC, 0x2] else [])"

lemma retune_sent: "\<forall>n. mgmt_alloc d n \<Longrightarrow> \<exists>e. commands (retune c c2) d = (0, e) \<and> keeps d e \<and> sent d e (retuned c c2)"
  by (rule commands_sent) (simp_all add: retune_def retuned_def retune_types)

text \<open>The band change: the state before the commands, and their result.\<close>

definition band_target :: "bool \<Rightarrow> u8 \<Rightarrow> mgmt_common \<Rightarrow> 'z chan_common_scheme \<Rightarrow> mgmt_common" where
  "band_target b width c s =
     (if cur_5ghz s \<noteq> b then c\<lparr>rf_reset := True\<rparr> else c)\<lparr>channel_width := width, endpoint := band_endpoint b width\<rparr>"

lemma band_target_simps [simp]:
  "channel_width (band_target b width c s) = width" "endpoint (band_target b width c s) = band_endpoint b width"
  "iface_down (band_target b width c s) = iface_down c" "mgmt_alloc (band_target b width c s) = mgmt_alloc c"
  "driver_mode (band_target b width c s) = driver_mode c" "mgmt_queue (band_target b width c s) = mgmt_queue c"
  by (simp_all add: band_target_def)

lemma band_check_cases:
  assumes "driver_mode c \<noteq> RF_EVAL_MODE_ON" "band_width c s = Some width"
  shows "rsi_band_check b c s = (let c2 = band_target b width c s; (st, c3) = commands (retune c c2) c2 in (st, c3, s\<lparr>cur_5ghz := b\<rparr>))"
  using assms by (simp add: rsi_band_check_def band_width_def band_target_def Let_def)

lemma band_check_keeps:
  assumes "rsi_band_check b c s = (st, c', s')"
  shows "s' = s\<lparr>cur_5ghz := b\<rparr>" "iface_down c' = iface_down c" "mgmt_alloc c' = mgmt_alloc c"
proof -
  have k: "commands (retune c d) d = (x, e) \<Longrightarrow> iface_down e = iface_down d \<and> mgmt_alloc e = mgmt_alloc d" for d x e
    using keeps_retune by (simp add: keeps_def)
  show "s' = s\<lparr>cur_5ghz := b\<rparr>"
    using assms by (auto simp: rsi_band_check_def Let_def split: if_splits option.splits prod.splits)
  show "iface_down c' = iface_down c" "mgmt_alloc c' = mgmt_alloc c"
    using assms by (auto simp: rsi_band_check_def Let_def dest!: k split: if_splits option.splits prod.splits)
qed

lemma set_channel_keeps:
  assumes "rsi_set_channel ch c s = Some (st, c', s')"
  shows "iface_down c' = iface_down c \<and> mgmt_alloc c' = mgmt_alloc c \<and> (s' = s \<or> s' = s\<lparr>acs_survey := (acs_survey s)[acs_idx s := ch]\<rparr>)"
proof -
  have q: "iface_down (snd (queue_internal f d)) = iface_down d" "mgmt_alloc (snd (queue_internal f d)) = mgmt_alloc d" for f and d :: mgmt_common
    by (simp_all add: queue_internal_def Let_def)
  obtain ok c1 where 1: "alloc_skb c = (ok, c1)" by (rule prod.exhaust)
  then have a: "iface_down c1 = iface_down c" "mgmt_alloc c1 = mgmt_alloc c" by (auto simp: alloc_skb_def)
  show ?thesis
  proof (cases ch)
    case None
    have "rsi_set_channel ch c s = Some (if ok then 0 else - ENOMEM, c1, s)" unfolding rsi_set_channel_def 1 None Let_def prod.case option.case by simp
    then show ?thesis using assms a by simp
  next
    case (Some x)
    define no_vif where "no_vif \<longleftrightarrow> driver_mode c = E2E_MODE \<and> acx_mod s \<and> last_vif s = None"
    define refused where "refused \<longleftrightarrow> driver_mode c = E2E_MODE \<and> acx_mod s \<and> map_option vif_type (last_vif s) = Some NL80211_IFTYPE_AP \<and> ch_hw_value x > 11"
    define s1 where "s1 = (if acs_running s then s\<lparr>acs_survey := (acs_survey s)[acs_idx s := Some x]\<rparr> else s)"
    define r where "r = queue_internal (channel_frame c1 s x) (c1\<lparr>channel := ucast (ch_hw_value x)\<rparr>)"
    have "rsi_set_channel ch c s =
      (if \<not> ok then Some (- ENOMEM, c1, s) else if no_vif then None
       else if refused then Some (- EOPNOTSUPP, c1\<lparr>leaks := Suc (leaks c1)\<rparr>, s) else Some (fst r, snd r, s1))"
      unfolding rsi_set_channel_def 1 Some Let_def no_vif_def refused_def s1_def r_def split_def by (simp only: fst_conv snd_conv option.case)
    then have "c' = c1 \<and> s' = s \<or> c' = c1\<lparr>leaks := Suc (leaks c1)\<rparr> \<and> s' = s \<or> c' = snd r \<and> s' = s1"
      using assms by (cases ok; cases no_vif; cases refused)
        (simp_all only: if_True if_False not_True_eq_False not_False_eq_True option.inject prod.inject option.distinct simp_thms)
    then show ?thesis using a q by (elim disjE) (simp_all add: r_def s1_def Some)
  qed
qed

lemma tune_keeps:
  assumes "tune ch c s = Some (st, c', s')"
  shows "iface_down c' = iface_down c \<and> mgmt_alloc c' = mgmt_alloc c \<and> (\<exists>band surveys. s' = s\<lparr>cur_5ghz := band, acs_survey := surveys\<rparr>)"
proof -
  obtain x c1 s1 where 1: "rsi_band_check (ch_5ghz ch) c s = (x, c1, s1)" by (cases "rsi_band_check (ch_5ghz ch) c s")
  note b = band_check_keeps [OF 1]
  show ?thesis
  proof (cases "x = 0")
    case True
    then have r: "rsi_set_channel (Some ch) c1 s1 = Some (st, c', s')" using assms 1 by (simp add: tune_def)
    have "s1 = s\<lparr>cur_5ghz := ch_5ghz ch, acs_survey := acs_survey s\<rparr>" using b by simp
    then have "s' = s\<lparr>cur_5ghz := ch_5ghz ch, acs_survey := acs_survey s'\<rparr>"
      using set_channel_keeps [OF r] by (elim conjE disjE) simp_all
    moreover have "iface_down c' = iface_down c" "mgmt_alloc c' = mgmt_alloc c" using set_channel_keeps [OF r] b by simp_all
    ultimately show ?thesis by blast
  next
    case False
    have "s' = s1" "c' = c1" using False assms 1 by (simp_all add: tune_def)
    moreover from this have "s' = s\<lparr>cur_5ghz := ch_5ghz ch, acs_survey := acs_survey s\<rparr>" using b by simp
    ultimately show ?thesis using b by blast
  qed
qed

text \<open>
  C28. With memory and outside RF evaluation a change of the band succeeds, the end point and the width are those the
  configuration asks for, and exactly the commands that the differences call for are sent: the
  baseband for a new end point, the boot parameters and the radio capabilities for a new width.
\<close>
theorem band_check_reprograms:
  assumes "\<forall>n. mgmt_alloc c n" "band_width c s = Some width" "driver_mode c \<noteq> RF_EVAL_MODE_ON"
  shows "\<exists>c' s'. rsi_band_check b c s = (0, c', s') \<and> cur_5ghz s' = b \<and> channel_width c' = width \<and>
    endpoint c' = band_endpoint b width \<and>
    map cmd_type (mgmt_queue c') = map cmd_type (mgmt_queue c) @
      (if band_endpoint b width \<noteq> endpoint c then [0x15] else []) @ (if width \<noteq> channel_width c then [0xC, 0x2] else [])"
proof -
  let ?d = "band_target b width c s"
  have "\<forall>n. mgmt_alloc ?d n" using assms(1) by simp
  then obtain e where e: "commands (retune c ?d) ?d = (0, e)" "keeps ?d e" "sent ?d e (retuned c ?d)" using retune_sent by blast
  have "rsi_band_check b c s = (0, e, s\<lparr>cur_5ghz := b\<rparr>)" using band_check_cases [OF assms(3,2)] e(1) by (simp add: Let_def)
  moreover have "map cmd_type (mgmt_queue e) = map cmd_type (mgmt_queue c) @ retuned c ?d" using e(3) by (auto simp: sent_def)
  ultimately show ?thesis using e(2) by (simp add: keeps_def retuned_def)
qed

text \<open>
  A band change that fails for lack of memory is never repaired: asked for the same band again, the
  driver finds nothing to do and reports success, although the device has not been told.
\<close>
theorem failed_band_change_sticks:
  assumes "rsi_band_check b c s = (status, c', s')" "status \<noteq> 0" "driver_mode c \<noteq> RF_EVAL_MODE_ON"
  shows "rsi_band_check b c' s' = (0, c', s')"
proof -
  obtain width where w: "band_width c s = Some width" using assms(3) by (simp add: band_width_def)
  let ?d = "band_target b width c s"
  have r: "commands (retune c ?d) ?d = (status, c')" "s' = s\<lparr>cur_5ghz := b\<rparr>"
    using assms(1) band_check_cases [OF assms(3) w] by (auto simp: Let_def split: prod.splits)
  then have k: "keeps ?d c'" using keeps_retune by blast
  then have c': "channel_width c' = width" "endpoint c' = band_endpoint b width" "driver_mode c' = driver_mode c"
    by (simp_all add: keeps_def)
  have "band_width c' s' = Some width" using w r(2) c'(3) assms(3) by (simp add: band_width_def)
  moreover have "band_target b width c' s' = c'" using c' r(2) by (simp add: band_target_def)
  moreover have "commands (retune c' c') c' = (0, c')" by (simp add: retune_def)
  moreover have "s'\<lparr>cur_5ghz := b\<rparr> = s'" using r(2) by simp
  ultimately show ?thesis using band_check_cases [of c' s' width b] c'(3) assms(3) by (simp add: Let_def)
qed

lemma block_data_result:
  "\<exists>c'. block_data b c s = (c', s\<lparr>sec_qs_blocked := (if mgmt_alloc c (mgmt_allocs c) then b else sec_qs_blocked s)\<rparr>) \<and>
     iface_down c' = iface_down c \<and> mgmt_alloc c' = mgmt_alloc c \<and> mgmt_allocs c' = Suc (mgmt_allocs c)"
  by (simp add: block_data_def rsi_send_block_unblock_frame_def send_command_def alloc_skb_def queue_internal_def Let_def)

text \<open>The change of an associated station, outside a background scan.\<close>

lemma connected_channel_change:
  assumes "rsi_channel_change c s = Some (0, c', s')" "last_vif s = Some v" "\<not> ap_kind v" "vif_assoc v" "\<not> bgscan_on s"
  shows "rsi_get_connected_channel c' s' \<noteq> ch_hw_value (conf_chan s) \<longleftrightarrow> off_channel c s"
    "sec_qs_blocked s' \<longleftrightarrow> (if off_channel c s then sec_qs_blocked s \<or> mgmt_alloc c (mgmt_allocs c)
       else sec_qs_blocked s \<and> \<not> mgmt_alloc c (mgmt_allocs c' - 1))"
proof -
  define s1 where "s1 = s\<lparr>ap_channel := Some (conf_chan s), mac80211_cur_channel := ucast (ch_hw_value (conf_chan s))\<rparr>"
  define off where "off = off_channel c s"
  have off: "off_channel d t = off"
    if "iface_down d = iface_down c" "rx_vifs t = rx_vifs s" "sc_nvifs t = sc_nvifs s" "conf_chan t = conf_chan s"
    for d and t :: "'a chan_common_scheme"
    using that by (simp add: off_def off_channel_def rsi_get_connected_channel_def)
  have o1: "off_channel c s1 = off" by (rule off) (simp_all add: s1_def)
  define b where "b \<longleftrightarrow> sec_qs_blocked s \<or> off \<and> mgmt_alloc c (mgmt_allocs c)"
  obtain c2 where 2: "(if vif_assoc v \<and> \<not> sec_qs_blocked s1 \<and> off_channel c s1 then block_data True c s1 else (c, s1)) =
      (c2, s1\<lparr>sec_qs_blocked := b\<rparr>)" "iface_down c2 = iface_down c" "mgmt_alloc c2 = mgmt_alloc c"
    using block_data_result [of True c s1] assms(4) o1
    by (cases "sec_qs_blocked s"; cases off) (auto simp: b_def s1_def)
  let ?s2 = "s1\<lparr>sec_qs_blocked := b\<rparr>"
  have n: "sc_nvifs s \<noteq> 0" by (rule notI) (use assms(1) in \<open>simp add: rsi_channel_change_def\<close>)
  have r: "(case tune (conf_chan s) c2 ?s2 of None \<Rightarrow> None
      | Some (status, c3, s3) \<Rightarrow>
          if status \<noteq> 0 then Some (- EINVAL, c3, s3)
          else let (c4, s4) = (if vif_assoc v \<and> sec_qs_blocked s3 \<and> \<not> off_channel c3 s3 then block_data False c3 s3 else (c3, s3))
               in Some (0, c4, s4)) = Some (0, c', s')"
    using assms 2(1) n by (simp add: rsi_channel_change_def Let_def s1_def cong: if_cong)
  then obtain c3 s3 where 3: "tune (conf_chan s) c2 ?s2 = Some (0, c3, s3)"
    by (auto split: option.splits if_splits)
  note k = tune_keeps [OF 3]
  then obtain band surveys where s3: "s3 = ?s2\<lparr>cur_5ghz := band, acs_survey := surveys\<rparr>" by blast
  have o3: "off_channel c3 s3 = off" by (rule off) (use k 2(2) s3 in \<open>simp_all add: s1_def\<close>)
  define s4 where "s4 = s3\<lparr>sec_qs_blocked := (if mgmt_alloc c3 (mgmt_allocs c3) then False else sec_qs_blocked s3)\<rparr>"
  obtain c4 where 4: "block_data False c3 s3 = (c4, s4)" "iface_down c4 = iface_down c3" "mgmt_allocs c4 = Suc (mgmt_allocs c3)"
    unfolding s4_def using block_data_result [of False c3 s3] by blast
  have s4: "sec_qs_blocked s4 \<longleftrightarrow> b \<and> \<not> mgmt_alloc c3 (mgmt_allocs c3)" "rx_vifs s4 = rx_vifs s3" "sc_nvifs s4 = sc_nvifs s3"
      "conf_chan s4 = conf_chan s3"
    by (simp_all add: s4_def s3)
  have e: "vif_assoc v \<and> sec_qs_blocked s3 \<and> \<not> off_channel c3 s3 \<longleftrightarrow> b \<and> \<not> off" using o3 assms(4) by (simp add: s3)
  have f: "(if b \<and> \<not> off then (c4, s4) else (c3, s3)) = (c', s')"
    using r unfolding 3 option.case prod.case Let_def e 4(1) by (simp add: split_def)
  have s3': "rx_vifs s3 = rx_vifs s" "sc_nvifs s3 = sc_nvifs s" "conf_chan s3 = conf_chan s" "sec_qs_blocked s3 = b"
    by (simp_all add: s3 s1_def)
  have "iface_down c' = iface_down c \<and> rx_vifs s' = rx_vifs s \<and> sc_nvifs s' = sc_nvifs s \<and> conf_chan s' = conf_chan s"
    using f 4(2) k 2(2) s4 s3' by (auto split: if_splits)
  then show "rsi_get_connected_channel c' s' \<noteq> ch_hw_value (conf_chan s) \<longleftrightarrow> off_channel c s"
    using off [of c' s'] by (simp add: off_def off_channel_def)
  show "sec_qs_blocked s' \<longleftrightarrow> (if off_channel c s then sec_qs_blocked s \<or> mgmt_alloc c (mgmt_allocs c)
       else sec_qs_blocked s \<and> \<not> mgmt_alloc c (mgmt_allocs c' - 1))"
  proof (cases "b \<and> \<not> off")
    case True
    then have "c' = c4" "sec_qs_blocked s' = (b \<and> \<not> mgmt_alloc c3 (mgmt_allocs c3))" using f s4 by auto
    then show ?thesis using True 4(3) k 2(3) by (simp add: b_def off_def)
  next
    case False
    then have "sec_qs_blocked s' = b" using f s3' by auto
    then show ?thesis using False by (auto simp: b_def off_def)
  qed
qed

text \<open>
  C5. Every change of the channel that succeeds. For an associated station outside a background scan, the data queues
  are afterwards blocked exactly while the device is off the channel of the connection, up to the
  memory for the command: off the channel they stay open only if they were open and the first allocation
  of the change, for the command that blocks them, fails; on it they stay blocked only if they were blocked and the last
  allocation, for the command that opens them, fails. For an access point, without a connection, and
  during a background scan they are left as they are.
\<close>
theorem data_blocked_off_channel:
  assumes "rsi_channel_change c s = Some (0, c', s')" "last_vif s = Some v"
  shows "sec_qs_blocked s' \<longleftrightarrow>
    (if ap_kind v \<or> \<not> vif_assoc v \<or> bgscan_on s then sec_qs_blocked s
     else if rsi_get_connected_channel c' s' \<noteq> ch_hw_value (conf_chan s) then sec_qs_blocked s \<or> mgmt_alloc c (mgmt_allocs c)
     else sec_qs_blocked s \<and> \<not> mgmt_alloc c (mgmt_allocs c' - 1))"
proof (cases "ap_kind v \<or> \<not> vif_assoc v \<or> bgscan_on s")
  case True
  define s1 where "s1 = s\<lparr>ap_channel := Some (conf_chan s), mac80211_cur_channel := ucast (ch_hw_value (conf_chan s))\<rparr>"
  consider (ap) "ap_kind v" | (scan) "\<not> ap_kind v" "vif_assoc v" "bgscan_on s" | (alone) "\<not> ap_kind v" "\<not> vif_assoc v"
    using True by blast
  then have "sec_qs_blocked s' = sec_qs_blocked s"
  proof cases
    case ap
    then obtain c3 s3 where "tune (conf_chan s) c s = Some (0, c3, s3)" "sec_qs_blocked s' = sec_qs_blocked s3"
      using assms by (auto simp: rsi_channel_change_def Let_def split: option.splits if_splits)
    then show ?thesis using tune_keeps [of "conf_chan s" c s 0 c3 s3] by auto
  next
    case scan
    then show ?thesis using assms by (auto simp: rsi_channel_change_def Let_def split: if_splits)
  next
    case alone
    then have "tune (conf_chan s) c s1 = Some (0, c', s')"
      using assms by (auto simp: rsi_channel_change_def Let_def s1_def split: option.splits if_splits)
    then show ?thesis using tune_keeps [of "conf_chan s" c s1 0 c' s'] by (auto simp: s1_def)
  qed
  then show ?thesis using True by simp
next
  case False
  then have v: "\<not> ap_kind v" "vif_assoc v" "\<not> bgscan_on s" by simp_all
  note r = connected_channel_change [OF assms v]
  show ?thesis using r False by simp
qed

text \<open>
  The set of queues with U-APSD is not kept: the queue with number 0 is never recorded, turning it
  on for VO turns it on for BE and VI, and turning it off for BE then leaves it on for VI only.
\<close>
theorem uapsd_set_confused:
  assumes "uapsd_bitmap (ps s) = 0"
  shows "(let (_, c1, s1) = rsi_mac80211_conf_tx 3 p True c s; (_, c2, s2) = rsi_mac80211_conf_tx 0 p True c1 s1;
              (_, c3, s3) = rsi_mac80211_conf_tx 2 p False c2 s2
          in map (\<lambda>s. uapsd_bitmap (ps s)) [s1, s2, s3]) = [0, 3, 2]"
  using assms by (simp add: rsi_mac80211_conf_tx_def hw_queue_def set_uapsd_def Let_def)

section \<open>Witnesses\<close>

definition example_channel :: "u16 \<Rightarrow> ieee_channel" where
  "example_channel n = \<lparr>ch_hw_value = n, ch_5ghz = False, ch_disabled = False, ch_no_ir = False, ch_radar = False, max_power = 20\<rparr>"

definition example_chan :: chan_common where
  "example_chan = rate_common.extend (example_rates True 0xfff)
     (chan_common.fields example_power False True (example_channel 11) 20 False False False 0 0 [] [0, 0] 0 112 None False False 2 2 0)"

lemma example_chan_fields [simp]:
  "cur_5ghz example_chan = False" "conf_20mhz example_chan" "conf_chan example_chan = example_channel 11" "ps example_chan = example_power"
  "bgscan_on example_chan = False" "sc_nvifs example_chan = 1" "rx_vifs example_chan = [Some example_vif, None, None]"
  "last_vif example_chan = Some example_vif" "acx_mod example_chan = False" "sec_qs_blocked example_chan = False" "auto_chan_sel example_chan = False"
  by (simp_all add: example_chan_def rate_common.defs chan_common.defs example_rates_def last_vif_def)

lemma band_check_reprograms_witness:
  "\<exists>c' s'. rsi_band_check True (example_mgmt 1) example_chan = (0, c', s') \<and> cur_5ghz s' \<and> channel_width c' = 0 \<and>
    endpoint c' = 2 \<and> map cmd_type (mgmt_queue c') = [0x15]"
  using band_check_reprograms [of "example_mgmt 1" example_chan BW_20MHZ True]
  by (simp add: example_mgmt_def band_width_def band_endpoint_def)

definition example_no_memory :: mgmt_common where
  "example_no_memory = (example_mgmt 1)\<lparr>mgmt_alloc := (\<lambda>_. False)\<rparr>"

lemma failed_band_change_sticks_witness:
  "\<exists>c' s'. rsi_band_check True example_no_memory example_chan = (- ENOMEM, c', s') \<and> rsi_band_check True c' s' = (0, c', s')"
proof -
  obtain st c' s' where r: "rsi_band_check True example_no_memory example_chan = (st, c', s')"
    by (cases "rsi_band_check True example_no_memory example_chan")
  moreover from r have "st = - ENOMEM"
    by (simp add: rsi_band_check_def band_width_def band_endpoint_def retune_def rsi_program_bb_rf_def send_command_def alloc_skb_def
        example_no_memory_def example_mgmt_def)
  moreover have "driver_mode example_no_memory \<noteq> RF_EVAL_MODE_ON" by (simp add: example_no_memory_def example_mgmt_def)
  ultimately show ?thesis using failed_band_change_sticks [of True example_no_memory example_chan st c' s'] by simp
qed

lemma data_blocked_off_channel_witness:
  "\<exists>c' s'. rsi_channel_change (example_mgmt 1) example_chan = Some (0, c', s') \<and>
    (sec_qs_blocked s' \<longleftrightarrow> rsi_get_connected_channel c' s' \<noteq> 11)"
proof -
  have "\<exists>c' s'. rsi_channel_change (example_mgmt 1) example_chan = Some (0, c', s')"
    by (simp add: rsi_channel_change_def off_channel_def rsi_get_connected_channel_def ap_kind_def example_vif_def block_data_def
        rsi_send_block_unblock_frame_def send_command_def alloc_skb_def queue_internal_def tune_def rsi_band_check_def band_width_def
        band_endpoint_def retune_def rsi_set_channel_def acs_running_def example_channel_def example_mgmt_def Let_def)
  then obtain c' s' where r: "rsi_channel_change (example_mgmt 1) example_chan = Some (0, c', s')" by blast
  show ?thesis using data_blocked_off_channel [OF r, of example_vif] r
    by (simp add: example_mgmt_def ap_kind_def example_vif_def example_channel_def)
qed

lemma uapsd_set_confused_witness:
  "map (\<lambda>s. uapsd_bitmap (ps s))
     (let p = \<lparr>cw_min = 15, cw_max = 1023, edca_aifs = 2, edca_txop_limit = 0, mu_aifsn = 0, mu_ecw_min_max = 0, mu_timer = 0\<rparr>;
          (_, c1, s1) = rsi_mac80211_conf_tx 3 p True (example_mgmt 1) example_chan;
          (_, c2, s2) = rsi_mac80211_conf_tx 0 p True c1 s1;
          (_, c3, s3) = rsi_mac80211_conf_tx 2 p False c2 s2
      in [s1, s2, s3]) = [0, 3, 2]"
  using uapsd_set_confused [of example_chan _ "example_mgmt 1"] by (simp add: example_power_def Let_def split_def)

end
