(* ===== verification/Scan.thy ===== *)
theory Scan
  imports Probe Channel
begin

text \<open>
  Scanning: the scan the device does in the background of a connection (\<open>rsi_validate_bgscan_channels\<close>,
  \<open>rsi_send_bgscan_params\<close>, \<open>rsi_send_bgscan_probe_req\<close> of rsi/rsi_91x_mgmt.c) and the scan the driver does channel by channel
  (\<open>rsi_scan_start\<close>), started by \<open>rsi_mac80211_hw_scan_start\<close> and cancelled by \<open>rsi_mac80211_hw_scan_cancel\<close> of rsi/rsi_91x_mac80211.c.

  A result None stands for a crash or a wait that never ends. Other threads act through \<open>scan_env\<close>:
  \<open>interfere\<close> is applied wherever the code reads what they change, \<open>wait_result\<close> gives the status of a wait (None: it never
  ends). Both get the number of the moment, so that they may differ every time.
\<close>

section \<open>State\<close>

record scan_req =
  req_channels :: "ieee_channel list"
  req_ssids :: "u8 list list"
  req_ie :: "u8 list"

text \<open>
  \<open>struct bgscan_config_params\<close> (arrays of 38, 24 and 38 entries) and the state of scans. \<open>wiphy_2ghz\<close> and
  \<open>wiphy_5ghz\<close> are the channels the driver has registered. \<open>scanning\<close> is \<open>scan_in_prog\<close>, \<open>mutex_count\<close> counts the locks of
  \<open>common->mutex\<close> less the unlocks.
\<close>

record scan_common = chan_common +
  bgscan_threshold :: u16
  roam_threshold :: u16
  bgscan_periodicity :: u16
  num_user_channels :: u8
  num_bg_channels :: u8
  debugfs_bg_channels :: u8
  two_probe :: u8
  active_scan_duration :: u16
  passive_scan_duration :: u16
  user_channels :: "u16 list"
  debugfs_channels :: "u16 list"
  channels2scan :: "u16 list"
  debugfs_bgscan :: bool
  send_initial_bgscan_chan :: bool
  wiphy_2ghz :: "ieee_channel list"
  wiphy_5ghz :: "ieee_channel list option"
  bgscan_ssid :: "u8 list"
  scan_ssid :: "u8 list"
  scan_request :: "scan_req option"
  scanning :: bool
  hwscan_en :: bool
  bgscan_in_prog :: bool
  hw_scan_cancel :: bool
  start_bgscan :: bool
  assoc_capability :: u16
  rx_stats_inprog :: bool
  default_deep_sleep :: bool
  scan_queued :: bool
  scan_timer :: "u16 option"
  scans_completed :: nat
  cancel_events :: nat
  mutex_count :: int
  hal_state :: "unit hal_common"
  skb_addr :: nat
  skb_room :: nat
  ticks :: nat

abbreviation (input) MAX_BGSCAN_CHANNELS :: nat where "MAX_BGSCAN_CHANNELS \<equiv> 38"
abbreviation (input) MAX_BG_CHAN_FROM_USER :: nat where "MAX_BG_CHAN_FROM_USER \<equiv> 24"
abbreviation (input) DFS_CHANNEL :: u16 where "DFS_CHANNEL \<equiv> BIT 15"
abbreviation (input) BG_SCAN_PARAMS :: u16 where "BG_SCAN_PARAMS \<equiv> 0x16"
abbreviation (input) BG_SCAN_PROBE_REQ :: u16 where "BG_SCAN_PROBE_REQ \<equiv> 0x17"
abbreviation (input) HOST_BG_SCAN_TRIG :: u16 where "HOST_BG_SCAN_TRIG \<equiv> BIT 4"
abbreviation (input) MAX_CHAN_FOR_ACX :: nat where "MAX_CHAN_FOR_ACX \<equiv> 13"
abbreviation (input) ACTIVE_SCAN_DURATION :: u16 where "ACTIVE_SCAN_DURATION \<equiv> 65"
abbreviation (input) EBUSY :: int where "EBUSY \<equiv> 16"

section \<open>Channels of the background scan\<close>

definition rsi_2ghz_acx_channels :: "ieee_channel list" where
  "rsi_2ghz_acx_channels =
     map (\<lambda>n. \<lparr>ch_hw_value = of_nat n, ch_5ghz = False, ch_disabled = False, ch_no_ir = (n > 11), ch_radar = False, max_power = 27\<rparr>) [1..<14]"

definition update_bgscan_channel_for_acx_module :: "mgmt_common \<Rightarrow> 'z scan_common_scheme \<Rightarrow> 'z scan_common_scheme" where
  "update_bgscan_channel_for_acx_module c s =
     (let n = (if dfs_region (settings c) + 1 = 1 then MAX_CHAN_FOR_ACX - 2 else MAX_CHAN_FOR_ACX)
      in s\<lparr>user_channels := map ch_hw_value (take n rsi_2ghz_acx_channels) @ drop n (user_channels s), num_user_channels := of_nat n\<rparr>)"

definition init_bgscan_params :: "'z scan_common_scheme \<Rightarrow> 'z scan_common_scheme" where
  "init_bgscan_params s =
     s\<lparr>bgscan_threshold := 10, roam_threshold := 10, bgscan_periodicity := 30, num_bg_channels := 0, two_probe := 0,
       active_scan_duration := 20, passive_scan_duration := 70, channels2scan := map of_nat [1..<12] @ drop 11 (channels2scan s)\<rparr>"

text \<open>The numbers of channels there are.\<close>

definition channel_number :: "u16 \<Rightarrow> bool" where
  "channel_number n \<longleftrightarrow>
     \<not> (n < 1 \<or> 14 < n \<and> n < 36 \<or> 64 < n \<and> n < 100 \<or> 140 < n \<and> n < 149 \<or> 165 < n) \<and> \<not> (36 \<le> n \<and> n < 149 \<and> n mod 4 \<noteq> 0)"

text \<open>The entry for a channel the user asks for; None: there is no list of channels of its band.\<close>

definition scan_entry :: "mgmt_common \<Rightarrow> 'z scan_common_scheme \<Rightarrow> u16 \<Rightarrow> u16 option option" where
  "scan_entry c s n =
     (if \<not> channel_number n then Some None
      else case (if 14 < n then wiphy_5ghz s else Some (wiphy_2ghz s)) of
        None \<Rightarrow> None
      | Some chans \<Rightarrow> Some (case List.find (\<lambda>ch. ch_hw_value ch = n) chans of
            None \<Rightarrow> None
          | Some ch \<Rightarrow> if ch_disabled ch then None
                       else Some (if num_supp_bands c > 1 \<and> ch_radar ch then n OR DFS_CHANNEL else n)))"

fun scan_entries :: "mgmt_common \<Rightarrow> 'z scan_common_scheme \<Rightarrow> u16 list \<Rightarrow> u16 list option" where
  "scan_entries c s [] = Some []"
| "scan_entries c s (n # ns) =
     (case scan_entry c s n of
        None \<Rightarrow> None
      | Some r \<Rightarrow> (case scan_entries c s ns of None \<Rightarrow> None | Some rs \<Rightarrow> Some (case r of None \<Rightarrow> rs | Some v \<Rightarrow> v # rs)))"

definition asked_channels :: "'z scan_common_scheme \<Rightarrow> u16 list" where
  [rsi_defs]: "asked_channels s = take (unat (num_user_channels s)) (user_channels s)"

definition rsi_validate_bgscan_channels :: "mgmt_common \<Rightarrow> 'z scan_common_scheme \<Rightarrow> 'z scan_common_scheme option" where
  "rsi_validate_bgscan_channels c s =
     (case scan_entries c s (asked_channels s) of
        None \<Rightarrow> None
      | Some rs \<Rightarrow> Some (s\<lparr>channels2scan := rs @ drop (length rs) (channels2scan s), num_bg_channels := of_nat (length rs)\<rparr>))"

text \<open>The channels set through debugfs are kept when the user's list has them too.\<close>

definition rsi_validate_debugfs_bgscan_channels :: "'z scan_common_scheme \<Rightarrow> int \<times> 'z scan_common_scheme" where
  "rsi_validate_debugfs_bgscan_channels s =
     (let valid = filter (\<lambda>n. n \<in> set (asked_channels s))
            (map (\<lambda>n. n AND NOT DFS_CHANNEL) (take (unat (debugfs_bg_channels s)) (debugfs_channels s)));
          marked = map (\<lambda>n. if 52 \<le> n \<and> n \<le> 140 then n OR DFS_CHANNEL else n) valid
      in if valid = [] then (- 1, s)
         else (0, s\<lparr>debugfs_channels := marked @ drop (length valid) (debugfs_channels s), debugfs_bg_channels := of_nat (length valid)\<rparr>))"

section \<open>Commands of the background scan\<close>

text \<open>A list of channels in the 38 entries of the command.\<close>

definition scan_list :: "u16 list \<Rightarrow> u16 list" where
  [rsi_defs]: "scan_list chans = chans @ replicate (MAX_BGSCAN_CHANNELS - length chans) 0"

definition bgscan_frame :: "bool \<Rightarrow> 'z scan_common_scheme \<Rightarrow> u8 \<Rightarrow> u16 list \<Rightarrow> u8 list" where
  "bgscan_frame enable s n chans =
     put_words ([len_queue 88 RSI_WIFI_MGMT_Q, BG_SCAN_PARAMS, 0, 0, 0, 0, 0, 0, bgscan_threshold s, roam_threshold s,
                 if enable then bgscan_periodicity s else 0, ucast n OR push_bit 8 (ucast (two_probe s)), active_scan_duration s,
                 passive_scan_duration s] @ scan_list chans)"

text \<open>
  The channels a command carries, and the state of the two parts in which more than 24 are sent. The
  length of the second part is negative when fewer than 24 of the user's channels are valid: None.
\<close>

definition bgscan_part :: "bool \<Rightarrow> 'z scan_common_scheme \<Rightarrow> (u8 \<times> u16 list \<times> 'z scan_common_scheme) option" where
  "bgscan_part enable s =
     (if \<not> enable then Some (1, [], s)
      else if debugfs_bgscan s then Some (debugfs_bg_channels s, take (unat (debugfs_bg_channels s)) (debugfs_channels s), s)
      else if num_user_channels s > 24
      then if \<not> send_initial_bgscan_chan s
           then Some (24, take MAX_BG_CHAN_FROM_USER (channels2scan s), s\<lparr>send_initial_bgscan_chan := True\<rparr>)
           else if num_bg_channels s < 24 then None
           else Some (num_bg_channels s - 24, take (unat (num_bg_channels s) - MAX_BG_CHAN_FROM_USER) (drop MAX_BG_CHAN_FROM_USER (channels2scan s)),
                      s\<lparr>send_initial_bgscan_chan := False\<rparr>)
      else Some (num_bg_channels s, take (unat (num_bg_channels s)) (channels2scan s), s))"

definition rsi_send_bgscan_params ::
  "bool \<Rightarrow> mgmt_common \<Rightarrow> 'z scan_common_scheme \<Rightarrow> (int \<times> mgmt_common \<times> 'z scan_common_scheme) option" where
  "rsi_send_bgscan_params enable c s =
     (case (if debugfs_bgscan s then Some (rsi_validate_debugfs_bgscan_channels s)
            else map_option (Pair 0) (rsi_validate_bgscan_channels c s)) of
        None \<Rightarrow> None
      | Some (status, s1) \<Rightarrow>
        if num_bg_channels s1 = 0 \<or> status \<noteq> 0 then Some (- 1, c, s1\<lparr>debugfs_bgscan := False\<rparr>)
        else let (ok, c1) = alloc_skb c
             in if \<not> ok then Some (- ENOMEM, c1, s1)
                else case bgscan_part enable s1 of
                       None \<Rightarrow> None
                     | Some (n, chans, s2) \<Rightarrow> let (status2, c2) = queue_internal (bgscan_frame enable s1 n chans) c1 in Some (status2, c2, s2))"

text \<open>
  The probe request of the background scan. mac80211 builds it (\<open>probereq_get\<close>, from address, SSID and the room for
  elements). A copy behind the end of the buffer is recorded in \<open>overrun\<close>.
\<close>

definition bgscan_probe_frame :: "'z scan_common_scheme \<Rightarrow> u8 list \<Rightarrow> u8 list" where
  "bgscan_probe_frame s probe =
     put_words [len_queue (of_nat (10 + length probe)) RSI_WIFI_MGMT_Q, BG_SCAN_PROBE_REQ, 0, 0, 0, 0, 0, 0,
                if cur_5ghz s then RSI_RATE_6 else 0, HOST_BG_SCAN_TRIG, if cur_5ghz s then 40 else 11, 20, of_nat (length probe)] @ probe"

definition rsi_send_bgscan_probe_req ::
  "(u8 list \<Rightarrow> u8 list \<Rightarrow> nat \<Rightarrow> u8 list option) \<Rightarrow> u8 list \<Rightarrow> mgmt_common \<Rightarrow> 'z scan_common_scheme \<Rightarrow> (int \<times> mgmt_common) option" where
  "rsi_send_bgscan_probe_req get addr c s =
     (let (ok, c1) = alloc_skb c
      in if \<not> ok then Some (- ENOMEM, c1)
         else if last_vif s = None then Some (- EINVAL, c1\<lparr>leaks := Suc (leaks c1)\<rparr>)
         else case scan_request s of
           None \<Rightarrow> None
         | Some req \<Rightarrow>
           (case get addr (if two_probe s \<noteq> 0 then bgscan_ssid s else []) (length (req_ie req)) of
              None \<Rightarrow> Some (- ENOMEM, c1)
            | Some probe \<Rightarrow>
              let probe1 = probe @ req_ie req
              in Some (queue_internal (bgscan_probe_frame s probe1) (if length probe1 > 1500 then c1\<lparr>overrun := True\<rparr> else c1))))"

section \<open>Starting and cancelling a scan\<close>

datatype scan_event = CHAN_SET | PROBE_CFM | CHAN_CHANGE | MGMT_CFM | CANCEL_HW_SCAN

type_synonym 'z scan_state = "mgmt_common \<times> 'z scan_common_scheme"

record 'z scan_env =
  interfere :: "nat \<Rightarrow> 'z scan_state \<Rightarrow> 'z scan_state"
  wait_result :: "scan_event \<Rightarrow> nat \<Rightarrow> int option"
  probereq_get :: "u8 list \<Rightarrow> u8 list \<Rightarrow> nat \<Rightarrow> u8 list option"

text \<open>What other threads do, and a wait during which they may do it.\<close>

definition meanwhile :: "'z scan_env \<Rightarrow> 'z scan_state \<Rightarrow> 'z scan_state" where
  [rsi_defs]: "meanwhile e x =
     (let n = ticks (snd x); (c, s) = interfere e n x in (c, s\<lparr>ticks := Suc n\<rparr>))"

definition wait_for :: "'z scan_env \<Rightarrow> scan_event \<Rightarrow> 'z scan_state \<Rightarrow> (int \<times> 'z scan_state) option" where
  [rsi_defs]: "wait_for e ev x = map_option (\<lambda>status. (status, meanwhile e x)) (wait_result e ev (ticks (snd x)))"

definition unlock_mutex :: "'z scan_common_scheme \<Rightarrow> 'z scan_common_scheme" where
  [rsi_defs]: "unlock_mutex s = s\<lparr>mutex_count := mutex_count s - 1\<rparr>"

definition lock_mutex :: "'z scan_common_scheme \<Rightarrow> 'z scan_common_scheme" where
  [rsi_defs]: "lock_mutex s = s\<lparr>mutex_count := mutex_count s + 1\<rparr>"

text \<open>\<open>rsi_validate_mac_addr\<close>: the address of the interface becomes that of the device, unless it is zero.\<close>

definition rsi_validate_mac_addr :: "u8 list \<Rightarrow> mgmt_common \<Rightarrow> int \<times> mgmt_common" where
  "rsi_validate_mac_addr addr c = (if addr = replicate 6 0 then (- 1, c) else (0, c\<lparr>mac_addr := addr\<rparr>))"

text \<open>
  Without a connection the worker is queued and will do the scan. With one, the device scans in the
  background; that part has not locked the mutex it unlocks.
\<close>

definition start_foreground ::
  "rx_vif \<Rightarrow> u8 list \<Rightarrow> scan_req \<Rightarrow> mgmt_common \<Rightarrow> 'z scan_common_scheme \<Rightarrow> int \<times> mgmt_common \<times> 'z scan_common_scheme" where
  "start_foreground vif addr req c s =
     (let (c1, s1) = (if antenna_diversity c \<noteq> 0 then rsi_trigger_antenna_change c s else (c, s));
          s2 = (if vif_type vif = NL80211_IFTYPE_AP
                then (if auto_chan_sel s1 then s1 else s1\<lparr>auto_chan_sel := True, acs_n_channels := length (req_channels req)\<rparr>)\<lparr>acs_idx := 0\<rparr>
                else s1)
      in if req_channels req = [] then (- EINVAL, c1, s2)
         else if scanning s2 then (- EBUSY, c1, s2)
         else let (status, c2) = rsi_validate_mac_addr addr c1
              in if status \<noteq> 0 then (- ENODEV, c2, s2)
                 else (0, c2, unlock_mutex ((lock_mutex s2)\<lparr>scanning := False, bgscan_on := False, hwscan_en := False, scan_queued := True\<rparr>)))"

definition start_background ::
  "'z scan_env \<Rightarrow> u8 list \<Rightarrow> scan_req \<Rightarrow> mgmt_common \<Rightarrow> 'z scan_common_scheme \<Rightarrow> (int \<times> mgmt_common \<times> 'z scan_common_scheme) option" where
  "start_background e addr req c s =
     (let s1 = s\<lparr>scan_count := 0\<rparr>; n = length (req_channels req)
      in if bit (assoc_capability s1) 4 \<and> \<not> start_bgscan s1 then Some (- EBUSY, c, unlock_mutex s1)
         else
           let s2 = s1\<lparr>num_user_channels := of_nat n, user_channels := map ch_hw_value (req_channels req) @ drop n (user_channels s1)\<rparr>;
               s3 = (if acx_efuse s2 then update_bgscan_channel_for_acx_module c s2 else s2)
           in case rsi_send_bgscan_params True c (s3\<lparr>hwscan_en := True\<rparr>) of
                None \<Rightarrow> None
              | Some (status, c1, s4) \<Rightarrow>
                if status \<noteq> 0 then Some (0, c1, unlock_mutex s4)
                else let s5 = s4\<lparr>bgscan_in_prog := True\<rparr>
                     in case rsi_send_bgscan_probe_req (probereq_get e) addr c1 s5 of
                          None \<Rightarrow> None
                        | Some (status2, c2) \<Rightarrow> Some (0, c2, unlock_mutex (if status2 = 0 then s5\<lparr>bgscan_on := True\<rparr> else s5)))"

definition rsi_mac80211_hw_scan_start ::
  "'z scan_env \<Rightarrow> rx_vif \<Rightarrow> u8 list \<Rightarrow> scan_req \<Rightarrow> mgmt_common \<Rightarrow> 'z scan_common_scheme \<Rightarrow>
   (int \<times> mgmt_common \<times> 'z scan_common_scheme) option" where
  "rsi_mac80211_hw_scan_start e vif addr req c s =
     (let s1 = s\<lparr>scan_request := Some req\<rparr>;
          s2 = (case req_ssids req of [] \<Rightarrow> s1 | ssid # _ \<Rightarrow> s1\<lparr>scan_ssid := ssid\<rparr>)
      in if fsm_state c \<noteq> FSM_MAC_INIT_DONE then Some (- ENODEV, c, s2)
         else if vif_assoc vif then start_background e addr req c s2
         else Some (start_foreground vif addr req c s2))"

definition rsi_mac80211_hw_scan_cancel :: "'z scan_env \<Rightarrow> rx_vif \<Rightarrow> 'z scan_state \<Rightarrow> 'z scan_state option" where
  "rsi_mac80211_hw_scan_cancel e vif x =
     (let (c, s) = meanwhile e x; s1 = (lock_mutex s)\<lparr>hw_scan_cancel := True\<rparr>;
          done = (\<lambda>(c, s). Some (c, unlock_mutex (s\<lparr>hw_scan_cancel := False\<rparr>)))
      in case (if scanning s1
               then map_option (\<lambda>(_, c1, s2). (c1, s2\<lparr>scan_request := None\<rparr>)) (wait_for e CANCEL_HW_SCAN (c, s1\<lparr>scanning := False\<rparr>))
               else Some (c, s1)) of
           None \<Rightarrow> None
         | Some (c1, s2) \<Rightarrow>
           if bgscan_in_prog s2
           then if vif_assoc vif
                then (case wait_for e CANCEL_HW_SCAN (c1, s2) of None \<Rightarrow> None | Some (_, c2, s3) \<Rightarrow> done (c2, s3))
                else done (c1, s2\<lparr>scans_completed := Suc (scans_completed s2)\<rparr>)
           else done (c1, s2))"

section \<open>The scan, channel by channel\<close>

text \<open>\<open>rsi_send_probe_request\<close>. Its status is not looked at; without the first interface the buffer is lost.\<close>

definition rsi_send_probe_request :: "scan_req \<Rightarrow> u8 list \<Rightarrow> 'z scan_state \<Rightarrow> 'z scan_state" where
  "rsi_send_probe_request req ssid x =
     (let (c, s) = x
      in if sc_nvifs s = 0 then x
         else
           let (ok, c1) = alloc_skb c
           in if \<not> ok \<or> iface_down c1 \<or> \<not> scanning s then (c1, s)
              else if rx_vifs s ! 0 = None then (c1\<lparr>leaks := Suc (leaks c1)\<rparr>, s)
              else case probe_packet (hal_view True (cur_5ghz s) (hal_state s)) (skb_addr s) (skb_room s)
                          (probe_request (mac_addr c1) ssid (req_ie req)) of
                     None \<Rightarrow> (c1, s)
                   | Some d \<Rightarrow> (c1\<lparr>mgmt_queue := mgmt_queue c1 @ [d], tx_events := Suc (tx_events c1)\<rparr>, s))"

text \<open>How a part of the worker ends: it goes on, leaves the loop, or leaves the function.\<close>

datatype scan_flow = GO_ON | BREAK | LEAVE

fun send_probes :: "'z scan_env \<Rightarrow> scan_req \<Rightarrow> u8 list list \<Rightarrow> 'z scan_state \<Rightarrow> (scan_flow \<times> 'z scan_state) option" where
  "send_probes e req [] x = Some (GO_ON, x)"
| "send_probes e req (ssid # ssids) x =
     (let (c, s) = meanwhile e (rsi_send_probe_request req ssid x)
      in if iface_down c then Some (LEAVE, c, s\<lparr>scanning := False\<rparr>)
         else case wait_for e PROBE_CFM (c, s) of
                None \<Rightarrow> None
              | Some (status, c1, s1) \<Rightarrow>
                if status < 0 then Some (LEAVE, c1, s1\<lparr>scanning := False\<rparr>) else send_probes e req ssids (c1, s1))"

definition radio_quiet :: "ieee_channel \<Rightarrow> bool" where
  [rsi_defs]: "radio_quiet ch \<longleftrightarrow> ch_no_ir ch \<or> ch_radar ch"

definition set_timer :: "u16 \<Rightarrow> 'z scan_state \<Rightarrow> 'z scan_state" where
  [rsi_defs]: "set_timer d x = (fst x, (snd x)\<lparr>scan_timer := Some d\<rparr>)"

text \<open>Once the channel is set: the timer, and the probe requests where the device may transmit.\<close>

definition dwell :: "'z scan_env \<Rightarrow> rx_vif option \<Rightarrow> scan_req \<Rightarrow> ieee_channel \<Rightarrow> 'z scan_state \<Rightarrow> (scan_flow \<times> 'z scan_state) option" where
  "dwell e vif req ch x =
     (let s = snd x
      in case vif of
           None \<Rightarrow> None
         | Some v \<Rightarrow>
           if vif_type v = NL80211_IFTYPE_AP \<and> auto_chan_sel s \<or> radio_quiet ch then Some (GO_ON, set_timer (passive_time s) x)
           else if auto_chan_sel s then Some (GO_ON, x)
           else case send_probes e req (req_ssids req) x of
                  None \<Rightarrow> None
                | Some (flow, x1) \<Rightarrow> Some (flow, if flow = GO_ON then set_timer ACTIVE_SCAN_DURATION x1 else x1))"

text \<open>Setting the channel and waiting for its confirmation; the flag tells whether the channel is probed.\<close>

definition set_scan_channel :: "'z scan_env \<Rightarrow> ieee_channel \<Rightarrow> 'z scan_state \<Rightarrow> (scan_flow \<times> bool \<times> 'z scan_state) option" where
  "set_scan_channel e ch x =
     (case rsi_set_channel (Some ch) (fst x) (snd x) of
        None \<Rightarrow> None
      | Some (status, x1) \<Rightarrow>
        if status = - EOPNOTSUPP then Some (GO_ON, False, set_timer ACTIVE_SCAN_DURATION x1)
        else if status \<noteq> 0 then Some (BREAK, False, x1)
        else case wait_for e CHAN_SET x1 of
               None \<Rightarrow> None
             | Some (status2, x2) \<Rightarrow> Some (if status2 < 0 \<or> \<not> scanning (snd x2) then BREAK else GO_ON, True, x2))"

text \<open>The end of a round: the wait for the timer of the channel has no limit.\<close>

definition next_channel :: "'z scan_env \<Rightarrow> 'z scan_state \<Rightarrow> (scan_flow \<times> 'z scan_state) option" where
  "next_channel e x =
     (let (c, s) = meanwhile e x
      in if \<not> scanning s \<or> iface_down c then Some (BREAK, c, s)
         else case wait_for e CHAN_CHANGE (c, s) of
                None \<Rightarrow> None
              | Some (status, x1) \<Rightarrow> Some (if status < 0 then BREAK else GO_ON, x1))"

definition scan_channel :: "'z scan_env \<Rightarrow> rx_vif option \<Rightarrow> scan_req \<Rightarrow> ieee_channel \<Rightarrow> 'z scan_state \<Rightarrow> (scan_flow \<times> 'z scan_state) option" where
  "scan_channel e vif req ch x =
     (let (c, s) = meanwhile e x
      in if iface_down c \<or> \<not> scanning s then Some (BREAK, c, s)
         else
           let (_, x1) = rsi_band_check (ch_5ghz ch) c s
           in if ch_disabled ch then Some (GO_ON, x1)
              else case set_scan_channel e ch x1 of
                     None \<Rightarrow> None
                   | Some (flow, probing, x2) \<Rightarrow>
                     if flow \<noteq> GO_ON then Some (flow, x2)
                     else if \<not> probing then next_channel e x2
                     else (case dwell e vif req ch x2 of
                             None \<Rightarrow> None
                           | Some (flow2, x3) \<Rightarrow> if flow2 \<noteq> GO_ON then Some (flow2, x3) else next_channel e x3))"

fun scan_channels :: "'z scan_env \<Rightarrow> rx_vif option \<Rightarrow> scan_req \<Rightarrow> ieee_channel list \<Rightarrow> 'z scan_state \<Rightarrow> (scan_flow \<times> 'z scan_state) option" where
  "scan_channels e vif req [] x = Some (GO_ON, x)"
| "scan_channels e vif req (ch # chs) x =
     (case scan_channel e vif req ch x of
        None \<Rightarrow> None
      | Some (flow, x1) \<Rightarrow> if flow = GO_ON then scan_channels e vif req chs x1 else Some (flow, x1))"

text \<open>
  The worker. It reports the end of the scan, unless it was left early. \<open>cancel_hw_scan_event\<close> is what
  \<open>rsi_mac80211_hw_scan_cancel\<close> waits for; then the queue of commands is emptied.
\<close>

definition scan_reported :: "'z scan_state \<Rightarrow> 'z scan_state" where
  "scan_reported x =
     (let (c, s) = x; s1 = s\<lparr>scans_completed := Suc (scans_completed s)\<rparr>
      in if hw_scan_cancel s1 then (c\<lparr>mgmt_queue := []\<rparr>, s1\<lparr>cancel_events := Suc (cancel_events s1)\<rparr>) else (c, s1))"

definition scan_ends :: "'z scan_env \<Rightarrow> rx_vif option \<Rightarrow> 'z scan_state \<Rightarrow> 'z scan_state option" where
  "scan_ends e vif x =
     (let (c, s) = x; s1 = s\<lparr>scan_timer := None, scanning := False\<rparr>
      in case vif of
           None \<Rightarrow> (if default_deep_sleep s1 \<and> \<not> rx_stats_inprog s1 then None else Some (scan_reported (c, s1)))
         | Some v \<Rightarrow>
           (case (if default_deep_sleep s1 \<and> \<not> rx_stats_inprog s1 \<and> vif_type v \<noteq> NL80211_IFTYPE_AP \<and> ps_state (ps s1) = PS_NONE
                  then map_option snd (wait_for e MGMT_CFM (c, s1\<lparr>ps := rsi_enable_ps (ps s1)\<rparr>)) else Some (c, s1)) of
              None \<Rightarrow> None
            | Some x1 \<Rightarrow> Some (scan_reported x1)))"

definition rsi_scan_start :: "'z scan_env \<Rightarrow> 'z scan_state \<Rightarrow> 'z scan_state option" where
  "rsi_scan_start e x =
     (case scan_request (snd x) of
        None \<Rightarrow> Some x
      | Some req \<Rightarrow>
        let c = fst x; vif = last_vif (snd x); s = (snd x)\<lparr>scanning := True\<rparr>
        in case (if \<not> rx_stats_inprog s \<and> ps_state (ps s) = PS_ENABLED
                 then map_option snd (wait_for e MGMT_CFM (c, s\<lparr>ps := rsi_disable_ps (ps s)\<rparr>)) else Some (c, s)) of
             None \<Rightarrow> None
           | Some (c1, s1) \<Rightarrow>
             let (c2, chans) = (if acx_efuse s1 then (c1\<lparr>settings := (settings c1)\<lparr>dfs_region := 0\<rparr>\<rparr>, rsi_2ghz_acx_channels)
                                else (c1, req_channels req))
             in case scan_channels e vif req chans (c2, s1) of
                  None \<Rightarrow> None
                | Some (flow, x1) \<Rightarrow> if flow = LEAVE then Some x1 else scan_ends e vif x1)"

section \<open>The background scan in two parts\<close>

text \<open>The channels a command lists.\<close>

definition listed_channels :: "u8 list \<Rightarrow> u16 list" where
  "listed_channels d = map (get_words d) [14..<14 + unat (ucast (get_words d 11) :: u8)]"

lemma low_byte: "ucast (ucast (n :: u8) OR push_bit 8 x :: u16) = n"
  by (rule bit_word_eqI) (auto simp: bit_simps)

lemma listed_frame:
  assumes "length chans \<le> 38" "length chans = unat n"
  shows "listed_channels (internal_mgmt_bytes (bgscan_frame en s n chans)) = chans"
proof -
  let ?ws = "[len_queue 88 RSI_WIFI_MGMT_Q, BG_SCAN_PARAMS, 0, 0, 0, 0, 0, 0, bgscan_threshold s, roam_threshold s,
                 if en then bgscan_periodicity s else 0, ucast n OR push_bit 8 (ucast (two_probe s)), active_scan_duration s,
                 passive_scan_duration s] @ scan_list chans"
  define d where "d = internal_mgmt_bytes (bgscan_frame en s n chans)"
  have r: "get_words d i = ?ws ! i" if "0 < i" "i < 52" for i
    using that assms(1) get_put_words [of i ?ws "[]"] by (simp add: d_def bgscan_frame_def scan_list_def)
  have "get_words d 11 = ucast n OR push_bit 8 (ucast (two_probe s))" using r [of 11] by simp
  then have "unat (ucast (get_words d 11) :: u8) = unat n" by (simp only: low_byte)
  then have l: "listed_channels d = map (get_words d) [14..<14 + length chans]" using assms(2) by (simp add: listed_channels_def)
  have "listed_channels d = chans"
  proof (rule nth_equalityI)
    show "length (listed_channels d) = length chans" by (simp add: l)
    fix i assume "i < length (listed_channels d)"
    then have i: "i < length chans" by (simp add: l)
    then have "listed_channels d ! i = ?ws ! (14 + i)" using r [of "14 + i"] assms(1) by (simp add: l)
    also have "\<dots> = chans ! i" using i by (simp add: nth_append scan_list_def)
    finally show "listed_channels d ! i = chans ! i" .
  qed
  then show ?thesis by (simp add: d_def)
qed

lemma bgscan_frame_type: "cmd_type (internal_mgmt_bytes (bgscan_frame en s n chans)) = 0x16"
  using put_words_nth_type [of _ "[]"] by (simp add: cmd_type_def bgscan_frame_def)

text \<open>A call that finds channels.\<close>

lemma bgscan_sends:
  assumes "\<forall>n. mgmt_alloc c n" "\<not> debugfs_bgscan s" "scan_entries c s (asked_channels s) = Some rs" "0 < length rs" "length rs \<le> 38"
  shows "rsi_send_bgscan_params True c s =
    (let s1 = s\<lparr>channels2scan := rs @ drop (length rs) (channels2scan s), num_bg_channels := of_nat (length rs)\<rparr>
     in case bgscan_part True s1 of None \<Rightarrow> None
        | Some (n, chans, s2) \<Rightarrow> Some (0, c\<lparr>mgmt_allocs := Suc (mgmt_allocs c), mgmt_queue := mgmt_queue c @ [internal_mgmt_bytes (bgscan_frame True s1 n chans)],
            tx_events := Suc (tx_events c)\<rparr>, s2))"
proof -
  have z: "(of_nat (length rs) :: u8) \<noteq> 0"
  proof -
    have "unat (of_nat (length rs) :: u8) = length rs" using assms(5) by (intro unat_of_nat_small) simp
    then show ?thesis using assms(4) by auto
  qed
  have q: "internal_mgmt_bytes (bgscan_frame en t n chans) ! 2 \<noteq> 8" for en n chans and t :: "'a scan_common_scheme"
    using bgscan_frame_type [of en t n chans] by (simp add: cmd_type_def)
  show ?thesis
    using assms(1,2,3) z q by (simp add: rsi_send_bgscan_params_def rsi_validate_bgscan_channels_def alloc_skb_def queue_internal_def Let_def
        split: option.splits)
qed

lemma scan_entries_cong:
  "num_supp_bands c' = num_supp_bands c \<Longrightarrow> wiphy_2ghz s' = wiphy_2ghz s \<Longrightarrow> wiphy_5ghz s' = wiphy_5ghz s \<Longrightarrow>
   scan_entries c' s' ns = scan_entries c s ns"
proof (induction ns)
  case (Cons n ns)
  have "scan_entry c' s' n = scan_entry c s n" using Cons.prems by (simp add: scan_entry_def cong: if_cong option.case_cong)
  then show ?case using Cons by (simp cong: option.case_cong)
qed simp

text \<open>
  C13. A background scan for which more than 24 channels are requested, without a list from debugfs, is sent in two parts:
  with memory, and if at least 24 and at most 38 of the channels are valid, two calls queue two commands
  that together list exactly the valid channels, in order, and the next call begins anew. With fewer than 24
  valid channels the second call computes a negative length (\<open>bgscan_negative_part\<close>).
\<close>
theorem bgscan_two_parts:
  assumes "\<forall>n. mgmt_alloc c n" "\<not> debugfs_bgscan s" "\<not> send_initial_bgscan_chan s"
    "scan_entries c s (asked_channels s) = Some rs" "24 < num_user_channels s" "24 \<le> length rs" "length rs \<le> 38"
  shows "\<exists>c1 s1 c2 s2 d1 d2.
    rsi_send_bgscan_params True c s = Some (0, c1, s1) \<and> rsi_send_bgscan_params True c1 s1 = Some (0, c2, s2) \<and>
    mgmt_queue c2 = mgmt_queue c @ [d1, d2] \<and> listed_channels d1 @ listed_channels d2 = rs \<and> \<not> send_initial_bgscan_chan s2"
proof -
  let ?N = "of_nat (length rs) :: u8"
  have ne: "0 < length rs" "rs \<noteq> []" using assms(6) by auto
  have N: "unat ?N = length rs" using assms(7) by (intro unat_of_nat_small) simp
  then have N24: "24 \<le> ?N" using assms(6) by (simp add: word_le_nat_alt)
  define t1 where "t1 = s\<lparr>channels2scan := rs @ drop (length rs) (channels2scan s), num_bg_channels := ?N\<rparr>"
  define d1 where "d1 = internal_mgmt_bytes (bgscan_frame True t1 24 (take 24 rs))"
  define s1 where "s1 = t1\<lparr>send_initial_bgscan_chan := True\<rparr>"
  define c1 where "c1 = c\<lparr>mgmt_allocs := Suc (mgmt_allocs c), mgmt_queue := mgmt_queue c @ [d1], tx_events := Suc (tx_events c)\<rparr>"
  have "bgscan_part True t1 = Some (24, take 24 rs, s1)"
    using assms(2,3,5,6) by (simp add: bgscan_part_def t1_def s1_def)
  then have 1: "rsi_send_bgscan_params True c s = Some (0, c1, s1)"
    using bgscan_sends [OF assms(1,2,4)] ne assms(7) by (simp add: t1_def [symmetric] c1_def d1_def Let_def)
  define t2 where "t2 = s1\<lparr>channels2scan := rs @ drop (length rs) (channels2scan s1), num_bg_channels := ?N\<rparr>"
  define rest where "rest = take (length rs - 24) (drop 24 (channels2scan t2))"
  define d2 where "d2 = internal_mgmt_bytes (bgscan_frame True t2 (?N - 24) rest)"
  define s2 where "s2 = t2\<lparr>send_initial_bgscan_chan := False\<rparr>"
  define c2 where "c2 = c1\<lparr>mgmt_allocs := Suc (mgmt_allocs c1), mgmt_queue := mgmt_queue c1 @ [d2], tx_events := Suc (tx_events c1)\<rparr>"
  have r: "rest = drop 24 rs" using assms(6) by (simp add: rest_def t2_def)
  have e: "scan_entries c1 s1 (asked_channels s1) = Some rs" "\<forall>n. mgmt_alloc c1 n" "\<not> debugfs_bgscan s1"
    using assms(1,2,4) scan_entries_cong [of c1 c s1 s] by (simp_all add: c1_def s1_def t1_def asked_channels_def)
  have "bgscan_part True t2 = Some (?N - 24, rest, s2)"
    using assms(2,5) N N24 by (simp add: bgscan_part_def t2_def s2_def s1_def t1_def rest_def)
  then have 2: "rsi_send_bgscan_params True c1 s1 = Some (0, c2, s2)"
    using bgscan_sends [OF e(2,3,1)] ne assms(7) by (simp add: t2_def [symmetric] c2_def d2_def Let_def)
  have "unat (?N - 24) = length rest" using N N24 r by (simp add: unat_sub)
  then have "listed_channels d1 = take 24 rs" "listed_channels d2 = drop 24 rs"
    using assms(6,7) r listed_frame [of "take 24 rs" 24 True t1] listed_frame [of rest "?N - 24" True t2] by (simp_all add: d1_def d2_def)
  then have "listed_channels d1 @ listed_channels d2 = rs" by simp
  moreover have "mgmt_queue c2 = mgmt_queue c @ [d1, d2]" "\<not> send_initial_bgscan_chan s2" by (simp_all add: c2_def c1_def s2_def)
  ultimately show ?thesis using 1 2 by blast
qed

text \<open>
  When fewer than 24 of more than 24 channels are valid, the second part has a negative length and the
  driver copies without an end.
\<close>
theorem bgscan_negative_part:
  assumes "\<forall>n. mgmt_alloc c n" "\<not> debugfs_bgscan s" "send_initial_bgscan_chan s" "scan_entries c s (asked_channels s) = Some rs"
    "24 < num_user_channels s" "0 < length rs" "length rs < 24"
  shows "rsi_send_bgscan_params True c s = None"
proof -
  have "unat (of_nat (length rs) :: u8) = length rs" using assms(7) by (intro unat_of_nat_small) simp
  then have "(of_nat (length rs) :: u8) < 24" using assms(7) by (simp add: word_less_nat_alt)
  then show ?thesis using bgscan_sends [OF assms(1,2,4,6)] assms(2,3,5,7) by (simp add: bgscan_part_def Let_def)
qed

lemma bgscan_params_mutex:
  assumes "rsi_send_bgscan_params en c s = Some (st, c', s')"
  shows "mutex_count s' = mutex_count s"
proof -
  have v: "mutex_count (snd (rsi_validate_debugfs_bgscan_channels t)) = mutex_count t" for t :: "'a scan_common_scheme"
    by (simp add: rsi_validate_debugfs_bgscan_channels_def Let_def)
  have w: "rsi_validate_bgscan_channels c t = Some u \<Longrightarrow> mutex_count u = mutex_count t" for t u :: "'a scan_common_scheme"
    by (auto simp: rsi_validate_bgscan_channels_def split: option.splits)
  have p: "bgscan_part en t = Some (n, chans, u) \<Longrightarrow> mutex_count u = mutex_count t" for t u :: "'a scan_common_scheme" and n chans
    by (auto simp: bgscan_part_def split: if_splits)
  obtain st1 s1 where 1: "(if debugfs_bgscan s then Some (rsi_validate_debugfs_bgscan_channels s)
      else map_option (Pair 0) (rsi_validate_bgscan_channels c s)) = Some (st1, s1)"
    using assms by (auto simp: rsi_send_bgscan_params_def split: option.splits)
  have "mutex_count s1 = mutex_count s" using 1 v [of s] w by (auto split: if_splits)
  then show ?thesis using assms 1
    by (auto simp: rsi_send_bgscan_params_def Let_def dest!: p split: option.splits prod.splits if_split_asm)
qed

text \<open>
  C36. After the bring-up, starting a scan on a connected interface unlocks the mutex of the driver once more than it locks
  it, on every way out; without a connection locks and unlocks balance.
\<close>
theorem connected_scan_unlocks:
  assumes "rsi_mac80211_hw_scan_start e vif addr req c s = Some (status, c', s')" "fsm_state c = FSM_MAC_INIT_DONE"
  shows "mutex_count s' = (if vif_assoc vif then mutex_count s - 1 else mutex_count s)"
proof (cases "vif_assoc vif")
  case True
  then show ?thesis using assms
    by (auto simp: rsi_mac80211_hw_scan_start_def start_background_def unlock_mutex_def update_bgscan_channel_for_acx_module_def Let_def
        dest!: bgscan_params_mutex split: option.splits prod.splits if_splits list.splits)
next
  case False
  then show ?thesis using assms
    by (auto simp: rsi_mac80211_hw_scan_start_def start_foreground_def unlock_mutex_def lock_mutex_def Let_def
        rsi_trigger_antenna_change_def split: option.splits prod.splits if_splits list.splits)
qed

section \<open>The scan of all channels\<close>

text \<open>The channels that commands set, in order.\<close>

definition scanned :: "u8 list list \<Rightarrow> u8 list" where
  "scanned ds = map (\<lambda>d. ucast (get_words d 4)) (filter (\<lambda>d. cmd_type d = 0x6) ds)"

lemma scanned_append [simp]: "scanned (ds @ es) = scanned ds @ scanned es" "scanned [] = []"
  by (simp_all add: scanned_def)

text \<open>Nobody interferes, every event arrives.\<close>

definition cooperative :: "'z scan_env \<Rightarrow> bool" where
  "cooperative e \<longleftrightarrow> (\<forall>n x. interfere e n x = x) \<and> (\<forall>ev n. wait_result e ev n = Some 0)"

definition ready :: "'z scan_state \<Rightarrow> bool" where
  "ready x \<longleftrightarrow> (\<forall>n. mgmt_alloc (fst x) n) \<and> \<not> iface_down (fst x) \<and> scanning (snd x) \<and> \<not> acx_mod (snd x)"

text \<open>From \<open>x\<close> to \<open>y\<close> the channels \<open>chs\<close> are set, and nothing the worker depends on has changed.\<close>

definition sets :: "'z scan_state \<Rightarrow> 'z scan_state \<Rightarrow> u8 list \<Rightarrow> bool" where
  "sets x y chs \<longleftrightarrow> (\<exists>ds. mgmt_queue (fst y) = mgmt_queue (fst x) @ ds \<and> scanned ds = chs) \<and> ready y \<and>
     auto_chan_sel (snd y) = auto_chan_sel (snd x) \<and> acx_efuse (snd y) = acx_efuse (snd x) \<and>
     hw_scan_cancel (snd y) = hw_scan_cancel (snd x) \<and> scans_completed (snd y) = scans_completed (snd x)"

lemma sets_refl: "ready x \<Longrightarrow> sets x x []"
  by (simp add: sets_def)

lemma sets_trans: "sets x y a \<Longrightarrow> sets y z b \<Longrightarrow> sets x z (a @ b)"
  by (fastforce simp: sets_def)

lemma sets_ready: "sets x y a \<Longrightarrow> ready y"
  by (simp add: sets_def)

lemma sets_ticks: "ready x \<Longrightarrow> sets x (fst x, (snd x)\<lparr>ticks := n\<rparr>) []"
  by (simp add: sets_def ready_def)

lemma meanwhile_sets: "cooperative e \<Longrightarrow> ready x \<Longrightarrow> sets x (meanwhile e x) []"
proof -
  assume "cooperative e" "ready x"
  moreover from this have "interfere e (ticks (snd x)) x = x" unfolding cooperative_def by blast
  ultimately show ?thesis using sets_ticks [of x "Suc (ticks (snd x))"] by (simp add: meanwhile_def split_def Let_def)
qed

lemma wait_sets: "cooperative e \<Longrightarrow> ready x \<Longrightarrow> \<exists>y. wait_for e ev x = Some (0, y) \<and> sets x y []"
  using meanwhile_sets [of e x] by (simp add: wait_for_def cooperative_def)

lemma wait_cooperative: "cooperative e \<Longrightarrow> wait_for e ev x = Some (0, fst x, (snd x)\<lparr>ticks := Suc (ticks (snd x))\<rparr>)"
proof -
  assume e: "cooperative e"
  then have "interfere e (ticks (snd x)) x = x" "wait_result e ev (ticks (snd x)) = Some 0" unfolding cooperative_def by blast+
  then show ?thesis by (simp add: wait_for_def meanwhile_def split_def Let_def)
qed

lemma timer_sets: "ready x \<Longrightarrow> sets x (set_timer d x) []"
  by (simp add: sets_def set_timer_def ready_def)

lemma retune_quiet: "scanned ds = []" if "map cmd_type ds = retuned c c2" for ds c c2
proof -
  have "set (map cmd_type ds) \<subseteq> {0x15, 0xC, 0x2}" using that by (auto simp: retuned_def split: if_splits)
  then have "d \<in> set ds \<Longrightarrow> cmd_type d \<noteq> 0x6" for d by auto
  then show ?thesis by (simp add: scanned_def)
qed

lemma retune_adds:
  assumes "commands (retune c d) d = (st, e)" "\<forall>n. mgmt_alloc d n"
  shows "(\<exists>ds. mgmt_queue e = mgmt_queue d @ ds \<and> scanned ds = []) \<and> iface_down e = iface_down d \<and> mgmt_alloc e = mgmt_alloc d"
proof -
  obtain e' where e': "commands (retune c d) d = (0, e')" "keeps d e'" "sent d e' (retuned c d)" using retune_sent assms(2) by blast
  then have "e' = e" using assms(1) by simp
  then show ?thesis using e' retune_quiet by (auto simp: sent_def keeps_def)
qed

lemma band_sets:
  assumes "ready (c, s)" "rsi_band_check b c s = (st, c', s')"
  shows "sets (c, s) (c', s') []"
proof -
  have s': "s' = s\<lparr>cur_5ghz := b\<rparr>" using band_check_keeps [OF assms(2)] by simp
  define c1 where "c1 = (if cur_5ghz s \<noteq> b then c\<lparr>rf_reset := True\<rparr> else c)"
  have 1: "mgmt_queue c1 = mgmt_queue c" "iface_down c1 = iface_down c" "mgmt_alloc c1 = mgmt_alloc c" by (simp_all add: c1_def)
  have r: "(case band_width c1 (s\<lparr>cur_5ghz := b\<rparr>) of None \<Rightarrow> (- 1, c1, s\<lparr>cur_5ghz := b\<rparr>)
      | Some w \<Rightarrow> let c2 = c1\<lparr>channel_width := w, endpoint := band_endpoint b w\<rparr>
          in if driver_mode c = RF_EVAL_MODE_ON \<and> DEV_MODEL_9116 (device_model c) then (0, c2, s\<lparr>cur_5ghz := b\<rparr>)
             else let (st, c3) = commands (retune c c2) c2 in (st, c3, s\<lparr>cur_5ghz := b\<rparr>)) = (st, c', s')"
    using assms(2) unfolding rsi_band_check_def c1_def Let_def .
  have "(\<exists>ds. mgmt_queue c' = mgmt_queue c @ ds \<and> scanned ds = []) \<and> iface_down c' = iface_down c \<and> mgmt_alloc c' = mgmt_alloc c"
  proof (cases "band_width c1 (s\<lparr>cur_5ghz := b\<rparr>)")
    case None
    then have "c' = c1" using r by simp
    then show ?thesis using 1 by simp
  next
    case (Some w)
    let ?c2 = "c1\<lparr>channel_width := w, endpoint := band_endpoint b w\<rparr>"
    have "c' = ?c2 \<or> commands (retune c ?c2) ?c2 = (st, c')"
      using r Some by (auto simp: Let_def split: prod.splits if_splits)
    then show ?thesis
    proof
      assume "commands (retune c ?c2) ?c2 = (st, c')"
      moreover have "\<forall>n. mgmt_alloc ?c2 n" using assms(1) 1 by (simp add: ready_def)
      ultimately show ?thesis using retune_adds [of c ?c2 st c'] 1 by simp
    qed (simp add: 1)
  qed
  then show ?thesis using assms(1) s' by (auto simp: sets_def ready_def)
qed

lemma low_channel: "(ucast (n OR push_bit 8 x OR (if r then BIT 15 else 0) :: u16) :: u8) = ucast n"
  by (rule bit_word_eqI) (auto simp: bit_simps bit_BIT)

lemma channel_frame_fields:
  "cmd_type (internal_mgmt_bytes (channel_frame c s ch)) = 0x6"
  "(ucast (get_words (internal_mgmt_bytes (channel_frame c s ch)) 4) :: u8) = ucast (ch_hw_value ch)"
proof -
  show "cmd_type (internal_mgmt_bytes (channel_frame c s ch)) = 0x6"
    by (simp add: cmd_type_def channel_frame_def desc_frame_type)
  let ?w = "ch_hw_value ch OR push_bit 8 (scast (antenna_gain s ! 0)) OR (if no_initiation s ch then BIT 15 else 0)"
  have "get_words (internal_mgmt_bytes (channel_frame c s ch)) 4 = ?w"
    using get_put_words [of 4 _ "[]"] by (simp add: channel_frame_def desc_frame_def del: put_words_def)
  then show "(ucast (get_words (internal_mgmt_bytes (channel_frame c s ch)) 4) :: u8) = ucast (ch_hw_value ch)"
    by (simp only: low_channel)
qed

lemma channel_sets:
  assumes "ready (c, s)"
  shows "\<exists>y. rsi_set_channel (Some ch) c s = Some (0, y) \<and> sets (c, s) y [ucast (ch_hw_value ch)]"
proof -
  let ?c1 = "c\<lparr>mgmt_allocs := Suc (mgmt_allocs c)\<rparr>"
  let ?s1 = "if acs_running s then s\<lparr>acs_survey := (acs_survey s)[acs_idx s := Some ch]\<rparr> else s"
  define d where "d = internal_mgmt_bytes (channel_frame ?c1 s ch)"
  let ?c2 = "?c1\<lparr>channel := ucast (ch_hw_value ch), mgmt_queue := mgmt_queue c @ [d], tx_events := Suc (tx_events c)\<rparr>"
  note f = channel_frame_fields [of ?c1 s ch, folded d_def]
  have n: "d ! 2 \<noteq> 8" using f(1) by (simp add: cmd_type_def)
  have "queue_internal (channel_frame ?c1 s ch) (?c1\<lparr>channel := ucast (ch_hw_value ch)\<rparr>) = (0, ?c2)"
    using n by (simp add: queue_internal_def d_def [symmetric] Let_def)
  then have "rsi_set_channel (Some ch) c s = Some (0, ?c2, ?s1)"
    using assms by (simp add: rsi_set_channel_def alloc_skb_def ready_def Let_def)
  moreover have "scanned [d] = [ucast (ch_hw_value ch)]" using f by (simp add: scanned_def)
  moreover have "ready (?c2, ?s1)" using assms by (simp add: ready_def)
  ultimately show ?thesis by (intro exI [of _ "(?c2, ?s1)"]) (simp add: sets_def)
qed

lemma probe_sets:
  assumes "ready x"
  shows "sets x (rsi_send_probe_request req ssid x) []"
proof -
  obtain c s where x: "x = (c, s)" by (cases x)
  have q: "scanned [d] = []" if "probe_packet h a r (probe_request m ssid ie) = Some d" for h :: "unit hal_common" and a r m ie d
    using probe_packet_frame(1) [OF that] by (simp add: scanned_def cmd_type_def)
  show ?thesis using assms q
    by (auto simp: x rsi_send_probe_request_def alloc_skb_def sets_def ready_def Let_def split: option.splits)
qed

lemma probes_set: "cooperative e \<Longrightarrow> ready x \<Longrightarrow> \<exists>y. send_probes e req ssids x = Some (GO_ON, y) \<and> sets x y []"
proof (induction ssids arbitrary: x)
  case Nil
  then show ?case using sets_refl [of x] by simp
next
  case (Cons ssid ssids)
  let ?p = "rsi_send_probe_request req ssid x"
  have p: "sets x ?p []" using probe_sets Cons.prems by blast
  then have m: "sets ?p (meanwhile e ?p) []" using meanwhile_sets Cons.prems(1) sets_ready by blast
  then obtain y where y: "wait_for e PROBE_CFM (meanwhile e ?p) = Some (0, y)" "sets (meanwhile e ?p) y []"
    using wait_sets Cons.prems(1) sets_ready by blast
  then obtain z where z: "send_probes e req ssids y = Some (GO_ON, z)" "sets y z []"
    using Cons.IH Cons.prems(1) sets_ready by blast
  have "\<not> iface_down (fst (meanwhile e ?p))" using m by (simp add: sets_def ready_def)
  then have "send_probes e req (ssid # ssids) x = Some (GO_ON, z)"
    using y(1) z(1) by (cases "meanwhile e ?p"; cases y) simp
  moreover have "sets x z []" using p m y(2) z(2) by (metis append_Nil sets_trans)
  ultimately show ?case by blast
qed

lemma dwell_sets:
  assumes "cooperative e" "ready x"
  shows "\<exists>y. dwell e (Some v) req ch x = Some (GO_ON, y) \<and> sets x y []"
proof -
  obtain y where y: "send_probes e req (req_ssids req) x = Some (GO_ON, y)" "sets x y []" using probes_set assms by blast
  then have "sets x (set_timer ACTIVE_SCAN_DURATION y) []" using timer_sets sets_ready sets_trans by (metis append_Nil)
  then show ?thesis using y timer_sets [OF assms(2)] sets_refl [OF assms(2)]
    by (cases "vif_type v = NL80211_IFTYPE_AP \<and> auto_chan_sel (snd x) \<or> radio_quiet ch"; cases "auto_chan_sel (snd x)") (simp_all add: dwell_def Let_def)
qed

lemma next_sets:
  assumes "cooperative e" "ready x"
  shows "\<exists>y. next_channel e x = Some (GO_ON, y) \<and> sets x y []"
proof -
  have m: "sets x (meanwhile e x) []" using meanwhile_sets assms by blast
  then obtain y where y: "wait_for e CHAN_CHANGE (meanwhile e x) = Some (0, y)" "sets (meanwhile e x) y []"
    using wait_sets assms(1) sets_ready by blast
  have "ready (meanwhile e x)" using m sets_ready by blast
  then have "next_channel e x = Some (GO_ON, y)" using y(1) by (cases "meanwhile e x") (simp add: next_channel_def ready_def)
  then show ?thesis using m y(2) by (metis append_Nil sets_trans)
qed

lemma scan_one:
  assumes "cooperative e" "ready x"
  shows "\<exists>y. scan_channel e (Some v) req ch x = Some (GO_ON, y) \<and> sets x y (if ch_disabled ch then [] else [ucast (ch_hw_value ch)])"
proof -
  have m: "sets x (meanwhile e x) []" using meanwhile_sets assms by blast
  obtain c s where cs: "meanwhile e x = (c, s)" by (cases "meanwhile e x")
  obtain st b where b: "rsi_band_check (ch_5ghz ch) c s = (st, b)" by (cases "rsi_band_check (ch_5ghz ch) c s")
  have r: "ready (c, s)" using sets_ready [OF m] cs by simp
  have sb: "sets (c, s) b []" using band_sets [OF r, of "ch_5ghz ch" st "fst b" "snd b"] b by simp
  have xb: "sets x b []" using sets_trans [OF m] cs sb by fastforce
  have run: "\<not> iface_down c" "scanning s" using r by (simp_all add: ready_def)
  show ?thesis
  proof (cases "ch_disabled ch")
    case True
    then show ?thesis using xb b run by (simp add: scan_channel_def cs)
  next
    case False
    have "\<exists>y. rsi_set_channel (Some ch) (fst b) (snd b) = Some (0, y) \<and> sets b y [ucast (ch_hw_value ch)]"
      using channel_sets [of "fst b" "snd b" ch] sets_ready [OF sb] by simp
    then obtain y where y: "rsi_set_channel (Some ch) (fst b) (snd b) = Some (0, y)" "sets b y [ucast (ch_hw_value ch)]" by blast
    obtain z where z: "wait_for e CHAN_SET y = Some (0, z)" "sets y z []" using wait_sets [OF assms(1) sets_ready [OF y(2)]] by blast
    have "scanning (snd z)" using sets_ready [OF z(2)] by (simp add: ready_def)
    then have set: "set_scan_channel e ch b = Some (GO_ON, True, z)" using y(1) z(1) by (simp add: set_scan_channel_def)
    obtain u where u: "dwell e (Some v) req ch z = Some (GO_ON, u)" "sets z u []" using dwell_sets [OF assms(1) sets_ready [OF z(2)]] by blast
    obtain w where w: "next_channel e u = Some (GO_ON, w)" "sets u w []" using next_sets [OF assms(1) sets_ready [OF u(2)]] by blast
    have "scan_channel e (Some v) req ch x = Some (GO_ON, w)" using False run b set u(1) w(1) by (simp add: scan_channel_def cs)
    moreover have "sets x w ([] @ [ucast (ch_hw_value ch)] @ [] @ [] @ [])" using sets_trans xb y(2) z(2) u(2) w(2) by blast
    ultimately show ?thesis using False by auto
  qed
qed

lemma scan_all:
  "cooperative e \<Longrightarrow> ready x \<Longrightarrow>
   \<exists>y. scan_channels e (Some v) req chs x = Some (GO_ON, y) \<and> sets x y (map (\<lambda>ch. ucast (ch_hw_value ch)) (filter (\<lambda>ch. \<not> ch_disabled ch) chs))"
proof (induction chs arbitrary: x)
  case Nil
  then show ?case using sets_refl [of x] by simp
next
  case (Cons ch chs)
  obtain y where y: "scan_channel e (Some v) req ch x = Some (GO_ON, y)" "sets x y (if ch_disabled ch then [] else [ucast (ch_hw_value ch)])"
    using scan_one [OF Cons.prems] by blast
  obtain z where z: "scan_channels e (Some v) req chs y = Some (GO_ON, z)"
      "sets y z (map (\<lambda>ch. ucast (ch_hw_value ch)) (filter (\<lambda>ch. \<not> ch_disabled ch) chs))"
    using Cons.IH [OF Cons.prems(1) sets_ready [OF y(2)]] by blast
  show ?case using sets_trans [OF y(2) z(2)] y(1) z(1) by auto
qed

lemma scan_ends_reports:
  assumes "cooperative e" "\<not> hw_scan_cancel s"
  shows "\<exists>s'. scan_ends e (Some v) (c, s) = Some (c, s') \<and> \<not> scanning s' \<and> scans_completed s' = Suc (scans_completed s)"
  using assms(2) wait_cooperative [OF assms(1)]
  by (cases "default_deep_sleep s \<and> \<not> rx_stats_inprog s \<and> vif_type v \<noteq> NL80211_IFTYPE_AP \<and> ps_state (ps s) = PS_NONE")
    (auto simp: scan_ends_def scan_reported_def Let_def)

text \<open>
  C9. With memory, an interface that is up and a module without the ACX regulatory rules, a scan that nobody disturbs sets every channel of the request that is not disabled, once and in
  order, and reports its end to mac80211.
\<close>
theorem scan_visits_channels:
  assumes "cooperative e" "\<forall>n. mgmt_alloc c n" "\<not> iface_down c" "\<not> acx_mod s" "\<not> acx_efuse s" "\<not> hw_scan_cancel s"
    "scan_request s = Some req" "last_vif s = Some v"
  shows "\<exists>c' s'. rsi_scan_start e (c, s) = Some (c', s') \<and> \<not> scanning s' \<and> scans_completed s' = Suc (scans_completed s) \<and>
    scanned (drop (length (mgmt_queue c)) (mgmt_queue c')) = map (\<lambda>ch. ucast (ch_hw_value ch)) (filter (\<lambda>ch. \<not> ch_disabled ch) (req_channels req))"
proof -
  let ?x = "(c, s\<lparr>scanning := True\<rparr>)"
  let ?a = "s\<lparr>scanning := True, ps := rsi_disable_ps (ps s)\<rparr>"
  have rx: "ready ?x" "ready (c, ?a)" using assms(2-4) by (simp_all add: ready_def)
  obtain y where y: "(if \<not> rx_stats_inprog s \<and> ps_state (ps s) = PS_ENABLED then map_option snd (wait_for e MGMT_CFM (c, ?a)) else Some ?x) = Some y"
      "y = (c, ?a\<lparr>ticks := Suc (ticks s)\<rparr>) \<or> y = ?x"
    using wait_cooperative [OF assms(1), of MGMT_CFM "(c, ?a)"] by (cases "\<not> rx_stats_inprog s \<and> ps_state (ps s) = PS_ENABLED") auto
  have sy: "sets ?x y []" using y(2) rx by (auto simp: sets_def ready_def)
  then have a: "\<not> acx_efuse (snd y)" using assms(5) by (simp add: sets_def)
  obtain z where z: "scan_channels e (Some v) req (req_channels req) y = Some (GO_ON, z)"
      "sets y z (map (\<lambda>ch. ucast (ch_hw_value ch)) (filter (\<lambda>ch. \<not> ch_disabled ch) (req_channels req)))"
    using scan_all [OF assms(1) sets_ready [OF sy]] by blast
  have start: "rsi_scan_start e (c, s) = scan_ends e (Some v) z"
    using z(1) a assms(7,8) by (cases y) (simp add: rsi_scan_start_def Let_def y(1) split del: if_split cong: if_cong)
  have sz: "sets ?x z (map (\<lambda>ch. ucast (ch_hw_value ch)) (filter (\<lambda>ch. \<not> ch_disabled ch) (req_channels req)))"
    using sets_trans [OF sy z(2)] by simp
  then have q: "scanned (drop (length (mgmt_queue c)) (mgmt_queue (fst z))) =
      map (\<lambda>ch. ucast (ch_hw_value ch)) (filter (\<lambda>ch. \<not> ch_disabled ch) (req_channels req))" by (auto simp: sets_def)
  have f: "\<not> hw_scan_cancel (snd z)" "scans_completed (snd z) = scans_completed s" using sz assms(6) by (simp_all add: sets_def)
  then obtain s' where "scan_ends e (Some v) z = Some (fst z, s')" "\<not> scanning s'" "scans_completed s' = Suc (scans_completed (snd z))"
    using scan_ends_reports [OF assms(1), of "snd z" v "fst z"] by auto
  then show ?thesis using start q f(2) by simp
qed

section \<open>A scan that is left\<close>

text \<open>The reports of a scan, to mac80211 and to the thread that cancels it.\<close>

definition reports :: "'z scan_state \<Rightarrow> nat \<times> nat" where
  "reports x = (scans_completed (snd x), cancel_events (snd x))"

definition reports_nothing :: "'z scan_env \<Rightarrow> bool" where
  "reports_nothing e \<longleftrightarrow> (\<forall>n x. reports (interfere e n x) = reports x)"

lemma meanwhile_reports: "reports_nothing e \<Longrightarrow> reports (meanwhile e x) = reports x"
proof -
  assume "reports_nothing e"
  then have "reports (interfere e (ticks (snd x)) x) = reports x" unfolding reports_nothing_def by blast
  then show ?thesis by (simp add: meanwhile_def reports_def split_def Let_def)
qed

lemma wait_reports: "reports_nothing e \<Longrightarrow> wait_for e ev x = Some (st, y) \<Longrightarrow> reports y = reports x"
  using meanwhile_reports [of e x] by (auto simp: wait_for_def)

lemma set_channel_reports: "rsi_set_channel ch c s = Some (st, y) \<Longrightarrow> reports y = reports (c, s)"
  using set_channel_keeps [of ch c s st "fst y" "snd y"] by (auto simp: reports_def)

lemma band_check_reports: "rsi_band_check b c s = (st, y) \<Longrightarrow> reports y = reports (c, s)"
  using band_check_keeps(1) [of b c s st "fst y" "snd y"] by (simp add: reports_def)

lemma probe_reports: "reports (rsi_send_probe_request req ssid x) = reports x"
  by (auto simp: rsi_send_probe_request_def reports_def alloc_skb_def Let_def split: prod.splits option.splits)

lemma probes_report:
  "reports_nothing e \<Longrightarrow> send_probes e req ssids x = Some (flow, y) \<Longrightarrow> reports y = reports x \<and> (flow = LEAVE \<longrightarrow> \<not> scanning (snd y)) \<and> flow \<noteq> BREAK"
proof (induction ssids arbitrary: x)
  case (Cons ssid ssids)
  let ?m = "meanwhile e (rsi_send_probe_request req ssid x)"
  have m: "reports ?m = reports x" using meanwhile_reports [OF Cons.prems(1)] probe_reports by metis
  show ?case
  proof (cases "iface_down (fst ?m)")
    case True
    then have "y = (fst ?m, (snd ?m)\<lparr>scanning := False\<rparr>)" "flow = LEAVE" using Cons.prems(2) by (cases ?m; simp)+
    then show ?thesis using m by (simp add: reports_def)
  next
    case False
    then obtain st z where z: "wait_for e PROBE_CFM ?m = Some (st, z)" using Cons.prems(2) by (cases ?m) (auto split: option.splits)
    have r: "reports z = reports x" using wait_reports [OF Cons.prems(1) z] m by simp
    show ?thesis
    proof (cases "st < 0")
      case True
      then have "y = (fst z, (snd z)\<lparr>scanning := False\<rparr>)" "flow = LEAVE" using Cons.prems(2) z False by (cases ?m; cases z; simp)+
      then show ?thesis using r by (simp add: reports_def)
    next
      case F: False
      then have "send_probes e req ssids z = Some (flow, y)" using Cons.prems(2) z False by (cases ?m; cases z; simp)
      then show ?thesis using Cons.IH [OF Cons.prems(1), of z] r by auto
    qed
  qed
qed simp

text \<open>A part of the worker reports nothing, and stops the scan when it leaves the function.\<close>

definition part_reports :: "'z scan_state \<Rightarrow> (scan_flow \<times> 'z scan_state) option \<Rightarrow> bool" where
  "part_reports x r \<longleftrightarrow> (\<forall>flow y. r = Some (flow, y) \<longrightarrow> reports y = reports x \<and> (flow = LEAVE \<longrightarrow> \<not> scanning (snd y)))"

lemma part_reports_simps: "part_reports x None" "part_reports x (Some (flow, y)) \<longleftrightarrow> reports y = reports x \<and> (flow = LEAVE \<longrightarrow> \<not> scanning (snd y))"
  unfolding part_reports_def by blast+

lemma dwell_reports:
  assumes "reports_nothing e"
  shows "part_reports x (dwell e vif req ch x)"
proof (cases vif)
  case (Some v)
  have t: "reports (set_timer d z) = reports z" for d and z :: "'a scan_state" by (simp add: reports_def set_timer_def)
  show ?thesis
  proof (cases "(vif_type v = NL80211_IFTYPE_AP \<and> auto_chan_sel (snd x) \<or> radio_quiet ch) \<or> auto_chan_sel (snd x)")
    case True
    then have "dwell e vif req ch x = Some (GO_ON, set_timer (passive_time (snd x)) x) \<or> dwell e vif req ch x = Some (GO_ON, x)"
      using Some by (auto simp: dwell_def Let_def)
    then show ?thesis using t by (elim disjE) (simp_all only: part_reports_simps t scan_flow.distinct simp_thms)
  next
    case False
    then have d: "dwell e vif req ch x = map_option (\<lambda>(f, x1). (f, if f = GO_ON then set_timer ACTIVE_SCAN_DURATION x1 else x1))
        (send_probes e req (req_ssids req) x)"
      using Some by (simp add: dwell_def Let_def split: option.splits)
    show ?thesis
    proof (cases "send_probes e req (req_ssids req) x")
      case r: (Some q)
      then show ?thesis using probes_report [OF assms, of req "req_ssids req" x "fst q" "snd q"] t
        by (simp add: part_reports_simps d split_def)
    qed (simp add: d part_reports_def)
  qed
qed (simp add: dwell_def part_reports_def)

lemma next_reports:
  assumes "reports_nothing e"
  shows "part_reports x (next_channel e x)"
proof -
  obtain c s where m: "meanwhile e x = (c, s)" by (cases "meanwhile e x")
  have r: "reports (c, s) = reports x" using meanwhile_reports [OF assms, of x] m by simp
  show ?thesis
  proof (cases "wait_for e CHAN_CHANGE (c, s)")
    case None
    then show ?thesis using r by (simp add: next_channel_def m part_reports_def)
  next
    case (Some q)
    then have "reports (snd q) = reports x" using wait_reports [OF assms, of CHAN_CHANGE "(c, s)" "fst q" "snd q"] r by simp
    then show ?thesis using r Some by (auto simp: next_channel_def m part_reports_def Let_def split_def split: if_splits)
  qed
qed

lemma set_scan_channel_reports:
  assumes "reports_nothing e" "set_scan_channel e ch x = Some (flow, b, y)"
  shows "reports y = reports x \<and> flow \<noteq> LEAVE"
proof -
  obtain st x1 where 1: "rsi_set_channel (Some ch) (fst x) (snd x) = Some (st, x1)"
    using assms(2) by (auto simp: set_scan_channel_def split: option.splits)
  have r: "reports x1 = reports x" using set_channel_reports [OF 1] by simp
  have "reports (set_timer d x1) = reports x1" for d by (simp add: reports_def set_timer_def)
  then show ?thesis using assms r wait_reports [of e CHAN_SET x1]
    by (auto simp: set_scan_channel_def 1 split: option.splits if_splits prod.splits)
qed

lemma channel_reports:
  assumes "reports_nothing e"
  shows "part_reports x (scan_channel e vif req ch x)"
proof -
  obtain c s where m: "meanwhile e x = (c, s)" by (cases "meanwhile e x")
  have r0: "reports (c, s) = reports x" using meanwhile_reports [OF assms, of x] m by simp
  obtain st x1 where b: "rsi_band_check (ch_5ghz ch) c s = (st, x1)" by (cases "rsi_band_check (ch_5ghz ch) c s")
  have r1: "reports x1 = reports x" using band_check_reports [OF b] r0 by simp
  show ?thesis
  proof (cases "(iface_down c \<or> \<not> scanning s) \<or> ch_disabled ch \<or> set_scan_channel e ch x1 = None")
    case True
    then show ?thesis using r0 r1 by (auto simp: part_reports_def scan_channel_def m b)
  next
    case False
    then obtain flow p x2 where 2: "set_scan_channel e ch x1 = Some (flow, p, x2)" by auto
    have r2: "reports x2 = reports x" "flow \<noteq> LEAVE" using set_scan_channel_reports [OF assms 2] r1 by simp_all
    have "scan_channel e vif req ch x = (if flow \<noteq> GO_ON then Some (flow, x2) else if \<not> p then next_channel e x2
        else case dwell e vif req ch x2 of None \<Rightarrow> None | Some (f, x3) \<Rightarrow> if f \<noteq> GO_ON then Some (f, x3) else next_channel e x3)"
      using False by (simp add: scan_channel_def m b 2)
    then show ?thesis using r2 next_reports [OF assms] dwell_reports [OF assms, of x2 vif req ch]
      by (auto simp: part_reports_def split: option.splits if_splits)
  qed
qed

lemma channels_report:
  "reports_nothing e \<Longrightarrow> part_reports x (scan_channels e vif req chs x)"
proof (induction chs arbitrary: x)
  case (Cons ch chs)
  then show ?case using channel_reports [OF Cons.prems, of x vif req ch]
    by (auto simp: part_reports_def split: option.splits if_splits)
qed (simp add: part_reports_def)

text \<open>
  When the worker leaves the scan early (the interface goes down while a probe request is sent, or the
  wait for its confirmation is interrupted), the end of the scan is never reported to mac80211, and a
  thread that waits for the end of the scan it has cancelled is not told either.
\<close>
theorem abandoned_scan_unreported:
  assumes "reports_nothing e" "scan_request s = Some req" "rx_stats_inprog s" "\<not> acx_efuse s"
    "scan_channels e (last_vif s) req (req_channels req) (c, s\<lparr>scanning := True\<rparr>) = Some (LEAVE, y)"
  shows "rsi_scan_start e (c, s) = Some y \<and> \<not> scanning (snd y) \<and> scans_completed (snd y) = scans_completed s \<and>
    cancel_events (snd y) = cancel_events s"
proof -
  have "rsi_scan_start e (c, s) = Some y" using assms(2-5) by (simp add: rsi_scan_start_def Let_def)
  moreover have "part_reports (c, s\<lparr>scanning := True\<rparr>) (Some (LEAVE, y))"
    using channels_report [OF assms(1)] assms(5) by metis
  ultimately show ?thesis by (simp add: part_reports_simps reports_def)
qed

text \<open>
  A probe request that is sent carries the SSID the request asks for, from the address of the device.
\<close>
theorem probe_carries_ssid:
  assumes "rsi_send_probe_request req ssid (c, s) = (c', s')" "mgmt_queue c' \<noteq> mgmt_queue c" "length (mac_addr c) = 6" "length ssid \<le> 32"
  shows "\<exists>d n. mgmt_queue c' = mgmt_queue c @ [d] \<and> ssid_of (drop n d) = Some ssid \<and> wlh_addr2 (drop n d) = mac_addr c \<and> cmd_type d = 0"
proof -
  let ?p = "probe_packet (hal_view True (cur_5ghz s) (hal_state s)) (skb_addr s) (skb_room s) (probe_request (mac_addr c) ssid (req_ie req))"
  obtain d where d: "?p = Some d" "mgmt_queue c' = mgmt_queue c @ [d]"
    using assms(1,2) by (auto simp: rsi_send_probe_request_def alloc_skb_def Let_def split: if_split_asm option.splits)
  obtain n where "drop n d = probe_request (mac_addr c) ssid (req_ie req)" using probe_packet_frame(2) [OF d(1)] by blast
  then show ?thesis using d(2) probe_packet_frame(1) [OF d(1)] probe_request_fields [OF assms(3,4)]
    by (intro exI [of _ d] exI [of _ n]) (simp add: cmd_type_def)
qed

section \<open>Witnesses\<close>

definition example_user_channels :: "nat list" where
  "example_user_channels = [1..<15] @ map (\<lambda>i. 36 + 4 * i) [0..<8] @ map (\<lambda>i. 100 + 4 * i) [0..<11] @ map (\<lambda>i. 149 + 4 * i) [0..<5]"

definition example_scan :: "ieee_channel list \<Rightarrow> bool \<Rightarrow> scan_common" where
  "example_scan five initial = chan_common.extend example_chan
     (scan_common.fields 10 10 30 25 0 0 0 20 70 (map of_nat example_user_channels) (replicate 24 0) (replicate 38 0) False initial
        (map (example_channel \<circ> of_nat) [1..<15]) (Some five) [] [] None False False False False False (BIT 4) True False False None 0 0 0
        example_probe_hal 128 128 0)"

lemma example_scan_fields [simp]:
  "debugfs_bgscan (example_scan f i) = False" "send_initial_bgscan_chan (example_scan f i) = i" "num_user_channels (example_scan f i) = 25"
  "wiphy_2ghz (example_scan f i) = map (example_channel \<circ> of_nat) [1..<15]" "wiphy_5ghz (example_scan f i) = Some f"
  "user_channels (example_scan f i) = map of_nat example_user_channels" "mutex_count (example_scan f i) = 0"
  "assoc_capability (example_scan f i) = BIT 4" "start_bgscan (example_scan f i) = False" "scans_completed (example_scan f i) = 0"
  "cancel_events (example_scan f i) = 0" "hw_scan_cancel (example_scan f i) = False" "rx_stats_inprog (example_scan f i)"
  "acx_efuse (example_scan f i) = False" "acx_mod (example_scan f i) = False" "last_vif (example_scan f i) = Some example_vif"
  "sc_nvifs (example_scan f i) = 1" "rx_vifs (example_scan f i) = [Some example_vif, None, None]" "hal_state (example_scan f i) = example_probe_hal"
  "skb_addr (example_scan f i) = 128" "skb_room (example_scan f i) = 128" "cur_5ghz (example_scan f i) = False" "conf_20mhz (example_scan f i)"
  "auto_chan_sel (example_scan f i) = False" "ticks (example_scan f i) = 0"
  by (simp_all add: example_scan_def chan_common.defs scan_common.defs example_chan_def rate_common.defs example_rates_def last_vif_def)

definition five_channels :: "ieee_channel list" where
  "five_channels = map (example_channel \<circ> of_nat) (map (\<lambda>i. 36 + 4 * i) [0..<8] @ map (\<lambda>i. 100 + 4 * i) [0..<11])"

lemma example_mgmt_alloc: "mgmt_alloc (example_mgmt n) = (\<lambda>_. True)"
  by (simp add: example_mgmt_def)

lemma bgscan_two_parts_witness:
  "\<exists>c1 s1 c2 s2 d1 d2. rsi_send_bgscan_params True (example_mgmt 1) (example_scan five_channels False) = Some (0, c1, s1) \<and>
    rsi_send_bgscan_params True c1 s1 = Some (0, c2, s2) \<and> mgmt_queue c2 = [d1, d2] \<and>
    listed_channels d1 @ listed_channels d2 = map of_nat (take 25 example_user_channels) \<and> \<not> send_initial_bgscan_chan s2"
proof -
  have "scan_entries (example_mgmt 1) (example_scan five_channels False) (asked_channels (example_scan five_channels False)) =
      Some (map of_nat (take 25 example_user_channels))"
    by (simp add: asked_channels_def example_user_channels_def five_channels_def scan_entry_def channel_number_def example_channel_def example_mgmt_def upt_rec word_le_nat_alt)
  then show ?thesis using bgscan_two_parts [of "example_mgmt 1" "example_scan five_channels False"]
    by (simp add: example_mgmt_def example_user_channels_def)
qed

lemma bgscan_negative_part_witness: "rsi_send_bgscan_params True (example_mgmt 1) (example_scan [] True) = None"
proof -
  have "scan_entries (example_mgmt 1) (example_scan [] True) (asked_channels (example_scan [] True)) = Some (map of_nat [1..<15])"
    by (simp add: asked_channels_def example_user_channels_def scan_entry_def channel_number_def example_channel_def example_mgmt_def upt_rec word_le_nat_alt)
  then show ?thesis
    using bgscan_negative_part [of "example_mgmt 1" "example_scan [] True" "map of_nat [1..<15]"] by (simp add: example_mgmt_alloc)
qed

definition example_scan_env :: "int \<Rightarrow> unit scan_env" where
  "example_scan_env probe_cfm =
     \<lparr>interfere = (\<lambda>n x. x), wait_result = (\<lambda>ev n. Some (if ev = PROBE_CFM then probe_cfm else 0)), probereq_get = (\<lambda>a s n. None)\<rparr>"

lemma connected_scan_unlocks_witness:
  "\<exists>c' s'. rsi_mac80211_hw_scan_start (example_scan_env 0) example_vif [2, 0, 0, 0, 0, 9] \<lparr>req_channels = [], req_ssids = [], req_ie = []\<rparr>
      ((example_mgmt 1)\<lparr>fsm_state := FSM_MAC_INIT_DONE\<rparr>) (example_scan [] False) = Some (- EBUSY, c', s') \<and> mutex_count s' = - 1"
proof -
  let ?r = "\<lparr>req_channels = [], req_ssids = [], req_ie = []\<rparr>"
  let ?c = "(example_mgmt 1)\<lparr>fsm_state := FSM_MAC_INIT_DONE\<rparr>"
  have "\<exists>c' s'. rsi_mac80211_hw_scan_start (example_scan_env 0) example_vif [2, 0, 0, 0, 0, 9] ?r ?c (example_scan [] False) = Some (- EBUSY, c', s')"
    by (simp add: rsi_mac80211_hw_scan_start_def start_background_def example_vif_def bit_BIT Let_def)
  then obtain c' s' where "rsi_mac80211_hw_scan_start (example_scan_env 0) example_vif [2, 0, 0, 0, 0, 9] ?r ?c (example_scan [] False) = Some (- EBUSY, c', s')" by blast
  then show ?thesis using connected_scan_unlocks [of "example_scan_env 0" example_vif _ ?r ?c "example_scan [] False"] by (auto simp: example_vif_def)
qed

definition example_req :: scan_req where
  "example_req = \<lparr>req_channels = [example_channel 1, (example_channel 6)\<lparr>ch_disabled := True\<rparr>, example_channel 11], req_ssids = [[0x41, 0x42]], req_ie = []\<rparr>"

definition example_scanning :: scan_common where
  "example_scanning = (example_scan [] False)\<lparr>scan_request := Some example_req\<rparr>"

definition example_scan_mgmt :: mgmt_common where
  "example_scan_mgmt = (example_mgmt 1)\<lparr>iface_down := False, mac_addr := [2, 0, 0, 0, 0, 9]\<rparr>"

lemma example_scanning_fields [simp]:
  "last_vif (example_scanning\<lparr>scanning := b\<rparr>) = Some example_vif" "last_vif example_scanning = Some example_vif"
  "scan_request example_scanning = Some example_req" "rx_stats_inprog example_scanning" "scans_completed example_scanning = 0"
  "acx_efuse example_scanning = False" "acx_mod example_scanning = False" "hw_scan_cancel example_scanning = False"
  "auto_chan_sel example_scanning = False" "cancel_events example_scanning = 0"
  by (simp_all add: example_scanning_def last_vif_def)

lemma example_scan_mgmt_fields [simp]:
  "mgmt_alloc example_scan_mgmt = (\<lambda>_. True)" "iface_down example_scan_mgmt = False" "mgmt_queue example_scan_mgmt = []"
  by (simp_all add: example_scan_mgmt_def example_mgmt_def)

lemma scan_visits_channels_witness:
  "\<exists>c' s'. rsi_scan_start (example_scan_env 0) (example_scan_mgmt, example_scanning) = Some (c', s') \<and> \<not> scanning s' \<and>
    scans_completed s' = 1 \<and> scanned (mgmt_queue c') = [1, 11]"
proof -
  have "cooperative (example_scan_env 0)" by (simp add: cooperative_def example_scan_env_def)
  then show ?thesis
    using scan_visits_channels [of "example_scan_env 0" example_scan_mgmt example_scanning example_req example_vif]
    by (simp add: example_req_def example_channel_def)
qed

lemma probe_carries_ssid_witness:
  "\<exists>d n. mgmt_queue (fst (rsi_send_probe_request example_req [0x41, 0x42] (example_scan_mgmt, example_scanning\<lparr>scanning := True\<rparr>))) = [d] \<and>
    ssid_of (drop n d) = Some [0x41, 0x42] \<and> wlh_addr2 (drop n d) = [2, 0, 0, 0, 0, 9] \<and> cmd_type d = 0"
proof -
  obtain d where "probe_packet (hal_view True False example_probe_hal) 128 128 (probe_request [2, 0, 0, 0, 0, 9] [0x41, 0x42] []) = Some d"
    using example_probe_packet [of True False] by (auto simp: example_probe_def)
  then have q: "mgmt_queue (fst (rsi_send_probe_request example_req [0x41, 0x42] (example_scan_mgmt, example_scanning\<lparr>scanning := True\<rparr>))) = [d]"
    by (simp add: rsi_send_probe_request_def example_scan_mgmt_def example_scanning_def example_mgmt_def example_req_def alloc_skb_def)
  obtain c' s' where r: "rsi_send_probe_request example_req [0x41, 0x42] (example_scan_mgmt, example_scanning\<lparr>scanning := True\<rparr>) = (c', s')"
    by (cases "rsi_send_probe_request example_req [0x41, 0x42] (example_scan_mgmt, example_scanning\<lparr>scanning := True\<rparr>)")
  have "mgmt_queue example_scan_mgmt = []" "mac_addr example_scan_mgmt = [2, 0, 0, 0, 0, 9]"
    by (simp_all add: example_scan_mgmt_def example_mgmt_def)
  then show ?thesis using probe_carries_ssid [OF r] q r by simp
qed

lemma example_leaves:
  "\<exists>y. scan_channels (example_scan_env (- 1)) (Some example_vif) example_req (req_channels example_req)
     (example_scan_mgmt, example_scanning\<lparr>scanning := True\<rparr>) = Some (LEAVE, y)"
proof -
  let ?e = "example_scan_env (- 1)" and ?ch = "example_channel 1"
  have e: "meanwhile ?e x = (fst x, (snd x)\<lparr>ticks := Suc (ticks (snd x))\<rparr>)"
      "wait_for ?e ev x = Some (if ev = PROBE_CFM then - 1 else 0, meanwhile ?e x)" for x ev
    by (simp_all add: meanwhile_def wait_for_def example_scan_env_def split_def Let_def)
  let ?s = "example_scanning\<lparr>scanning := True, ticks := Suc (ticks example_scanning)\<rparr>"
  have r: "ready (example_scan_mgmt, ?s)" by (simp add: ready_def)
  obtain st b where b: "rsi_band_check False example_scan_mgmt ?s = (st, b)" by (cases "rsi_band_check False example_scan_mgmt ?s")
  have sb: "sets (example_scan_mgmt, ?s) b []" using band_sets [OF r, of False st "fst b" "snd b"] b by simp
  have "\<exists>y. rsi_set_channel (Some ?ch) (fst b) (snd b) = Some (0, y) \<and> sets b y [ucast (ch_hw_value ?ch)]"
    using channel_sets [of "fst b" "snd b" ?ch] sets_ready [OF sb] by simp
  then obtain y where y: "rsi_set_channel (Some ?ch) (fst b) (snd b) = Some (0, y)" "sets b y [ucast (ch_hw_value ?ch)]" by blast
  let ?z = "meanwhile ?e y"
  have z: "ready ?z" "auto_chan_sel (snd ?z) = False" using y(2) sb by (simp_all add: e sets_def ready_def)
  then have "set_scan_channel ?e ?ch b = Some (GO_ON, True, ?z)" using y(1) by (simp add: set_scan_channel_def e(2) ready_def)
  moreover obtain w where "dwell ?e (Some example_vif) example_req ?ch ?z = Some (LEAVE, w)"
  proof -
    let ?p = "rsi_send_probe_request example_req [0x41, 0x42] ?z"
    have "ready ?p" using probe_sets [OF z(1)] sets_ready by blast
    then have "\<exists>w. send_probes ?e example_req [[0x41, 0x42]] ?z = Some (LEAVE, w)" by (simp add: e ready_def)
    moreover have "req_ssids example_req = [[0x41, 0x42]]" by (simp add: example_req_def)
    ultimately obtain w where "send_probes ?e example_req (req_ssids example_req) ?z = Some (LEAVE, w)" by auto
    then have "dwell ?e (Some example_vif) example_req ?ch ?z = Some (LEAVE, w)"
      using z(2) by (simp add: dwell_def radio_quiet_def example_channel_def example_vif_def Let_def)
    then show thesis by (rule that)
  qed
  moreover have "ch_5ghz ?ch = False" "ch_disabled ?ch = False" by (simp_all add: example_channel_def)
  ultimately have "scan_channel ?e (Some example_vif) example_req ?ch (example_scan_mgmt, example_scanning\<lparr>scanning := True\<rparr>) = Some (LEAVE, w)"
    using b by (simp add: scan_channel_def e(1))
  then show ?thesis by (simp add: example_req_def)
qed

lemma abandoned_scan_unreported_witness:
  "\<exists>y. rsi_scan_start (example_scan_env (- 1)) (example_scan_mgmt, example_scanning) = Some y \<and> scans_completed (snd y) = 0"
proof -
  obtain y where y: "scan_channels (example_scan_env (- 1)) (last_vif example_scanning) example_req (req_channels example_req)
      (example_scan_mgmt, example_scanning\<lparr>scanning := True\<rparr>) = Some (LEAVE, y)" using example_leaves by auto
  have "reports_nothing (example_scan_env (- 1))" by (simp add: reports_nothing_def example_scan_env_def)
  then show ?thesis using abandoned_scan_unreported [OF _ _ _ _ y] by auto
qed

end
