(* ===== verification/Stations.thy ===== *)
theory Stations
  imports Scan
begin

text \<open>
  Stations: the table of connected stations of rsi/rsi_91x_mac80211.c (\<open>rsi_mac80211_sta_add\<close>, \<open>rsi_mac80211_sta_remove\<close>) and
  their aggregation sessions (\<open>rsi_mac80211_ampdu_action\<close>), the notification of the device in rsi/rsi_91x_mgmt.c
  (\<open>rsi_send_sta_notify_frame\<close>, \<open>rsi_inform_bss_status\<close>, \<open>rsi_set_contention_vals\<close>).

  A result None stands for a NULL pointer that is followed. \<open>hw_data_qs_blocked\<close> is \<open>sec_qs_blocked\<close>.
\<close>

section \<open>State\<close>

text \<open>\<open>struct ieee80211_sta\<close>, and a slot of the table (\<open>struct rsi_sta\<close>); the pointer \<open>sta\<close> to the former may be NULL.\<close>

record ieee_sta = sta_caps +
  peer_addr :: "u8 list"
  peer_wme :: bool
  peer_aid :: u16
  ampdu_density :: u8
  ampdu_factor :: u8
  he_bsr :: bool

record station =
  st_sta :: "ieee_sta option"
  st_id :: int
  st_seq_no :: "u16 list"
  st_seq_start :: "u16 list"
  st_aggr :: "bool list"

text \<open>
  \<open>peers\<close> is the table of 33 slots; \<open>key_stations\<close>, addresses and numbers as the key functions read them, is a view of it
  (\<open>put_peers\<close> writes both). The flags \<open>start_tx_aggr\<close> of the last slot, the access point of a station, are those of \<open>mgmt_common\<close>.
  \<open>notify_pending\<close> is \<open>adapter->peer_notify\<close>. \<open>nt_profile\<close>, \<open>nt_periodicity\<close> and \<open>tx_bssid\<close> are the rest of \<open>ax_params\<close>.
  \<open>bss_qos\<close> is \<open>bss_conf.qos\<close> of the interface. \<open>tx_wme\<close>, \<open>tx_weight\<close> and \<open>tx_contended\<close> are the columns of \<open>tx_qinfo\<close>.
  \<open>vif_seq_start\<close> is \<open>vif_info[].seq_start\<close>. The ghosts \<open>ba_started\<close>, \<open>ba_stopped\<close> and \<open>ba_wanted\<close> list what mac80211 is told.
\<close>

record peer_common = scan_common +
  peers :: "station list"
  num_stations :: int
  peer_notify_state :: bool
  notify_pending :: bool
  sta_bssid :: "u8 list"
  nt_profile :: u8
  nt_periodicity :: u8
  tx_bssid :: "u8 list"
  bss_qos :: bool
  tx_wme :: "int list"
  tx_weight :: "int list"
  tx_contended :: "int list"
  vif_seq_start :: "u16 list"
  update_country :: bool
  ba_started :: "(u8 list \<times> u16) list"
  ba_stopped :: "(u8 list \<times> u16) list"
  ba_wanted :: "u8 list list"

abbreviation (input) AP_PEER :: nat where "AP_PEER \<equiv> 32"
abbreviation (input) IEEE80211_NUM_ACS :: nat where "IEEE80211_NUM_ACS \<equiv> 4"
abbreviation (input) IEEE80211_NUM_TIDS :: nat where "IEEE80211_NUM_TIDS \<equiv> 16"
abbreviation (input) CONNECTION_TYPE :: u16 where "CONNECTION_TYPE \<equiv> 1"
abbreviation (input) PEER_TYPE_AP :: u16 where "PEER_TYPE_AP \<equiv> 0"
abbreviation (input) PEER_TYPE_STA :: u16 where "PEER_TYPE_STA \<equiv> 1"
abbreviation (input) RSI_ADD_PEER :: u16 where "RSI_ADD_PEER \<equiv> 1"
abbreviation (input) RSI_DELETE_PEER :: u16 where "RSI_DELETE_PEER \<equiv> 0"

type_synonym 'z peer_state = "mgmt_common \<times> 'z peer_common_scheme"

text \<open>Calls one after the other whose status the code does not look at.\<close>

fun steps :: "('s \<Rightarrow> 's option) list \<Rightarrow> 's \<Rightarrow> 's option" where
  "steps [] x = Some x"
| "steps (f # fs) x = (case f x of None \<Rightarrow> None | Some y \<Rightarrow> steps fs y)"

definition issue :: "(mgmt_common \<Rightarrow> int \<times> mgmt_common) \<Rightarrow> mgmt_common \<times> 's \<Rightarrow> (mgmt_common \<times> 's) option" where
  "issue f x = Some (snd (f (fst x)), snd x)"

definition put_peers :: "station list \<Rightarrow> 'z peer_common_scheme \<Rightarrow> 'z peer_common_scheme" where
  "put_peers table s = s\<lparr>peers := table, key_stations := map (\<lambda>p. (map_option peer_addr (st_sta p), st_id p)) table\<rparr>"

definition set_peer :: "nat \<Rightarrow> (station \<Rightarrow> station) \<Rightarrow> 'z peer_common_scheme \<Rightarrow> 'z peer_common_scheme" where
  "set_peer i f s = put_peers ((peers s)[i := f (peers s ! i)]) s"

section \<open>Notification of the device\<close>

definition rsi_set_contention_vals :: "mgmt_common \<Rightarrow> 'z peer_common_scheme \<Rightarrow> 'z peer_common_scheme" where
  "rsi_set_contention_vals c s =
     (let w = map (\<lambda>p. (int (unat (cw_min p)) div 2 + int (unat (edca_aifs p))) * 9 + 16) (take 4 (edca c))
      in s\<lparr>tx_wme := w, tx_weight := w, tx_contended := map (\<lambda>_. 0) w\<rparr>)"

definition mpdu_density_map :: "u16 list" where
  "mpdu_density_map = [0, 1, 1, 1, 2, 4, 8, 16]"

text \<open>The peer whose capabilities are sent: that of the slot, or for a station its access point.\<close>

definition notified_sta :: "bool \<Rightarrow> u16 \<Rightarrow> 'z peer_common_scheme \<Rightarrow> ieee_sta option" where
  [rsi_defs]: "notified_sta ap sta_id s = st_sta (peers s ! (if ap then unat sta_id else AP_PEER))"

definition peer_command :: "bool \<Rightarrow> bool \<Rightarrow> u16 \<Rightarrow> u16" where
  "peer_command ap connected aid =
     push_bit 1 (if ap then PEER_TYPE_STA else PEER_TYPE_AP) OR (if connected then RSI_ADD_PEER else RSI_DELETE_PEER)
     OR push_bit 4 (aid AND 0xfff)"

definition peer_frame :: "bool \<Rightarrow> bool \<Rightarrow> u8 list \<Rightarrow> bool \<Rightarrow> u16 \<Rightarrow> u16 \<Rightarrow> u8 \<Rightarrow> mgmt_common \<Rightarrow> 'z peer_common_scheme \<Rightarrow> u8 list" where
  "peer_frame ap connected bssid qos aid sta_id vap c s =
     (let caps = (if connected then notified_sta ap sta_id s else None)
      in put_words [len_queue 16 RSI_WIFI_MGMT_Q, PEER_NOTIFY,
                    if connected \<and> \<not> ap \<and> ax_enabled (ax_params c) then push_bit 8 CONNECTION_TYPE else 0, 0,
                    ucast (nt_profile s) OR push_bit 8 (ucast (nt_periodicity s)),
                    ucast (mbssid_mask_value (ax_params c)) OR push_bit 8 (ucast (tx_bssid s ! 5)), 0,
                    sta_id OR push_bit 8 (ucast vap)] @ bssid @
         put_words [peer_command ap connected aid,
                    case caps of None \<Rightarrow> 0 | Some sta \<Rightarrow> mpdu_density_map ! unat (ampdu_density sta), 0] @
         put_le32 (case caps of None \<Rightarrow> 0 | Some sta \<Rightarrow> push_bit 2 (ucast (ampdu_factor sta)) OR (if qos then 1 else 0)))"

text \<open>\<open>rsi_send_sta_notify_frame\<close> for the two modes it is called with; \<open>connected\<close> is the event.\<close>

definition rsi_send_sta_notify_frame ::
  "bool \<Rightarrow> bool \<Rightarrow> u8 list \<Rightarrow> bool \<Rightarrow> u16 \<Rightarrow> u16 \<Rightarrow> mgmt_common \<Rightarrow> 'z peer_common_scheme \<Rightarrow> (int \<times> 'z peer_state) option" where
  "rsi_send_sta_notify_frame ap connected bssid qos aid sta_id c s =
     (case last_vif s of
        None \<Rightarrow> None
      | Some v \<Rightarrow>
        let (ok, c1) = alloc_skb c
        in if \<not> ok then Some (- ENOMEM, c1, s)
           else
             let s1 = s\<lparr>peer_notify_state := connected, notify_pending := True, sta_bssid := bssid\<rparr>;
                 (status, c2) = queue_internal (peer_frame ap connected bssid qos aid sta_id (vap_id v) c1 s) c1
             in if vif_type v = NL80211_IFTYPE_STATION \<and> status = 0 \<and> qos
                then let (status2, c3) = rsi_load_radio_caps c2 in Some (status2, c3, rsi_set_contention_vals c2 s1)
                else Some (status, c2, s1))"

definition notify :: "bool \<Rightarrow> bool \<Rightarrow> u8 list \<Rightarrow> bool \<Rightarrow> u16 \<Rightarrow> u16 \<Rightarrow> 'z peer_state \<Rightarrow> 'z peer_state option" where
  [rsi_defs]: "notify ap connected bssid qos aid sta_id x =
     map_option snd (rsi_send_sta_notify_frame ap connected bssid qos aid sta_id (fst x) (snd x))"

text \<open>
  The request of automatic rates. A station calls it without a peer and gets its access point from the last
  slot; when that is empty too, the write of \<open>min_supported_rate\<close> goes through a NULL pointer.
\<close>

definition no_caps :: sta_caps where
  "no_caps = \<lparr>supp_rates = [0, 0], ht_supported = False, cap_sgi_20 = False, cap_sgi_40 = False\<rparr>"

definition auto_rate :: "ieee_sta option \<Rightarrow> u16 \<Rightarrow> 'z peer_state \<Rightarrow> 'z peer_state option" where
  "auto_rate sta sta_id x =
     (let (c, s) = x; peer = (if sta = None then st_sta (peers s ! AP_PEER) else sta)
      in if min_rate c \<noteq> 0xffff then Some x
         else case peer of
           None \<Rightarrow> if mgmt_alloc c (mgmt_allocs c) \<and> fst (kz_ok s) then None
                    else map_option snd (rsi_send_auto_rate_request no_caps sta_id c s)
         | Some p \<Rightarrow> map_option snd (rsi_send_auto_rate_request (sta_caps.truncate p) sta_id c s))"

definition unblock :: "mgmt_common \<times> 'z chan_common_scheme \<Rightarrow> (mgmt_common \<times> 'z chan_common_scheme) option" where
  [rsi_defs]: "unblock x = Some (block_data False (fst x) (snd x))"

definition mark_blocked :: "mgmt_common \<times> 'z rx_sec_scheme \<Rightarrow> (mgmt_common \<times> 'z rx_sec_scheme) option" where
  [rsi_defs]: "mark_blocked x = Some (fst x, (snd x)\<lparr>sec_qs_blocked := True\<rparr>)"

definition stop_traffic_timer :: "mgmt_common \<times> 'z chan_common_scheme \<Rightarrow> (mgmt_common \<times> 'z chan_common_scheme) option" where
  [rsi_defs]: "stop_traffic_timer x =
     Some (fst x, if timer_set_up (ps (snd x)) then (snd x)\<lparr>ps := (ps (snd x))\<lparr>ps_timer := None\<rparr>\<rparr> else snd x)"

text \<open>\<open>rsi_inform_bss_status\<close>, when a peer is connected and when it is not any more.\<close>

definition bss_connected ::
  "bool \<Rightarrow> u8 list \<Rightarrow> bool \<Rightarrow> u16 \<Rightarrow> ieee_sta option \<Rightarrow> u16 \<Rightarrow> u16 \<Rightarrow> 'z peer_state \<Rightarrow> 'z peer_state option" where
  "bss_connected ap bssid qos aid sta sta_id assoc_cap =
     steps ((if ap then [] else [mark_blocked]) @ [notify ap True bssid qos aid sta_id, auto_rate sta sta_id] @
       (if ap then [\<lambda>x. if sec_qs_blocked (snd x) then unblock x else Some x]
        else issue rsi_load_radio_caps # (if bit assoc_cap 4 then [] else [unblock])))"

definition bss_disconnected :: "bool \<Rightarrow> u8 list \<Rightarrow> bool \<Rightarrow> u16 \<Rightarrow> u16 \<Rightarrow> 'z peer_state \<Rightarrow> 'z peer_state option" where
  "bss_disconnected ap bssid qos aid sta_id =
     steps ((if ap then [] else [mark_blocked]) @
       [stop_traffic_timer, notify ap False bssid qos aid sta_id] @
       (if ap then [] else [issue (rsi_send_block_unblock_frame True)]))"

section \<open>The table of stations\<close>

definition slot_of :: "nat \<Rightarrow> u8 list \<Rightarrow> station list \<Rightarrow> nat option" where
  "slot_of n addr table = List.find (\<lambda>i. map_option peer_addr (st_sta (table ! i)) = Some addr) [0..<n]"

definition free_slot :: "nat \<Rightarrow> station list \<Rightarrow> nat" where
  "free_slot n table = (case List.find (\<lambda>i. st_sta (table ! i) = None) [0..<n] of Some i \<Rightarrow> i | None \<Rightarrow> n)"

definition reset_peer :: "station \<Rightarrow> station" where
  "reset_peer p = p\<lparr>st_seq_no := replicate IEEE80211_NUM_ACS 1, st_aggr := replicate IEEE80211_NUM_TIDS False\<rparr>"

text \<open>A WEP key of the access point is loaded for the new station.\<close>

definition wep_key :: "nat \<Rightarrow> 'z peer_state \<Rightarrow> 'z peer_state option" where
  "wep_key i x =
     (case ap_key (snd x) of
        None \<Rightarrow> Some x
      | Some key \<Rightarrow>
        if is_wep (cipher key)
        then map_option (\<lambda>r. (snd r, snd x)) (load_vif_key (snd x) key RSI_PAIRWISE_KEY (int i) (fst x))
        else Some x)"

definition new_station :: "ieee_sta \<Rightarrow> 'z peer_state \<Rightarrow> 'z peer_state option" where
  "new_station sta x =
     (let i = free_slot (max_stations (fst x)) (peers (snd x))
      in steps [\<lambda>x. Some (fst x, set_peer i (\<lambda>p. p\<lparr>st_sta := Some sta, st_id := int i\<rparr>) (snd x)),
                bss_connected True (peer_addr sta) (peer_wme sta) (peer_aid sta) (Some sta) (of_nat i) 0,
                wep_key i,
                \<lambda>x. Some (fst x, (set_peer i reset_peer (snd x))\<lparr>num_stations := num_stations (snd x) + 1\<rparr>)] x)"

definition ap_add :: "ieee_sta \<Rightarrow> 'z peer_state \<Rightarrow> 'z peer_state option" where
  "ap_add sta x =
     (case slot_of (max_stations (fst x)) (peer_addr sta) (peers (snd x)) of
        Some i \<Rightarrow> Some (fst x, set_peer i (\<lambda>p. reset_peer (p\<lparr>st_sta := Some sta, st_id := int i\<rparr>)) (snd x))
      | None \<Rightarrow> new_station sta x)"

text \<open>The access point of a station takes the last slot.\<close>

definition sta_connect :: "ieee_sta \<Rightarrow> 'z peer_state \<Rightarrow> 'z peer_state option" where
  "sta_connect sta x =
     rsi_set_min_rate (sta_caps.truncate sta) ((fst x)\<lparr>start_tx_aggr := replicate IEEE80211_NUM_TIDS False\<rparr>)
       (set_peer AP_PEER (\<lambda>p. p\<lparr>st_sta := Some sta, st_id := 0, st_seq_start := replicate IEEE80211_NUM_ACS 0\<rparr>) (snd x))"

definition ht_connect :: "ieee_sta \<Rightarrow> 'z peer_common_scheme \<Rightarrow> 'z peer_common_scheme" where
  "ht_connect sta s =
     (let s1 = s\<lparr>vif_is_ht := True, bitrate_mask := (bitrate_mask s)[0 := ucast (supp_rates sta ! 0)],
                 ba_wanted := ba_wanted s @ [peer_addr sta]\<rparr>
      in if cap_sgi_20 sta \<or> cap_sgi_40 sta then s1\<lparr>vif_sgi := True\<rparr> else s1)"

definition rsi_mac80211_sta_add :: "iftype \<Rightarrow> ieee_sta \<Rightarrow> mgmt_common \<Rightarrow> 'z peer_common_scheme \<Rightarrow> (int \<times> 'z peer_state) option" where
  "rsi_mac80211_sta_add ty sta c s =
     (let ap = ty \<in> {NL80211_IFTYPE_AP, NL80211_IFTYPE_P2P_GO};
          c1 = (if ty = NL80211_IFTYPE_STATION \<and> he_bsr sta then c\<lparr>bsr_support := True\<rparr> else c)
      in if ap \<and> int (max_stations c1) \<le> num_stations s then Some (- EOPNOTSUPP, c1, s)
         else map_option (Pair 0) (steps
           ((if ap then [ap_add sta] else []) @
            [\<lambda>x. Some (fst x, if cap_sgi_20 sta \<or> cap_sgi_40 sta then (snd x)\<lparr>vif_sgi := True\<rparr> else snd x)] @
            (if ty = NL80211_IFTYPE_STATION then [sta_connect sta] else []) @
            (if ty \<in> {NL80211_IFTYPE_STATION, NL80211_IFTYPE_P2P_CLIENT} \<and> ht_supported sta
             then [\<lambda>x. Some (fst x, ht_connect sta (snd x))] else [])) (c1, s)))"

definition ap_remove :: "ieee_sta \<Rightarrow> 'z peer_state \<Rightarrow> 'z peer_state option" where
  "ap_remove sta x =
     (case slot_of (max_stations (fst x)) (peer_addr sta) (peers (snd x)) of
        None \<Rightarrow> Some x
      | Some i \<Rightarrow> steps
          [bss_disconnected True (peer_addr sta) (peer_wme sta) (peer_aid sta) (of_nat i),
           \<lambda>x. Some (fst x, (set_peer i (\<lambda>p. p\<lparr>st_sta := None, st_id := - 1, st_seq_no := replicate IEEE80211_NUM_ACS 0\<rparr>) (snd x))
             \<lparr>num_stations := (if num_stations (snd x) > 0 then num_stations (snd x) - 1 else num_stations (snd x))\<rparr>)] x)"

definition forget_ap :: "nat \<Rightarrow> ieee_sta \<Rightarrow> 'z peer_state \<Rightarrow> 'z peer_state option" where
  "forget_ap vif sta x =
     (let (c, s) = x; used = (st_sta (peers s ! AP_PEER) \<noteq> None);
          s1 = (if used then set_peer AP_PEER (\<lambda>p. p\<lparr>st_sta := None, st_id := - 1\<rparr>) s else s);
          s2 = set_vif vif (\<lambda>v. v\<lparr>vif_bssid := peer_addr sta\<rparr>) s1
      in Some (c\<lparr>start_tx_aggr := (if used then replicate IEEE80211_NUM_TIDS False else start_tx_aggr c), min_rate := 0xffff\<rparr>,
         s2\<lparr>bss_qos := peer_wme sta, bitrate_mask := [0, 0], vif_is_ht := False, vif_sgi := False, vif_seq_start := (vif_seq_start s)[0 := 0],
            ptk_cipher := 0, gtk_cipher := 0, send_initial_bgscan_chan := False, update_country := False\<rparr>))"

definition stop_bgscan :: "'z peer_state \<Rightarrow> 'z peer_state option" where
  "stop_bgscan x =
     (if \<not> bgscan_on (snd x) then Some x
      else map_option (\<lambda>(status, c, s). (c, s\<lparr>bgscan_on := (status \<noteq> 0), hwscan_en := False\<rparr>)) (rsi_send_bgscan_params False (fst x) (snd x)))"

definition rsi_mac80211_sta_remove :: "iftype \<Rightarrow> nat \<Rightarrow> ieee_sta \<Rightarrow> mgmt_common \<Rightarrow> 'z peer_common_scheme \<Rightarrow> 'z peer_state option" where
  "rsi_mac80211_sta_remove ty vif sta c s =
     steps ((if ty \<in> {NL80211_IFTYPE_AP, NL80211_IFTYPE_P2P_GO} then [ap_remove sta] else []) @
       (if ty = NL80211_IFTYPE_STATION
        then [forget_ap vif sta, stop_bgscan, \<lambda>x. if iface_down (fst x) then Some x else issue (rsi_send_rx_filter_frame 0) x] else []))
       (if ty = NL80211_IFTYPE_STATION then c\<lparr>bsr_support := False\<rparr> else c, s)"

section \<open>Aggregation sessions\<close>

datatype ampdu_act = AMPDU_RX_START | AMPDU_RX_STOP | AMPDU_TX_START | AMPDU_TX_STOP | AMPDU_TX_OPERATIONAL | AMPDU_OTHER

text \<open>Where the start sequence of a session is kept; \<open>vif\<close> is the number of the interface.\<close>

definition rsi_mac80211_ampdu_action ::
  "ampdu_act \<Rightarrow> iftype \<Rightarrow> nat \<Rightarrow> u8 list \<Rightarrow> u16 \<Rightarrow> u16 \<Rightarrow> u8 \<Rightarrow> mgmt_common \<Rightarrow> 'z peer_common_scheme \<Rightarrow> int \<times> 'z peer_state" where
  "rsi_mac80211_ampdu_action act ty vif addr tid ssn buf_size c s =
     (let ap = ty \<in> {NL80211_IFTYPE_AP, NL80211_IFTYPE_P2P_GO};
          cl = ty \<in> {NL80211_IFTYPE_STATION, NL80211_IFTYPE_P2P_CLIENT};
          slot = List.find (\<lambda>i. case st_sta (peers s ! i) of None \<Rightarrow> False
                                | Some p \<Rightarrow> is_broadcast_ether_addr addr \<or> peer_addr p = addr) [0..<max_stations c];
          aggr = (\<lambda>n ev s. let (status, c1) = rsi_send_aggr_params_frame tid n buf_size ev c in (status, c1, s))
      in if ap \<and> slot = None then (0, c, s)
         else case act of
           AMPDU_RX_START \<Rightarrow> aggr ssn STA_RX_ADDBA_DONE s
         | AMPDU_RX_STOP \<Rightarrow> aggr 0 STA_RX_DELBA s
         | AMPDU_TX_START \<Rightarrow>
             (0, c, (if cl then s\<lparr>vif_seq_start := (vif_seq_start s)[vif := ssn]\<rparr>
                     else if ap then set_peer (the slot) (\<lambda>p. p\<lparr>st_seq_start := (st_seq_start p)[vif := ssn]\<rparr>) s
                     else s)\<lparr>ba_started := ba_started s @ [(addr, tid)]\<rparr>)
         | AMPDU_TX_STOP \<Rightarrow>
             let (status, c1, s1) = aggr ssn STA_TX_DELBA s
             in (status, c1, if status = 0 then s1\<lparr>ba_stopped := ba_stopped s1 @ [(addr, tid)]\<rparr> else s1)
         | AMPDU_TX_OPERATIONAL \<Rightarrow>
             aggr (if cl then vif_seq_start s ! vif else if ap then st_seq_start (peers s ! the slot) ! vif else 0) STA_TX_ADDBA_DONE s
         | AMPDU_OTHER \<Rightarrow> (1, c, s))"

section \<open>What the commands leave alone\<close>

text \<open>The table and what finding its entries and sending for them depend on.\<close>

definition same_table :: "'z peer_state \<Rightarrow> 'z peer_state \<Rightarrow> bool" where
  "same_table x y \<longleftrightarrow> max_stations (fst y) = max_stations (fst x) \<and> peers (snd y) = peers (snd x) \<and>
     num_stations (snd y) = num_stations (snd x) \<and> rx_vifs (snd y) = rx_vifs (snd x) \<and> sc_nvifs (snd y) = sc_nvifs (snd x) \<and>
     kz_ok (snd y) = kz_ok (snd x)"

text \<open>The interfaces are there, and the allocation whose result is not tested succeeds.\<close>

definition linked :: "'z peer_state \<Rightarrow> bool" where
  "linked x \<longleftrightarrow> last_vif (snd x) \<noteq> None \<and> rx_vifs (snd x) ! 0 \<noteq> None \<and> snd (kz_ok (snd x))"

definition leaves_table :: "('z peer_state \<Rightarrow> 'z peer_state option) \<Rightarrow> bool" where
  "leaves_table f \<longleftrightarrow> (\<forall>x. linked x \<longrightarrow> (\<exists>y. f x = Some y \<and> same_table x y))"

lemma same_table_trans: "same_table x y \<Longrightarrow> same_table y z \<Longrightarrow> same_table x z"
  by (simp add: same_table_def)

lemma same_table_linked: "same_table x y \<Longrightarrow> linked x \<Longrightarrow> linked y"
  by (simp add: same_table_def linked_def last_vif_def)

lemma leaves_table_steps: "(\<And>f. f \<in> set fs \<Longrightarrow> leaves_table f) \<Longrightarrow> leaves_table (steps fs)"
proof (induction fs)
  case Nil
  then show ?case by (simp add: leaves_table_def same_table_def)
next
  case (Cons f fs)
  have f: "leaves_table f" and fs: "leaves_table (steps fs)" using Cons by auto
  show ?case unfolding leaves_table_def
  proof (intro allI impI)
    fix x :: "'a peer_state" assume "linked x"
    then obtain y where y: "f x = Some y" "same_table x y" using f unfolding leaves_table_def by blast
    then obtain z where "steps fs y = Some z" "same_table y z"
      using fs same_table_linked [OF y(2) \<open>linked x\<close>] unfolding leaves_table_def by blast
    then show "\<exists>y. steps (f # fs) x = Some y \<and> same_table x y" using y same_table_trans [of x y z] by simp
  qed
qed

lemma alloc_skb_max [simp]: "max_stations (snd (alloc_skb c)) = max_stations c"
  by (simp add: alloc_skb_def)

lemma queue_internal_max [simp]: "max_stations (snd (queue_internal d c)) = max_stations c"
  by (simp add: queue_internal_def Let_def)

lemma send_command_max [simp]: "max_stations (snd (send_command c id frame)) = max_stations c"
  by (simp add: send_command_def alloc_skb_def Let_def)

lemma command_max [simp]:
  "max_stations (snd (rsi_load_radio_caps c)) = max_stations c"
  "max_stations (snd (rsi_send_block_unblock_frame b c)) = max_stations c"
  by (simp_all add: rsi_load_radio_caps_def rsi_send_block_unblock_frame_def)

lemma notify_leaves: "leaves_table (notify ap connected bssid qos aid sta_id)"
  by (auto simp: leaves_table_def linked_def notify_def rsi_send_sta_notify_frame_def queue_internal_def alloc_skb_def
      rsi_load_radio_caps_def send_command_def same_table_def rsi_set_contention_vals_def Let_def split: prod.splits if_splits)

lemma request_leaves:
  assumes "linked x"
  shows "\<exists>y. map_option snd (rsi_send_auto_rate_request caps sta_id (fst x) (snd x)) = Some y \<and> same_table x y"
  using assms by (auto simp: linked_def rsi_send_auto_rate_request_def queue_internal_def alloc_skb_def same_table_def update_tables_def Let_def split: prod.splits)

lemma auto_rate_leaves: "leaves_table (auto_rate (Some p) sta_id)"
  unfolding leaves_table_def
proof (intro allI impI)
  fix x :: "'a peer_state" assume "linked x"
  then show "\<exists>y. auto_rate (Some p) sta_id x = Some y \<and> same_table x y"
    using request_leaves [of x "sta_caps.truncate p" sta_id]
    by (cases "min_rate (fst x) = 0xffff") (auto simp: auto_rate_def split_def Let_def same_table_def simp del: map_option_eq_Some)
qed

lemma issue_leaves: "(\<And>c. max_stations (snd (f c)) = max_stations c) \<Longrightarrow> leaves_table (issue f)"
  by (simp add: leaves_table_def issue_def same_table_def)

lemma block_data_leaves: "leaves_table (\<lambda>x. if sec_qs_blocked (snd x) then unblock x else Some x)"
  by (auto simp: leaves_table_def unblock_def block_data_def same_table_def Let_def split: prod.splits)
     (metis command_max(2) snd_conv)+

lemma connected_leaves: "leaves_table (bss_connected True bssid qos aid (Some p) sta_id cap)"
  unfolding bss_connected_def
  by (rule leaves_table_steps) (auto simp: notify_leaves auto_rate_leaves block_data_leaves)

lemma disconnected_leaves: "leaves_table (bss_disconnected True bssid qos aid sta_id)"
  unfolding bss_disconnected_def
  by (rule leaves_table_steps) (auto simp: notify_leaves leaves_table_def [of stop_traffic_timer] stop_traffic_timer_def same_table_def)

lemma wep_leaves: "leaves_table (wep_key i)"
  by (auto simp: leaves_table_def linked_def wep_key_def load_vif_key_def last_vif_def rsi_load_key_def queue_internal_def alloc_skb_def
      same_table_def Let_def split: option.splits prod.splits if_splits)

section \<open>The table as a set of addresses\<close>

definition occupants :: "station list \<Rightarrow> u8 list list" where
  "occupants xs = List.map_filter (\<lambda>p. map_option peer_addr (st_sta p)) xs"

definition members :: "'z peer_state \<Rightarrow> u8 list set" where
  "members x = set (occupants (take (max_stations (fst x)) (peers (snd x))))"

definition table_inv :: "'z peer_state \<Rightarrow> bool" where
  "table_inv x \<longleftrightarrow>
     (let n = max_stations (fst x); table = peers (snd x)
      in n \<le> 32 \<and> length table = 33 \<and> distinct (occupants (take n table)) \<and> num_stations (snd x) = int (length (occupants (take n table))) \<and>
         (\<forall>i<n. st_sta (table ! i) \<noteq> None \<longrightarrow> st_id (table ! i) = int i))"

lemma occupants_simps [simp]:
  "occupants [] = []"
  "occupants (p # xs) = (case st_sta p of None \<Rightarrow> occupants xs | Some s \<Rightarrow> peer_addr s # occupants xs)"
  by (simp_all add: occupants_def map_filter_simps split: option.splits)

lemma occupants_append [simp]: "occupants (xs @ ys) = occupants xs @ occupants ys"
  by (induction xs) (auto split: option.splits)

lemma occupants_split:
  assumes "i < length xs"
  shows "occupants xs = occupants (take i xs) @ occupants [xs ! i] @ occupants (drop (Suc i) xs)"
  by (subst id_take_nth_drop [OF assms]) (simp only: occupants_append append_Cons append_Nil append_assoc occupants_append [of "[xs ! i]", symmetric])

lemma occupants_update:
  assumes "i < length xs"
  shows "occupants (xs[i := q]) = occupants (take i xs) @ occupants [q] @ occupants (drop (Suc i) xs)"
  using occupants_split [of i "xs[i := q]"] assms by simp

lemma occupants_fill:
  assumes "i < length xs" "st_sta (xs ! i) = None" "st_sta q = Some p"
  shows "set (occupants (xs[i := q])) = insert (peer_addr p) (set (occupants xs))"
    "length (occupants (xs[i := q])) = Suc (length (occupants xs))"
    "distinct (occupants (xs[i := q])) \<longleftrightarrow> peer_addr p \<notin> set (occupants xs) \<and> distinct (occupants xs)"
  unfolding occupants_update [OF assms(1)] occupants_split [OF assms(1)] using assms(2,3) by auto

lemma occupants_replace:
  assumes "i < length xs" "map_option peer_addr (st_sta (xs ! i)) = Some a" "map_option peer_addr (st_sta q) = Some a"
  shows "occupants (xs[i := q]) = occupants xs"
  unfolding occupants_update [OF assms(1)] occupants_split [OF assms(1)] using assms(2,3) by auto

lemma occupants_empty:
  assumes "i < length xs" "map_option peer_addr (st_sta (xs ! i)) = Some a" "st_sta q = None" "distinct (occupants xs)"
  shows "set (occupants (xs[i := q])) = set (occupants xs) - {a}"
    "length (occupants xs) = Suc (length (occupants (xs[i := q])))" "distinct (occupants (xs[i := q]))"
  using assms(2-4) unfolding occupants_update [OF assms(1)] occupants_split [OF assms(1)] by auto

lemma occupants_in: "a \<in> set (occupants xs) \<longleftrightarrow> (\<exists>i<length xs. map_option peer_addr (st_sta (xs ! i)) = Some a)"
  by (induction xs) (auto simp: less_Suc_eq_0_disj split: option.splits)

lemma occupants_full: "length (occupants xs) < length xs \<Longrightarrow> \<exists>i<length xs. st_sta (xs ! i) = None"
  by (induction xs) (auto simp: less_Suc_eq_0_disj split: option.splits)

lemma slot_of_None: "slot_of n a table = None \<Longrightarrow> n \<le> length table \<Longrightarrow> a \<notin> set (occupants (take n table))"
  by (auto simp: slot_of_def occupants_in find_None_iff)

lemma slot_of_Some: "slot_of n a table = Some i \<Longrightarrow> i < n \<and> map_option peer_addr (st_sta (table ! i)) = Some a"
  unfolding slot_of_def find_Some_iff by auto

lemma free_slot_free:
  assumes "length (occupants (take n table)) < n" "n \<le> length table"
  shows "free_slot n table < n \<and> st_sta (table ! free_slot n table) = None"
proof -
  obtain j where j: "j < n" "st_sta (table ! j) = None" using occupants_full [of "take n table"] assms by auto
  then have "List.find (\<lambda>i. st_sta (table ! i) = None) [0..<n] \<noteq> None" by (auto simp: find_None_iff)
  then obtain i where "List.find (\<lambda>i. st_sta (table ! i) = None) [0..<n] = Some i" by blast
  moreover from this have "i < n" "st_sta (table ! i) = None" by (auto simp: find_Some_iff)
  ultimately show ?thesis by (simp add: free_slot_def)
qed

section \<open>The operations on the table\<close>

text \<open>One slot of the table is changed, and nothing else that finding the entries depends on.\<close>

definition changes_slot :: "nat \<Rightarrow> station \<Rightarrow> int \<Rightarrow> 'z peer_state \<Rightarrow> 'z peer_state \<Rightarrow> bool" where
  "changes_slot i q d x y \<longleftrightarrow> max_stations (fst y) = max_stations (fst x) \<and> peers (snd y) = (peers (snd x))[i := q] \<and>
     num_stations (snd y) = num_stations (snd x) + d \<and> rx_vifs (snd y) = rx_vifs (snd x) \<and> sc_nvifs (snd y) = sc_nvifs (snd x) \<and>
     kz_ok (snd y) = kz_ok (snd x)"

lemma changes_slot_linked: "changes_slot i q d x y \<Longrightarrow> linked y = linked x"
  by (simp add: changes_slot_def linked_def last_vif_def)

lemma put_peers_fields [simp]:
  "peers (put_peers table s) = table" "num_stations (put_peers table s) = num_stations s"
  "rx_vifs (put_peers table s) = rx_vifs s" "sc_nvifs (put_peers table s) = sc_nvifs s" "kz_ok (put_peers table s) = kz_ok s"
  by (simp_all add: put_peers_def)

lemma set_peer_fields [simp]:
  "peers (set_peer i f s) = (peers s)[i := f (peers s ! i)]" "num_stations (set_peer i f s) = num_stations s"
  "rx_vifs (set_peer i f s) = rx_vifs s" "sc_nvifs (set_peer i f s) = sc_nvifs s" "kz_ok (set_peer i f s) = kz_ok s"
  by (simp_all add: set_peer_def)

lemma steps_leaves:
  assumes "leaves_table f" "linked x" "\<And>y. same_table x y \<Longrightarrow> \<exists>z. steps fs y = Some z \<and> P z"
  shows "\<exists>z. steps (f # fs) x = Some z \<and> P z"
  using assms unfolding leaves_table_def by fastforce

lemma new_station_effect:
  assumes "linked x" "free_slot (max_stations (fst x)) (peers (snd x)) < length (peers (snd x))"
  shows "\<exists>y q. new_station sta x = Some y \<and> changes_slot (free_slot (max_stations (fst x)) (peers (snd x))) q 1 x y \<and>
    st_sta q = Some sta \<and> st_id q = int (free_slot (max_stations (fst x)) (peers (snd x)))"
proof -
  define i where "i = free_slot (max_stations (fst x)) (peers (snd x))"
  define q where "q = (peers (snd x) ! i)\<lparr>st_sta := Some sta, st_id := int i\<rparr>"
  define x1 where "x1 = (fst x, set_peer i (\<lambda>p. p\<lparr>st_sta := Some sta, st_id := int i\<rparr>) (snd x))"
  define last where "last = (\<lambda>x :: 'a peer_state. Some (fst x, (set_peer i reset_peer (snd x))\<lparr>num_stations := num_stations (snd x) + 1\<rparr>))"
  have l: "linked x1" using assms(1) by (simp add: x1_def linked_def last_vif_def)
  have "\<exists>z. steps [bss_connected True (peer_addr sta) (peer_wme sta) (peer_aid sta) (Some sta) (of_nat i) 0, wep_key i, last] x1 = Some z \<and>
      changes_slot i (reset_peer q) 1 x z"
  proof (rule steps_leaves [OF connected_leaves l], rule steps_leaves [OF wep_leaves])
    fix y assume y: "same_table x1 y"
    then show "linked y" using same_table_linked l by blast
    fix z assume "same_table y z"
    with y have "same_table x1 z" by (rule same_table_trans)
    then show "\<exists>w. steps [last] z = Some w \<and> changes_slot i (reset_peer q) 1 x w"
      using assms(2) by (simp add: last_def same_table_def changes_slot_def x1_def q_def i_def)
  qed
  then obtain z where "steps [bss_connected True (peer_addr sta) (peer_wme sta) (peer_aid sta) (Some sta) (of_nat i) 0, wep_key i, last] x1 = Some z"
      "changes_slot i (reset_peer q) 1 x z" by blast
  moreover have "st_sta (reset_peer q) = Some sta" "st_id (reset_peer q) = int i" by (simp_all add: q_def reset_peer_def)
  moreover have "new_station sta x = steps [bss_connected True (peer_addr sta) (peer_wme sta) (peer_aid sta) (Some sta) (of_nat i) 0, wep_key i, last] x1"
    by (simp add: new_station_def Let_def last_def i_def x1_def)
  ultimately show ?thesis unfolding i_def [symmetric] by (intro exI [of _ z] exI [of _ "reset_peer q"]) simp
qed

lemma ap_add_effect:
  assumes "linked x" "table_inv x" "num_stations (snd x) < int (max_stations (fst x))"
  shows "\<exists>y i q d. ap_add sta x = Some y \<and> changes_slot i q d x y \<and> i < max_stations (fst x) \<and> st_sta q = Some sta \<and> st_id q = int i \<and>
    (st_sta (peers (snd x) ! i) = None \<and> d = 1 \<and> peer_addr sta \<notin> members x \<or>
     map_option peer_addr (st_sta (peers (snd x) ! i)) = Some (peer_addr sta) \<and> d = 0)"
proof (cases "slot_of (max_stations (fst x)) (peer_addr sta) (peers (snd x))")
  case None
  have f: "free_slot (max_stations (fst x)) (peers (snd x)) < max_stations (fst x)"
      "st_sta (peers (snd x) ! free_slot (max_stations (fst x)) (peers (snd x))) = None"
    using free_slot_free [of "max_stations (fst x)" "peers (snd x)"] assms(2,3) by (auto simp: table_inv_def Let_def)
  moreover have "max_stations (fst x) \<le> length (peers (snd x))" using assms(2) by (auto simp: table_inv_def Let_def)
  moreover from None this have "peer_addr sta \<notin> members x" unfolding members_def by (rule slot_of_None)
  moreover obtain y q where "new_station sta x = Some y" "changes_slot (free_slot (max_stations (fst x)) (peers (snd x))) q 1 x y"
      "st_sta q = Some sta" "st_id q = int (free_slot (max_stations (fst x)) (peers (snd x)))"
    using new_station_effect [OF assms(1), of sta] calculation by auto
  ultimately show ?thesis using None unfolding ap_add_def by (intro exI [of _ y]) auto
next
  case (Some i)
  then show ?thesis using slot_of_Some [OF Some]
    by (intro exI [of _ "(fst x, set_peer i (\<lambda>p. reset_peer (p\<lparr>st_sta := Some sta, st_id := int i\<rparr>)) (snd x))"] exI [of _ i]
          exI [of _ "reset_peer ((peers (snd x) ! i)\<lparr>st_sta := Some sta, st_id := int i\<rparr>)"] exI [of _ 0])
      (auto simp: ap_add_def changes_slot_def reset_peer_def)
qed

lemma ap_remove_effect:
  assumes "linked x" "slot_of (max_stations (fst x)) (peer_addr sta) (peers (snd x)) = Some i" "0 < num_stations (snd x)"
  shows "\<exists>y q. ap_remove sta x = Some y \<and> changes_slot i q (- 1) x y \<and> st_sta q = None"
proof -
  define last where "last = (\<lambda>x :: 'a peer_state. Some (fst x, (set_peer i (\<lambda>p. p\<lparr>st_sta := None, st_id := - 1, st_seq_no := replicate 4 0\<rparr>) (snd x))
       \<lparr>num_stations := (if num_stations (snd x) > 0 then num_stations (snd x) - 1 else num_stations (snd x))\<rparr>))"
  define q where "q = (peers (snd x) ! i)\<lparr>st_sta := None, st_id := - 1, st_seq_no := replicate 4 0\<rparr>"
  have "\<exists>z. steps [bss_disconnected True (peer_addr sta) (peer_wme sta) (peer_aid sta) (of_nat i), last] x = Some z \<and> changes_slot i q (- 1) x z"
    by (rule steps_leaves [OF disconnected_leaves assms(1)])
      (use assms(3) in \<open>auto simp: last_def same_table_def changes_slot_def q_def\<close>)
  then obtain z where "steps [bss_disconnected True (peer_addr sta) (peer_wme sta) (peer_aid sta) (of_nat i), last] x = Some z" "changes_slot i q (- 1) x z"
    by blast
  moreover have "st_sta q = None" by (simp add: q_def)
  ultimately show ?thesis using assms(2) by (intro exI [of _ z] exI [of _ q]) (simp add: ap_remove_def last_def)
qed

section \<open>A set of at most as many addresses\<close>

text \<open>What mac80211 asks of an access point, and what it means for the set of connected stations.\<close>

datatype station_event = Joins ieee_sta | Leaves ieee_sta

fun run_stations :: "iftype \<Rightarrow> nat \<Rightarrow> station_event list \<Rightarrow> 'z peer_state \<Rightarrow> 'z peer_state option" where
  "run_stations ty vif [] x = Some x"
| "run_stations ty vif (Joins sta # evs) x =
     (case rsi_mac80211_sta_add ty sta (fst x) (snd x) of None \<Rightarrow> None | Some r \<Rightarrow> run_stations ty vif evs (snd r))"
| "run_stations ty vif (Leaves sta # evs) x =
     (case rsi_mac80211_sta_remove ty vif sta (fst x) (snd x) of None \<Rightarrow> None | Some y \<Rightarrow> run_stations ty vif evs y)"



text \<open>\<open>well x A y\<close>: from \<open>x\<close> the invariant leads to \<open>y\<close>, where the members are \<open>A\<close>.\<close>

definition well :: "'z peer_state \<Rightarrow> u8 list set \<Rightarrow> 'z peer_state \<Rightarrow> bool" where
  "well x A y \<longleftrightarrow> table_inv y \<and> linked y = linked x \<and> max_stations (fst y) = max_stations (fst x) \<and> members y = A"

lemma changes_slot_take: "changes_slot i q d x y \<Longrightarrow>
  take (max_stations (fst y)) (peers (snd y)) = (take (max_stations (fst x)) (peers (snd x)))[i := q]"
  by (simp add: changes_slot_def take_update_swap)

lemma changes_slot_ids:
  assumes "table_inv x" "changes_slot i q d x y" "i < max_stations (fst x)" "st_sta q \<noteq> None \<longrightarrow> st_id q = int i"
  shows "\<forall>j<max_stations (fst y). st_sta (peers (snd y) ! j) \<noteq> None \<longrightarrow> st_id (peers (snd y) ! j) = int j"
  using assms by (auto simp: table_inv_def changes_slot_def Let_def nth_list_update)

lemma table_inv_change:
  assumes "table_inv x" "changes_slot i q d x y" "i < max_stations (fst x)" "st_sta q \<noteq> None \<longrightarrow> st_id q = int i"
    "distinct (occupants (take (max_stations (fst y)) (peers (snd y))))"
    "int (length (occupants (take (max_stations (fst y)) (peers (snd y))))) = int (length (occupants (take (max_stations (fst x)) (peers (snd x))))) + d"
  shows "table_inv y"
  using assms(1,2,5,6) changes_slot_ids [OF assms(1-4)] by (simp add: table_inv_def changes_slot_def Let_def)

lemma ap_add_well:
  assumes "linked x" "table_inv x" "num_stations (snd x) < int (max_stations (fst x))"
  shows "\<exists>y. ap_add sta x = Some y \<and> well x (insert (peer_addr sta) (members x)) y"
proof -
  obtain y i q d where y: "ap_add sta x = Some y" "changes_slot i q d x y" "i < max_stations (fst x)" "st_sta q = Some sta" "st_id q = int i" and
      c: "st_sta (peers (snd x) ! i) = None \<and> d = 1 \<and> peer_addr sta \<notin> members x \<or>
        map_option peer_addr (st_sta (peers (snd x) ! i)) = Some (peer_addr sta) \<and> d = 0"
    using ap_add_effect [OF assms, of sta] by blast
  let ?t = "take (max_stations (fst x)) (peers (snd x))"
  have i: "i < length ?t" "?t ! i = peers (snd x) ! i" using y(3) assms(2) by (simp_all add: table_inv_def Let_def)
  note t = changes_slot_take [OF y(2)]
  have "table_inv y \<and> members y = insert (peer_addr sta) (members x)"
  proof (cases "d = 1")
    case True
    then have f: "st_sta (?t ! i) = None" "peer_addr sta \<notin> set (occupants ?t)" using c i by (auto simp: members_def)
    note o = occupants_fill [OF i(1) f(1) y(4)]
    have "table_inv y" by (rule table_inv_change [OF assms(2) y(2,3)]) (use y(5) o f(2) True assms(2) t in \<open>auto simp: table_inv_def Let_def\<close>)
    then show ?thesis using o(1) t by (simp add: members_def)
  next
    case False
    then have f: "map_option peer_addr (st_sta (?t ! i)) = Some (peer_addr sta)" "d = 0" using c i by auto
    have o: "occupants (?t[i := q]) = occupants ?t" by (rule occupants_replace [OF i(1) f(1)]) (simp add: y(4))
    have "table_inv y" by (rule table_inv_change [OF assms(2) y(2,3)]) (use y(5) o f(2) assms(2) t in \<open>auto simp: table_inv_def Let_def\<close>)
    moreover have "peer_addr sta \<in> members x" unfolding members_def occupants_in using f(1) i(1) by blast
    ultimately show ?thesis using o t by (auto simp: members_def)
  qed
  then show ?thesis using y(1,2) changes_slot_linked [OF y(2)] by (auto simp: well_def changes_slot_def)
qed

lemma ap_remove_well:
  assumes "linked x" "table_inv x"
  shows "\<exists>y. ap_remove sta x = Some y \<and> well x (members x - {peer_addr sta}) y"
proof (cases "slot_of (max_stations (fst x)) (peer_addr sta) (peers (snd x))")
  case None
  then have "peer_addr sta \<notin> members x" unfolding members_def by (rule slot_of_None) (use assms(2) in \<open>simp add: table_inv_def Let_def\<close>)
  then show ?thesis using None assms(2) by (simp add: ap_remove_def well_def)
next
  case (Some i)
  let ?t = "take (max_stations (fst x)) (peers (snd x))"
  have i: "i < length ?t" "?t ! i = peers (snd x) ! i" "map_option peer_addr (st_sta (?t ! i)) = Some (peer_addr sta)"
    using slot_of_Some [OF Some] assms(2) by (simp_all add: table_inv_def Let_def)
  then have "peer_addr sta \<in> set (occupants ?t)" unfolding occupants_in by blast
  then have "0 < num_stations (snd x)" using assms(2) by (cases "occupants ?t") (auto simp: table_inv_def Let_def)
  then obtain y q where y: "ap_remove sta x = Some y" "changes_slot i q (- 1) x y" "st_sta q = None"
    using ap_remove_effect [OF assms(1) Some] by blast
  note t = changes_slot_take [OF y(2)]
  have "distinct (occupants ?t)" using assms(2) by (simp add: table_inv_def Let_def)
  note o = occupants_empty [OF i(1,3) y(3) this]
  have "table_inv y" by (rule table_inv_change [OF assms(2) y(2)]) (use i(1) y(3) o t in auto)
  then show ?thesis using y(1,2) changes_slot_linked [OF y(2)] o(1) t by (auto simp: well_def changes_slot_def members_def)
qed

lemma well_sgi: "well x A y \<Longrightarrow> well x A (fst y, if b then (snd y)\<lparr>vif_sgi := True\<rparr> else snd y)"
  by (auto simp: well_def table_inv_def linked_def last_vif_def members_def Let_def)





section \<open>What goes on the queue\<close>

text \<open>A command on the queue, by its type, and a notification of a peer, by its address and whether the peer is added.\<close>

datatype queue_item = Command u8 | Notice "u8 list" bool

definition view :: "u8 list \<Rightarrow> queue_item" where
  "view d = (if cmd_type d = ucast PEER_NOTIFY then Notice (take 6 (drop 16 d)) (bit (get_words (drop 16 d) 3) 0) else Command (cmd_type d))"

abbreviation queued :: "mgmt_common \<Rightarrow> queue_item list" where "queued c \<equiv> map view (mgmt_queue c)"

definition all_alloc :: "mgmt_common \<Rightarrow> bool" where
  "all_alloc c \<longleftrightarrow> (\<forall>n. mgmt_alloc c n)"

text \<open>The state after a frame has been allocated and queued.\<close>

definition pushed :: "u8 list \<Rightarrow> mgmt_common \<Rightarrow> mgmt_common" where
  "pushed d c = c\<lparr>mgmt_allocs := Suc (mgmt_allocs c), tx_events := Suc (tx_events c),
     mgmt_queue := (if d ! 2 = ucast PEER_NOTIFY then internal_mgmt_bytes d # mgmt_queue c else mgmt_queue c @ [internal_mgmt_bytes d])\<rparr>"

lemma pushed_fields [simp]:
  "all_alloc (pushed d c) = all_alloc c" "mgmt_common.min_rate (pushed d c) = mgmt_common.min_rate c" "max_stations (pushed d c) = max_stations c"
  "iface_down (pushed d c) = iface_down c" "edca (pushed d c) = edca c"
  by (simp_all add: pushed_def all_alloc_def)

lemma alloc_queue: "queue_internal d (snd (alloc_skb c)) = (0, pushed d c)"
  by (simp add: queue_internal_def alloc_skb_def pushed_def Let_def)

lemma alloc_all:
  assumes "all_alloc c"
  obtains c1 where "alloc_skb c = (True, c1)" "\<And>d. queue_internal d c1 = (0, pushed d c)"
proof -
  have "alloc_skb c = (True, snd (alloc_skb c))" using assms by (simp add: alloc_skb_def all_alloc_def)
  then show thesis using alloc_queue [of _ c] by (rule that)
qed

lemma send_pushed: "all_alloc c \<Longrightarrow> send_command c id d = (0, pushed d c)"
  using alloc_queue [of d c] by (simp add: send_command_def alloc_skb_def all_alloc_def Let_def)

lemma view_internal [simp]: "view (internal_mgmt_bytes d) = view d"
  by (simp add: view_def cmd_type_def)

lemma queued_command: "d ! 2 \<noteq> ucast PEER_NOTIFY \<Longrightarrow> queued (pushed d c) = queued c @ [Command (d ! 2)]"
  by (simp add: pushed_def view_def [of d] cmd_type_def)

lemma command_pushed:
  assumes "all_alloc c"
  shows "\<exists>d. rsi_load_radio_caps c = (0, pushed d c) \<and> d ! 2 = ucast RADIO_CAPABILITIES"
    "\<exists>d. rsi_send_block_unblock_frame b c = (0, pushed d c) \<and> d ! 2 = ucast BLOCK_HW_QUEUE"
  using send_pushed [OF assms] put_words_nth_type
  by (auto simp: rsi_load_radio_caps_def rsi_send_block_unblock_frame_def radio_frame_def desc_frame_type)

lemma bit0_command: "bit (peer_command ap connected aid) 0 = connected"
  by (auto simp: peer_command_def bit_simps)

lemma peer_frame_layout:
  "\<exists>ws rest tl. peer_frame ap connected bssid qos aid sta_id vap c s = put_words ws @ bssid @ put_words (peer_command ap connected aid # rest) @ tl \<and>
     length ws = 8 \<and> ws ! 1 = PEER_NOTIFY"
  unfolding peer_frame_def Let_def by (intro exI conjI, rule refl) simp_all

lemma peer_frame_view:
  assumes "length bssid = 6"
  shows "peer_frame ap connected bssid qos aid sta_id vap c s ! 2 = ucast PEER_NOTIFY"
    "view (peer_frame ap connected bssid qos aid sta_id vap c s) = Notice bssid connected"
proof -
  obtain ws rest tl where f: "peer_frame ap connected bssid qos aid sta_id vap c s = put_words ws @ bssid @ put_words (peer_command ap connected aid # rest) @ tl"
      "length ws = 8" "ws ! 1 = PEER_NOTIFY"
    using peer_frame_layout by blast
  show t: "peer_frame ap connected bssid qos aid sta_id vap c s ! 2 = ucast PEER_NOTIFY" unfolding f(1) using f(2,3) by (simp add: put_words_nth_type)
  have "get_words (bssid @ put_words (peer_command ap connected aid # rest) @ tl) 3 = peer_command ap connected aid"
    using assms get_put_words [of 0 "peer_command ap connected aid # rest" tl] by (simp add: get_words_def nth_append)
  then show "view (peer_frame ap connected bssid qos aid sta_id vap c s) = Notice bssid connected"
    using t f(2) assms bit0_command unfolding view_def cmd_type_def unfolding f(1) by simp
qed

subsection \<open>The type of the rate table\<close>

text \<open>What filling in the rates leaves alone: the length and the second word.\<close>

definition shape :: "u16 list \<Rightarrow> nat \<times> u16" where
  "shape ws = (length ws, ws ! 1)"

lemma shape_update: "1 < i \<Longrightarrow> shape (ws[i := v]) = shape ws"
  by (simp add: shape_def)

lemma put_rate_shape [simp]: "shape (put_rate i v ws) = shape ws"
  by (simp add: put_rate_def shape_update)

lemma add_rate_shape [simp]: "shape (words (add_rate v b f)) = shape (words f)"
  by (simp add: add_rate_def)

lemma mcs_down_shape [simp]: "shape (words (mcs_down tbl lim k f)) = shape (words f)"
  by (induction tbl lim k f rule: mcs_down.induct) auto

lemma legacy_rates_shape [simp]: "shape (words (legacy_rates h rs k f)) = shape (words f)"
  by (induction h rs k f rule: legacy_rates.induct) (auto simp: add_legacy_def Let_def split: prod.splits)

lemma stuff_upper_shape [simp]: "shape (words (stuff_upper b lim f)) = shape (words f)"
  by (induction b lim f rule: stuff_upper.induct) (subst stuff_upper.simps, simp add: stuff_one_def)

lemma fill_down_shape: "shape (snd (fill_down g lim k x)) = shape (snd x)"
  by (induction g lim k x rule: fill_down.induct) (auto split: option.splits)

lemma stuff_lower_shape: "shape (stuff_lower fixed lim k x) = shape (snd x)"
  by (induction fixed lim k x rule: stuff_lower.induct) (subst stuff_lower.simps, simp split: option.splits)

lemma auto_rate_shape: "shape (fst (auto_rate_words c r sta n)) = (55, AUTO_RATE_IND)"
proof -
  have z: "shape (ws[0 := v]) = shape ws" for ws v by (simp add: shape_def)
  have "shape (auto_rate_head c n @ replicate 40 0) = (55, AUTO_RATE_IND)" by (simp add: shape_def auto_rate_head_def)
  then show ?thesis
    by (simp add: auto_rate_words_def Let_def split_def z shape_update stuff_lower_shape he_half_def ht_half_def fill_down_shape upper_half_def ht_head_def)
qed

section \<open>What a peer's coming and going sends\<close>

text \<open>From \<open>x\<close> to \<open>y\<close> the items \<open>hs\<close> have been put before the queue and \<open>ts\<close> behind it.\<close>

definition tells :: "queue_item list \<Rightarrow> queue_item list \<Rightarrow> 'z peer_state \<Rightarrow> 'z peer_state \<Rightarrow> bool" where
  "tells hs ts x y \<longleftrightarrow> queued (fst y) = hs @ queued (fst x) @ ts \<and> all_alloc (fst y) = all_alloc (fst x) \<and>
     mgmt_common.min_rate (fst y) = mgmt_common.min_rate (fst x) \<and> iface_down (fst y) = iface_down (fst x) \<and>
     kz_ok (snd y) = kz_ok (snd x) \<and> rx_vifs (snd y) = rx_vifs (snd x) \<and> sc_nvifs (snd y) = sc_nvifs (snd x)"

text \<open>All allocations succeed, and the interfaces are there.\<close>

definition fine :: "'z peer_state \<Rightarrow> bool" where
  "fine x \<longleftrightarrow> linked x \<and> fst (kz_ok (snd x)) \<and> all_alloc (fst x)"

lemma tells_trans: "tells hs ts x y \<Longrightarrow> tells hs' ts' y z \<Longrightarrow> tells (hs' @ hs) (ts @ ts') x z"
  by (simp add: tells_def)

lemma tells_fine: "tells hs ts x y \<Longrightarrow> fine y = fine x"
  by (simp add: tells_def fine_def linked_def last_vif_def)

lemma tells_same: "fst y = fst x \<Longrightarrow> kz_ok (snd y) = kz_ok (snd x) \<Longrightarrow> rx_vifs (snd y) = rx_vifs (snd x) \<Longrightarrow> sc_nvifs (snd y) = sc_nvifs (snd x) \<Longrightarrow> tells [] [] x y"
  by (simp add: tells_def)

lemma steps_tells:
  assumes "f x = Some y" "tells hs ts x y" "\<exists>z. steps fs y = Some z \<and> tells hs' ts' y z \<and> P z"
  shows "\<exists>z. steps (f # fs) x = Some z \<and> tells (hs' @ hs) (ts @ ts') x z \<and> P z"
  using assms tells_trans by fastforce

lemma tells_pushed:
  "d ! 2 \<noteq> ucast PEER_NOTIFY \<Longrightarrow> kz_ok t = kz_ok (snd x) \<Longrightarrow> rx_vifs t = rx_vifs (snd x) \<Longrightarrow> sc_nvifs t = sc_nvifs (snd x) \<Longrightarrow>
    tells [] [Command (d ! 2)] x (pushed d (fst x), t)"
  by (simp add: tells_def queued_command)

lemma radio_caps_tells:
  assumes "all_alloc (fst x)"
  shows "\<exists>y. issue rsi_load_radio_caps x = Some y \<and> tells [] [Command 2] x y \<and> snd y = snd x"
proof -
  obtain d where d: "rsi_load_radio_caps (fst x) = (0, pushed d (fst x))" "d ! 2 = ucast RADIO_CAPABILITIES"
    using command_pushed(1) [OF assms] by blast
  then have "tells [] [Command (d ! 2)] x (pushed d (fst x), snd x)" by (intro tells_pushed) simp_all
  then show ?thesis using d by (simp add: issue_def)
qed

lemma unblock_tells:
  assumes "all_alloc (fst x)"
  shows "\<exists>y. unblock x = Some y \<and> tells [] [Command 9] x y \<and> snd y = (snd x)\<lparr>sec_qs_blocked := False\<rparr>"
proof -
  obtain d where d: "rsi_send_block_unblock_frame False (fst x) = (0, pushed d (fst x))" "d ! 2 = ucast BLOCK_HW_QUEUE"
    using command_pushed(2) [OF assms] by blast
  then have "tells [] [Command (d ! 2)] x (pushed d (fst x), (snd x)\<lparr>sec_qs_blocked := False\<rparr>)" by (intro tells_pushed) simp_all
  then show ?thesis using d by (simp add: unblock_def block_data_def)
qed

text \<open>The rate table is asked for when no lowest rate is known.\<close>

definition rate_items :: "mgmt_common \<Rightarrow> queue_item list" where
  "rate_items c = (if mgmt_common.min_rate c = 0xffff then [Command (ucast AUTO_RATE_IND)] else [])"

lemma request_tells:
  assumes "fine x"
  shows "\<exists>y. map_option snd (rsi_send_auto_rate_request caps n (fst x) (snd x)) = Some y \<and> tells [] [Command (ucast AUTO_RATE_IND)] x y \<and>
    sec_qs_blocked (snd y) = sec_qs_blocked (snd x)"
proof -
  obtain c1 where c1: "alloc_skb (fst x) = (True, c1)" "\<And>d. queue_internal d c1 = (0, pushed d (fst x))"
    using assms alloc_all [of "fst x"] by (auto simp: fine_def)
  define r1 where "r1 = update_tables c1 (snd x)"
  define ws where "ws = fst (auto_rate_words c1 r1 caps n)"
  define t where "t = r1\<lparr>min_supported_rate := snd (auto_rate_words c1 r1 caps n)\<rparr>"
  have w: "put_words ws ! 2 = ucast AUTO_RATE_IND"
    using put_words_nth_type [of ws "[]"] auto_rate_shape [of c1 r1 caps n] by (simp add: shape_def ws_def)
  have k: "rx_vifs (snd x) ! 0 \<noteq> None" "kz_ok (snd x) = (True, True)" using assms by (simp_all add: fine_def linked_def prod_eq_iff)
  have r: "map_option snd (rsi_send_auto_rate_request caps n (fst x) (snd x)) = Some (pushed (put_words ws) (fst x), t)"
    unfolding rsi_send_auto_rate_request_def t_def ws_def r1_def using k by (simp add: c1 Let_def split_def)
  have t: "kz_ok t = kz_ok (snd x)" "rx_vifs t = rx_vifs (snd x)" "sc_nvifs t = sc_nvifs (snd x)" "sec_qs_blocked t = sec_qs_blocked (snd x)"
    by (simp_all add: t_def r1_def update_tables_def)
  show ?thesis unfolding r using tells_pushed [of "put_words ws" t x] t w by simp
qed

lemma auto_rate_tells:
  assumes "fine x" "sta \<noteq> None \<or> st_sta (peers (snd x) ! AP_PEER) \<noteq> None"
  shows "\<exists>y. auto_rate sta n x = Some y \<and> tells [] (rate_items (fst x)) x y \<and> sec_qs_blocked (snd y) = sec_qs_blocked (snd x)"
proof -
  obtain p where p: "(if sta = None then st_sta (peers (snd x) ! AP_PEER) else sta) = Some p" using assms(2) by (cases sta) auto
  show ?thesis
  proof (cases "mgmt_common.min_rate (fst x) = 0xffff")
    case True
    then have "auto_rate sta n x = map_option snd (rsi_send_auto_rate_request (sta_caps.truncate p) n (fst x) (snd x))"
      using p by (auto simp: auto_rate_def Let_def split_def)
    then show ?thesis using True request_tells [OF assms(1)] by (simp add: rate_items_def)
  next
    case False
    then show ?thesis by (auto simp: auto_rate_def rate_items_def tells_def Let_def split_def)
  qed
qed

text \<open>A station with quality of service sends its radio capabilities with every notification.\<close>

definition caps_items :: "rx_vif option \<Rightarrow> bool \<Rightarrow> queue_item list" where
  "caps_items v qos = (if is_sta v \<and> qos then [Command 2] else [])"

lemma notify_tells:
  assumes "fine x" "length bssid = 6"
  shows "\<exists>y. notify ap b bssid qos aid n x = Some y \<and> tells [Notice bssid b] (caps_items (last_vif (snd x)) qos) x y \<and>
    peers (snd y) = peers (snd x) \<and> sec_qs_blocked (snd y) = sec_qs_blocked (snd x)"
proof -
  obtain v where v: "last_vif (snd x) = Some v" using assms(1) by (auto simp: fine_def linked_def)
  obtain c1 where c1: "alloc_skb (fst x) = (True, c1)" "\<And>d. queue_internal d c1 = (0, pushed d (fst x))"
    using assms(1) alloc_all [of "fst x"] by (auto simp: fine_def)
  let ?s1 = "(snd x)\<lparr>peer_notify_state := b, notify_pending := True, sta_bssid := bssid\<rparr>"
  let ?d = "peer_frame ap b bssid qos aid n (rx_vif.vap_id v) c1 (snd x)"
  let ?c = "pushed ?d (fst x)"
  have f: "view ?d = Notice bssid b" "?d ! 2 = ucast PEER_NOTIFY" using peer_frame_view [OF assms(2)] by simp_all
  have t: "tells [Notice bssid b] [] x (?c, ?s1)" using f by (simp add: tells_def pushed_def [of ?d] all_alloc_def)
  have n: "rsi_send_sta_notify_frame ap b bssid qos aid n (fst x) (snd x) =
      (if vif_type v = NL80211_IFTYPE_STATION \<and> qos then Some (fst (rsi_load_radio_caps ?c), snd (rsi_load_radio_caps ?c), rsi_set_contention_vals ?c ?s1)
       else Some (0, ?c, ?s1))"
    using v by (simp add: rsi_send_sta_notify_frame_def c1 Let_def split_def)
  show ?thesis
  proof (cases "vif_type v = NL80211_IFTYPE_STATION \<and> qos")
    case True
    have c: "all_alloc ?c" using assms(1) by (simp add: fine_def)
    obtain e where e: "rsi_load_radio_caps ?c = (0, pushed e ?c)" "e ! 2 = ucast RADIO_CAPABILITIES" using command_pushed(1) [OF c] by blast
    then have "tells [] [Command (e ! 2)] (?c, ?s1) (pushed e ?c, rsi_set_contention_vals ?c ?s1)"
      using tells_pushed [of e "rsi_set_contention_vals ?c ?s1" "(?c, ?s1)"] by (simp add: rsi_set_contention_vals_def Let_def)
    then have "tells [Notice bssid b] [Command 2] x (pushed e ?c, rsi_set_contention_vals ?c ?s1)" using tells_trans [OF t] e(2) by fastforce
    then show ?thesis using True v n e(1)
      by (intro exI [of _ "(pushed e ?c, rsi_set_contention_vals ?c ?s1)"]) (simp add: notify_def caps_items_def is_sta_def rsi_set_contention_vals_def Let_def)
  next
    case False
    then show ?thesis using v n t by (auto simp: notify_def caps_items_def is_sta_def)
  qed
qed

lemma ap_connected_tells:
  assumes "fine x" "length bssid = 6"
  shows "\<exists>y ts. bss_connected True bssid qos aid (Some p) n cap x = Some y \<and> tells [Notice bssid True] ts x y \<and> set ts \<subseteq> range Command"
proof -
  obtain y where y: "notify True True bssid qos aid n x = Some y" "tells [Notice bssid True] (caps_items (last_vif (snd x)) qos) x y"
    using notify_tells [OF assms] by blast
  have fy: "fine y" using tells_fine [OF y(2)] assms(1) by simp
  obtain z where z: "auto_rate (Some p) n y = Some z" "tells [] (rate_items (fst y)) y z"
    using auto_rate_tells [OF fy, of "Some p" n] by blast
  have fz: "all_alloc (fst z)" using tells_fine [OF z(2)] fy by (simp add: fine_def)
  obtain w us where w: "(if sec_qs_blocked (snd z) then unblock z else Some z) = Some w" "tells [] us z w" "set us \<subseteq> {Command 9}"
    using unblock_tells [OF fz] by (cases "sec_qs_blocked (snd z)") (auto simp: tells_def)
  have "tells [Notice bssid True] (caps_items (last_vif (snd x)) qos @ rate_items (fst y) @ us) x w"
    using tells_trans [OF y(2) tells_trans [OF z(2) w(2)]] by simp
  moreover have "set (caps_items (last_vif (snd x)) qos @ rate_items (fst y) @ us) \<subseteq> range Command"
    using w(3) by (auto simp: caps_items_def rate_items_def)
  ultimately show ?thesis using y(1) z(1) w(1) unfolding bss_connected_def by (auto intro!: exI)
qed

lemma ap_disconnected_tells:
  assumes "fine x" "length bssid = 6"
  shows "\<exists>y ts. bss_disconnected True bssid qos aid n x = Some y \<and> tells [Notice bssid False] ts x y \<and> set ts \<subseteq> range Command"
proof -
  obtain x1 where x1: "stop_traffic_timer x = Some x1" "tells [] [] x x1"
    by (simp add: stop_traffic_timer_def tells_def)
  note t = x1(2)
  then have "fine x1" using tells_fine [OF t] assms(1) by simp
  then obtain y where y: "notify True False bssid qos aid n x1 = Some y" "tells [Notice bssid False] (caps_items (last_vif (snd x1)) qos) x1 y"
    using notify_tells [of x1 bssid] assms(2) by blast
  then show ?thesis using tells_trans [OF t y(2)] unfolding bss_disconnected_def
    by (auto simp: x1(1) caps_items_def intro!: exI)
qed

lemma wep_tells:
  assumes "fine x"
  shows "\<exists>y ts. wep_key i x = Some y \<and> tells [] ts x y \<and> set ts \<subseteq> range Command"
proof (cases "ap_key (snd x)")
  case None
  then show ?thesis by (auto simp: wep_key_def tells_def)
next
  case (Some key)
  obtain v where v: "last_vif (snd x) = Some v" using assms by (auto simp: fine_def linked_def)
  obtain c1 where c1: "alloc_skb (fst x) = (True, c1)" "\<And>d. queue_internal d c1 = (0, pushed d (fst x))"
    using assms alloc_all [of "fst x"] by (auto simp: fine_def)
  have t: "tells [] [] x (c1\<lparr>leaks := l\<rparr>, snd x)" for l
    using c1(1) by (auto simp: alloc_skb_def tells_def all_alloc_def)
  have o: "queue_internal d (c1\<lparr>overrun := True\<rparr>) = (0, (pushed d (fst x))\<lparr>overrun := True\<rparr>)" for d
    using c1(1) by (auto simp: alloc_skb_def queue_internal_def pushed_def Let_def)
  have k: "(put_words (a # SET_KEY_REQ # ws) @ rest) ! 2 = ucast SET_KEY_REQ" for a ws rest by (simp add: put_words_nth_type)
  have p: "tells [] [Command (ucast SET_KEY_REQ)] x (pushed (put_words (a # SET_KEY_REQ # ws) @ rest) (fst x), snd x)"
    "tells [] [Command (ucast SET_KEY_REQ)] x ((pushed (put_words (a # SET_KEY_REQ # ws) @ rest) (fst x))\<lparr>overrun := True\<rparr>, snd x)" for a ws rest
    using tells_pushed [of "put_words (a # SET_KEY_REQ # ws) @ rest" "snd x" x] k [of a ws rest] by (simp_all add: tells_def all_alloc_def)
  obtain c2 ts where "snd (rsi_load_key (ap_vif v) (rx_vif.vap_id v) (Some (key_data key)) (ucast (keylen key)) RSI_PAIRWISE_KEY (keyidx key) (cipher key) (int i) (fst x)) = c2"
      "tells [] ts x (c2, snd x)" "set ts \<subseteq> range Command"
  proof (cases "ap_vif v \<and> int (max_stations c1) \<le> int i")
    case True
    then show ?thesis using t [of "Suc (leaks c1)"] that [of "c1\<lparr>leaks := Suc (leaks c1)\<rparr>" "[]"] by (simp add: rsi_load_key_def c1(1))
  next
    case False
    then show ?thesis using that [of _ "[Command (ucast SET_KEY_REQ)]"] p
      by (auto simp: rsi_load_key_def c1 o Let_def split: if_splits)
  qed
  moreover have "load_vif_key (snd x) key RSI_PAIRWISE_KEY (int i) (fst x) =
      Some (rsi_load_key (ap_vif v) (rx_vif.vap_id v) (Some (key_data key)) (ucast (keylen key)) RSI_PAIRWISE_KEY (keyidx key) (cipher key) (int i) (fst x))"
    using v by (simp add: load_vif_key_def last_vif_def)
  ultimately show ?thesis using Some by (cases "is_wep (cipher key)") (auto simp: wep_key_def tells_def)
qed

lemma new_station_tells:
  assumes "fine x" "length (peer_addr sta) = 6"
  shows "\<exists>y ts. new_station sta x = Some y \<and> tells [Notice (peer_addr sta) True] ts x y \<and> set ts \<subseteq> range Command"
proof -
  define i where "i = free_slot (max_stations (fst x)) (peers (snd x))"
  define x1 where "x1 = (fst x, set_peer i (\<lambda>p. p\<lparr>st_sta := Some sta, st_id := int i\<rparr>) (snd x))"
  have t: "tells [] [] x x1" by (rule tells_same) (simp_all add: x1_def)
  then have "fine x1" using tells_fine [OF t] assms(1) by simp
  then obtain y ts where y: "bss_connected True (peer_addr sta) (peer_wme sta) (peer_aid sta) (Some sta) (of_nat i) 0 x1 = Some y"
      "tells [Notice (peer_addr sta) True] ts x1 y" "set ts \<subseteq> range Command"
    using ap_connected_tells [of x1 "peer_addr sta"] assms(2) by blast
  then obtain z us where z: "wep_key i y = Some z" "tells [] us y z" "set us \<subseteq> range Command"
    using wep_tells [of y i] tells_fine [OF y(2)] \<open>fine x1\<close> by blast
  let ?w = "(fst z, (set_peer i reset_peer (snd z))\<lparr>num_stations := num_stations (snd z) + 1\<rparr>)"
  have "tells [] [] z ?w" by (rule tells_same) simp_all
  then have "tells [Notice (peer_addr sta) True] (ts @ us) x ?w"
    using tells_trans [OF t tells_trans [OF y(2) tells_trans [OF z(2)]]] by fastforce
  moreover have "new_station sta x = Some ?w" using y(1) z(1) by (simp add: new_station_def Let_def i_def x1_def)
  ultimately show ?thesis using y(3) z(3) by (intro exI [of _ ?w] exI [of _ "ts @ us"]) auto
qed

text \<open>The notifications on the queue, the next to be sent first.\<close>

definition notices :: "queue_item list \<Rightarrow> queue_item list" where
  "notices qs = filter (\<lambda>q. case q of Notice a b \<Rightarrow> True | Command t \<Rightarrow> False) qs"

lemma notices_simps [simp]:
  "notices (Notice a b # qs) = Notice a b # notices qs" "notices (qs @ rs) = notices qs @ notices rs" "set ts \<subseteq> range Command \<Longrightarrow> notices ts = []"
  by (auto simp: notices_def filter_empty_conv)

lemma tells_notices: "tells hs ts x y \<Longrightarrow> set ts \<subseteq> range Command \<Longrightarrow> notices (queued (fst y)) = notices hs @ notices (queued (fst x))"
  by (simp add: tells_def)

lemma members_slot:
  assumes "table_inv x"
  shows "slot_of (max_stations (fst x)) a (peers (snd x)) = None \<longleftrightarrow> a \<notin> members x"
proof
  show "slot_of (max_stations (fst x)) a (peers (snd x)) = None \<Longrightarrow> a \<notin> members x"
    unfolding members_def by (rule slot_of_None) (use assms in \<open>auto simp: table_inv_def Let_def\<close>)
next
  assume "a \<notin> members x"
  then show "slot_of (max_stations (fst x)) a (peers (snd x)) = None"
    using assms by (auto simp: members_def occupants_in slot_of_def find_None_iff table_inv_def Let_def)
qed

lemma ap_remove_tells:
  assumes "fine x" "length (peer_addr sta) = 6" "slot_of (max_stations (fst x)) (peer_addr sta) (peers (snd x)) \<noteq> None"
  shows "\<exists>y ts. ap_remove sta x = Some y \<and> tells [Notice (peer_addr sta) False] ts x y \<and> set ts \<subseteq> range Command"
proof -
  obtain i where i: "slot_of (max_stations (fst x)) (peer_addr sta) (peers (snd x)) = Some i" using assms(3) by blast
  obtain y ts where y: "bss_disconnected True (peer_addr sta) (peer_wme sta) (peer_aid sta) (of_nat i) x = Some y"
      "tells [Notice (peer_addr sta) False] ts x y" "set ts \<subseteq> range Command"
    using ap_disconnected_tells [OF assms(1,2)] by blast
  let ?z = "(fst y, (set_peer i (\<lambda>p. p\<lparr>st_sta := None, st_id := - 1, st_seq_no := replicate 4 0\<rparr>) (snd y))
             \<lparr>num_stations := (if num_stations (snd y) > 0 then num_stations (snd y) - 1 else num_stations (snd y))\<rparr>)"
  have "tells [] [] y ?z" by (rule tells_same) simp_all
  then have "tells [Notice (peer_addr sta) False] ts x ?z" using tells_trans [OF y(2)] by fastforce
  moreover have "ap_remove sta x = Some ?z" using i y(1) by (simp add: ap_remove_def)
  ultimately show ?thesis using y(3) by blast
qed

text \<open>
  C33. A notification of a peer goes before everything on the queue. With memory and a free slot, a station of an access point that leaves before its coming
  has been sent is therefore reported in the wrong order: the device removes it first and then adds it, and keeps a station
  the driver's table does not have.
\<close>
theorem peer_notify_reversed:
  assumes "ty \<in> {NL80211_IFTYPE_AP, NL80211_IFTYPE_P2P_GO}" "fine x" "table_inv x" "num_stations (snd x) < int (max_stations (fst x))"
    "peer_addr sta \<notin> members x" "length (peer_addr sta) = 6"
  shows "\<exists>y. run_stations ty vif [Joins sta, Leaves sta] x = Some y \<and> members y = members x \<and>
    notices (queued (fst y)) = Notice (peer_addr sta) False # Notice (peer_addr sta) True # notices (queued (fst x))"
proof -
  have l: "linked x" using assms(2) by (simp add: fine_def)
  have ty: "ty \<noteq> NL80211_IFTYPE_STATION" "ty \<noteq> NL80211_IFTYPE_P2P_CLIENT" "ty \<in> {NL80211_IFTYPE_AP, NL80211_IFTYPE_P2P_GO}" using assms(1) by auto
  have "slot_of (max_stations (fst x)) (peer_addr sta) (peers (snd x)) = None" using members_slot [OF assms(3)] assms(5) by blast
  then obtain y ts where y: "ap_add sta x = Some y" "tells [Notice (peer_addr sta) True] ts x y" "set ts \<subseteq> range Command"
    using new_station_tells [OF assms(2,6)] by (auto simp: ap_add_def)
  have wy: "well x (insert (peer_addr sta) (members x)) y" using ap_add_well [OF l assms(3,4), of sta] y(1) by auto
  let ?y = "(fst y, if cap_sgi_20 sta \<or> cap_sgi_40 sta then (snd y)\<lparr>vif_sgi := True\<rparr> else snd y)"
  have w: "well x (insert (peer_addr sta) (members x)) ?y" using well_sgi [OF wy] .
  have t: "tells [Notice (peer_addr sta) True] ts x ?y" using y(2) by (simp add: tells_def)
  have a: "rsi_mac80211_sta_add ty sta (fst x) (snd x) = Some (0, ?y)" using ty y(1) assms(4) by (simp add: rsi_mac80211_sta_add_def Let_def)
  have fy: "fine ?y" using tells_fine [OF t] assms(2) by simp
  have "slot_of (max_stations (fst ?y)) (peer_addr sta) (peers (snd ?y)) \<noteq> None"
    using members_slot [of ?y "peer_addr sta"] w by (simp add: well_def)
  then obtain z us where z: "ap_remove sta ?y = Some z" "tells [Notice (peer_addr sta) False] us ?y z" "set us \<subseteq> range Command"
    using ap_remove_tells [OF fy assms(6)] by blast
  have "well ?y (members ?y - {peer_addr sta}) z"
    using ap_remove_well [of ?y sta] w l z(1) by (auto simp: well_def)
  then have "members z = members x" using w assms(5) by (auto simp: well_def)
  moreover have "run_stations ty vif [Joins sta, Leaves sta] x = Some z" using a z(1) ty by (simp add: rsi_mac80211_sta_remove_def)
  moreover have "notices (queued (fst z)) = Notice (peer_addr sta) False # Notice (peer_addr sta) True # notices (queued (fst x))"
    using tells_notices [OF z(2,3)] tells_notices [OF t y(3)] by simp
  ultimately show ?thesis by blast
qed

section \<open>Aggregation\<close>

text \<open>The start sequence and the traffic identifier of the request that a session is ready.\<close>

definition addba_done :: "u8 list \<Rightarrow> u16 \<times> u16" where
  "addba_done d = (get_words d 4, get_words d 7 AND 0xF)"

text \<open>
  The start sequence is kept by interface, not by traffic identifier: when a second session is asked for
  before the first is ready, the device is given the second session's start sequence for the first.
\<close>
theorem addba_start_shared:
  assumes "ty \<in> {NL80211_IFTYPE_STATION, NL80211_IFTYPE_P2P_CLIENT}" "all_alloc c" "vif < length (vif_seq_start s)" "unat tid < 16"
  shows "\<exists>c1 s1 c2 s2 c3 s3 d. rsi_mac80211_ampdu_action AMPDU_TX_START ty vif addr tid ssn n c s = (0, c1, s1) \<and>
    rsi_mac80211_ampdu_action AMPDU_TX_START ty vif addr tid2 ssn2 n c1 s1 = (0, c2, s2) \<and>
    rsi_mac80211_ampdu_action AMPDU_TX_OPERATIONAL ty vif addr tid 0 n c2 s2 = (0, c3, s3) \<and>
    mgmt_queue c3 = mgmt_queue c @ [d] \<and> cmd_type d = ucast AMPDU_IND \<and> addba_done d = (ssn2, tid)"
proof -
  define s1 where "s1 = s\<lparr>vif_seq_start := (vif_seq_start s)[vif := ssn], ba_started := ba_started s @ [(addr, tid)]\<rparr>"
  define s2 where "s2 = s1\<lparr>vif_seq_start := (vif_seq_start s)[vif := ssn2], ba_started := ba_started s1 @ [(addr, tid2)]\<rparr>"
  let ?w4 = "if ax_enabled (mgmt_common.ax_params c) then ucast n else 8 :: u16"
  let ?ws = "[len_queue 0 RSI_WIFI_MGMT_Q, AMPDU_IND, 0, 0, ssn2, ?w4, 0, tid OR push_bit 4 1]"
  let ?d = "put_words ?ws"
  have "rsi_mac80211_ampdu_action AMPDU_TX_START ty vif addr tid ssn n c s = (0, c, s1)" "rsi_mac80211_ampdu_action AMPDU_TX_START ty vif addr tid2 ssn2 n c s1 = (0, c, s2)"
    using assms(1) by (auto simp: rsi_mac80211_ampdu_action_def s1_def s2_def Let_def)
  moreover have "rsi_mac80211_ampdu_action AMPDU_TX_OPERATIONAL ty vif addr tid 0 n c s2 = (0, pushed ?d c, s2)"
    using assms(1,3) send_pushed [OF assms(2), of ?d]
    by (auto simp: rsi_mac80211_ampdu_action_def rsi_send_aggr_params_frame_def aggr_frame_def desc_frame_def s2_def id_def Let_def)
  moreover have m: "(0xF :: u16) = mask 4" by (simp add: mask_eq_exp_minus_1)
  have b: "bit (16 :: u16) k \<longleftrightarrow> k = 4" for k using bit_BIT [of 4 k, where 'a = 16] by (simp add: BIT_def)
  have g: "n < 4 \<Longrightarrow> \<not> bit (16 :: u16) n" for n using b [of n] by auto
  have a: "(tid OR push_bit 4 1) AND 0xF = tid"
    unfolding m using low_bits_div [of tid 4] assms(4) by (intro bit_word_eqI) (auto simp: bit_simps dest: g)
  have ty: "?d ! 2 = ucast AMPDU_IND" using put_words_nth_type [of ?ws "[]"] by simp
  then have "mgmt_queue (pushed ?d c) = mgmt_queue c @ [internal_mgmt_bytes ?d]" by (simp add: pushed_def)
  moreover have "cmd_type (internal_mgmt_bytes ?d) = ucast AMPDU_IND" using ty by (simp add: cmd_type_def)
  moreover have "addba_done (internal_mgmt_bytes ?d) = (ssn2, tid)"
    using get_put_words [of 4 ?ws "[]"] get_put_words [of 7 ?ws "[]"] a by (simp add: addba_done_def)
  ultimately show ?thesis by blast
qed

section \<open>Witnesses\<close>

definition example_peer :: "u8 \<Rightarrow> ieee_sta" where
  "example_peer n = sta_caps.extend example_sta
     \<lparr>peer_addr = [2, 0, 0, 0, 1, n], peer_wme = True, peer_aid = 1, ampdu_density = 4, ampdu_factor = 3, he_bsr = False\<rparr>"

definition example_peers :: peer_common where
  "example_peers = (scan_common.extend example_scanning
     (peer_common.fields (replicate 33 \<lparr>st_sta = None, st_id = - 1, st_seq_no = replicate 4 0, st_seq_start = replicate 4 0, st_aggr = replicate 16 False\<rparr>)
        0 False False (replicate 6 0) 0 1 (replicate 6 0) False (replicate 4 0) (replicate 4 0) (replicate 4 0) (replicate 3 0) False [] [] []))
     \<lparr>rx_vifs := [Some (example_vif\<lparr>vif_type := NL80211_IFTYPE_AP\<rparr>), None, None]\<rparr>"

lemma example_peer_addr [simp]: "peer_addr (example_peer n) = [2, 0, 0, 0, 1, n]"
  by (simp add: example_peer_def sta_caps.defs)

lemma example_peers_fields:
  "peers example_peers = replicate 33 \<lparr>st_sta = None, st_id = - 1, st_seq_no = replicate 4 0, st_seq_start = replicate 4 0, st_aggr = replicate 16 False\<rparr>"
  "num_stations example_peers = 0" "sc_nvifs example_peers = 1" "kz_ok example_peers = (True, True)" "vif_seq_start example_peers = replicate 3 0"
  "rx_vifs example_peers = [Some (example_vif\<lparr>vif_type := NL80211_IFTYPE_AP\<rparr>), None, None]"
  by (simp_all add: example_peers_def scan_common.defs chan_common.defs peer_common.defs example_scanning_def example_scan_def example_chan_def
      rate_common.defs example_rates_def)

lemma occupants_replicate [simp]: "st_sta p = None \<Longrightarrow> occupants (replicate n p) = []"
  by (induction n) simp_all

lemma example_peers_ok: "fine (example_mgmt 1, example_peers)" "table_inv (example_mgmt 1, example_peers)" "members (example_mgmt 1, example_peers) = {}"
  "max_stations (example_mgmt 1) = 32"
  by (simp_all add: fine_def linked_def last_vif_def example_peers_fields table_inv_def members_def example_mgmt_def all_alloc_def)


lemma peer_notify_reversed_witness:
  "\<exists>y. run_stations NL80211_IFTYPE_AP 0 [Joins (example_peer 1), Leaves (example_peer 1)] (example_mgmt 1, example_peers) = Some y \<and>
    notices (queued (fst y)) = [Notice [2, 0, 0, 0, 1, 1] False, Notice [2, 0, 0, 0, 1, 1] True]"
proof -
  have "notices (queued (example_mgmt 1)) = []" by (simp add: notices_def example_mgmt_def)
  then show ?thesis
    using peer_notify_reversed [of NL80211_IFTYPE_AP "(example_mgmt 1, example_peers)" "example_peer 1" 0] example_peers_ok
    by (auto simp: example_peers_fields simp del: run_stations.simps)
qed

lemma addba_start_shared_witness:
  "\<exists>c1 s1 c2 s2 c3 s3 d. rsi_mac80211_ampdu_action AMPDU_TX_START NL80211_IFTYPE_STATION 0 [2, 0, 0, 0, 0, 1] 0 100 64 (example_mgmt 1) example_peers = (0, c1, s1) \<and>
    rsi_mac80211_ampdu_action AMPDU_TX_START NL80211_IFTYPE_STATION 0 [2, 0, 0, 0, 0, 1] 5 700 64 c1 s1 = (0, c2, s2) \<and>
    rsi_mac80211_ampdu_action AMPDU_TX_OPERATIONAL NL80211_IFTYPE_STATION 0 [2, 0, 0, 0, 0, 1] 0 0 64 c2 s2 = (0, c3, s3) \<and>
    mgmt_queue c3 = mgmt_queue (example_mgmt 1) @ [d] \<and> cmd_type d = 0x12 \<and> addba_done d = (700, 0)"
  using addba_start_shared [of NL80211_IFTYPE_STATION "example_mgmt 1" 0 example_peers 0 "[2, 0, 0, 0, 0, 1]" 100 64 5 700]
    example_peers_ok by (simp add: example_peers_fields fine_def)

end
