(* ===== verification/Vifs.thy ===== *)
theory Vifs
  imports Stations
begin

text \<open>
  Interfaces: the callbacks of rsi/rsi_91x_mac80211.c with which mac80211 brings the device up and down, adds, changes and
  removes interfaces (\<open>rsi_mac80211_add_interface\<close> and its kin), reports changes of a connection
  (\<open>rsi_mac80211_bss_info_changed\<close>) and passes frames on (\<open>rsi_mac80211_tx\<close>).

  An interface is known by its place in the table \<open>rx_vifs\<close>. A result None stands for a NULL pointer that is followed.
\<close>

section \<open>State\<close>

text \<open>What mac80211 says of a connection: \<open>struct ieee80211_bss_conf\<close> and \<open>vif->cfg\<close>.\<close>

record bss_conf =
  basic_rates :: u32
  he_support :: bool
  er_su_disabled :: bool
  he_bss_color :: u8
  he_spatial_reuse :: bool
  he_obss_min :: u8
  he_obss_max :: u8
  bssid_indicator :: u8
  frame_time_rts_th :: u16
  cfg_aid :: u16
  cqm_rssi_thold :: int
  cqm_rssi_hyst :: u32
  beacon_int :: u16
  enable_beacon :: bool
  use_cts_prot :: bool

text \<open>The flags of \<open>changed\<close> the driver looks at.\<close>

datatype bss_change =
    CHANGED_ASSOC | CHANGED_ERP_CTS_PROT | CHANGED_BASIC_RATES | CHANGED_BEACON_INT | CHANGED_BSSID | CHANGED_BEACON_ENABLED
  | CHANGED_CQM | CHANGED_QOS | CHANGED_HE_BSS_COLOR

text \<open>\<open>uapsd_flag\<close> and \<open>encap_flag\<close> are the flags set for the interface added last.\<close>

record vif_common = peer_common +
  last_vap_id :: u8
  bc_mc_seqno :: u16
  minimum_basic_rate :: u16
  enabled_uapsd :: bool
  enable_encap_offload :: bool
  uapsd_flag :: bool
  encap_flag :: bool
  rfkill_polling :: bool
  vif_cqm :: cqm_info

type_synonym 'z vif_state = "mgmt_common \<times> 'z vif_common_scheme"

abbreviation (input) RSI_MAX_VIFS :: nat where "RSI_MAX_VIFS \<equiv> 3"
abbreviation (input) AP_OPMODE :: nat where "AP_OPMODE \<equiv> 0"
abbreviation (input) STA_OPMODE :: nat where "STA_OPMODE \<equiv> 1"
abbreviation (input) P2P_GO_OPMODE :: nat where "P2P_GO_OPMODE \<equiv> 2"
abbreviation (input) P2P_CLIENT_OPMODE :: nat where "P2P_CLIENT_OPMODE \<equiv> 3"
abbreviation (input) VAP_ADD :: u8 where "VAP_ADD \<equiv> 1"
abbreviation (input) VAP_DELETE :: u8 where "VAP_DELETE \<equiv> 2"
abbreviation (input) VAP_UPDATE :: u8 where "VAP_UPDATE \<equiv> 3"
abbreviation (input) ALLOW_DATA_ASSOC_PEER :: u16 where "ALLOW_DATA_ASSOC_PEER \<equiv> BIT 1"
abbreviation (input) ALLOW_MGMT_ASSOC_PEER :: u16 where "ALLOW_MGMT_ASSOC_PEER \<equiv> BIT 2"
abbreviation (input) ALLOW_CTRL_ASSOC_PEER :: u16 where "ALLOW_CTRL_ASSOC_PEER \<equiv> BIT 3"
abbreviation (input) DISALLOW_BEACONS :: u16 where "DISALLOW_BEACONS \<equiv> BIT 4"

text \<open>A step that changes only the driver's own state.\<close>

definition silent :: "('s \<Rightarrow> 's) \<Rightarrow> mgmt_common \<times> 's \<Rightarrow> (mgmt_common \<times> 's) option" where
  [rsi_defs]: "silent f x = Some (fst x, f (snd x))"

definition sending :: "('z vif_state \<Rightarrow> mgmt_common \<Rightarrow> int \<times> mgmt_common) \<Rightarrow> 'z vif_state \<Rightarrow> 'z vif_state option" where
  [rsi_defs]: "sending f x = Some (snd (f x (fst x)), snd x)"

text \<open>
  The functions of power save read the connection of the interface added last. Without interfaces they read what
  lies before the table; \<open>ps_assoc\<close> is then left as it is.
\<close>

definition with_power :: "(ps_adapter \<Rightarrow> ps_adapter) \<Rightarrow> 'z chan_common_scheme \<Rightarrow> 'z chan_common_scheme" where
  "with_power f s = s\<lparr>ps := f (if sc_nvifs s = 0 then ps s else (ps s)\<lparr>ps_assoc := map_option vif_assoc (last_vif s)\<rparr>)\<rparr>"

section \<open>Up and down\<close>

definition rsi_mac80211_start :: "mgmt_common \<Rightarrow> 'z vif_common_scheme \<Rightarrow> 'z vif_state" where
  "rsi_mac80211_start c s =
     (let c1 = c\<lparr>iface_down := False\<rparr>
      in (if driver_mode c \<noteq> SNIFFER_MODE then snd (rsi_send_rx_filter_frame 0 c1) else c1, s\<lparr>scanning := False, rfkill_polling := True\<rparr>))"

text \<open>The scan that is waiting for the worker is cancelled; the device may sleep while it is down.\<close>

definition rsi_mac80211_stop :: "mgmt_common \<Rightarrow> 'z vif_common_scheme \<Rightarrow> 'z vif_state" where
  "rsi_mac80211_stop c s =
     (let c1 = c\<lparr>iface_down := True\<rparr>;
          c2 = (if driver_mode c \<noteq> SNIFFER_MODE \<and> fsm_state c = FSM_MAC_INIT_DONE then snd (rsi_send_rx_filter_frame 0xffff c1) else c1);
          s1 = s\<lparr>scan_queued := False, scanning := False, rfkill_polling := False\<rparr>
      in (c2, if default_deep_sleep s \<and> \<not> rx_stats_inprog s then with_power rsi_enable_ps s1 else s1))"

section \<open>Adding, changing and removing interfaces\<close>

definition intf_mode :: "iftype \<Rightarrow> nat option" where
  "intf_mode ty =
     (case ty of
        NL80211_IFTYPE_STATION \<Rightarrow> Some STA_OPMODE
      | NL80211_IFTYPE_AP \<Rightarrow> Some AP_OPMODE
      | NL80211_IFTYPE_P2P_DEVICE \<Rightarrow> Some STA_OPMODE
      | NL80211_IFTYPE_P2P_GO \<Rightarrow> Some P2P_GO_OPMODE
      | NL80211_IFTYPE_P2P_CLIENT \<Rightarrow> Some P2P_CLIENT_OPMODE
      | NL80211_IFTYPE_MONITOR \<Rightarrow> Some STA_OPMODE
      | NL80211_IFTYPE_OTHER \<Rightarrow> None)"

definition p2p_kind :: "iftype \<Rightarrow> bool" where
  [rsi_defs]: "p2p_kind ty \<longleftrightarrow> ty \<in> {NL80211_IFTYPE_P2P_DEVICE, NL80211_IFTYPE_P2P_GO, NL80211_IFTYPE_P2P_CLIENT}"

text \<open>Number and status of the interface at the device, and the \<open>last_vap_id\<close> left.\<close>

definition vap_of :: "bool \<Rightarrow> nat \<Rightarrow> u8 \<Rightarrow> u8 \<times> u8 \<times> u8" where
  "vap_of p2p mode prev =
     (if \<not> p2p then (0, VAP_ADD, 0)
      else if mode \<in> {AP_OPMODE, P2P_GO_OPMODE} then (prev + 1, VAP_ADD, prev)
      else (prev, VAP_UPDATE, prev))"

definition clear_peers :: "nat \<Rightarrow> 'z peer_common_scheme \<Rightarrow> 'z peer_common_scheme" where
  "clear_peers n s = put_peers (map (\<lambda>p. p\<lparr>st_sta := None\<rparr>) (take n (peers s)) @ drop n (peers s)) s"

text \<open>An access point starts without beacons of others, without stations and without a lowest rate.\<close>

definition start_ap :: "mgmt_common \<Rightarrow> 'z vif_common_scheme \<Rightarrow> 'z vif_state" where
  "start_ap c s = ((snd (rsi_send_rx_filter_frame DISALLOW_BEACONS c))\<lparr>min_rate := 0xffff\<rparr>, s\<lparr>bc_mc_seqno := 1\<rparr>)"

definition forget_pn :: "rx_vif \<Rightarrow> rx_vif" where
  "forget_pn v = v\<lparr>rx_bcmc_pn := replicate 6 0, rx_pn_valid := False, vif_key := None\<rparr>"

text \<open>\<open>rsi_mac80211_add_interface\<close> for a new interface \<open>v\<close> of address \<open>addr\<close>.\<close>

definition place :: "rx_vif \<Rightarrow> 'z vif_common_scheme \<Rightarrow> nat \<times> 'z vif_common_scheme" where
  "place v s =
     (let full = sc_nvifs s \<ge> RSI_MAX_VIFS; i = (if full then sc_nvifs s - 1 else sc_nvifs s)
      in (i, s\<lparr>rx_vifs := (rx_vifs s)[i := Some v], sc_nvifs := (if full then sc_nvifs s else sc_nvifs s + 1)\<rparr>))"

definition add_placed :: "rx_vif \<Rightarrow> u8 list \<Rightarrow> nat \<Rightarrow> mgmt_common \<Rightarrow> 'z vif_common_scheme \<Rightarrow> int \<times> 'z vif_state" where
  "add_placed v addr mode c s =
     (let (i, s1) = place v s;
          (vap, status, prev) = vap_of (p2p_enabled c) mode (last_vap_id s);
          s2 = (set_vif i (\<lambda>v. v\<lparr>vap_id := vap\<rparr>) s1)\<lparr>last_vap_id := prev\<rparr>
      in if driver_mode c = SNIFFER_MODE then (0, c, s2)
         else let (ret, c1) = rsi_set_vap_capabilities mode addr vap status c
              in if ret \<noteq> 0 then (ret, c1, s2)
                 else let s3 = set_vif i forget_pn s2
                      in (0, if ap_kind v then let (c2, s4) = start_ap c1 s3 in (c2, clear_peers (max_stations c2) s4) else (c1, s3)))"

definition rsi_mac80211_add_interface :: "rx_vif \<Rightarrow> u8 list \<Rightarrow> mgmt_common \<Rightarrow> 'z vif_common_scheme \<Rightarrow> (int \<times> 'z vif_state) option" where
  "rsi_mac80211_add_interface v addr c s =
     (let ty = vif_type v; s0 = s\<lparr>uapsd_flag := enabled_uapsd s\<rparr>
      in if sc_nvifs s > 0 \<and> \<not> p2p_enabled c \<and> ty \<noteq> NL80211_IFTYPE_P2P_DEVICE then Some (- EINVAL, c, s0)
         else if sc_nvifs s > 0 \<and> rx_vifs s ! 0 = None then None
         else if sc_nvifs s > 0 \<and> vif_assoc (the (rx_vifs s ! 0)) then Some (- EINVAL, c, s0)
         else case intf_mode ty of
           None \<Rightarrow> Some (- EINVAL, c, s0)
         | Some mode \<Rightarrow> Some (add_placed v addr mode (if p2p_kind ty then c\<lparr>p2p_enabled := True\<rparr> else c)
             (s0\<lparr>encap_flag := (ty = NL80211_IFTYPE_STATION \<and> enable_encap_offload s)\<rparr>)))"

text \<open>The modes in which an interface is removed, or into which one is changed.\<close>

definition removed_mode :: "iftype \<Rightarrow> nat option" where
  "removed_mode ty =
     (case ty of
        NL80211_IFTYPE_STATION \<Rightarrow> Some STA_OPMODE
      | NL80211_IFTYPE_AP \<Rightarrow> Some AP_OPMODE
      | NL80211_IFTYPE_P2P_CLIENT \<Rightarrow> Some P2P_CLIENT_OPMODE
      | NL80211_IFTYPE_P2P_GO \<Rightarrow> Some P2P_GO_OPMODE
      | _ \<Rightarrow> None)"

text \<open>\<open>slot\<close> is the place of the interface, if it is in the table.\<close>

definition rsi_mac80211_remove_interface :: "nat option \<Rightarrow> u8 list \<Rightarrow> mgmt_common \<Rightarrow> 'z vif_common_scheme \<Rightarrow> 'z vif_state" where
  "rsi_mac80211_remove_interface slot addr c s =
     (if sc_nvifs s = 0 then (c, s)
      else case slot of
        None \<Rightarrow> (c, s)
      | Some i \<Rightarrow>
        (case rx_vifs s ! i of
           None \<Rightarrow> (c, s)
         | Some v \<Rightarrow>
           let s1 = s\<lparr>sc_nvifs := sc_nvifs s - 1\<rparr>
           in case removed_mode (vif_type v) of
                None \<Rightarrow> (c, s1)
              | Some mode \<Rightarrow> (snd (rsi_set_vap_capabilities mode addr (vap_id v) VAP_DELETE c), s1\<lparr>rx_vifs := (rx_vifs s)[i := None]\<rparr>)))"

definition rsi_mac80211_change_interface ::
  "nat \<Rightarrow> u8 list \<Rightarrow> iftype \<Rightarrow> mgmt_common \<Rightarrow> 'z vif_common_scheme \<Rightarrow> (int \<times> 'z vif_state) option" where
  "rsi_mac80211_change_interface i addr newtype c s =
     (case rx_vifs s ! i of
        None \<Rightarrow> None
      | Some v \<Rightarrow>
        let s1 = set_vif i (\<lambda>v. v\<lparr>vif_type := newtype\<rparr>) s;
            s2 = (if newtype = NL80211_IFTYPE_AP \<and> ps_state (ps s) = PS_ENABLED then with_power rsi_disable_ps s1 else s1)
        in case removed_mode newtype of
             None \<Rightarrow> Some (- EINVAL, c, s1)
           | Some mode \<Rightarrow>
             let c1 = snd (rsi_set_vap_capabilities (last_vap_type c) addr (vap_id v) VAP_DELETE c);
                 (status, c2) = rsi_set_vap_capabilities mode addr (vap_id v) VAP_ADD c1
             in Some (status, if newtype \<in> {NL80211_IFTYPE_AP, NL80211_IFTYPE_P2P_GO} then start_ap c2 s2 else (c2, s2)))"

section \<open>Changes of a connection\<close>

text \<open>The lowest basic rate. Without basic rates the index is that of an 8-bit -1, behind the table.\<close>

definition basic_rate_index :: "u32 \<Rightarrow> nat" where
  "basic_rate_index rates = (case List.find (bit rates) [0..<32] of Some i \<Rightarrow> i | None \<Rightarrow> 255)"

definition on_basic_rates :: "bss_change set \<Rightarrow> bss_conf \<Rightarrow> 'z vif_common_scheme \<Rightarrow> 'z vif_common_scheme" where
  "on_basic_rates changed b s =
     (if CHANGED_BSSID \<in> changed \<and> CHANGED_BASIC_RATES \<in> changed
      then s\<lparr>minimum_basic_rate := table_at (stray s) rsi_hw_values (basic_rate_index (basic_rates b) + (if cur_5ghz s then 4 else 0))\<rparr>
      else s)"

text \<open>What a new connection brings: the filter, the settings of 802.11ax and the threshold of the duration.\<close>

definition assoc_filter :: "mgmt_common \<Rightarrow> u16" where
  "assoc_filter c =
     ALLOW_DATA_ASSOC_PEER OR ALLOW_CTRL_ASSOC_PEER OR ALLOW_MGMT_ASSOC_PEER OR (if DEV_MODEL_9116 (device_model c) then DISALLOW_BEACONS else 0)"

definition take_ax :: "bss_conf \<Rightarrow> 'z vif_state \<Rightarrow> 'z vif_state option" where
  "take_ax b x =
     Some ((fst x)\<lparr>ax_params := (ax_params (fst x))\<lparr>ax_enabled := he_support b, bss_color := he_bss_color b, spatial_reuse_en := he_spatial_reuse b,
             mbssid_mask_value := bssid_indicator b, obss_pd_min := he_obss_min b, obss_pd_max := he_obss_max b\<rparr>\<rparr>,
           (snd x)\<lparr>enable_er_su := (he_support b \<and> \<not> er_su_disabled b)\<rparr>)"

definition txop_update :: "bss_conf \<Rightarrow> 'z vif_state \<Rightarrow> 'z vif_state option" where
  "txop_update b x =
     (if ax_enabled (ax_params (fst x))
      then Some ((snd (rsi_send_vap_dynamic_update ((fst x)\<lparr>txop_dur_rts_threshold := frame_time_rts_th b\<rparr>)))\<lparr>txop_dur_rts_threshold := 0\<rparr>, snd x)
      else Some x)"

definition drop_ax :: "'z vif_state \<Rightarrow> 'z vif_state option" where
  "drop_ax x = Some ((fst x)\<lparr>ax_params := no_ax\<rparr>, (snd x)\<lparr>nt_profile := 0, nt_periodicity := 0, tx_bssid := replicate 6 0\<rparr>)"

definition conf_uapsd :: "'z vif_common_scheme \<Rightarrow> 'z vif_common_scheme" where
  [rsi_defs]: "conf_uapsd s = (if uapsd_bitmap (ps s) \<noteq> 0 then with_power rsi_conf_uapsd s else s)"

definition forget_uapsd :: "'z vif_common_scheme \<Rightarrow> 'z vif_common_scheme" where
  [rsi_defs]: "forget_uapsd s = s\<lparr>ps := (ps s)\<lparr>uapsd_bitmap := 0\<rparr>\<rparr>"

text \<open>The settings of 802.11ax reach the device through the later commands, not through the filter.\<close>

definition on_assoc :: "rx_vif \<Rightarrow> bss_conf \<Rightarrow> 'z vif_state \<Rightarrow> 'z vif_state option" where
  "on_assoc v b x =
     (if vif_assoc v
      then steps [sending (\<lambda>x. rsi_send_rx_filter_frame (assoc_filter (fst x))), take_ax b, txop_update b,
                  bss_connected False (vif_bssid v) (bss_qos (snd x)) (cfg_aid b) None 0 (assoc_capability (snd x)), silent conf_uapsd] x
      else steps [drop_ax, bss_disconnected False (vif_bssid v) (bss_qos (snd x)) (cfg_aid b) 0, silent forget_uapsd] x)"

text \<open>A station whose address of the access point is cleared without a disconnection is disconnected at the device.\<close>

definition on_bssid :: "bss_change set \<Rightarrow> rx_vif \<Rightarrow> bss_conf \<Rightarrow> 'z vif_state \<Rightarrow> 'z vif_state option" where
  "on_bssid changed v b x =
     (if CHANGED_BSSID \<in> changed \<and> peer_notify_state (snd x) \<and> \<not> vif_assoc v \<and> CHANGED_ASSOC \<notin> changed \<and> vif_bssid v = replicate 6 0
      then notify False False (sta_bssid (snd x)) (bss_qos (snd x)) (cfg_aid b) 0 x
      else Some x)"

definition on_color :: "bss_change set \<Rightarrow> rx_vif \<Rightarrow> bss_conf \<Rightarrow> 'z vif_state \<Rightarrow> 'z vif_state option" where
  "on_color changed v b x =
     (if vif_assoc v \<and> CHANGED_HE_BSS_COLOR \<in> changed
      then issue rsi_load_radio_caps
        ((fst x)\<lparr>ax_params := (ax_params (fst x))\<lparr>bss_color := he_bss_color b, spatial_reuse_en := he_spatial_reuse b\<rparr>\<rparr>, snd x)
      else Some x)"

definition on_beacon_int :: "rx_vif \<Rightarrow> u8 list \<Rightarrow> bss_conf \<Rightarrow> 'z vif_state \<Rightarrow> 'z vif_state option" where
  "on_beacon_int v addr b x =
     (let c = fst x; c1 = c\<lparr>beacon_interval := beacon_int b\<rparr>
      in if beacon_interval c = beacon_int b then Some x
         else if vif_type v = NL80211_IFTYPE_AP then issue (rsi_set_vap_capabilities AP_OPMODE addr (vap_id v) VAP_UPDATE) (c1, snd x)
         else Some (c1, snd x))"

definition rsi_mac80211_bss_info_changed ::
  "bss_change set \<Rightarrow> nat \<Rightarrow> u8 list \<Rightarrow> bss_conf \<Rightarrow> mgmt_common \<Rightarrow> 'z vif_common_scheme \<Rightarrow> 'z vif_state option" where
  "rsi_mac80211_bss_info_changed changed i addr b c s =
     (case rx_vifs s ! i of
        None \<Rightarrow> None
      | Some v \<Rightarrow>
        let station = (vif_type v = NL80211_IFTYPE_STATION); assoc = (station \<and> CHANGED_ASSOC \<in> changed)
        in if fsm_state c \<noteq> FSM_MAC_INIT_DONE then Some (c, s)
           else steps
             ([silent (on_basic_rates changed b)] @
              (if assoc then [on_assoc v b] else []) @
              (if station then [on_bssid changed v b] else []) @
              (if assoc then [] else [on_color changed v b]) @
              (if station \<and> he_support b \<and> CHANGED_QOS \<in> changed then [issue rsi_load_radio_caps] else []) @
              (if station \<and> CHANGED_CQM \<in> changed
               then [silent (\<lambda>s. s\<lparr>vif_cqm := \<lparr>last_cqm_event_rssi = 0, rssi_thold = cqm_rssi_thold b, rssi_hyst = cqm_rssi_hyst b\<rparr>\<rparr>)] else []) @
              (if CHANGED_BEACON_INT \<in> changed then [on_beacon_int v addr b] else []) @
              (if CHANGED_BEACON_ENABLED \<in> changed \<and> ap_kind v
               then [\<lambda>x. Some ((fst x)\<lparr>beacon_enabled := enable_beacon b\<rparr>, snd x)] else []) @
              [\<lambda>x. Some (fst x, if vif_type v = NL80211_IFTYPE_AP \<and> beacon_enabled (fst x) \<and> auto_chan_sel (snd x)
                                 then (snd x)\<lparr>auto_chan_sel := False\<rparr> else snd x)] @
              (if CHANGED_ERP_CTS_PROT \<in> changed
               then [\<lambda>x. issue rsi_send_vap_dynamic_update ((fst x)\<lparr>use_protection := use_cts_prot b\<rparr>, snd x)] else [])) (c, s))"

section \<open>Frames from mac80211\<close>

text \<open>
  Whether \<open>rsi_mac80211_tx\<close> passes a frame on to \<open>rsi_core_xmit\<close> or frees it. An encapsulated frame has no 802.11 header: the
  address \<open>addr2\<close> and the type are then not looked at.
\<close>

definition rsi_mac80211_tx :: "bool \<Rightarrow> u8 list \<Rightarrow> bool \<Rightarrow> mgmt_common \<Rightarrow> 'z vif_common_scheme \<Rightarrow> bool \<times> 'z vif_state" where
  "rsi_mac80211_tx encapsulated addr2 beacon c s =
     (case last_vif s of
        None \<Rightarrow> (False, c, s)
      | Some v \<Rightarrow>
        let (status, c1) = (if encapsulated then (0, c) else rsi_validate_mac_addr addr2 c)
        in if \<not> encapsulated \<and> (status \<noteq> 0 \<or> beacon) then (False, c1, s)
           else
             let s1 = (if (\<not> vif_assoc v \<or> vif_type v = NL80211_IFTYPE_AP) \<and> ps_state (ps s) = PS_ENABLED then with_power rsi_disable_ps s else s);
                 s2 = (if vif_type v = NL80211_IFTYPE_STATION \<and> user_ps_en (ps s1) \<and> monitor_interval (ps_info (ps s1)) \<noteq> 0
                       then with_power check_traffic_pwr_save s1 else s1)
             in (True, c1, s2))"

section \<open>Association\<close>

















section \<open>The table of interfaces\<close>

lemma place_fields:
  "place v s = (i, s') \<Longrightarrow> sc_nvifs s < 3 \<Longrightarrow> i = sc_nvifs s \<and> rx_vifs s' = (rx_vifs s)[i := Some v] \<and> sc_nvifs s' = sc_nvifs s + 1 \<and> last_vap_id s' = last_vap_id s"
  by (auto simp: place_def Let_def)


lemma clear_peers_vifs [simp]: "rx_vifs (clear_peers n s) = rx_vifs s" "sc_nvifs (clear_peers n s) = sc_nvifs s"
  by (simp_all add: clear_peers_def)

lemma set_vif_vifs [simp]:
  "rx_vifs (set_vif i f s) = (rx_vifs s)[i := map_option f (rx_vifs s ! i)]" "sc_nvifs (set_vif i f s) = sc_nvifs s"
  by (simp_all add: set_vif_def)

lemma start_ap_vifs [simp]: "rx_vifs (snd (start_ap c s)) = rx_vifs s" "sc_nvifs (snd (start_ap c s)) = sc_nvifs s"
  by (simp_all add: start_ap_def)

lemma add_placed_table:
  assumes "add_placed v addr mode c s = (ret, c1, s1)" "sc_nvifs s < 3" "length (rx_vifs s) = 3"
  shows "sc_nvifs s1 = sc_nvifs s + 1 \<and> (\<exists>v1. vif_type v1 = vif_type v \<and> rx_vifs s1 = (rx_vifs s)[sc_nvifs s := Some v1])"
proof -
  obtain t where t: "place v s = (sc_nvifs s, t)" "rx_vifs t = (rx_vifs s)[sc_nvifs s := Some v]" "sc_nvifs t = sc_nvifs s + 1"
    using place_fields [of v s] assms(2) by (metis surj_pair)
  obtain vap st prev where vap: "vap_of (p2p_enabled c) mode (last_vap_id s) = (vap, st, prev)" by (metis surj_pair)
  obtain r c' where r: "rsi_set_vap_capabilities mode addr vap st c = (r, c')" by fastforce
  show ?thesis using assms t(2,3) unfolding add_placed_def t(1) vap
    by (auto simp: r forget_pn_def Let_def split_def split: if_split_asm) (rule exI, rule conjI [rotated], rule refl, simp)+
qed

lemma add_interface_table:
  assumes "rsi_mac80211_add_interface v addr c s = Some (0, c1, s1)" "sc_nvifs s < 3" "length (rx_vifs s) = 3"
  shows "sc_nvifs s1 = sc_nvifs s + 1 \<and> (\<exists>v1. vif_type v1 = vif_type v \<and> rx_vifs s1 = (rx_vifs s)[sc_nvifs s := Some v1])"
proof -
  let ?s0 = "s\<lparr>uapsd_flag := enabled_uapsd s, encap_flag := (vif_type v = NL80211_IFTYPE_STATION \<and> enable_encap_offload s)\<rparr>"
  obtain mode c0 where "add_placed v addr mode c0 ?s0 = (0, c1, s1)"
    using assms(1) unfolding rsi_mac80211_add_interface_def Let_def by (auto split: if_split_asm option.split_asm)
  then show ?thesis using add_placed_table [of v addr mode c0 ?s0 0 c1 s1] assms(2,3) by simp
qed

text \<open>
  C34. Adding an interface and removing it again restores the table, for the types that \<open>removed_mode\<close> knows.
\<close>
theorem interface_roundtrip:
  assumes "rsi_mac80211_add_interface v addr c s = Some (0, c1, s1)" "rsi_mac80211_remove_interface (Some (sc_nvifs s)) addr c1 s1 = (c2, s2)"
    "sc_nvifs s < 3" "length (rx_vifs s) = 3" "rx_vifs s ! sc_nvifs s = None" "removed_mode (vif_type v) \<noteq> None"
  shows "rx_vifs s2 = rx_vifs s \<and> sc_nvifs s2 = sc_nvifs s"
proof -
  obtain v1 where v1: "vif_type v1 = vif_type v" "rx_vifs s1 = (rx_vifs s)[sc_nvifs s := Some v1]" "sc_nvifs s1 = sc_nvifs s + 1"
    using add_interface_table [OF assms(1,3,4)] by blast
  moreover have "(rx_vifs s)[sc_nvifs s := None] = rx_vifs s" using assms(5) list_update_id [of "rx_vifs s" "sc_nvifs s"] by simp
  ultimately show ?thesis using assms(2-4,6) by (auto simp: rsi_mac80211_remove_interface_def split: option.splits)
qed

text \<open>
  A monitor interface, or a P2P device, that is removed stays in the table, where the driver goes on to find it at its old place,
  with an interface count that says there is none.
\<close>
theorem removed_monitor_dangles:
  assumes "rsi_mac80211_add_interface v addr c s = Some (0, c1, s1)" "rsi_mac80211_remove_interface (Some 0) addr c1 s1 = (c2, s2)"
    "sc_nvifs s = 0" "length (rx_vifs s) = 3" "vif_type v \<in> {NL80211_IFTYPE_MONITOR, NL80211_IFTYPE_P2P_DEVICE}"
  shows "sc_nvifs s2 = 0 \<and> map_option vif_type (rx_vifs s2 ! 0) = Some (vif_type v) \<and> c2 = c1"
proof -
  obtain v1 where "vif_type v1 = vif_type v" "rx_vifs s1 = (rx_vifs s)[0 := Some v1]" "sc_nvifs s1 = 1"
    using add_interface_table [OF assms(1)] assms(3,4) by auto
  moreover have "removed_mode (vif_type v) = None" using assms(5) by (auto simp: removed_mode_def)
  ultimately show ?thesis using assms(2-4) by (auto simp: rsi_mac80211_remove_interface_def)
qed

section \<open>The shape of the tables\<close>

definition same_shape :: "'z peer_state \<Rightarrow> 'z peer_state \<Rightarrow> bool" where
  "same_shape x y \<longleftrightarrow> p2p_enabled (fst y) = p2p_enabled (fst x) \<and> max_stations (fst y) = max_stations (fst x) \<and>
     rx_vifs (snd y) = rx_vifs (snd x) \<and> sc_nvifs (snd y) = sc_nvifs (snd x) \<and> peers (snd y) = peers (snd x) \<and>
     key_stations (snd y) = key_stations (snd x)"

definition keeps_shape :: "('z peer_state \<Rightarrow> 'z peer_state option) \<Rightarrow> bool" where
  "keeps_shape f \<longleftrightarrow> (\<forall>x y. f x = Some y \<longrightarrow> same_shape x y)"

lemma same_shape_refl [simp]: "same_shape x x"
  by (simp add: same_shape_def)

lemma same_shape_trans: "same_shape x y \<Longrightarrow> same_shape y z \<Longrightarrow> same_shape x z"
  by (simp add: same_shape_def)

lemma keeps_shapeI: "(\<And>c s c' s'. f (c, s) = Some (c', s') \<Longrightarrow> same_shape (c, s) (c', s')) \<Longrightarrow> keeps_shape f"
  unfolding keeps_shape_def by (metis surj_pair)

lemma keeps_shapeD: "keeps_shape f \<Longrightarrow> f x = Some y \<Longrightarrow> same_shape x y"
  unfolding keeps_shape_def by blast

lemma keeps_shape_steps: "(\<And>f. f \<in> set fs \<Longrightarrow> keeps_shape f) \<Longrightarrow> keeps_shape (steps fs)"
proof (induction fs)
  case (Cons f fs)
  have f: "keeps_shape f" and fs: "keeps_shape (steps fs)" using Cons by auto
  show ?case unfolding keeps_shape_def
  proof (intro allI impI)
    fix x y assume "steps (f # fs) x = Some y"
    then obtain z where "f x = Some z" "steps fs z = Some y" by (auto split: option.splits)
    then show "same_shape x y" using f fs same_shape_trans unfolding keeps_shape_def by blast
  qed
qed (simp add: keeps_shape_def)

definition keeps_cmd :: "mgmt_common \<Rightarrow> mgmt_common \<Rightarrow> bool" where
  "keeps_cmd c c' \<longleftrightarrow> p2p_enabled c' = p2p_enabled c \<and> max_stations c' = max_stations c"

lemma send_keeps: "(\<And>d. keeps_cmd d (effect d)) \<Longrightarrow> keeps_cmd c (snd (send_command c effect d))"
  by (simp add: send_command_def alloc_skb_def queue_internal_def keeps_cmd_def Let_def)

lemma commands_keep [simp]:
  "keeps_cmd c (snd (rsi_load_radio_caps c))" "keeps_cmd c (snd (rsi_send_block_unblock_frame b c))" "keeps_cmd c (snd (rsi_send_rx_filter_frame w c))"
  "keeps_cmd c (snd (rsi_send_vap_dynamic_update c))" "keeps_cmd c (snd (rsi_set_vap_capabilities mode addr vap st c))"
  "keeps_cmd c (snd (rsi_send_aggr_params_frame tid n buf_size ev c))" "keeps_cmd c (snd (queue_internal d c))" "keeps_cmd c (snd (alloc_skb c))"
  unfolding rsi_load_radio_caps_def rsi_send_block_unblock_frame_def rsi_send_rx_filter_frame_def rsi_send_vap_dynamic_update_def
      rsi_set_vap_capabilities_def rsi_send_aggr_params_frame_def
  by (rule send_keeps; simp add: keeps_cmd_def)+ (simp_all add: queue_internal_def alloc_skb_def keeps_cmd_def Let_def)

lemma keeps_shape_cmd: "(\<And>c. keeps_cmd c (snd (f c))) \<Longrightarrow> keeps_shape (issue f)"
  by (auto simp: keeps_shape_def issue_def same_shape_def keeps_cmd_def)

lemma keeps_shape_sending: "(\<And>x c. keeps_cmd c (snd (f x c))) \<Longrightarrow> keeps_shape (sending f)"
  by (auto simp: keeps_shape_def sending_def same_shape_def keeps_cmd_def)

lemma notify_keeps: "keeps_shape (notify ap b bssid qos aid n)"
proof (rule keeps_shapeI)
  fix c s c' s' assume n: "notify ap b bssid qos aid n (c, s) = Some (c', s')"
  then obtain v where v: "last_vif s = Some v" by (auto simp: notify_def rsi_send_sta_notify_frame_def split: option.splits)
  show "same_shape (c, s) (c', s')"
    using n v commands_keep(1,7,8) unfolding notify_def rsi_send_sta_notify_frame_def keeps_cmd_def same_shape_def
    by (auto simp: Let_def split_def rsi_set_contention_vals_def split: if_split_asm)
qed

lemma request_keeps: "rsi_send_auto_rate_request caps n c s = Some (st, c', s') \<Longrightarrow> same_shape (c, s) (c', s')"
  using commands_keep(7,8) unfolding rsi_send_auto_rate_request_def keeps_cmd_def same_shape_def
  by (auto simp: Let_def split_def update_tables_def split: if_split_asm)

lemma auto_rate_keeps: "keeps_shape (auto_rate sta n)"
  by (rule keeps_shapeI) (auto simp: auto_rate_def Let_def dest: request_keeps split: if_split_asm option.splits)

lemma small_keeps: "keeps_shape unblock" "keeps_shape mark_blocked" "keeps_shape stop_traffic_timer" "keeps_shape drop_ax" "keeps_shape (take_ax b)"
  "keeps_shape (silent conf_uapsd)" "keeps_shape (silent forget_uapsd)" "keeps_shape (silent (on_basic_rates ch b))"
  using commands_keep(2)
  by (auto simp: keeps_shape_def unblock_def block_data_def mark_blocked_def stop_traffic_timer_def drop_ax_def take_ax_def silent_def conf_uapsd_def
      forget_uapsd_def with_power_def on_basic_rates_def same_shape_def keeps_cmd_def Let_def split_def)

lemma connection_keeps: "keeps_shape (bss_connected ap bssid qos aid sta n cap)" "keeps_shape (bss_disconnected ap bssid qos aid n)"
proof -
  have "keeps_shape (\<lambda>x. if sec_qs_blocked (snd x) then unblock x else Some x)"
    using small_keeps(1) unfolding keeps_shape_def by auto
  then show "keeps_shape (bss_connected ap bssid qos aid sta n cap)"
    unfolding bss_connected_def by (intro keeps_shape_steps) (auto simp: small_keeps notify_keeps auto_rate_keeps keeps_shape_cmd split: if_split_asm)
  show "keeps_shape (bss_disconnected ap bssid qos aid n)"
    unfolding bss_disconnected_def by (intro keeps_shape_steps) (auto simp: small_keeps notify_keeps keeps_shape_cmd split: if_split_asm)
qed

lemma wep_keeps: "keeps_shape (wep_key i)"
proof (rule keeps_shapeI)
  fix c s c' s' assume "wep_key i (c, s) = Some (c', s')"
  moreover have "rsi_load_key ap vap data key_len ty k ci n c = (st, d) \<Longrightarrow> p2p_enabled d = p2p_enabled c \<and> max_stations d = max_stations c" for ap vap data key_len ty k ci n st d
    by (auto simp: rsi_load_key_def alloc_skb_def queue_internal_def Let_def split: option.splits if_split_asm)
  ultimately show "same_shape (c, s) (c', s')"
    by (auto simp: wep_key_def load_vif_key_def same_shape_def split: option.splits if_split_asm)
qed

lemma stop_bgscan_keeps: "keeps_shape stop_bgscan"
proof (rule keeps_shapeI)
  fix c s c' s' assume "stop_bgscan (c, s) = Some (c', s')"
  moreover have "same_shape (c, s) (d, t)" if "rsi_send_bgscan_params False c s = Some (st, d, t)" for st d t
    using that commands_keep(7,8) unfolding rsi_send_bgscan_params_def bgscan_part_def keeps_cmd_def same_shape_def
    by (auto simp: Let_def split_def rsi_validate_debugfs_bgscan_channels_def rsi_validate_bgscan_channels_def split: if_split_asm option.splits)
  ultimately show "same_shape (c, s) (c', s')"
    by (fastforce simp: stop_bgscan_def same_shape_def split: if_split_asm)
qed

lemma on_assoc_keeps: "keeps_shape (on_assoc v b)"
proof -
  have t: "keeps_shape (txop_update b)" using commands_keep(4) unfolding keeps_shape_def txop_update_def same_shape_def keeps_cmd_def by auto
  have a: "keeps_shape (steps [sending (\<lambda>x. rsi_send_rx_filter_frame (assoc_filter (fst x))), take_ax b, txop_update b,
      bss_connected False (vif_bssid v) qos (cfg_aid b) None 0 cap, silent conf_uapsd])" for qos cap
    by (rule keeps_shape_steps) (auto simp: keeps_shape_sending small_keeps t connection_keeps)
  have d: "keeps_shape (steps [drop_ax, bss_disconnected False (vif_bssid v) qos (cfg_aid b) 0, silent forget_uapsd])" for qos
    by (rule keeps_shape_steps) (auto simp: small_keeps connection_keeps)
  have "on_assoc v b x = Some y \<Longrightarrow> same_shape x y" for x y
    unfolding on_assoc_def using keeps_shapeD [OF a] keeps_shapeD [OF d] by (cases "vif_assoc v") (simp_all del: steps.simps)
  then show ?thesis unfolding keeps_shape_def by blast
qed

lemma rest_keeps: "keeps_shape (on_bssid ch v b)" "keeps_shape (on_color ch v b)" "keeps_shape (on_beacon_int v addr b)"
proof -
  show "keeps_shape (on_bssid ch v b)"
    using notify_keeps unfolding keeps_shape_def on_bssid_def by (metis option.inject same_shape_refl)
  have "keeps_shape (issue rsi_load_radio_caps)" by (rule keeps_shape_cmd) simp
  then have "on_color ch v b x = Some y \<Longrightarrow> same_shape x y" for x y
    by (auto simp: on_color_def same_shape_def dest!: keeps_shapeD split: if_split_asm)
  then show "keeps_shape (on_color ch v b)" unfolding keeps_shape_def by blast
  have "keeps_shape (issue (rsi_set_vap_capabilities 0 addr (rx_vif.vap_id v) VAP_UPDATE))" by (rule keeps_shape_cmd) simp
  then have "on_beacon_int v addr b x = Some y \<Longrightarrow> same_shape x y" for x y
    by (auto simp: on_beacon_int_def same_shape_def Let_def dest!: keeps_shapeD split: if_split_asm)
  then show "keeps_shape (on_beacon_int v addr b)" unfolding keeps_shape_def by blast
qed

text \<open>
  The tables of an ordinary build, with interfaces of a station or an access point only: at most one interface,
  at place 0 exactly when the count says so, 33 slots of stations, and the view the key functions have of them.
\<close>

definition peers_ok :: "'z peer_common_scheme \<Rightarrow> bool" where
  "peers_ok s \<longleftrightarrow> length (peers s) = 33 \<and> key_stations s = map (\<lambda>p. (map_option peer_addr (st_sta p), st_id p)) (peers s)"

definition vifs_ok :: "'z rx_sec_scheme \<Rightarrow> bool" where
  "vifs_ok s \<longleftrightarrow> (\<exists>v. rx_vifs s = [v, None, None] \<and> sc_nvifs s = (if v = None then 0 else 1) \<and>
     map_option vif_type v \<in> {None, Some NL80211_IFTYPE_STATION, Some NL80211_IFTYPE_AP})"

definition tables_ok :: "'z peer_state \<Rightarrow> bool" where
  "tables_ok x \<longleftrightarrow> \<not> p2p_enabled (fst x) \<and> vifs_ok (snd x) \<and> peers_ok (snd x)"

datatype callback =
    Go_Up | Go_Down | Add_Interface rx_vif "u8 list" | Remove_Interface "u8 list" | Change_Interface "u8 list" iftype
  | Bss_Changed "bss_change set" "u8 list" bss_conf | Sta_Add ieee_sta | Sta_Remove ieee_sta | Ampdu_Action ampdu_act "u8 list" u16 u16 u8

definition ordinary :: "callback \<Rightarrow> bool" where
  "ordinary cb \<longleftrightarrow>
     (case cb of Add_Interface v addr \<Rightarrow> vif_type v \<in> {NL80211_IFTYPE_STATION, NL80211_IFTYPE_AP}
      | Change_Interface addr ty \<Rightarrow> ty \<in> {NL80211_IFTYPE_STATION, NL80211_IFTYPE_AP} | _ \<Rightarrow> True)"

text \<open>A callback for the interface at place 0, if there is one.\<close>

fun call :: "callback \<Rightarrow> 'z vif_state \<Rightarrow> 'z vif_state option" where
  "call Go_Up x = Some (rsi_mac80211_start (fst x) (snd x))"
| "call Go_Down x = Some (rsi_mac80211_stop (fst x) (snd x))"
| "call (Add_Interface v addr) x = map_option snd (rsi_mac80211_add_interface v addr (fst x) (snd x))"
| "call (Remove_Interface addr) x = Some (rsi_mac80211_remove_interface (Some 0) addr (fst x) (snd x))"
| "call (Change_Interface addr ty) x = map_option snd (rsi_mac80211_change_interface 0 addr ty (fst x) (snd x))"
| "call (Bss_Changed ch addr b) x = rsi_mac80211_bss_info_changed ch 0 addr b (fst x) (snd x)"
| "call (Sta_Add sta) x =
     (case rx_vifs (snd x) ! 0 of None \<Rightarrow> None | Some v \<Rightarrow> map_option snd (rsi_mac80211_sta_add (vif_type v) sta (fst x) (snd x)))"
| "call (Sta_Remove sta) x =
     (case rx_vifs (snd x) ! 0 of None \<Rightarrow> None | Some v \<Rightarrow> rsi_mac80211_sta_remove (vif_type v) 0 sta (fst x) (snd x))"
| "call (Ampdu_Action act addr tid ssn n) x =
     (case rx_vifs (snd x) ! 0 of None \<Rightarrow> None | Some v \<Rightarrow> Some (snd (rsi_mac80211_ampdu_action act (vif_type v) 0 addr tid ssn n (fst x) (snd x))))"

lemma same_shape_ok: "same_shape x y \<Longrightarrow> tables_ok x \<Longrightarrow> tables_ok y"
  by (simp add: same_shape_def tables_ok_def vifs_ok_def peers_ok_def)

lemma peers_ok_put [simp]: "peers_ok (put_peers table s) \<longleftrightarrow> length table = 33"
  by (auto simp: peers_ok_def put_peers_def)

lemma peers_ok_set [simp]: "peers_ok s \<Longrightarrow> peers_ok (set_peer i f s)"
  by (simp add: set_peer_def) (simp add: peers_ok_def)

lemma vifs_ok_put [simp]: "vifs_ok (put_peers table s) = vifs_ok s" "vifs_ok (set_peer i f s) = vifs_ok s"
  by (simp_all add: put_peers_def set_peer_def vifs_ok_def)

definition keeps_ok :: "('z peer_state \<Rightarrow> 'z peer_state option) \<Rightarrow> bool" where
  "keeps_ok f \<longleftrightarrow> (\<forall>x y. tables_ok x \<longrightarrow> f x = Some y \<longrightarrow> tables_ok y)"

lemma keeps_okI: "keeps_shape f \<Longrightarrow> keeps_ok f"
  using same_shape_ok unfolding keeps_shape_def keeps_ok_def by blast

lemma keeps_okD: "keeps_ok f \<Longrightarrow> f x = Some y \<Longrightarrow> tables_ok x \<Longrightarrow> tables_ok y"
  unfolding keeps_ok_def by blast

lemma keeps_ok_steps: "(\<And>f. f \<in> set fs \<Longrightarrow> keeps_ok f) \<Longrightarrow> keeps_ok (steps fs)"
proof (induction fs)
  case (Cons f fs)
  have f: "keeps_ok f" and fs: "keeps_ok (steps fs)" using Cons by auto
  have "steps (f # fs) x = Some y \<Longrightarrow> tables_ok x \<Longrightarrow> tables_ok y" for x y
    using keeps_okD [OF f] keeps_okD [OF fs] by (auto split: option.splits)
  then show ?case unfolding keeps_ok_def by blast
qed (simp add: keeps_ok_def)

subsection \<open>Stations\<close>

lemma num_stations_ok [simp]: "vifs_ok (s\<lparr>num_stations := k\<rparr>) = vifs_ok s" "peers_ok (s\<lparr>num_stations := k\<rparr>) = peers_ok s"
  by (simp_all add: vifs_ok_def peers_ok_def)

lemma new_station_ok: "keeps_ok (new_station sta)"
proof -
  have a: "keeps_ok (\<lambda>x :: 'a peer_state. Some (fst x, set_peer i f (snd x)))" for i f by (auto simp: keeps_ok_def tables_ok_def)
  have b: "keeps_ok (\<lambda>x :: 'a peer_state. Some (fst x, (set_peer i f (snd x))\<lparr>num_stations := num_stations (snd x) + 1\<rparr>))" for i f
    by (auto simp: keeps_ok_def tables_ok_def)
  have "keeps_ok (steps [\<lambda>x :: 'a peer_state. Some (fst x, set_peer i (\<lambda>p. p\<lparr>st_sta := Some sta, st_id := int i\<rparr>) (snd x)),
      bss_connected True (peer_addr sta) (peer_wme sta) (peer_aid sta) (Some sta) (of_nat i) 0, wep_key i,
      \<lambda>x. Some (fst x, (set_peer i reset_peer (snd x))\<lparr>num_stations := num_stations (snd x) + 1\<rparr>)])" for i
    by (rule keeps_ok_steps) (use a b keeps_okI [OF connection_keeps(1)] keeps_okI [OF wep_keeps] in auto)
  then show ?thesis unfolding keeps_ok_def new_station_def Let_def by blast
qed

lemma ap_add_ok: "keeps_ok (ap_add sta)"
proof -
  show ?thesis unfolding keeps_ok_def
  proof (intro allI impI)
    fix x y assume x: "tables_ok x" "ap_add sta x = Some y"
    then show "tables_ok y" using keeps_okD [OF new_station_ok _ x(1), of sta y]
      by (cases "slot_of (max_stations (fst x)) (peer_addr sta) (peers (snd x))") (auto simp: ap_add_def, auto simp: tables_ok_def)
  qed
qed

lemma ap_remove_ok: "keeps_ok (ap_remove sta)"
proof -
  show ?thesis unfolding keeps_ok_def
  proof (intro allI impI)
    fix x y assume x: "tables_ok x" "ap_remove sta x = Some y"
    show "tables_ok y"
    proof (cases "slot_of (max_stations (fst x)) (peer_addr sta) (peers (snd x))")
      case None
      then show ?thesis using x by (simp add: ap_remove_def)
    next
      case (Some i)
      then obtain z where z: "bss_disconnected True (peer_addr sta) (peer_wme sta) (peer_aid sta) (of_nat i) x = Some z"
        using x(2) by (auto simp: ap_remove_def split: option.splits)
      then have "tables_ok z" using keeps_okD [OF keeps_okI [OF connection_keeps(2)] z x(1)] by simp
      then show ?thesis using x(2) Some z by (auto simp: ap_remove_def tables_ok_def)
    qed
  qed
qed

lemma sta_add_ok:
  assumes "rsi_mac80211_sta_add ty sta (fst x) (snd x) = Some r" "tables_ok x"
  shows "tables_ok (snd r)"
proof -
  have c: "tables_ok (c\<lparr>bsr_support := b\<rparr>, snd x) = tables_ok (c, snd x)" for c b by (simp add: tables_ok_def)
  have p: "tables_ok (fst y, f (snd y))" if "\<And>s. vifs_ok (f s) = vifs_ok s" "\<And>s. peers_ok (f s) = peers_ok s" "tables_ok y" for f and y :: "'a peer_state"
    using that by (simp add: tables_ok_def)
  have s: "keeps_ok (\<lambda>x. Some (fst x, if q then (snd x)\<lparr>vif_sgi := True\<rparr> else snd x))" for q
    by (auto simp: keeps_ok_def tables_ok_def vifs_ok_def peers_ok_def)
  have h: "keeps_ok (\<lambda>x. Some (fst x, ht_connect sta (snd x)))"
    by (auto simp: keeps_ok_def tables_ok_def vifs_ok_def peers_ok_def ht_connect_def Let_def)
  have m: "vifs_ok s' = vifs_ok s \<and> peers_ok s' = peers_ok s \<and> p2p_enabled c' = p2p_enabled c" if "rsi_set_min_rate caps c s = Some (c', s')" for caps c s c' s'
    using that by (auto simp: rsi_set_min_rate_def vifs_ok_def peers_ok_def Let_def split_def split: if_split_asm)
  have k: "keeps_ok (sta_connect sta)" unfolding keeps_ok_def sta_connect_def
    by (auto simp: tables_ok_def dest!: m)
  define c1 where "c1 = (if ty = NL80211_IFTYPE_STATION \<and> he_bsr sta then (fst x)\<lparr>bsr_support := True\<rparr> else fst x)"
  define fs where "fs = ((if ty \<in> {NL80211_IFTYPE_AP, NL80211_IFTYPE_P2P_GO} then [ap_add sta] else []) @
      [\<lambda>x :: 'a peer_state. Some (fst x, if cap_sgi_20 sta \<or> cap_sgi_40 sta then (snd x)\<lparr>vif_sgi := True\<rparr> else snd x)] @
      (if ty = NL80211_IFTYPE_STATION then [sta_connect sta] else []) @
      (if ty \<in> {NL80211_IFTYPE_STATION, NL80211_IFTYPE_P2P_CLIENT} \<and> ht_supported sta then [\<lambda>x. Some (fst x, ht_connect sta (snd x))] else []))"
  have ok: "tables_ok (c1, snd x)" using assms(2) c by (auto simp: c1_def)
  have "keeps_ok (steps fs)" unfolding fs_def by (rule keeps_ok_steps) (use ap_add_ok s h k in \<open>auto split: if_split_asm\<close>)
  moreover have "rsi_mac80211_sta_add ty sta (fst x) (snd x) =
      (if ty \<in> {NL80211_IFTYPE_AP, NL80211_IFTYPE_P2P_GO} \<and> int (max_stations c1) \<le> num_stations (snd x) then Some (- EOPNOTSUPP, c1, snd x)
       else map_option (Pair 0) (steps fs (c1, snd x)))"
    by (simp only: rsi_mac80211_sta_add_def Let_def c1_def fs_def)
  ultimately show ?thesis using assms(1) keeps_okD [of "steps fs" "(c1, snd x)"] ok
    by (cases "steps fs (c1, snd x)") (auto simp del: steps.simps split: if_split_asm)
qed

lemma set_vif_ok: "vifs_ok s \<Longrightarrow> (\<And>v. vif_type (f v) = vif_type v) \<Longrightarrow> vifs_ok (set_vif 0 f s)"
  by (auto simp: vifs_ok_def)

lemma set_vif_peers [simp]: "peers_ok (set_vif i f s) = peers_ok s"
  by (simp add: peers_ok_def set_vif_def)

lemma forget_ap_ok: "keeps_ok (forget_ap 0 sta)"
proof -
  have v: "vifs_ok (s\<lparr>bss_qos := q, bitrate_mask := m, vif_is_ht := h, vif_sgi := g, vif_seq_start := n, ptk_cipher := p, gtk_cipher := u,
      send_initial_bgscan_chan := i, update_country := b\<rparr>) = vifs_ok s"
    "peers_ok (s\<lparr>bss_qos := q, bitrate_mask := m, vif_is_ht := h, vif_sgi := g, vif_seq_start := n, ptk_cipher := p, gtk_cipher := u,
      send_initial_bgscan_chan := i, update_country := b\<rparr>) = peers_ok s" for s :: "'a peer_common_scheme" and q m h g n p u i b
    by (simp_all add: vifs_ok_def peers_ok_def)
  show ?thesis by (auto simp: keeps_ok_def tables_ok_def forget_ap_def Let_def v intro!: set_vif_ok)
qed

lemma sta_remove_ok:
  assumes "rsi_mac80211_sta_remove ty 0 sta (fst x) (snd x) = Some y" "tables_ok x"
  shows "tables_ok y"
proof -
  have r: "keeps_ok (\<lambda>x :: 'a peer_state. if iface_down (fst x) then Some x else issue (rsi_send_rx_filter_frame 0) x)"
    using keeps_shapeD [OF keeps_shape_cmd [of "rsi_send_rx_filter_frame 0"]] same_shape_ok unfolding keeps_ok_def
    by (metis (no_types, lifting) commands_keep(3) option.inject)
  have l: "keeps_ok (steps ((if ty \<in> {NL80211_IFTYPE_AP, NL80211_IFTYPE_P2P_GO} then [ap_remove sta] else []) @
       (if ty = NL80211_IFTYPE_STATION
        then [forget_ap 0 sta, stop_bgscan, \<lambda>x :: 'a peer_state. if iface_down (fst x) then Some x else issue (rsi_send_rx_filter_frame 0) x] else [])))"
    by (rule keeps_ok_steps) (use ap_remove_ok forget_ap_ok keeps_okI [OF stop_bgscan_keeps] r in \<open>auto split: if_split_asm\<close>)
  have "tables_ok (if ty = NL80211_IFTYPE_STATION then (fst x)\<lparr>bsr_support := False\<rparr> else fst x, snd x)" using assms(2) by (simp add: tables_ok_def)
  then show ?thesis using keeps_okD [OF l] assms(1) unfolding rsi_mac80211_sta_remove_def by blast
qed

lemma ampdu_ok:
  assumes "tables_ok (c, s)"
  shows "tables_ok (snd (rsi_mac80211_ampdu_action act ty vif addr tid ssn n c s))"
proof -
  have a: "p2p_enabled (snd (rsi_send_aggr_params_frame tid m n ev c)) = p2p_enabled c" for m ev
    using commands_keep(6) [of c tid m n ev] by (simp add: keeps_cmd_def)
  have b: "vifs_ok (s\<lparr>ba_started := l\<rparr>) = vifs_ok s" "peers_ok (s\<lparr>ba_started := l\<rparr>) = peers_ok s" "vifs_ok (s\<lparr>ba_stopped := l\<rparr>) = vifs_ok s"
    "peers_ok (s\<lparr>ba_stopped := l\<rparr>) = peers_ok s" "vifs_ok (s\<lparr>vif_seq_start := q\<rparr>) = vifs_ok s" "peers_ok (s\<lparr>vif_seq_start := q\<rparr>) = peers_ok s"
    for s :: "'a peer_common_scheme" and l q
    by (simp_all add: vifs_ok_def peers_ok_def)
  show ?thesis using assms unfolding rsi_mac80211_ampdu_action_def Let_def
    by (cases act) (auto simp: tables_ok_def a b split_def)
qed

subsection \<open>Interfaces\<close>

lemma driver_fields_ok [simp]:
  "vifs_ok (s\<lparr>uapsd_flag := b\<rparr>) = vifs_ok s" "peers_ok (s\<lparr>uapsd_flag := b\<rparr>) = peers_ok s" "vifs_ok (s\<lparr>encap_flag := b\<rparr>) = vifs_ok s"
  "peers_ok (s\<lparr>encap_flag := b\<rparr>) = peers_ok s" "vifs_ok (s\<lparr>bc_mc_seqno := n\<rparr>) = vifs_ok s" "peers_ok (s\<lparr>bc_mc_seqno := n\<rparr>) = peers_ok s"
  "vifs_ok (s\<lparr>last_vap_id := v\<rparr>) = vifs_ok s" "peers_ok (s\<lparr>last_vap_id := v\<rparr>) = peers_ok s"
  "vifs_ok (with_power f t) = vifs_ok t" "peers_ok (with_power f s) = peers_ok s"
  by (simp_all add: vifs_ok_def peers_ok_def with_power_def)

lemma start_ap_ok [simp]: "vifs_ok (snd (start_ap c s)) = vifs_ok s" "peers_ok (snd (start_ap c s)) = peers_ok s" "p2p_enabled (fst (start_ap c s)) = p2p_enabled c"
  using commands_keep(3) [of c] by (simp_all add: start_ap_def keeps_cmd_def)

lemma add_placed_rest:
  assumes "add_placed v addr mode c s = (ret, c1, s1)" "peers_ok s"
  shows "peers_ok s1 \<and> p2p_enabled c1 = p2p_enabled c"
proof -
  have k: "p2p_enabled (snd (rsi_set_vap_capabilities mode addr vap st c)) = p2p_enabled c" for vap st
    using commands_keep(5) [of c mode addr vap st] by (simp add: keeps_cmd_def)
  have p: "peers_ok (snd (place v s)) = peers_ok s" by (simp add: place_def peers_ok_def Let_def)
  have cl: "peers_ok t \<Longrightarrow> peers_ok (clear_peers n t)" for t :: "'a vif_common_scheme" and n
    by (simp add: clear_peers_def) (simp add: peers_ok_def)
  obtain i t where t: "place v s = (i, t)" by fastforce
  obtain vap st prev where vap: "vap_of (p2p_enabled c) mode (last_vap_id s) = (vap, st, prev)" by (metis surj_pair)
  obtain r c' where r: "rsi_set_vap_capabilities mode addr vap st c = (r, c')" by fastforce
  show ?thesis using assms p k [of vap st] unfolding add_placed_def t vap
    by (auto simp: r Let_def split_def intro!: cl split: if_split_asm)
qed

lemma add_interface_ok:
  assumes "rsi_mac80211_add_interface v addr c s = Some (ret, c1, s1)" "tables_ok (c, s)" "vif_type v \<in> {NL80211_IFTYPE_STATION, NL80211_IFTYPE_AP}"
  shows "tables_ok (c1, s1)"
proof (cases "sc_nvifs s = 0")
  case True
  let ?s0 = "s\<lparr>uapsd_flag := enabled_uapsd s, encap_flag := (vif_type v = NL80211_IFTYPE_STATION \<and> enable_encap_offload s)\<rparr>"
  obtain mode where m: "add_placed v addr mode c ?s0 = (ret, c1, s1)"
    using assms(1,3) True by (auto simp: rsi_mac80211_add_interface_def intf_mode_def p2p_kind_def Let_def split: if_split_asm)
  have vs: "rx_vifs s = [None, None, None]" using assms(2) True by (auto simp: tables_ok_def vifs_ok_def split: if_split_asm)
  obtain v1 where "sc_nvifs s1 = 1" "vif_type v1 = vif_type v" "rx_vifs s1 = [Some v1, None, None]"
    using add_placed_table [OF m] True vs by auto
  then have "vifs_ok s1" using assms(3) by (auto simp: vifs_ok_def)
  then show ?thesis using add_placed_rest [OF m] assms(2) by (simp add: tables_ok_def)
next
  case False
  then show ?thesis using assms by (auto simp: rsi_mac80211_add_interface_def tables_ok_def Let_def split: if_split_asm)
qed

lemma remove_interface_ok:
  assumes "tables_ok (c, s)"
  shows "tables_ok (rsi_mac80211_remove_interface (Some 0) addr c s)"
proof -
  have k: "p2p_enabled (snd (rsi_set_vap_capabilities mode addr vap st c)) = p2p_enabled c" for mode vap st
    using commands_keep(5) [of c mode addr vap st] by (simp add: keeps_cmd_def)
  obtain v where v: "rx_vifs s = [v, None, None]" "sc_nvifs s = (if v = None then 0 else 1)"
      "map_option vif_type v \<in> {None, Some NL80211_IFTYPE_STATION, Some NL80211_IFTYPE_AP}"
    using assms by (auto simp: tables_ok_def vifs_ok_def)
  show ?thesis
  proof (cases v)
    case None
    then show ?thesis using assms v by (simp add: rsi_mac80211_remove_interface_def)
  next
    case (Some w)
    then obtain mode where "removed_mode (vif_type w) = Some mode" using v(3) by (auto simp: removed_mode_def)
    then show ?thesis using assms v Some k
      by (simp add: rsi_mac80211_remove_interface_def tables_ok_def vifs_ok_def peers_ok_def Let_def)
  qed
qed

lemma change_interface_ok:
  assumes "rsi_mac80211_change_interface 0 addr ty c s = Some (st, c1, s1)" "tables_ok (c, s)" "ty \<in> {NL80211_IFTYPE_STATION, NL80211_IFTYPE_AP}"
  shows "tables_ok (c1, s1)"
proof -
  have k: "p2p_enabled (snd (rsi_set_vap_capabilities mode addr vap st e)) = p2p_enabled e" for mode vap st e
    using commands_keep(5) [of e mode addr vap st] by (simp add: keeps_cmd_def)
  have t: "vifs_ok s \<Longrightarrow> vifs_ok (set_vif 0 (\<lambda>v. v\<lparr>vif_type := ty\<rparr>) s)" using assms(3) by (auto simp: vifs_ok_def)
  show ?thesis using assms t k unfolding rsi_mac80211_change_interface_def Let_def
    by (auto simp: tables_ok_def removed_mode_def split_def prod_eq_iff split: option.splits if_split_asm)
qed

subsection \<open>Every callback\<close>

definition all_keep :: "('z peer_state \<Rightarrow> 'z peer_state option) list \<Rightarrow> bool" where
  "all_keep fs \<longleftrightarrow> (\<forall>f\<in>set fs. keeps_shape f)"

lemma all_keep_simps:
  "all_keep []" "all_keep (f # fs) \<longleftrightarrow> keeps_shape f \<and> all_keep fs" "all_keep (fs @ gs) \<longleftrightarrow> all_keep fs \<and> all_keep gs"
  "all_keep (if p then fs else gs) \<longleftrightarrow> (p \<longrightarrow> all_keep fs) \<and> (\<not> p \<longrightarrow> all_keep gs)"
  by (auto simp: all_keep_def)

lemma bss_info_ok:
  assumes "rsi_mac80211_bss_info_changed ch 0 addr b c s = Some y" "tables_ok (c, s)"
  shows "tables_ok y"
proof -
  obtain v where v: "rx_vifs s ! 0 = Some v" using assms(1) by (auto simp: rsi_mac80211_bss_info_changed_def split: option.splits)
  have q: "keeps_shape (silent (\<lambda>s :: 'a vif_common_scheme. s\<lparr>vif_cqm := m\<rparr>))" for m by (simp add: keeps_shape_def silent_def same_shape_def)
  have e: "keeps_shape (\<lambda>x :: 'a vif_state. Some ((fst x)\<lparr>beacon_enabled := f\<rparr>, snd x))" for f by (simp add: keeps_shape_def same_shape_def)
  have a: "keeps_shape (\<lambda>x :: 'a vif_state. Some (fst x, if p x then (snd x)\<lparr>auto_chan_sel := False\<rparr> else snd x))" for p by (simp add: keeps_shape_def same_shape_def)
  have u: "keeps_shape (\<lambda>x :: 'a vif_state. issue rsi_send_vap_dynamic_update ((fst x)\<lparr>use_protection := f\<rparr>, snd x))" for f
    using commands_keep(4) by (simp add: keeps_shape_def same_shape_def issue_def keeps_cmd_def)
  define fs where "fs = ([silent (on_basic_rates ch b)] @
      (if vif_type v = NL80211_IFTYPE_STATION \<and> CHANGED_ASSOC \<in> ch then [on_assoc v b] else []) @
      (if vif_type v = NL80211_IFTYPE_STATION then [on_bssid ch v b] else []) @
      (if vif_type v = NL80211_IFTYPE_STATION \<and> CHANGED_ASSOC \<in> ch then [] else [on_color ch v b]) @
      (if vif_type v = NL80211_IFTYPE_STATION \<and> he_support b \<and> CHANGED_QOS \<in> ch then [issue rsi_load_radio_caps] else []) @
      (if vif_type v = NL80211_IFTYPE_STATION \<and> CHANGED_CQM \<in> ch
       then [silent (\<lambda>s :: 'a vif_common_scheme. s\<lparr>vif_cqm := \<lparr>last_cqm_event_rssi = 0, rssi_thold = cqm_rssi_thold b, rssi_hyst = cqm_rssi_hyst b\<rparr>\<rparr>)] else []) @
      (if CHANGED_BEACON_INT \<in> ch then [on_beacon_int v addr b] else []) @
      (if CHANGED_BEACON_ENABLED \<in> ch \<and> ap_kind v then [\<lambda>x. Some ((fst x)\<lparr>beacon_enabled := enable_beacon b\<rparr>, snd x)] else []) @
      [\<lambda>x. Some (fst x, if vif_type v = NL80211_IFTYPE_AP \<and> beacon_enabled (fst x) \<and> auto_chan_sel (snd x)
                         then (snd x)\<lparr>auto_chan_sel := False\<rparr> else snd x)] @
      (if CHANGED_ERP_CTS_PROT \<in> ch
       then [\<lambda>x. issue rsi_send_vap_dynamic_update ((fst x)\<lparr>use_protection := use_cts_prot b\<rparr>, snd x)] else []))"
  have "all_keep fs" unfolding fs_def
    by (simp only: all_keep_simps small_keeps(8) on_assoc_keeps rest_keeps keeps_shape_cmd [OF commands_keep(1)] q e a u simp_thms)
  then have k: "keeps_ok (steps fs)" by (intro keeps_ok_steps keeps_okI) (simp add: all_keep_def)
  have "rsi_mac80211_bss_info_changed ch 0 addr b c s = (if fsm_state c \<noteq> FSM_MAC_INIT_DONE then Some (c, s) else steps fs (c, s))"
    unfolding rsi_mac80211_bss_info_changed_def v fs_def Let_def option.case by (simp only: conj_assoc)
  then show ?thesis using assms keeps_okD [OF k, of "(c, s)" y] by (simp split: if_split_asm)
qed

lemma up_down_ok: "tables_ok (c, s) \<Longrightarrow> tables_ok (rsi_mac80211_start c s)" "tables_ok (c, s) \<Longrightarrow> tables_ok (rsi_mac80211_stop c s)"
  using commands_keep(3)
  by (auto simp: rsi_mac80211_start_def rsi_mac80211_stop_def keeps_cmd_def tables_ok_def vifs_ok_def peers_ok_def with_power_def Let_def)

lemma call_ok: "ordinary cb \<Longrightarrow> keeps_ok (call cb)"
  unfolding keeps_ok_def
proof (intro allI impI)
  fix x y :: "'a vif_state" assume o: "ordinary cb" "tables_ok x" "call cb x = Some y"
  obtain c s where x: "x = (c, s)" by fastforce
  show "tables_ok y"
  proof (cases cb)
    case (Add_Interface v addr)
    then show ?thesis using o x add_interface_ok [of v addr c s _ "fst y" "snd y"] by (auto simp: ordinary_def)
  next
    case (Change_Interface addr ty)
    then show ?thesis using o x change_interface_ok [of addr ty c s _ "fst y" "snd y"] by (auto simp: ordinary_def)
  next
    case (Sta_Add sta)
    then show ?thesis using o x sta_add_ok [of _ sta x] by (auto split: option.splits)
  next
    case (Sta_Remove sta)
    then show ?thesis using o x sta_remove_ok [of _ sta x y] by (auto split: option.splits)
  next
    case (Ampdu_Action act addr tid ssn n)
    then show ?thesis using o x ampdu_ok [of c s] by (auto split: option.splits)
  next
    case (Bss_Changed ch addr b)
    then show ?thesis using o x bss_info_ok [of ch addr b c s y] by simp
  qed (use o x up_down_ok remove_interface_ok in auto)
qed

text \<open>
  C7. Whatever callbacks mac80211 makes, in whatever order, for a station or an access point: the driver keeps at most one interface,
  at place 0 exactly when its count is 1, so that the interface added last is there exactly then; and the view the key functions have of the
  stations stays that of the table.
\<close>
theorem tables_well_formed:
  assumes "tables_ok x" "\<forall>cb\<in>set cbs. ordinary cb" "steps (map call cbs) x = Some y"
  shows "tables_ok y \<and> (last_vif (snd y) \<noteq> None \<longleftrightarrow> sc_nvifs (snd y) = 1)"
proof -
  have "keeps_ok (steps (map call cbs))" by (rule keeps_ok_steps) (use assms(2) call_ok in auto)
  then have "tables_ok y" using keeps_okD assms(1,3) by blast
  then show ?thesis by (auto simp: tables_ok_def vifs_ok_def last_vif_def)
qed

section \<open>Witnesses\<close>

definition example_vifs :: vif_common where
  "example_vifs = put_peers (peers example_peers) ((peer_common.extend example_peers
     (vif_common.fields 0 0 0 False False False False False \<lparr>last_cqm_event_rssi = 0, rssi_thold = 0, rssi_hyst = 0\<rparr>))
     \<lparr>rx_vifs := [None, None, None], sc_nvifs := 0\<rparr>)"



definition example_ready :: mgmt_common where
  "example_ready = (example_mgmt 1)\<lparr>fsm_state := FSM_MAC_INIT_DONE, min_rate := 0xffff\<rparr>"

lemma example_vifs_fields [simp]:
  "rx_vifs example_vifs = [None, None, None]" "sc_nvifs example_vifs = 0" "kz_ok example_vifs = (True, True)" "assoc_capability example_vifs = BIT 4"
  "bss_qos example_vifs = False" "length (peers example_vifs) = 33"
  by (simp_all add: example_vifs_def put_peers_def peer_common.defs example_peers_def vif_common.defs scan_common.defs example_scanning_def chan_common.defs
      example_scan_def example_chan_def rate_common.defs example_rates_def)

lemma example_ready_fields [simp]:
  "fsm_state example_ready = FSM_MAC_INIT_DONE" "mgmt_common.min_rate example_ready = 0xffff" "all_alloc example_ready" "mgmt_queue example_ready = []"
  "p2p_enabled example_ready = False" "driver_mode example_ready = 1"
  by (simp_all add: example_ready_def example_mgmt_def all_alloc_def)



lemma example_add:
  assumes "vif_type v \<in> {NL80211_IFTYPE_STATION, NL80211_IFTYPE_MONITOR}"
  shows "\<exists>c1 s1. rsi_mac80211_add_interface v [2, 0, 0, 0, 0, 9] example_ready example_vifs = Some (0, c1, s1)"
proof -
  have "rsi_set_vap_capabilities mode addr vap st example_ready = (0, snd (rsi_set_vap_capabilities mode addr vap st example_ready))" for mode addr vap st
    by (simp add: rsi_set_vap_capabilities_def send_command_def alloc_skb_def queue_internal_def Let_def example_ready_def example_mgmt_def)
  then have r: "\<exists>d. rsi_set_vap_capabilities mode addr vap st example_ready = (0, d)" for mode addr vap st by blast
  obtain d where "rsi_set_vap_capabilities 1 [2, 0, 0, 0, 0, 9] 0 1 example_ready = (0, d)" using r by blast
  moreover have "\<not> ap_kind v" "\<not> p2p_kind (vif_type v)" "intf_mode (vif_type v) = Some 1"
    using assms by (auto simp: ap_kind_def p2p_kind_def intf_mode_def)
  ultimately show ?thesis
    by (simp add: rsi_mac80211_add_interface_def add_placed_def place_def vap_of_def Let_def)
qed

lemma interface_roundtrip_witness:
  "\<exists>c1 s1. rsi_mac80211_add_interface example_vif [2, 0, 0, 0, 0, 9] example_ready example_vifs = Some (0, c1, s1) \<and>
    rx_vifs (snd (rsi_mac80211_remove_interface (Some 0) [2, 0, 0, 0, 0, 9] c1 s1)) = [None, None, None] \<and>
    sc_nvifs (snd (rsi_mac80211_remove_interface (Some 0) [2, 0, 0, 0, 0, 9] c1 s1)) = 0"
proof -
  obtain c1 s1 where a: "rsi_mac80211_add_interface example_vif [2, 0, 0, 0, 0, 9] example_ready example_vifs = Some (0, c1, s1)"
    using example_add [of example_vif] by (auto simp: example_vif_def)
  obtain c2 s2 where r: "rsi_mac80211_remove_interface (Some 0) [2, 0, 0, 0, 0, 9] c1 s1 = (c2, s2)" by fastforce
  have "removed_mode (vif_type example_vif) \<noteq> None" by (simp add: removed_mode_def example_vif_def)
  then show ?thesis using a r interface_roundtrip [OF a, of c2 s2] by simp
qed

lemma removed_monitor_dangles_witness:
  "\<exists>c1 s1. rsi_mac80211_add_interface (example_vif\<lparr>vif_type := NL80211_IFTYPE_MONITOR\<rparr>) [2, 0, 0, 0, 0, 9] example_ready example_vifs = Some (0, c1, s1) \<and>
    sc_nvifs (snd (rsi_mac80211_remove_interface (Some 0) [2, 0, 0, 0, 0, 9] c1 s1)) = 0 \<and>
    map_option vif_type (rx_vifs (snd (rsi_mac80211_remove_interface (Some 0) [2, 0, 0, 0, 0, 9] c1 s1)) ! 0) = Some NL80211_IFTYPE_MONITOR"
proof -
  obtain c1 s1 where a: "rsi_mac80211_add_interface (example_vif\<lparr>vif_type := NL80211_IFTYPE_MONITOR\<rparr>) [2, 0, 0, 0, 0, 9] example_ready example_vifs = Some (0, c1, s1)"
    using example_add [of "example_vif\<lparr>vif_type := NL80211_IFTYPE_MONITOR\<rparr>"] by auto
  obtain c2 s2 where r: "rsi_mac80211_remove_interface (Some 0) [2, 0, 0, 0, 0, 9] c1 s1 = (c2, s2)" by fastforce
  show ?thesis using a r removed_monitor_dangles [OF a r] by simp
qed

lemma tables_well_formed_witness:
  "\<exists>y. steps (map call [Add_Interface example_vif [2, 0, 0, 0, 0, 9], Go_Down, Remove_Interface [2, 0, 0, 0, 0, 9]]) (example_ready, example_vifs) = Some y \<and>
    tables_ok y"
proof -
  let ?cbs = "[Add_Interface example_vif [2, 0, 0, 0, 0, 9], Go_Down, Remove_Interface [2, 0, 0, 0, 0, 9]]"
  have "tables_ok (example_ready, example_vifs)"
    by (simp add: tables_ok_def vifs_ok_def) (simp add: example_vifs_def example_peers_fields)
  moreover have "\<forall>cb\<in>set ?cbs. ordinary cb" by (simp add: ordinary_def example_vif_def)
  moreover obtain c1 s1 where "rsi_mac80211_add_interface example_vif [2, 0, 0, 0, 0, 9] example_ready example_vifs = Some (0, c1, s1)"
    using example_add [of example_vif] by (auto simp: example_vif_def)
  then have "\<exists>y. steps (map call ?cbs) (example_ready, example_vifs) = Some y" by simp
  ultimately show ?thesis using tables_well_formed [of "(example_ready, example_vifs)" ?cbs] by blast
qed

end
