(* ===== verification/Twt_Frames.thy ===== *)
theory Twt_Frames
  imports Mgmt_Frames
begin

text \<open>
  Target wake time (TWT) of rsi/rsi_91x_mgmt.c and rsi/rsi_main.h, compiled with \<open>CONFIG_TWT_SUPPORT\<close>: a
  station and its access point agree on when the station is awake. This theory holds the bytes of the
  frames and the arithmetic of durations and intervals; \<open>Twt\<close> has the negotiation.

  A bit field of n bits is a word of n bits, so that storing a wider value truncates it as in C. Divisions by
  zero (\<open>div64_u64\<close>) kill the kernel: the value is None.
\<close>

section \<open>Structures\<close>

record twt_config =
  cfg_wake_duration :: u8
  wake_duration_tol :: u8
  cfg_wake_int_exp :: u8
  wake_int_exp_tol :: u8
  cfg_mantissa :: u16
  mantissa_tol :: u16
  cfg_implicit :: u8
  un_announced :: u8
  triggered :: u8
  cfg_negotiation :: u8
  cfg_channel :: u8
  cfg_protection :: u8
  cfg_flow_id :: u8
  restrict_tx_outside_tsp :: u8
  retry_limit :: u8
  retry_interval :: u8
  req_type :: u8
  cfg_enable :: u8
  duration_unit :: u8
  cfg_rx_latency :: u32
  cfg_beacon_wake_up :: u8

record twt_element =
  eid :: u8
  elength :: u8
  ndp_pi :: "1 word"
  resp_pm_mode :: "1 word"
  negotiation_type :: "2 word"
  info_frame_dis :: "1 word"
  wake_duration_unit :: "1 word"
  control_reserved :: "2 word"
  twt_req :: "1 word"
  setup_command :: "3 word"
  trigger :: "1 word"
  implicit_twt :: "1 word"
  flow_type :: "1 word"
  twt_flow_id :: "3 word"
  wi_exp :: "5 word"
  twt_protection :: "1 word"
  target_wake_time :: "u32 \<times> u32"
  nom_min_wake_duration :: u8
  wake_interval_mantissa :: u16
  twt_channel :: u8

record twt_setup_frame =
  action_category :: u8
  action_type :: u8
  dialog_token :: u8
  twt_el :: twt_element

record twt_selection =
  sel_enable :: u8
  expected_tx_throughput :: u16
  tx_latency :: u32
  rx_latency :: u32
  device_avg_throughput :: u16
  extra_wake_percent :: u8
  tolerable_deviation :: u8
  default_wake_interval_ms :: u32
  default_min_wake_ms :: u32
  beacon_wake_up_count :: u8

text \<open>\<open>enum ieee80211_twt_setup_cmd\<close>, as it is compared with the 3 bits of a frame and the byte of a configuration.\<close>

abbreviation (input) SETUP_REQUEST :: "'a::len word" where "SETUP_REQUEST \<equiv> 0"
abbreviation (input) SETUP_SUGGEST :: "'a::len word" where "SETUP_SUGGEST \<equiv> 1"
abbreviation (input) SETUP_DEMAND :: "'a::len word" where "SETUP_DEMAND \<equiv> 2"
abbreviation (input) SETUP_ACCEPT :: "3 word" where "SETUP_ACCEPT \<equiv> 4"
abbreviation (input) SETUP_ALTERNATE :: "3 word" where "SETUP_ALTERNATE \<equiv> 5"
abbreviation (input) SETUP_DICTATE :: "3 word" where "SETUP_DICTATE \<equiv> 6"
abbreviation (input) SETUP_REJECT :: "3 word" where "SETUP_REJECT \<equiv> 7"

abbreviation (input) WLAN_CATEGORY_S1G :: u8 where "WLAN_CATEGORY_S1G \<equiv> 22"
abbreviation (input) WLAN_S1G_TWT_SETUP :: u8 where "WLAN_S1G_TWT_SETUP \<equiv> 6"
abbreviation (input) WLAN_S1G_TWT_TEARDOWN :: u8 where "WLAN_S1G_TWT_TEARDOWN \<equiv> 7"
abbreviation (input) TWT_INFORMATION_ACTION :: u8 where "TWT_INFORMATION_ACTION \<equiv> 11"
abbreviation (input) WLAN_EID_S1G_TWT :: u8 where "WLAN_EID_S1G_TWT \<equiv> 216"
abbreviation (input) TWT_CONFIG :: u16 where "TWT_CONFIG \<equiv> 75"

section \<open>The setup frame\<close>

definition control_bits :: "twt_element \<Rightarrow> u8" where
  "control_bits e =
     ucast (ndp_pi e) OR push_bit 1 (ucast (resp_pm_mode e)) OR push_bit 2 (ucast (negotiation_type e)) OR
     push_bit 4 (ucast (info_frame_dis e)) OR push_bit 5 (ucast (wake_duration_unit e)) OR push_bit 6 (ucast (control_reserved e))"

definition req_type_bits :: "twt_element \<Rightarrow> u16" where
  "req_type_bits e =
     ucast (twt_req e) OR push_bit 1 (ucast (setup_command e)) OR push_bit 4 (ucast (trigger e)) OR push_bit 5 (ucast (implicit_twt e)) OR
     push_bit 6 (ucast (flow_type e)) OR push_bit 7 (ucast (twt_flow_id e)) OR push_bit 10 (ucast (wi_exp e)) OR
     push_bit 15 (ucast (twt_protection e))"

definition element_bytes :: "twt_element \<Rightarrow> u8 list" where
  "element_bytes e =
     [eid e, elength e, control_bits e] @ put_le16 (req_type_bits e) @
     put_le32 (fst (target_wake_time e)) @ put_le32 (snd (target_wake_time e)) @
     [nom_min_wake_duration e] @ put_le16 (wake_interval_mantissa e) @ [twt_channel e]"

definition setup_bytes :: "twt_setup_frame \<Rightarrow> u8 list" where
  "setup_bytes f = [action_category f, action_type f, dialog_token f] @ element_bytes (twt_el f)"

definition element_at :: "ptr \<Rightarrow> twt_element" where
  "element_at p =
     (let c = p 2; r = get_le16 p 3
      in \<lparr>eid = p 0, elength = p 1, ndp_pi = ucast c, resp_pm_mode = ucast (drop_bit 1 c), negotiation_type = ucast (drop_bit 2 c),
          info_frame_dis = ucast (drop_bit 4 c), wake_duration_unit = ucast (drop_bit 5 c), control_reserved = ucast (drop_bit 6 c),
          twt_req = ucast r, setup_command = ucast (drop_bit 1 r), trigger = ucast (drop_bit 4 r), implicit_twt = ucast (drop_bit 5 r),
          flow_type = ucast (drop_bit 6 r), twt_flow_id = ucast (drop_bit 7 r), wi_exp = ucast (drop_bit 10 r),
          twt_protection = ucast (drop_bit 15 r), target_wake_time = (get_le32 p 5, get_le32 p 9), nom_min_wake_duration = p 13,
          wake_interval_mantissa = get_le16 p 14, twt_channel = p 16\<rparr>)"

definition setup_at :: "ptr \<Rightarrow> twt_setup_frame" where
  "setup_at p = \<lparr>action_category = p 0, action_type = p 1, dialog_token = p 2, twt_el = element_at (ptr_add p 3)\<rparr>"

text \<open>
  The request \<open>send_twt_setup_frame\<close> builds. With \<open>update\<close> it answers a response of the access point and takes
  over its parameters.
\<close>

definition blank_request :: twt_element where
  "blank_request =
     \<lparr>eid = WLAN_EID_S1G_TWT, elength = 15, ndp_pi = 0, resp_pm_mode = 0, negotiation_type = 0, info_frame_dis = 1, wake_duration_unit = 0,
      control_reserved = 0, twt_req = 1, setup_command = SETUP_REQUEST, trigger = 0, implicit_twt = 0, flow_type = 0, twt_flow_id = 0,
      wi_exp = 0, twt_protection = 0, target_wake_time = (0, 0), nom_min_wake_duration = 0, wake_interval_mantissa = 0, twt_channel = 0\<rparr>"

definition configured_request :: "twt_config \<Rightarrow> twt_element" where
  "configured_request u =
     blank_request\<lparr>negotiation_type := ucast (cfg_negotiation u), setup_command := ucast (req_type u), trigger := ucast (triggered u),
       implicit_twt := ucast (cfg_implicit u), flow_type := ucast (un_announced u), twt_flow_id := ucast (cfg_flow_id u),
       twt_protection := ucast (cfg_protection u), wake_duration_unit := ucast (duration_unit u), wi_exp := ucast (cfg_wake_int_exp u),
       nom_min_wake_duration := cfg_wake_duration u, wake_interval_mantissa := cfg_mantissa u\<rparr>"

definition answer_request :: "twt_config \<Rightarrow> twt_element \<Rightarrow> twt_element" where
  "answer_request u r =
     (let e = (configured_request u)\<lparr>wi_exp := wi_exp r, nom_min_wake_duration := nom_min_wake_duration r,
                wake_interval_mantissa := wake_interval_mantissa r\<rparr>
      in if req_type u = SETUP_DEMAND \<and> setup_command r = SETUP_ALTERNATE
         then e\<lparr>setup_command := SETUP_SUGGEST, target_wake_time := target_wake_time r, ndp_pi := 1\<rparr> else e)"

definition default_request :: twt_element where
  "default_request = blank_request\<lparr>trigger := 1, implicit_twt := 1, twt_flow_id := 1, wi_exp := 20, nom_min_wake_duration := 40,
     wake_interval_mantissa := 5\<rparr>"

definition action_header :: "u8 list \<Rightarrow> u8 list \<Rightarrow> u16 \<Rightarrow> u8 list" where
  "action_header bssid mac seq = put_le16 0x00D0 @ put_le16 0 @ bssid @ mac @ bssid @ put_le16 (push_bit 4 seq)"

definition setup_frame :: "u8 list \<Rightarrow> u8 list \<Rightarrow> u16 \<Rightarrow> twt_element \<Rightarrow> u8 list" where
  "setup_frame bssid mac seq e =
     action_header bssid mac seq @
     setup_bytes \<lparr>action_category = WLAN_CATEGORY_S1G, action_type = WLAN_S1G_TWT_SETUP, dialog_token = 1, twt_el = e\<rparr>"

section \<open>The other frames\<close>

text \<open>\<open>send_twt_teardown_frame\<close>: the flow 0xFF stands for all of them.\<close>

definition teardown_frame :: "u8 list \<Rightarrow> u8 list \<Rightarrow> u16 \<Rightarrow> u8 \<Rightarrow> u8 \<Rightarrow> u8 list" where
  "teardown_frame bssid mac seq flow negotiation =
     action_header bssid mac seq @
     [WLAN_CATEGORY_S1G, WLAN_S1G_TWT_TEARDOWN,
      (if flow \<noteq> 0xFF then flow AND 7 else 0) OR push_bit 5 (negotiation AND 3) OR (if flow = 0xFF then BIT 7 else 0)]"

text \<open>
  \<open>send_twt_information_frame\<close>: the duration, in microseconds, is left out when the session is suspended for
  good. Behind the descriptor the frame asks for a confirmation.
\<close>

datatype twt_action = SUSPEND_INDEFINITELY | SUSPEND_FOR_DURATION | RESUME_IMMEDIATELY

definition action_num :: "twt_action \<Rightarrow> u16" where
  "action_num a = (case a of SUSPEND_INDEFINITELY \<Rightarrow> 0 | SUSPEND_FOR_DURATION \<Rightarrow> 1 | RESUME_IMMEDIATELY \<Rightarrow> 2)"

definition information_frame :: "u8 list \<Rightarrow> u8 list \<Rightarrow> u16 \<Rightarrow> u8 \<Rightarrow> twt_action \<Rightarrow> u64 \<Rightarrow> u8 list" where
  "information_frame bssid mac seq flow act duration =
     action_header bssid mac seq @
     (if act = SUSPEND_INDEFINITELY then [WLAN_CATEGORY_S1G, TWT_INFORMATION_ACTION, flow AND 7]
      else [WLAN_CATEGORY_S1G, TWT_INFORMATION_ACTION, (flow AND 7) OR push_bit 5 3] @ put_le64 (duration * 1000))"

definition confirmed_packet :: "u8 \<Rightarrow> twt_action \<Rightarrow> u8 list \<Rightarrow> u8 list" where
  "confirmed_packet flow act d =
     (let d1 = d[3 := d ! 3 OR BIT 2]      \<comment> \<open>\<open>RSI_DESC_REQUIRE_CFM_TO_HOST\<close>, \<open>BIT(10)\<close> of word 1\<close>
      in put_at 16 ([4, flow AND 7] @ put_le16 (action_num act)) d1)"

text \<open>
  \<open>send_twt_session_details_to_lmac\<close>. The interval multiplies with \<open>1 << exp\<close>, an \<open>int\<close>, which is widened with its
  sign; \<open>div64_u64\<close> rounds down, and the difference of the latencies wraps.
\<close>

definition session_interval :: "twt_element \<Rightarrow> u64" where
  "session_interval e = ucast (wake_interval_mantissa e) * scast (push_bit (unat (wi_exp e)) (1 :: 32 word))"

definition session_latency :: "twt_config \<Rightarrow> u64 \<Rightarrow> u32" where
  "session_latency u interval = ucast ((ucast (cfg_rx_latency u) - interval div 1024) div 100)"

definition nominal_duration :: "twt_element \<Rightarrow> u32" where
  "nominal_duration e = ucast (nom_min_wake_duration e) * (if wake_duration_unit e \<noteq> 0 then 1024 else 256)"

definition session_frame :: "bool \<Rightarrow> twt_config \<Rightarrow> twt_element \<Rightarrow> u8 list" where
  "session_frame auto u e =
     (let interval = session_interval e; latency = session_latency u interval
      in put_words [len_queue 24 RSI_WIFI_MGMT_Q, TWT_CONFIG, push_bit 8 (ucast (restrict_tx_outside_tsp u)),
                    (if auto then ucast latency else 0), (if auto then ucast (cfg_beacon_wake_up u) else 0),
                    (if auto then ucast (drop_bit 16 latency) else 0), 0, 0] @
         put_le16 (1 OR push_bit 1 (ucast (negotiation_type e AND 1))) @ put_le16 (req_type_bits e) @
         put_le32 (fst (target_wake_time e)) @ put_le32 (snd (target_wake_time e)) @ put_le32 (nominal_duration e) @
         put_le32 (ucast interval) @ put_le32 (ucast (drop_bit 32 interval)))"

definition session_end_frame :: "twt_config \<Rightarrow> u8 \<Rightarrow> u8 list" where
  "session_end_frame u flow =
     put_words [len_queue 24 RSI_WIFI_MGMT_Q, TWT_CONFIG, push_bit 8 (ucast (restrict_tx_outside_tsp u)), 0, 0, 0, 0, 0] @
     put_le16 0 @ put_le16 (push_bit 7 (ucast (flow AND 7))) @ replicate 20 0"

section \<open>Durations and intervals\<close>

text \<open>
  A wake interval, in microseconds, is a mantissa times a power of two. The exponent of a configuration has 8 bits;
  what a 64-bit machine shifts by is its value modulo 64.
\<close>

definition wake_interval_us :: "u16 \<Rightarrow> nat \<Rightarrow> u64" where
  "wake_interval_us m e = ucast m * push_bit (e mod 64) 1"

definition wake_duration_us :: "u8 \<Rightarrow> bool \<Rightarrow> u32" where
  "wake_duration_us d long = ucast d * (if long then 1024 else 256)"

definition response_interval :: "twt_element \<Rightarrow> u64" where
  "response_interval e = wake_interval_us (wake_interval_mantissa e) (unat (wi_exp e))"

definition response_duration :: "twt_element \<Rightarrow> u32" where
  "response_duration e = wake_duration_us (nom_min_wake_duration e) (wake_duration_unit e \<noteq> 0)"

definition config_interval :: "twt_config \<Rightarrow> u64" where
  "config_interval u = wake_interval_us (cfg_mantissa u) (unat (cfg_wake_int_exp u))"

definition config_duration :: "twt_config \<Rightarrow> u32" where
  "config_duration u = wake_duration_us (cfg_wake_duration u) (duration_unit u \<noteq> 0)"

text \<open>\<open>validate_unsupported_twt_resp_params\<close>: 1 for a response the driver does not support.\<close>

definition validate_unsupported :: "bool \<Rightarrow> twt_setup_frame \<Rightarrow> int" where
  "validate_unsupported auto f =
     (let e = twt_el f
      in if twt_req e = 1 \<and> setup_command e < 3 then 1
         else if auto \<and> flow_type e \<noteq> 0 then 1
         else if dialog_token f \<noteq> 1 then 1
         else if negotiation_type e \<noteq> 0 then 1
         else if twt_protection e \<noteq> 0 then 1
         else if nom_min_wake_duration e = 0 \<or> wake_interval_mantissa e = 0 \<or> response_interval e < ucast (response_duration e) then 1
         else 0)"

text \<open>The longest interval the user's latencies allow, in milliseconds.\<close>

definition max_wake_interval :: "twt_selection \<Rightarrow> u32" where
  "max_wake_interval s =
     (let a = rx_latency s; b = tx_latency s; c = default_wake_interval_ms s
      in if b \<noteq> 0 then (if b < a then (if c < b then c else b) else (if c < a then c else a))
         else (if c < a then c else a))"

definition div64 :: "u64 \<Rightarrow> u64 \<Rightarrow> u64 option" where
  [rsi_defs]: "div64 a b = (if b = 0 then None else Some (a div b))"

text \<open>\<open>does_twt_response_match_user_requirement\<close>; \<open>100 - deviation\<close> is an \<open>int\<close> and may be negative.\<close>

definition does_twt_response_match :: "twt_selection \<Rightarrow> twt_config \<Rightarrow> twt_element \<Rightarrow> bool option" where
  "does_twt_response_match s u e =
     (if flow_type e \<noteq> 0 then Some False
      else
        let resp_wi = drop_bit 10 (response_interval e);
            resp_dur = drop_bit 10 (response_duration e);
            req_wi = drop_bit 10 (config_interval u);
            req_dur = drop_bit 10 (config_duration u);
            max_wi = ucast (max_wake_interval s) :: u64;
            above = of_int (100 + uint (tolerable_deviation s)) :: u64;
            below = of_int (100 - uint (tolerable_deviation s)) :: u64
        in if (max_wi * above) div 100 < resp_wi \<or> drop_bit 1 resp_wi < ucast resp_dur then Some False
           else case div64 max_wi resp_wi of
                  None \<Rightarrow> None
                | Some n \<Rightarrow>
                  let periods = (if (ucast n :: u32) = 0 then 1 else ucast n :: u32);
                      duration = ucast periods * ucast resp_dur
                  in case div64 max_wi req_wi of
                       None \<Rightarrow> None
                     | Some k \<Rightarrow>
                       let required = ucast req_dur * k
                       in Some (\<not> (duration < (required * below) div 100 \<or> (required * above) div 100 < duration)))"

definition calculate_min_required_wake_dur :: "twt_selection \<Rightarrow> u32 \<Rightarrow> u64 option" where
  "calculate_min_required_wake_dur s max_ms =
     (case div64 (ucast (expected_tx_throughput s) * ucast max_ms) (ucast (device_avg_throughput s)) of
        None \<Rightarrow> None
      | Some d \<Rightarrow>
        let d1 = (d * (100 + ucast (extra_wake_percent s))) div 100
        in Some (if d1 < ucast (default_min_wake_ms s) then ucast (default_min_wake_ms s) else d1))"

text \<open>
  \<open>use_case_based_twt_params_configuration\<close> with the status it returns. A service period lasts at most 63 units
  of 256 microseconds or 255 units of 1024, and as many periods are planned as the required duration needs.
\<close>

definition period_limit :: "twt_selection \<Rightarrow> twt_config \<Rightarrow> u64 \<Rightarrow> u32 \<times> u8" where
  "period_limit s u needed =
     (if push_bit 2 (uint (expected_tx_throughput s)) < uint (device_avg_throughput s) \<or> duration_unit u = 1
      then (if needed < 64 then ucast needed else 63, 0)
      else (if needed < 256 then ucast needed else 255, if needed < 64 then 0 else 1))"

definition use_case_based_twt_params :: "twt_selection \<Rightarrow> twt_config \<Rightarrow> (int \<times> twt_config) option" where
  "use_case_based_twt_params s u =
     (let max_ms = max_wake_interval s
      in case calculate_min_required_wake_dur s max_ms of
           None \<Rightarrow> None
         | Some needed \<Rightarrow>
           if ucast (drop_bit 1 max_ms) < needed then Some (- 1, u)
           else
             let (per_sp, unit) = period_limit s u needed
             in case div64 needed (ucast per_sp) of
                  None \<Rightarrow> None
                | Some q \<Rightarrow>
                  let n0 = ucast (q + (if needed mod ucast per_sp \<noteq> 0 then 1 else 0)) :: u32;
                      n = (if n0 \<noteq> 0 then n0 else 1);
                      per_us = ucast (push_bit 10 needed div ucast n) :: u32
                  in Some (0, u\<lparr>duration_unit := unit,
                       cfg_wake_duration := (if unit \<noteq> 0 then ucast (drop_bit 10 per_us) else ucast (drop_bit 8 per_us)),
                       cfg_mantissa := ucast ((ucast max_ms :: u64) div ucast n), cfg_wake_int_exp := 0xA, wake_int_exp_tol := 0xFF,
                       mantissa_tol := 0xFFFF, cfg_implicit := 1, un_announced := 0, triggered := 0, cfg_channel := 0, cfg_protection := 0,
                       restrict_tx_outside_tsp := 1, retry_limit := 3, retry_interval := 10, req_type := 1, cfg_negotiation := 0,
                       cfg_flow_id := 0, cfg_enable := 1, cfg_rx_latency := rx_latency s, cfg_beacon_wake_up := beacon_wake_up_count s\<rparr>))"

section \<open>Reading what was written\<close>

lemma control_fields:
  "ucast (control_bits e) = ndp_pi e" "ucast (drop_bit 1 (control_bits e)) = resp_pm_mode e"
  "ucast (drop_bit 2 (control_bits e)) = negotiation_type e" "ucast (drop_bit 4 (control_bits e)) = info_frame_dis e"
  "ucast (drop_bit 5 (control_bits e)) = wake_duration_unit e" "ucast (drop_bit 6 (control_bits e)) = control_reserved e"
  unfolding control_bits_def by (rule bit_word_eqI, auto simp: bit_simps simp del: push_bit_Suc One_nat_def dest: bit_imp_le_length)+

lemma req_type_fields:
  "ucast (req_type_bits e) = twt_req e" "ucast (drop_bit 1 (req_type_bits e)) = setup_command e"
  "ucast (drop_bit 4 (req_type_bits e)) = trigger e" "ucast (drop_bit 5 (req_type_bits e)) = implicit_twt e"
  "ucast (drop_bit 6 (req_type_bits e)) = flow_type e" "ucast (drop_bit 7 (req_type_bits e)) = twt_flow_id e"
  "ucast (drop_bit 10 (req_type_bits e)) = wi_exp e" "ucast (drop_bit 15 (req_type_bits e)) = twt_protection e"
  unfolding req_type_bits_def by (rule bit_word_eqI, auto simp: bit_simps simp del: push_bit_Suc One_nat_def dest: bit_imp_le_length)+

lemmas element_fields = control_fields [unfolded One_nat_def] req_type_fields [unfolded One_nat_def]

lemma le16_join: "ucast (ucast w :: u8) OR push_bit 8 (ucast (ucast (drop_bit 8 w) :: u8)) = (w :: u16)"
  using get_put_le16 [of undefined w "[]"] by (simp add: get_le16_def put_le16_def ptr_of_def)

lemma le32_join:
  "ucast (ucast w :: u8) OR push_bit 8 (ucast (ucast (drop_bit 8 w) :: u8)) OR push_bit 16 (ucast (ucast (drop_bit 16 w) :: u8)) OR
     push_bit 24 (ucast (ucast (drop_bit 24 w) :: u8)) = (w :: u32)"
  using get_put_le32 [of undefined w "[]"] by (simp add: get_le32_def put_le32_def ptr_of_def numeral_eq_Suc)

text \<open>The setup frame written into a packet is read back field by field by whoever receives it: no bit field of the element overlaps or loses a bit, whatever follows the frame.\<close>

theorem twt_setup_roundtrip: "setup_at (ptr_of fill (setup_bytes f @ rest)) = f"
  by (intro twt_setup_frame.equality twt_element.equality)
    (simp_all add: setup_at_def element_at_def setup_bytes_def element_bytes_def ptr_of_def ptr_add_def get_le16_def get_le32_def
      put_le16_def put_le32_def le16_join le32_join element_fields Let_def)

section \<open>The parameters the driver chooses\<close>

lemma periods_fit:
  fixes d M L :: nat
  assumes "0 < d" "2 * d \<le> M" "0 < L" "L \<le> d"
  defines "n \<equiv> d div L + (if d mod L \<noteq> 0 then 1 else 0)"
  shows "0 < n" "n \<le> d" "d \<le> L * n" "d * 1024 div n \<le> L * 1024" "d \<le> n * (M div n)"
proof -
  have q: "d = L * (d div L) + d mod L" "d mod L < L" using assms(3) by simp_all
  have "1 \<le> d div L" using assms(3,4) by (simp add: div_greater_zero_iff Suc_leI)
  then show pos: "0 < n" by (simp add: n_def)
  show le: "d \<le> L * n"
  proof (cases "d mod L = 0")
    case True
    then show ?thesis using q(1) by (simp add: n_def)
  next
    case False
    then have "L * n = L * (d div L) + L" by (simp add: n_def)
    then show ?thesis using q by linarith
  qed
  show "n \<le> d"
  proof (cases "L = 1")
    case True
    then show ?thesis by (simp add: n_def)
  next
    case False
    then have "2 * (d div L) \<le> L * (d div L)" using assms(3) by (intro mult_right_mono) auto
    then have "2 * (d div L) + d mod L \<le> d" using q(1) by linarith
    then show ?thesis using \<open>1 \<le> d div L\<close> by (auto simp: n_def)
  qed
  have "d * 1024 div n \<le> (L * n * 1024) div n" using le by (intro div_le_mono) simp
  also have "\<dots> = L * 1024" using pos by simp
  finally show "d * 1024 div n \<le> L * 1024" .
  have "M mod n < n" "M = n * (M div n) + M mod n" using pos by simp_all
  then show "d \<le> n * (M div n)" using assms(2) \<open>n \<le> d\<close> by linarith
qed

lemma unat_push10: "unat (w :: u64) * 1024 < 2 ^ 64 \<Longrightarrow> unat (push_bit 10 w) = unat w * 1024"
  by (simp add: push_bit_eq_mult unat_word_ariths)

lemma period_limit_facts:
  assumes "period_limit s u needed = (p, long)"
  shows "unat p \<le> unat needed" "unat p \<le> (if long \<noteq> 0 then 255 else 63)" "long = 0 \<or> long = 1"
  using assms by (auto simp: period_limit_def word_less_nat_alt unat_ucast split: if_split_asm)

lemma period_count:
  fixes needed :: u64 and p :: u32
  assumes "0 < unat p" "unat p \<le> unat needed" "2 * unat needed \<le> M" "M < 2 ^ 32"
  defines "n0 \<equiv> ucast (needed div ucast p + (if needed mod ucast p \<noteq> 0 then 1 else 0)) :: u32"
  shows "unat n0 = unat needed div unat p + (if unat needed mod unat p \<noteq> 0 then 1 else 0)"
proof -
  let ?d = "unat needed" and ?L = "unat p"
  let ?k = "?d div ?L + (if ?d mod ?L \<noteq> 0 then 1 else 0)"
  have p: "unat (ucast p :: u64) = ?L" using unat_u32_bound [of p] by (simp add: unat_ucast)
  have k: "?k < 2 ^ 32" using periods_fit(2) [of ?d M ?L] assms(1-4) by auto
  have "unat (needed div ucast p) = ?d div ?L" "unat (needed mod ucast p) = ?d mod ?L" by (simp_all add: unat_div unat_mod p)
  moreover have "unat (q + (if b then 1 else 0)) = unat q + (if b then 1 else 0)" if "unat q + (if b then 1 else 0) < 2 ^ 32"
    for q :: u64 and b using that by (auto simp: unat_word_ariths)
  moreover have "needed mod ucast p \<noteq> 0 \<longleftrightarrow> ?d mod ?L \<noteq> 0" using calculation(2) unat_eq_zero [of "needed mod ucast p"] by presburger
  ultimately have "unat (needed div ucast p + (if needed mod ucast p \<noteq> 0 then 1 else 0)) = ?k"
    using k by presburger
  then show ?thesis using k by (simp add: n0_def unat_ucast)
qed

lemma use_case_fields:
  assumes "use_case_based_twt_params s u = Some (0, u')" "max_wake_interval s < 65536"
  obtains needed L n where "calculate_min_required_wake_dur s (max_wake_interval s) = Some needed"
    "n = unat needed div L + (if unat needed mod L \<noteq> 0 then 1 else 0)" "0 < L" "L \<le> unat needed"
    "2 * unat needed \<le> unat (max_wake_interval s)" "duration_unit u' = 0 \<or> duration_unit u' = 1"
    "L \<le> (if duration_unit u' \<noteq> 0 then 255 else 63)"
    "unat (cfg_wake_duration u') = unat needed * 1024 div n div (if duration_unit u' \<noteq> 0 then 1024 else 256)"
    "unat (cfg_mantissa u') = unat (max_wake_interval s) div n" "cfg_wake_int_exp u' = 10"
proof -
  let ?M = "unat (max_wake_interval s)"
  have M: "?M < 65536" using assms(2) by (simp add: word_less_nat_alt)
  obtain needed where needed: "calculate_min_required_wake_dur s (max_wake_interval s) = Some needed"
      "\<not> ucast (drop_bit 1 (max_wake_interval s)) < needed"
    using assms(1) by (auto simp: use_case_based_twt_params_def Let_def split: option.splits if_split_asm)
  obtain p long where pl: "period_limit s u needed = (p, long)" by (cases "period_limit s u needed")
  let ?d = "unat needed" and ?L = "unat p"
  define n0 where "n0 = (ucast (needed div ucast p + (if needed mod ucast p \<noteq> 0 then 1 else 0)) :: u32)"
  define n where "n = (if n0 \<noteq> 0 then n0 else 1)"
  define per where "per = (ucast (push_bit 10 needed div ucast n) :: u32)"
  have p0: "(ucast p :: u64) \<noteq> 0" and
    dur: "cfg_wake_duration u' = (if long \<noteq> 0 then ucast (drop_bit 10 per) else ucast (drop_bit 8 per))" and
    man: "cfg_mantissa u' = ucast ((ucast (max_wake_interval s) :: u64) div ucast n)" and
    others: "duration_unit u' = long" "cfg_wake_int_exp u' = 10"
    using assms(1) needed pl unfolding use_case_based_twt_params_def
    by (auto simp: Let_def div64_def n0_def n_def per_def split: if_split_asm)
  have L: "0 < ?L" using p0 by (metis unat_gt_0 ucast_0)
  have d2: "2 * ?d \<le> ?M"
    using needed(2) M by (simp add: word_less_nat_alt unat_ucast unat_drop_bit_eq unat_div drop_bit_Suc)
  note lim = period_limit_facts [OF pl]
  let ?n = "?d div ?L + (if ?d mod ?L \<noteq> 0 then 1 else 0)"
  have n0: "unat n0 = ?n" unfolding n0_def by (rule period_count [OF L lim(1) d2]) (use M in simp)
  have fit: "0 < ?n" "?n \<le> ?d" "?d * 1024 div ?n \<le> ?L * 1024"
    using periods_fit(1,2,4) [of ?d ?M ?L] L lim(1) d2 by simp_all
  have n: "unat n = ?n" using n0 fit(1) by (auto simp: n_def)
  have n64: "unat (ucast n :: u64) = ?n" using unat_u32_bound [of n] by (simp add: unat_ucast n)
  have d10: "unat (push_bit 10 needed) = ?d * 1024" using d2 M unat_push10 [of needed] by simp
  have L255: "?L \<le> 255" using lim(2) by (simp split: if_split_asm)
  have per: "unat per = ?d * 1024 div ?n"
  proof -
    have "unat (push_bit 10 needed div ucast n) = ?d * 1024 div ?n" by (simp only: unat_div n64 d10)
    then have "unat per = (?d * 1024 div ?n) mod 2 ^ LENGTH(32)" by (simp only: per_def unat_ucast)
    moreover have "?d * 1024 div ?n < 2 ^ LENGTH(32)" using fit(3) L255 by simp
    ultimately show ?thesis by (simp only: mod_less)
  qed
  have "unat (cfg_wake_duration u') = unat per div (if long \<noteq> 0 then 1024 else 256)"
  proof (cases "long = 0")
    case True
    then have "unat per div 256 < 256" using fit(3) lim(2) by (simp add: per less_mult_imp_div_less)
    then show ?thesis using True by (simp add: dur unat_ucast unat_drop_bit_eq drop_bit_eq_div unat_div)
  next
    case False
    then have "unat per div 1024 < 256" using fit(3) lim(2) by (simp add: per less_mult_imp_div_less)
    then show ?thesis using False by (simp add: dur unat_ucast unat_drop_bit_eq drop_bit_eq_div unat_div)
  qed
  moreover have "unat (cfg_mantissa u') = ?M div ?n"
  proof -
    have "?M div ?n < 65536" using M div_le_dividend [of ?M ?n] by linarith
    moreover have "unat (ucast (max_wake_interval s) :: u64) = ?M" using M by (simp add: unat_ucast)
    moreover have "unat ((ucast (max_wake_interval s) :: u64) div ucast n) = unat (ucast (max_wake_interval s) :: u64) div ?n"
      by (simp only: unat_div n64)
    ultimately have "unat ((ucast (max_wake_interval s) :: u64) div ucast n) = ?M div ?n" "?M div ?n < 2 ^ LENGTH(16)" by simp_all
    then show ?thesis unfolding man by (subst unat_ucast) (simp only: mod_less)
  qed
  ultimately show ?thesis using that [of needed ?n ?L] needed(1) L lim d2 others per by auto
qed

text \<open>C30. A configuration derived from the user's latencies and throughput can be kept: as long as the longest interval allowed fits the 16-bit mantissa, the chosen duration is no longer than the chosen interval, and over the planned number of service periods it adds up to the duration that was required, short of it by less than one unit per period: no field was truncated.\<close>

theorem auto_config_feasible:
  assumes "use_case_based_twt_params s u = Some (0, u')" "max_wake_interval s < 65536"
  shows "\<exists>needed n. calculate_min_required_wake_dur s (max_wake_interval s) = Some needed \<and> 0 < n \<and>
           unat (config_interval u') = unat (max_wake_interval s) div n * 1024 \<and>
           unat (config_duration u') \<le> unat (config_interval u') \<and>
           n * unat (config_duration u') \<le> unat needed * 1024 \<and>
           unat needed * 1024 < n * (unat (config_duration u') + (if duration_unit u' \<noteq> 0 then 1024 else 256))"
proof -
  let ?M = "unat (max_wake_interval s)"
  define unit where "unit = (if duration_unit u' \<noteq> 0 then 1024 else 256 :: nat)"
  have unit: "0 < unit" by (simp add: unit_def)
  obtain needed L n where *: "calculate_min_required_wake_dur s (max_wake_interval s) = Some needed"
    "n = unat needed div L + (if unat needed mod L \<noteq> 0 then 1 else 0)" "0 < L" "L \<le> unat needed" "2 * unat needed \<le> ?M"
    "unat (cfg_wake_duration u') = unat needed * 1024 div n div unit"
    "unat (cfg_mantissa u') = ?M div n" "cfg_wake_int_exp u' = 10"
    using use_case_fields [OF assms] unfolding unit_def by metis
  have fit: "0 < n" "unat needed \<le> n * (?M div n)" using periods_fit(1,5) [of "unat needed" ?M L] * by simp_all
  have wd: "unat (config_duration u') = unat (cfg_wake_duration u') * unit"
    using unat_u8_bound [of "cfg_wake_duration u'"] by (simp add: config_duration_def wake_duration_us_def unat_word_ariths unat_ucast unit_def)
  have wi: "unat (config_interval u') = ?M div n * 1024"
    using unat_u16_bound [of "cfg_mantissa u'"] *(7,8)
    by (simp add: config_interval_def wake_interval_us_def unat_word_ariths unat_ucast push_bit_eq_mult)
  let ?t = "unat needed * 1024 div n"
  have dt: "unat (config_duration u') = ?t div unit * unit" using wd *(6) by simp
  have low: "unat (config_duration u') \<le> ?t" unfolding dt by (rule div_times_less_eq_dividend)
  have high: "?t < unat (config_duration u') + unit"
    unfolding dt using div_mult_mod_eq [of ?t unit] mod_less_divisor [OF unit, of ?t] by linarith
  have nt: "n * ?t \<le> unat needed * 1024" by simp
  have tn: "unat needed * 1024 < n * (?t + 1)" using fit(1) by (simp add: dividend_less_times_div)
  have "n * unat (config_duration u') \<le> unat needed * 1024" using mult_le_mono2 [OF low, of n] nt by linarith
  moreover have "unat needed * 1024 < n * (unat (config_duration u') + unit)"
    using tn mult_le_mono2 [OF Suc_leI [OF high], of n] by simp
  moreover have "unat (config_duration u') \<le> unat (config_interval u')"
  proof -
    have "?t \<le> n * (?M div n) * 1024 div n" using fit(2) by (intro div_le_mono) simp
    then have "?t \<le> ?M div n * 1024" using fit(1) by (simp add: mult.assoc)
    then show ?thesis using low wi by simp
  qed
  ultimately show ?thesis using *(1) fit(1) wi unfolding unit_def by blast
qed

section \<open>The interval announced to the device\<close>

lemma session_shift:
  "n < 32 \<Longrightarrow> (scast (push_bit n (1 :: 32 word)) :: u64) = (if n = 31 then - push_bit n 1 else push_bit n 1)"
proof -
  have "\<forall>n \<in> set [0..<32]. (scast (push_bit n (1 :: 32 word)) :: u64) = (if n = 31 then - push_bit n 1 else push_bit n 1)"
    by code_simp
  then show "n < 32 \<Longrightarrow> ?thesis" by auto
qed

text \<open>
  The device is told the interval that was validated, except for the largest exponent, for which it is told its
  negative: \<open>1 << 31\<close> is a negative \<open>int\<close>.
\<close>

lemma session_interval_wraps: "session_interval e = (if wi_exp e = 31 then - response_interval e else response_interval e)"
proof -
  have n: "unat (wi_exp e) < 32" using unsigned_less [of "wi_exp e"] by simp
  have "wi_exp e = 31 \<longleftrightarrow> unat (wi_exp e) = 31" by (simp add: word_unat_eq_iff)
  then show ?thesis using n session_shift [OF n] by (simp add: session_interval_def response_interval_def wake_interval_us_def)
qed

section \<open>A concrete configuration\<close>

definition example_config :: twt_config where
  "example_config =
     \<lparr>cfg_wake_duration = 200, wake_duration_tol = 0, cfg_wake_int_exp = 10, wake_int_exp_tol = 255, cfg_mantissa = 500,
      mantissa_tol = 0xFFFF, cfg_implicit = 1, un_announced = 0, triggered = 0, cfg_negotiation = 0, cfg_channel = 0, cfg_protection = 0,
      cfg_flow_id = 0, restrict_tx_outside_tsp = 1, retry_limit = 3, retry_interval = 10, req_type = SETUP_SUGGEST, cfg_enable = 1,
      duration_unit = 0, cfg_rx_latency = 2000, cfg_beacon_wake_up = 2\<rparr>"

definition example_selection :: twt_selection where
  "example_selection =
     \<lparr>sel_enable = 1, expected_tx_throughput = 1, tx_latency = 0, rx_latency = 2000, device_avg_throughput = 10, extra_wake_percent = 0,
      tolerable_deviation = 10, default_wake_interval_ms = 1000, default_min_wake_ms = 8, beacon_wake_up_count = 2\<rparr>"

lemma auto_config_feasible_witness:
  "\<exists>u'. use_case_based_twt_params example_selection example_config = Some (0, u') \<and> unat (config_duration u') \<le> unat (config_interval u')"
proof -
  have "\<exists>u'. use_case_based_twt_params example_selection example_config = Some (0, u')"
    by (simp add: use_case_based_twt_params_def example_selection_def example_config_def max_wake_interval_def
        calculate_min_required_wake_dur_def div64_def period_limit_def Let_def)
  moreover have "max_wake_interval example_selection < 65536" by (simp add: max_wake_interval_def example_selection_def)
  ultimately show ?thesis using auto_config_feasible by blast
qed

end
