(* ===== verification/Twt.thy ===== *)
theory Twt
  imports Twt_Frames Power_Save Probe
begin

text \<open>
  The negotiation of a target wake time (rsi/rsi_91x_mgmt.c from \<open>twt_setup_timer_callback\<close> on, \<open>rsi_mgmt_pkt_to_core\<close>, the
  commands of rsi/rsi_91x_nlsock.c): the user or a new connection starts it, a timer repeats the request, the response of
  the access point ends it, and a session that was agreed on is announced to the device.

  A result None stands for a kernel that dies: a division by zero, or the interface that is
  looked up outside its array. The event of the timer happens only while the timer is pending.
\<close>

section \<open>State\<close>

text \<open>The status reported to the user (\<open>twt_current_status\<close>), and the parameters reported with it (\<open>rsi_twt_status_resp\<close>).\<close>

datatype twt_status =
  DEVICE_NOT_IN_CONNECTED_STATE | SETUP_ERR_SESSION_ACTIVE | TEARDOWN_ERR_FLOWID_NOT_MATCHED | TEARDOWN_ERR_NOACTIVE_SESS
| SETUP_SESSION_IN_PROGRESS | SESSION_SUCC | UNSOL_SESSION_SUCC | SETUP_AP_REJECTED | SETUP_RSP_OUTOF_TOL | SETUP_RSP_NOT_MATCHED
| SETUP_UNSUPPORTED_RSP | TEARDOWN_SUCC | AP_TEARDOWN_SUCC | SETUP_FAIL_MAX_RETRIES_REACHED | INACTIVE_DUETO_DISCONNECT
| RESCHEDULE_SUCC | RESCHEDULE_FAIL | AUTO_CONFIG_FAIL

record twt_status_resp =
  app_flow_id :: u8
  app_wake_duration :: u8
  app_duration_unit :: u8
  app_implicit :: u8
  app_triggered :: u8
  app_un_announced :: u8
  app_int_exp :: u8
  app_mantissa :: u16
  app_req_type :: u8

text \<open>
  The part of \<open>struct rsi_hw\<close> TWT works on. Fields of the code that only hold 0 and 1 are booleans. \<open>twt_timer\<close> is
  the delay the timer was armed with last, in milliseconds (None: not pending), \<open>seq_nums\<close> the sequence numbers of the
  interfaces (None: a NULL pointer), \<open>hal\<close>, \<open>room\<close> what \<open>rsi_prepare_mgmt_desc\<close> sees, \<open>app_told\<close> the messages for the user.
\<close>

record twt =
  cmds :: mgmt_common
  pm :: ps_adapter
  hal :: "unit hal_common"
  buf_addr :: nat
  room :: nat
  nvifs :: nat
  seq_nums :: "u16 option list"
  sta_bssid :: "u8 list"
  he_connected :: bool                \<comment> \<open>\<open>ax_params._11ax_enabled\<close>\<close>
  ap_support_twt :: bool
  session_active :: bool
  active_flow_id :: "3 word"
  in_progress :: bool
  retry_count :: u8
  demand_resp_retry :: u8
  current_status :: twt_status
  config :: twt_config
  status_to_app :: twt_status_resp
  ap_info_frames :: bool
  rescheduling :: bool
  user_auto_config :: twt_selection
  auto_config :: bool
  ps_disabled :: bool                 \<comment> \<open>\<open>twt_ps_disable\<close>\<close>
  twt_timer :: "nat option"

section \<open>Sending frames\<close>

text \<open>The interface the driver takes; its sequence number counts on.\<close>

definition latest_vif :: "twt \<Rightarrow> u16 option option" where
  "latest_vif s = (if 0 < nvifs s \<and> nvifs s \<le> length (seq_nums s) then Some (seq_nums s ! (nvifs s - 1)) else None)"

definition next_seq :: "twt \<Rightarrow> u16 \<Rightarrow> twt" where
  "next_seq s n = s\<lparr>seq_nums := (seq_nums s)[nvifs s - 1 := Some (n + 1)]\<rparr>"

text \<open>The frame with its descriptor, for the queue \<open>MGMT_SOFT_Q\<close>.\<close>

definition twt_packet :: "twt \<Rightarrow> u8 list \<Rightarrow> u8 list option" where
  "twt_packet s frame =
     (let (status, skb, _) = rsi_prepare_mgmt_desc (hal s) ((probe_buffer (buf_addr s) (room s) frame)\<lparr>skb_priority := 4\<rparr>)
      in if status = 0 then Some (skb_data skb) else None)"

definition alloc_frame :: "twt \<Rightarrow> bool \<times> twt" where
  "alloc_frame s = (let (ok, c) = alloc_skb (cmds s) in (ok, s\<lparr>cmds := c\<rparr>))"

definition queue_packet :: "twt \<Rightarrow> u8 list \<Rightarrow> twt" where
  "queue_packet s d = s\<lparr>cmds := (cmds s)\<lparr>mgmt_queue := mgmt_queue (cmds s) @ [d], tx_events := Suc (tx_events (cmds s))\<rparr>\<rparr>"

text \<open>
  \<open>send_twt_setup_frame\<close>: the request for the configuration of the user or, given a response, the answer to it. Without a
  configuration it asks for default values, and writes some of them to the configuration.
\<close>

definition default_config :: "twt_config \<Rightarrow> twt_config" where
  "default_config u = u\<lparr>cfg_flow_id := 1, cfg_negotiation := 0, req_type := SETUP_REQUEST, retry_limit := 5\<rparr>"

definition setup_element :: "twt_config \<Rightarrow> twt_element option \<Rightarrow> twt_element" where
  "setup_element u resp =
     (if cfg_enable u = 0 then default_request
      else case resp of None \<Rightarrow> configured_request u | Some r \<Rightarrow> answer_request u r)"

definition disable_ps_for_setup :: "twt \<Rightarrow> twt" where
  "disable_ps_for_setup s = (if ps_state (pm s) = PS_ENABLED then s\<lparr>pm := rsi_disable_ps (pm s), ps_disabled := True\<rparr> else s)"

definition setup_sent :: "twt \<Rightarrow> u8 list \<Rightarrow> twt" where
  "setup_sent s d =
     (queue_packet s d)\<lparr>retry_count := retry_count s + 1, in_progress := True, current_status := SETUP_SESSION_IN_PROGRESS,
        twt_timer := Some (unat (retry_interval (config s)) * 1000)\<rparr>"

definition send_twt_setup_frame :: "twt_element option \<Rightarrow> twt \<Rightarrow> (int \<times> twt) option" where
  "send_twt_setup_frame resp s =
     (case latest_vif s of
        None \<Rightarrow> None
      | Some None \<Rightarrow> Some (- 1, s)
      | Some (Some n) \<Rightarrow>
        let (ok, s1) = alloc_frame (next_seq s n)
        in if \<not> ok then Some (- ENOMEM, s1)
           else
             let s2 = disable_ps_for_setup s1;
                 u = config s2;
                 frame = setup_frame (sta_bssid s2) (mac_addr (cmds s2)) n (setup_element u resp);
                 s3 = (if cfg_enable u = 0 then s2\<lparr>config := default_config u\<rparr> else s2)
             in case twt_packet s3 frame of
                  None \<Rightarrow> Some (0, s3)
                | Some d \<Rightarrow> Some (0, setup_sent s3 d))"

definition send_twt_teardown_frame :: "u8 \<Rightarrow> u8 \<Rightarrow> twt \<Rightarrow> (int \<times> twt) option" where
  "send_twt_teardown_frame flow negotiation s =
     (case latest_vif s of
        None \<Rightarrow> None
      | Some None \<Rightarrow> Some (- 1, s)
      | Some (Some n) \<Rightarrow>
        let (ok, s1) = alloc_frame (next_seq s n)
        in if \<not> ok then Some (- ENOMEM, s1)
           else case twt_packet s1 (teardown_frame (sta_bssid s1) (mac_addr (cmds s1)) n flow negotiation) of
                  None \<Rightarrow> Some (0, s1)
                | Some d \<Rightarrow> Some (0, queue_packet s1 d))"

text \<open>\<open>send_twt_session_details_to_lmac\<close>, for a session that begins and for one that ends.\<close>

definition begin_session :: "twt_element \<Rightarrow> twt \<Rightarrow> int \<times> twt" where
  "begin_session e s =
     (let (ok, s1) = alloc_frame s
      in if \<not> ok then (- ENOMEM, s1)
         else let (status, c) = queue_internal (session_frame (auto_config s1) (config s1) e) (cmds s1)
              in (status, s1\<lparr>cmds := c, session_active := True, active_flow_id := twt_flow_id e,
                             ap_info_frames := (info_frame_dis e = 0)\<rparr>))"

definition end_session :: "u8 \<Rightarrow> twt \<Rightarrow> int \<times> twt" where
  "end_session flow s =
     (let (ok, s1) = alloc_frame s
      in if \<not> ok then (- ENOMEM, s1)
         else let (status, c) = queue_internal (session_end_frame (config s1) flow) (cmds s1)
              in (status, s1\<lparr>cmds := c, session_active := False\<rparr>))"

definition send_twt_information_frame :: "u8 \<Rightarrow> twt_action \<Rightarrow> u64 \<Rightarrow> twt \<Rightarrow> (int \<times> twt) option" where
  "send_twt_information_frame flow act duration s =
     (case latest_vif s of
        None \<Rightarrow> None
      | Some None \<Rightarrow> Some (- 1, s)
      | Some (Some n) \<Rightarrow>
        let (ok, s1) = alloc_frame (next_seq s n)
        in if \<not> ok then Some (- ENOMEM, s1)
           else
             let s2 = s1\<lparr>rescheduling := True\<rparr>
             in case twt_packet s2 (information_frame (sta_bssid s2) (mac_addr (cmds s2)) n flow act duration) of
                  None \<Rightarrow> Some (0, s2)
                | Some d \<Rightarrow> Some (0, queue_packet s2 (confirmed_packet flow act d)))"

section \<open>The timer\<close>

definition restore_ps :: "twt \<Rightarrow> twt" where
  "restore_ps s = (if ps_disabled s then s\<lparr>pm := rsi_enable_ps (pm s), ps_disabled := False\<rparr> else s)"

definition twt_setup_timer_callback :: "twt \<Rightarrow> twt option" where
  "twt_setup_timer_callback s =
     (if retry_count s < retry_limit (config s) then map_option snd (send_twt_setup_frame None s)
      else Some (restore_ps (s\<lparr>retry_count := 0, in_progress := False, current_status := SETUP_FAIL_MAX_RETRIES_REACHED,
                               twt_timer := None\<rparr>)))"

section \<open>A response of the access point\<close>

definition report_session :: "twt_element \<Rightarrow> twt \<Rightarrow> twt" where
  "report_session e s = s\<lparr>status_to_app :=
     \<lparr>app_flow_id = ucast (twt_flow_id e), app_wake_duration = nom_min_wake_duration e, app_duration_unit = duration_unit (config s),
      app_implicit = ucast (implicit_twt e), app_triggered = ucast (trigger e), app_un_announced = ucast (flow_type e),
      app_int_exp = ucast (wi_exp e), app_mantissa = wake_interval_mantissa e, app_req_type = ucast (twt_req e)\<rparr>\<rparr>"

definition same_flag :: "1 word \<Rightarrow> u8 \<Rightarrow> bool" where
  "same_flag b v \<longleftrightarrow> ucast b = v AND 1"

definition same_flags :: "twt_config \<Rightarrow> twt_element \<Rightarrow> bool" where
  "same_flags u e \<longleftrightarrow> same_flag (trigger e) (triggered u) \<and> same_flag (implicit_twt e) (cfg_implicit u) \<and> same_flag (flow_type e) (un_announced u)"

text \<open>\<open>v - tol\<close>, but not below 0, and \<open>v + tol\<close>, as \<open>int\<close>.\<close>

definition within :: "nat \<Rightarrow> nat \<Rightarrow> nat \<Rightarrow> bool" where
  "within x v tol \<longleftrightarrow> (if tol < v then v - tol else 0) \<le> x \<and> x \<le> v + tol"

definition in_tolerance :: "twt_config \<Rightarrow> twt_element \<Rightarrow> bool" where
  "in_tolerance u e \<longleftrightarrow>
     within (unat (nom_min_wake_duration e)) (unat (cfg_wake_duration u)) (unat (wake_duration_tol u)) \<and>
     within (unat (wi_exp e)) (unat (cfg_wake_int_exp u)) (unat (wake_int_exp_tol u)) \<and>
     within (unat (wake_interval_mantissa e)) (unat (cfg_mantissa u)) (unat (mantissa_tol u))"

text \<open>Whether a response suits a suggestion, and a demand.\<close>

definition suits_suggestion :: "twt \<Rightarrow> twt_element \<Rightarrow> bool option" where
  "suits_suggestion s e =
     (if \<not> same_flags (config s) e then Some False
      else if auto_config s then does_twt_response_match (user_auto_config s) (config s) e
      else Some (in_tolerance (config s) e))"

definition meets_demand :: "twt_config \<Rightarrow> twt_element \<Rightarrow> bool" where
  "meets_demand u e \<longleftrightarrow>
     response_duration e = config_duration u \<and> response_interval e = config_interval u \<and> same_flags u e"

text \<open>How the case analysis ends: it jumps to the end (with or without a teardown), or goes on (with or without a new request).\<close>

datatype outcome = DONE bool | ON bool

definition accept_session :: "twt_element \<Rightarrow> twt \<Rightarrow> twt" where
  "accept_session e s =
     snd (begin_session e (s\<lparr>current_status := (if in_progress s then SESSION_SUCC else UNSOL_SESSION_SUCC)\<rparr>))"

definition ask_again :: "twt_element \<Rightarrow> twt \<Rightarrow> (outcome \<times> twt) option" where
  "ask_again e s = map_option (\<lambda>(_, s1). (ON True, s1)) (send_twt_setup_frame (Some e) (s\<lparr>retry_count := 0\<rparr>))"

definition on_request :: "twt_element \<Rightarrow> twt \<Rightarrow> (outcome \<times> twt) option" where
  "on_request e s =
     (let cmd = setup_command e
      in if cmd = SETUP_ACCEPT then Some (ON False, accept_session e s)
         else if cmd = SETUP_ALTERNATE \<or> cmd = SETUP_DICTATE then ask_again e s
         else if cmd = SETUP_REJECT then Some (ON False, s\<lparr>current_status := SETUP_AP_REJECTED\<rparr>)
         else Some (ON False, s\<lparr>current_status := SETUP_UNSUPPORTED_RSP\<rparr>))"

definition refuse :: "twt_status \<Rightarrow> twt_element \<Rightarrow> twt \<Rightarrow> outcome \<times> twt" where
  "refuse st e s = (if setup_command e = SETUP_ACCEPT then DONE True else ON False, s\<lparr>current_status := st\<rparr>)"

definition on_suggestion :: "twt_element \<Rightarrow> twt \<Rightarrow> (outcome \<times> twt) option" where
  "on_suggestion e s =
     (let cmd = setup_command e
      in if cmd = SETUP_ALTERNATE \<or> cmd = SETUP_DICTATE \<or> cmd = SETUP_ACCEPT
         then case suits_suggestion s e of
                None \<Rightarrow> None
              | Some suits \<Rightarrow>
                if \<not> suits then Some (refuse SETUP_RSP_OUTOF_TOL e s)
                else if cmd = SETUP_ACCEPT then Some (ON False, accept_session e s)
                else ask_again e s
         else if cmd = SETUP_REJECT then Some (ON False, s\<lparr>current_status := SETUP_AP_REJECTED\<rparr>)
         else Some (ON False, s\<lparr>current_status := SETUP_UNSUPPORTED_RSP\<rparr>))"

definition on_demand :: "twt_element \<Rightarrow> twt \<Rightarrow> (outcome \<times> twt) option" where
  "on_demand e s =
     (let cmd = setup_command e
      in if cmd = SETUP_ALTERNATE \<or> cmd = SETUP_DICTATE \<or> cmd = SETUP_ACCEPT
         then if \<not> meets_demand (config s) e then Some (refuse SETUP_RSP_NOT_MATCHED e s)
              else if cmd = SETUP_ACCEPT then Some (ON False, accept_session e s)
              else if demand_resp_retry s < retry_limit (config s)
              then map_option (\<lambda>(r, s1). (r, s1\<lparr>demand_resp_retry := demand_resp_retry s1 + 1\<rparr>)) (ask_again e s)
              else Some (ON False, s\<lparr>retry_count := 0, current_status := SETUP_AP_REJECTED\<rparr>)
         else if cmd = SETUP_REJECT then Some (ON False, s\<lparr>current_status := SETUP_AP_REJECTED\<rparr>)
         else Some (ON False, s\<lparr>current_status := SETUP_UNSUPPORTED_RSP\<rparr>))"

definition judge_response :: "twt_setup_frame \<Rightarrow> twt \<Rightarrow> (outcome \<times> twt) option" where
  "judge_response f s =
     (let e = twt_el f; ty = req_type (config s)
      in if validate_unsupported (auto_config s) f \<noteq> 0
         then Some (DONE (setup_command e = SETUP_ACCEPT), s\<lparr>current_status := SETUP_UNSUPPORTED_RSP\<rparr>)
         else if ty = SETUP_REQUEST then on_request e s
         else if ty = SETUP_SUGGEST then on_suggestion e s
         else if ty = SETUP_DEMAND then on_demand e s
         else Some (ON False, s))"

text \<open>What \<open>RSP_PROC_DONE\<close> does after a response that was accepted and cannot be kept.\<close>

definition tear_down :: "twt_element \<Rightarrow> twt \<Rightarrow> twt option" where
  "tear_down e s =
     map_option (\<lambda>(_, s1). if session_active s1 \<and> active_flow_id s1 = twt_flow_id e
                           then (snd (end_session (ucast (active_flow_id s1)) s1))\<lparr>current_status := TEARDOWN_SUCC\<rparr> else s1)
       (send_twt_teardown_frame (ucast (twt_flow_id e)) (ucast (negotiation_type e)) s)"

definition rsi_mgmt_process_twt_setup_resp :: "twt_setup_frame \<Rightarrow> twt \<Rightarrow> twt option" where
  "rsi_mgmt_process_twt_setup_resp f s =
     (let s1 = (if in_progress s then s\<lparr>retry_count := 0, twt_timer := None\<rparr> else s)
      in case judge_response f s1 of
           None \<Rightarrow> None
         | Some (DONE teardown, s2) \<Rightarrow>
           map_option (\<lambda>s3. s3\<lparr>in_progress := False\<rparr>) (if teardown then tear_down (twt_el f) s2 else Some s2)
         | Some (ON again, s2) \<Rightarrow>
           let s3 = (if session_active s2 then report_session (twt_el f) s2 else s2)
           in Some (if again then s3 else s3\<lparr>in_progress := False\<rparr>))"

section \<open>Commands of the user\<close>

text \<open>
  \<open>process_twt_setup_cmd\<close> checks and takes over a configuration (the copy it makes with \<open>kmalloc\<close> is taken to succeed; it
  is not freed when the command is refused), \<open>rsi_nl_recv_msg\<close> goes on with it.
\<close>

definition process_twt_setup_cmd :: "twt_config \<Rightarrow> twt \<Rightarrow> int \<times> twt" where
  "process_twt_setup_cmd u s =
     (if cfg_enable u \<noteq> 0
      then (if session_active s \<or> in_progress s then (- 1, s\<lparr>current_status := SETUP_ERR_SESSION_ACTIVE\<rparr>) else (0, s\<lparr>config := u\<rparr>))
      else if session_active s
      then (if ucast (active_flow_id s) \<noteq> cfg_flow_id u \<and> cfg_flow_id u \<noteq> 0xFF
            then (- 1, s\<lparr>current_status := TEARDOWN_ERR_FLOWID_NOT_MATCHED\<rparr>) else (0, s\<lparr>config := u\<rparr>))
      else (- 1, s\<lparr>current_status := TEARDOWN_ERR_NOACTIVE_SESS\<rparr>))"

definition user_teardown :: "twt \<Rightarrow> twt option" where
  "user_teardown s =
     map_option (\<lambda>(_, s1). (snd (end_session (cfg_flow_id (config s1)) s1))\<lparr>current_status := TEARDOWN_SUCC\<rparr>)
       (send_twt_teardown_frame (cfg_flow_id (config s)) (cfg_negotiation (config s)) s)"

definition twt_config_cmd :: "twt_config \<Rightarrow> twt \<Rightarrow> twt option" where
  "twt_config_cmd u s =
     (let (status, s1) = process_twt_setup_cmd u s
      in if status \<noteq> 0 \<or> \<not> he_connected s1 then Some s1
         else if cfg_enable (config s1) \<noteq> 0 then map_option snd (send_twt_setup_frame None s1)
         else user_teardown s1)"

definition twt_auto_config :: "twt_selection \<Rightarrow> twt \<Rightarrow> twt option" where
  "twt_auto_config sel s =
     (case use_case_based_twt_params sel (config s) of
        None \<Rightarrow> None
      | Some (status, u) \<Rightarrow>
        let s1 = s\<lparr>config := u\<rparr>;
            s2 = (if status = - 1 then s1\<lparr>current_status := AUTO_CONFIG_FAIL\<rparr> else s1)\<lparr>user_auto_config := sel\<rparr>
        in if \<not> he_connected s2 then Some s2
           else if sel_enable sel \<noteq> 0
           then map_option snd (send_twt_setup_frame None (s2\<lparr>auto_config := True, retry_count := 0\<rparr>))
           else user_teardown s2)"

definition reschedule_twt :: "u8 \<Rightarrow> twt_action \<Rightarrow> u64 \<Rightarrow> twt \<Rightarrow> twt option" where
  "reschedule_twt flow act duration s =
     (if session_active s \<and> ap_info_frames s then map_option snd (send_twt_information_frame flow act duration s)
      else Some (s\<lparr>current_status := RESCHEDULE_FAIL\<rparr>))"

section \<open>Received frames\<close>

text \<open>
  The part of \<open>rsi_mgmt_pkt_to_core\<close> for action frames: \<open>p\<close> points behind their header. Only the category is
  looked at before the frame is read as a setup frame, whatever its length.
\<close>

definition unsolicited_accept :: "twt_setup_frame \<Rightarrow> twt \<Rightarrow> twt option" where
  "unsolicited_accept f s =
     (let e = twt_el f;
          refusal = send_twt_teardown_frame (ucast (twt_flow_id e)) (ucast (negotiation_type e)) s
      in if \<not> session_active s
         then if cfg_enable (config s) \<noteq> 0 then rsi_mgmt_process_twt_setup_resp f s
              else if validate_unsupported (auto_config s) f = 0
              then let s1 = (snd (begin_session e s))\<lparr>current_status := UNSOL_SESSION_SUCC\<rparr>
                   in Some (if session_active s1 then report_session e s1 else s1)
              else map_option (\<lambda>(_, s1). s1\<lparr>current_status := SETUP_UNSUPPORTED_RSP\<rparr>) refusal
         else if active_flow_id s \<noteq> twt_flow_id e then map_option snd refusal
         else rsi_mgmt_process_twt_setup_resp f s)"

definition twt_teardown_received :: "u8 \<Rightarrow> twt \<Rightarrow> twt" where
  "twt_teardown_received flags s =
     (if \<not> session_active s then s
      else if bit flags 7 then (snd (end_session 0xFF s))\<lparr>current_status := AP_TEARDOWN_SUCC\<rparr>
      else if active_flow_id s = ucast flags then (snd (end_session (flags AND 7) s))\<lparr>current_status := AP_TEARDOWN_SUCC\<rparr>
      else s)"

definition twt_action_frame :: "ptr \<Rightarrow> twt \<Rightarrow> twt option" where
  "twt_action_frame p s =
     (let f = setup_at p
      in if p 0 \<noteq> WLAN_CATEGORY_S1G then Some s
         else if action_type f = WLAN_S1G_TWT_SETUP
         then if in_progress s then map_option restore_ps (rsi_mgmt_process_twt_setup_resp f s)
              else if ap_support_twt s \<and> setup_command (twt_el f) = SETUP_ACCEPT then unsolicited_accept f s
              else Some s
         else if action_type f = WLAN_S1G_TWT_TEARDOWN then Some (twt_teardown_received (p 2) s)
         else Some s)"

section \<open>The connection\<close>

text \<open>
  The parts of \<open>rsi_mac80211_bss_info_changed\<close>, \<open>rsi_mac80211_sta_remove\<close>, \<open>rsi_inform_bss_status\<close> and of the confirmations in
  \<open>rsi_mgmt_pkt_recv\<close>. \<open>requester\<close> is \<open>bss_conf->twt_requester\<close>, given when it changed. A disconnect
  neither ends the session nor stops the timer.
\<close>

definition twt_associated :: "bool \<Rightarrow> bool option \<Rightarrow> twt \<Rightarrow> twt" where
  "twt_associated he requester s =
     (let s1 = s\<lparr>he_connected := he, current_status := TEARDOWN_ERR_NOACTIVE_SESS\<rparr>
      in case requester of Some r \<Rightarrow> (if he then s1\<lparr>ap_support_twt := r\<rparr> else s1) | None \<Rightarrow> s1)"

definition twt_station_removed :: "twt \<Rightarrow> twt" where
  "twt_station_removed s = (if cfg_enable (config s) = 1 then s\<lparr>current_status := INACTIVE_DUETO_DISCONNECT\<rparr> else s)"

definition twt_connected :: "twt \<Rightarrow> twt option" where
  "twt_connected s =
     (if he_connected s \<and> ap_support_twt s \<and> cfg_enable (config s) \<noteq> 0 then map_option snd (send_twt_setup_frame None s) else Some s)"

definition info_frame_confirmed :: "u16 \<Rightarrow> twt \<Rightarrow> twt" where
  "info_frame_confirmed token s =
     (if rescheduling s
      then s\<lparr>current_status := (if token AND 0xF000 \<noteq> 0 then RESCHEDULE_SUCC else RESCHEDULE_FAIL), rescheduling := False\<rparr>
      else s)"

section \<open>Events\<close>

datatype twt_event =
  User_Config twt_config | Auto_Config twt_selection | Reschedule u8 twt_action u64 | Timer_Expires | Action_Frame ptr
| Associated bool "bool option" | Disassociated | Station_Removed | Connected | Info_Confirm u16

fun twt_step :: "twt_event \<Rightarrow> twt \<Rightarrow> twt option" where
  "twt_step (User_Config u) s = twt_config_cmd u s"
| "twt_step (Auto_Config sel) s = twt_auto_config sel s"
| "twt_step (Reschedule flow act d) s = reschedule_twt flow act d s"
| "twt_step Timer_Expires s = (if twt_timer s = None then Some s else twt_setup_timer_callback (s\<lparr>twt_timer := None\<rparr>))"
| "twt_step (Action_Frame p) s = twt_action_frame p s"
| "twt_step (Associated he r) s = Some (twt_associated he r s)"
| "twt_step Disassociated s = Some (s\<lparr>he_connected := False\<rparr>)"
| "twt_step Station_Removed s = Some (twt_station_removed s)"
| "twt_step Connected s = twt_connected s"
| "twt_step (Info_Confirm t) s = Some (info_frame_confirmed t s)"

fun twt_run :: "twt_event list \<Rightarrow> twt \<Rightarrow> twt option" where
  "twt_run [] s = Some s"
| "twt_run (ev # evs) s = (case twt_step ev s of None \<Rightarrow> None | Some s1 \<Rightarrow> twt_run evs s1)"

section \<open>A driver that works\<close>

text \<open>Memory suffices, there is a station interface, and the buffers have room for the descriptor.\<close>

definition working :: "twt \<Rightarrow> bool" where
  "working s \<longleftrightarrow>
     (\<forall>n. mgmt_alloc (cmds s) n) \<and> (\<exists>n. latest_vif s = Some (Some n)) \<and> hw_ok (hal s) \<and>
     (\<exists>v. rsi_get_vif (hal s) (mac_addr (cmds s)) = Some v \<and> \<not> is_ap_kind v) \<and>
     length (mac_addr (cmds s)) = 6 \<and> length (sta_bssid s) = 6 \<and> 84 \<le> room s"

lemma twt_packet_works:
  assumes "working s" "length frame \<le> 64" "wlh_addr2 frame = mac_addr (cmds s)"
  shows "\<exists>d n. twt_packet s frame = Some d \<and> drop n d = frame"
proof -
  have "(buf_addr s - 20) mod 64 < 64" by simp
  then have "(buf_addr s - 20) mod 64 \<le> room s - 20" "\<not> 512 < length frame + (buf_addr s - 20) mod 64 + 20"
      "\<not> room s < 20"
    using assms(1,2) unfolding working_def by linarith+
  then obtain d b where "twt_packet s frame = Some (d @ frame)"
    using assms(1,3) unfolding working_def
    by (auto simp: twt_packet_def rsi_prepare_mgmt_desc_def probe_buffer_def Let_def)
  then show ?thesis by (intro exI [of _ "d @ frame"] exI [of _ "length d"]) simp
qed

section \<open>What every step keeps\<close>

definition same_env :: "twt \<Rightarrow> twt \<Rightarrow> bool" where
  "same_env s s' \<longleftrightarrow>
     mgmt_alloc (cmds s') = mgmt_alloc (cmds s) \<and> mac_addr (cmds s') = mac_addr (cmds s) \<and> hal s' = hal s \<and> buf_addr s' = buf_addr s \<and>
     room s' = room s \<and> nvifs s' = nvifs s \<and> sta_bssid s' = sta_bssid s \<and>
     map (\<lambda>q. q = None) (seq_nums s') = map (\<lambda>q. q = None) (seq_nums s)"

lemma same_env_refl [simp]: "same_env s s"
  by (simp add: same_env_def)

lemma same_env_trans: "same_env s s' \<Longrightarrow> same_env s' s'' \<Longrightarrow> same_env s s''"
  by (simp add: same_env_def)

lemma same_env_update [simp]:
  "same_env s (s'\<lparr>in_progress := b\<rparr>) = same_env s s'" "same_env s (s'\<lparr>retry_count := n\<rparr>) = same_env s s'"
  "same_env s (s'\<lparr>demand_resp_retry := n\<rparr>) = same_env s s'" "same_env s (s'\<lparr>current_status := st\<rparr>) = same_env s s'"
  "same_env s (s'\<lparr>config := u\<rparr>) = same_env s s'" "same_env s (s'\<lparr>twt_timer := t\<rparr>) = same_env s s'"
  "same_env s (s'\<lparr>session_active := b\<rparr>) = same_env s s'" "same_env s (s'\<lparr>active_flow_id := i\<rparr>) = same_env s s'"
  "same_env s (s'\<lparr>ap_info_frames := b\<rparr>) = same_env s s'" "same_env s (s'\<lparr>rescheduling := b\<rparr>) = same_env s s'"
  "same_env s (s'\<lparr>user_auto_config := c\<rparr>) = same_env s s'" "same_env s (s'\<lparr>auto_config := b\<rparr>) = same_env s s'"
  "same_env s (s'\<lparr>ps_disabled := b\<rparr>) = same_env s s'" "same_env s (s'\<lparr>pm := a\<rparr>) = same_env s s'"
  "same_env s (s'\<lparr>he_connected := b\<rparr>) = same_env s s'" "same_env s (s'\<lparr>ap_support_twt := b\<rparr>) = same_env s s'"
  "same_env s (s'\<lparr>status_to_app := r\<rparr>) = same_env s s'"
  by (simp_all add: same_env_def)

lemma same_env_working:
  assumes "same_env s s'" "working s"
  shows "working s'"
proof -
  obtain n where n: "latest_vif s = Some (Some n)" using assms(2) by (auto simp: working_def)
  then have i: "0 < nvifs s" "nvifs s \<le> length (seq_nums s)" "seq_nums s ! (nvifs s - 1) = Some n"
    by (auto simp: latest_vif_def split: if_split_asm)
  have l: "length (seq_nums s') = length (seq_nums s)" "nvifs s' = nvifs s"
    using assms(1) by (auto simp: same_env_def dest: map_eq_imp_length_eq)
  have "map (\<lambda>q. q = None) (seq_nums s') ! (nvifs s - 1) = map (\<lambda>q. q = None) (seq_nums s) ! (nvifs s - 1)"
    using assms(1) by (simp add: same_env_def)
  then have "seq_nums s' ! (nvifs s - 1) \<noteq> None" using i l by simp
  then have "\<exists>m. latest_vif s' = Some (Some m)" using i l by (auto simp: latest_vif_def)
  then show ?thesis using assms unfolding working_def same_env_def by auto
qed

lemma next_seq_env: "latest_vif s = Some (Some n) \<Longrightarrow> same_env s (next_seq s n)"
  by (auto simp: same_env_def next_seq_def latest_vif_def map_update list_update_same_conv split: if_split_asm)

lemma alloc_frame_env: "same_env s (snd (alloc_frame s))"
  by (simp add: same_env_def alloc_frame_def alloc_skb_def split: prod.split)

lemma queue_packet_env [simp]: "same_env s (queue_packet s' d) = same_env s s'"
  by (simp add: same_env_def queue_packet_def)

lemma setup_sent_env [simp]: "same_env s (setup_sent s' d) = same_env s s'"
  by (simp add: setup_sent_def)

text \<open>
  The fields on which the negotiation depends: frames other than a setup frame leave all of them alone.
\<close>

definition same_talk :: "twt \<Rightarrow> twt \<Rightarrow> bool" where
  "same_talk s s' \<longleftrightarrow>
     in_progress s' = in_progress s \<and> twt_timer s' = twt_timer s \<and> config s' = config s \<and> auto_config s' = auto_config s \<and>
     user_auto_config s' = user_auto_config s"

definition same_session :: "twt \<Rightarrow> twt \<Rightarrow> bool" where
  "same_session s s' \<longleftrightarrow> session_active s' = session_active s \<and> active_flow_id s' = active_flow_id s"

lemma same_update [simp]:
  "same_talk s (queue_packet s' d) = same_talk s s'" "same_session s (queue_packet s' d) = same_session s s'"
  "same_talk s (s'\<lparr>rescheduling := b\<rparr>) = same_talk s s'" "same_session s (s'\<lparr>rescheduling := b\<rparr>) = same_session s s'"
  by (simp_all add: same_talk_def same_session_def queue_packet_def)

lemma alloc_frame_same: "same_talk s (snd (alloc_frame s))" "same_session s (snd (alloc_frame s))"
  by (simp_all add: same_talk_def same_session_def alloc_frame_def split: prod.split)

lemma teardown_keeps:
  assumes "send_twt_teardown_frame flow neg s = Some (st, s')"
  shows "same_env s s'" "same_talk s s'" "same_session s s'"
proof -
  have *: "same_env s s' \<and> same_talk s s' \<and> same_session s s'"
  proof (cases "latest_vif s = Some None")
    case True
    then show ?thesis using assms by (simp add: send_twt_teardown_frame_def same_talk_def same_session_def)
  next
    case False
    then obtain n where n: "latest_vif s = Some (Some n)"
      using assms by (auto simp: send_twt_teardown_frame_def split: option.splits)
    define s1 where "s1 = snd (alloc_frame (next_seq s n))"
    have "s' = s1 \<or> (\<exists>d. s' = queue_packet s1 d)"
      using assms n by (auto simp: send_twt_teardown_frame_def s1_def Let_def split: prod.splits option.splits if_split_asm)
    moreover have "same_env s s1" unfolding s1_def by (rule same_env_trans [OF next_seq_env [OF n] alloc_frame_env])
    moreover have "same_talk s s1" "same_session s s1"
      using alloc_frame_same [of "next_seq s n"] by (simp_all add: s1_def same_talk_def same_session_def next_seq_def)
    ultimately show ?thesis by (elim disjE exE) simp_all
  qed
  show "same_env s s'" "same_talk s s'" "same_session s s'" using * by blast+
qed

lemma information_keeps:
  assumes "send_twt_information_frame flow act d s = Some (st, s')"
  shows "same_env s s'" "same_talk s s'" "same_session s s'"
proof -
  have *: "same_env s s' \<and> same_talk s s' \<and> same_session s s'"
  proof (cases "latest_vif s = Some None")
    case True
    then show ?thesis using assms by (simp add: send_twt_information_frame_def same_talk_def same_session_def)
  next
    case False
    then obtain n where n: "latest_vif s = Some (Some n)"
      using assms by (auto simp: send_twt_information_frame_def split: option.splits)
    define s1 where "s1 = snd (alloc_frame (next_seq s n))"
    have "s' = s1 \<or> s' = s1\<lparr>rescheduling := True\<rparr> \<or> (\<exists>d. s' = queue_packet (s1\<lparr>rescheduling := True\<rparr>) d)"
      using assms n by (auto simp: send_twt_information_frame_def s1_def Let_def split: prod.splits option.splits if_split_asm)
    moreover have "same_env s s1" unfolding s1_def by (rule same_env_trans [OF next_seq_env [OF n] alloc_frame_env])
    moreover have "same_talk s s1" "same_session s s1"
      using alloc_frame_same [of "next_seq s n"] by (simp_all add: s1_def same_talk_def same_session_def next_seq_def)
    ultimately show ?thesis by (elim disjE exE) simp_all
  qed
  show "same_env s s'" "same_talk s s'" "same_session s s'" using * by blast+
qed

lemma begin_keeps: "same_env s (snd (begin_session e s))" "same_talk s (snd (begin_session e s))"
    "session_active (snd (begin_session e s)) \<Longrightarrow> session_active s \<or> active_flow_id (snd (begin_session e s)) = twt_flow_id e"
  by (auto simp: begin_session_def alloc_frame_def alloc_skb_def queue_internal_def same_env_def same_talk_def Let_def split: if_split_asm)

lemma end_keeps: "same_env s (snd (end_session flow s))" "same_talk s (snd (end_session flow s))"
    "session_active (snd (end_session flow s)) \<Longrightarrow> session_active s"
  by (auto simp: end_session_def alloc_frame_def alloc_skb_def queue_internal_def same_env_def same_talk_def Let_def split: if_split_asm)

lemma restore_ps_keeps: "same_env s (restore_ps s)" "same_talk s (restore_ps s)" "same_session s (restore_ps s)"
  by (simp_all add: restore_ps_def same_talk_def same_session_def)

lemma disable_ps_keeps: "same_env s (disable_ps_for_setup s)" "same_talk s (disable_ps_for_setup s)"
    "same_session s (disable_ps_for_setup s)" "retry_count (disable_ps_for_setup s) = retry_count s"
    "cmds (disable_ps_for_setup s) = cmds s"
  by (simp_all add: disable_ps_for_setup_def same_talk_def same_session_def)

lemma setup_frame_shape:
  assumes "length mac = 6" "length bssid = 6"
  shows "length (setup_frame bssid mac n e) = 44" "wlh_addr2 (setup_frame bssid mac n e) = mac"
  using assms by (simp_all add: setup_frame_def action_header_def setup_bytes_def element_bytes_def addr_at_def put_le16_def numeral_eq_Suc)

lemma setup_sent_fields: "session_active (setup_sent s d) = session_active s" "active_flow_id (setup_sent s d) = active_flow_id s"
    "in_progress (setup_sent s d)" "twt_timer (setup_sent s d) = Some (unat (retry_interval (config s)) * 1000)"
    "config (setup_sent s d) = config s" "retry_count (setup_sent s d) = retry_count s + 1"
    "mgmt_queue (cmds (setup_sent s d)) = mgmt_queue (cmds s) @ [d]"
  by (simp_all add: setup_sent_def queue_packet_def)

lemma setup_keeps:
  assumes "send_twt_setup_frame resp s = Some (st, s')"
  shows "same_env s s'" "same_session s s'"
    "in_progress s' = in_progress s \<and> twt_timer s' = twt_timer s \<or> in_progress s' \<and> twt_timer s' \<noteq> None"
proof -
  have *: "same_env s s' \<and> same_session s s' \<and>
      (in_progress s' = in_progress s \<and> twt_timer s' = twt_timer s \<or> in_progress s' \<and> twt_timer s' \<noteq> None)"
  proof (cases "latest_vif s = Some None")
    case True
    then show ?thesis using assms by (simp add: send_twt_setup_frame_def same_session_def)
  next
    case False
    then obtain n where n: "latest_vif s = Some (Some n)"
      using assms by (auto simp: send_twt_setup_frame_def split: option.splits)
    define s1 where "s1 = snd (alloc_frame (next_seq s n))"
    define s2 where "s2 = disable_ps_for_setup s1"
    define s3 where "s3 = (if cfg_enable (config s2) = 0 then s2\<lparr>config := default_config (config s2)\<rparr> else s2)"
    have "s' = s1 \<or> s' = s3 \<or> (\<exists>d. s' = setup_sent s3 d)"
      using assms n by (auto simp: send_twt_setup_frame_def s1_def s2_def s3_def Let_def split: prod.splits option.splits if_split_asm)
    moreover have "same_env s s1" unfolding s1_def by (rule same_env_trans [OF next_seq_env [OF n] alloc_frame_env])
    moreover have t: "same_talk s s1" "same_session s s1"
      using alloc_frame_same [of "next_seq s n"] by (simp_all add: s1_def same_talk_def same_session_def next_seq_def)
    moreover have "same_env s s3" using same_env_trans [OF \<open>same_env s s1\<close> disable_ps_keeps(1)] by (simp add: s3_def s2_def)
    moreover have "same_session s s3" "in_progress s3 = in_progress s" "twt_timer s3 = twt_timer s"
      using t disable_ps_keeps(2,3) [of s1] by (simp_all add: s3_def s2_def same_talk_def same_session_def)
    ultimately show ?thesis by (elim disjE exE) (simp_all add: same_talk_def same_session_def setup_sent_fields)
  qed
  show "same_env s s'" "same_session s s'"
    "in_progress s' = in_progress s \<and> twt_timer s' = twt_timer s \<or> in_progress s' \<and> twt_timer s' \<noteq> None" using * by blast+
qed

lemma setup_works:
  assumes "working s"
  obtains s1 d k n where "send_twt_setup_frame resp s = Some (0, setup_sent s1 d)"
    "drop k d = setup_frame (sta_bssid s) (mac_addr (cmds s)) n (setup_element (config s) resp)"
    "mgmt_queue (cmds s1) = mgmt_queue (cmds s)" "retry_count s1 = retry_count s"
    "config s1 = (if cfg_enable (config s) = 0 then default_config (config s) else config s)"
proof -
  obtain n where n: "latest_vif s = Some (Some n)" using assms by (auto simp: working_def)
  define s1 where "s1 = snd (alloc_frame (next_seq s n))"
  define s2 where "s2 = disable_ps_for_setup s1"
  define s3 where "s3 = (if cfg_enable (config s2) = 0 then s2\<lparr>config := default_config (config s2)\<rparr> else s2)"
  have a: "alloc_frame (next_seq s n) = (True, s1)"
    using assms by (simp add: s1_def alloc_frame_def alloc_skb_def next_seq_def working_def)
  have e1: "same_env s s1" unfolding s1_def by (rule same_env_trans [OF next_seq_env [OF n] alloc_frame_env])
  have e3: "same_env s s3" using same_env_trans [OF e1 disable_ps_keeps(1)] by (simp add: s3_def s2_def)
  have w: "working s3" by (rule same_env_working [OF e3 assms])
  have c: "config s2 = config s" using disable_ps_keeps(2) [of s1] by (simp add: s2_def same_talk_def s1_def alloc_frame_def next_seq_def
        split: prod.split)
  have env: "sta_bssid s2 = sta_bssid s" "mac_addr (cmds s2) = mac_addr (cmds s)" "mac_addr (cmds s3) = mac_addr (cmds s)"
    using e1 e3 disable_ps_keeps(1) [of s1] by (simp_all add: s2_def same_env_def)
  let ?f = "setup_frame (sta_bssid s) (mac_addr (cmds s)) n (setup_element (config s) resp)"
  have shape: "length ?f = 44" "wlh_addr2 ?f = mac_addr (cmds s)" by (rule setup_frame_shape; use assms in \<open>simp add: working_def\<close>)+
  obtain d k where d: "twt_packet s3 ?f = Some d" "drop k d = ?f"
    using twt_packet_works [OF w, of ?f] shape env(3) by auto
  have q: "mgmt_queue (cmds s3) = mgmt_queue (cmds s)" "retry_count s3 = retry_count s"
    by (simp_all add: s3_def s2_def disable_ps_keeps s1_def alloc_frame_def alloc_skb_def next_seq_def)
  have "send_twt_setup_frame resp s = Some (0, setup_sent s3 d)"
    using n a d(1) by (cases "cfg_enable (config s) = 0") (simp_all add: send_twt_setup_frame_def Let_def env c s3_def flip: s2_def)
  then show ?thesis by (rule that [OF _ d(2) q]) (simp add: s3_def c)
qed

section \<open>A response is judged\<close>

lemma accept_session_keeps:
  "same_env s (accept_session e s)"
  "session_active (accept_session e s) \<Longrightarrow> session_active s \<or> active_flow_id (accept_session e s) = twt_flow_id e"
  using begin_keeps [where e = e and s = "s\<lparr>current_status := (if in_progress s then SESSION_SUCC else UNSOL_SESSION_SUCC)\<rparr>"]
  by (auto simp: accept_session_def same_env_def)

lemma ask_again_keeps:
  assumes "ask_again e s = Some (r, s')"
  shows "same_env s s'" "same_session s s'" "r = ON True"
proof -
  obtain st where st: "send_twt_setup_frame (Some e) (s\<lparr>retry_count := 0\<rparr>) = Some (st, s')" "r = ON True"
    using assms by (auto simp: ask_again_def)
  show "same_env s s'" using setup_keeps(1) [OF st(1)] by (simp add: same_env_def)
  show "same_session s s'" using setup_keeps(2) [OF st(1)] by (simp add: same_session_def)
  show "r = ON True" by (rule st(2))
qed

lemma ask_again_armed:
  assumes "working s" "ask_again e s = Some (r, s')"
  shows "twt_timer s' \<noteq> None"
proof -
  have "working (s\<lparr>retry_count := 0\<rparr>)" by (rule same_env_working [OF _ assms(1)]) simp
  then show ?thesis using assms(2) by (elim setup_works [of _ "Some e"]) (auto simp: ask_again_def setup_sent_def)
qed

text \<open>Ending the analysis by each of its branches.\<close>

definition suits_request :: "twt \<Rightarrow> twt_element \<Rightarrow> bool" where
  "suits_request s e \<longleftrightarrow>
     (if req_type (config s) = SETUP_REQUEST then True
      else if req_type (config s) = SETUP_SUGGEST then suits_suggestion s e = Some True
      else req_type (config s) = SETUP_DEMAND \<and> meets_demand (config s) e)"

definition branch_ok :: "twt_setup_frame \<Rightarrow> twt \<Rightarrow> outcome \<Rightarrow> twt \<Rightarrow> bool" where
  "branch_ok f s r s' \<longleftrightarrow>
     same_env s s' \<and> (working s \<and> r = ON True \<longrightarrow> twt_timer s' \<noteq> None) \<and>
     (same_session s s' \<or>
      r = ON False \<and> setup_command (twt_el f) = SETUP_ACCEPT \<and> suits_request s (twt_el f) \<and> validate_unsupported (auto_config s) f = 0 \<and>
      (session_active s' \<longrightarrow> session_active s \<or> active_flow_id s' = twt_flow_id (twt_el f)))"

lemma branch_status: "r \<noteq> ON True \<Longrightarrow> branch_ok f s r (s\<lparr>current_status := st\<rparr>)" "r \<noteq> ON True \<Longrightarrow> branch_ok f s r (s\<lparr>retry_count := n, current_status := st\<rparr>)"
    "r \<noteq> ON True \<Longrightarrow> branch_ok f s r s"
  by (simp_all add: branch_ok_def same_session_def)

lemma branch_refuse: "refuse st e s = (r, s') \<Longrightarrow> branch_ok f s r s'"
  by (auto simp: refuse_def intro!: branch_status split: if_split_asm)

lemma branch_accept:
  assumes "setup_command (twt_el f) = SETUP_ACCEPT" "suits_request s (twt_el f)" "validate_unsupported (auto_config s) f = 0"
  shows "branch_ok f s (ON False) (accept_session (twt_el f) s)"
  using accept_session_keeps [where s = s and e = "twt_el f"] assms unfolding branch_ok_def by auto

lemma branch_again: "ask_again e s = Some (r, s') \<Longrightarrow> branch_ok f s r s'"
  using ask_again_keeps [of e s r s'] ask_again_armed [of s e r s'] by (auto simp: branch_ok_def)

lemma branch_again_demand:
  assumes "ask_again e s = Some (r, s')"
  shows "branch_ok f s r (s'\<lparr>demand_resp_retry := n\<rparr>)"
  using ask_again_keeps [OF assms] ask_again_armed [OF _ assms] by (auto simp: branch_ok_def same_session_def)

lemma judge_branches:
  assumes "judge_response f s = Some (r, s')"
  shows "branch_ok f s r s'"
proof (cases "validate_unsupported (auto_config s) f = 0")
  case False
  then show ?thesis using assms by (auto simp: judge_response_def Let_def intro!: branch_status)
next
  case ok: True
  let ?e = "twt_el f"
  consider "req_type (config s) = SETUP_REQUEST" "on_request ?e s = Some (r, s')"
    | "req_type (config s) = SETUP_SUGGEST" "on_suggestion ?e s = Some (r, s')"
    | "req_type (config s) = SETUP_DEMAND" "on_demand ?e s = Some (r, s')"
    | "r = ON False" "s' = s"
    using assms ok by (auto simp: judge_response_def Let_def split: if_split_asm)
  then show ?thesis
  proof cases
    case 1
    then show ?thesis using ok
      by (auto simp: on_request_def Let_def suits_request_def intro: branch_accept branch_again intro!: branch_status split: if_split_asm)
  next
    case 2
    then show ?thesis using ok
      by (auto simp: on_suggestion_def Let_def suits_request_def intro: branch_accept branch_again branch_refuse intro!: branch_status
          split: if_split_asm option.splits)
  next
    case 3
    then show ?thesis using ok
      by (auto simp: on_demand_def Let_def suits_request_def intro: branch_accept branch_again_demand branch_refuse intro!: branch_status
          split: if_split_asm)
  next
    case 4
    then show ?thesis by (simp add: branch_status)
  qed
qed

definition armed :: "twt \<Rightarrow> bool" where
  "armed s \<longleftrightarrow> (in_progress s \<longrightarrow> twt_timer s \<noteq> None)"

lemma tear_down_keeps:
  assumes "tear_down e s = Some s'"
  shows "same_env s s'" "session_active s' \<Longrightarrow> session_active s"
proof -
  obtain st s1 where 1: "send_twt_teardown_frame (ucast (twt_flow_id e)) (ucast (negotiation_type e)) s = Some (st, s1)"
    and 2: "s' = (if session_active s1 \<and> active_flow_id s1 = twt_flow_id e
                  then (snd (end_session (ucast (active_flow_id s1)) s1))\<lparr>current_status := TEARDOWN_SUCC\<rparr> else s1)"
    using assms by (auto simp: tear_down_def)
  show "same_env s s'" using same_env_trans [OF teardown_keeps(1) [OF 1] end_keeps(1)] teardown_keeps(1) [OF 1] by (simp add: 2)
  show "session_active s' \<Longrightarrow> session_active s" using teardown_keeps(3) [OF 1] by (simp add: 2 same_session_def split: if_split_asm)
qed

lemma suits_request_cong: "suits_request (s\<lparr>retry_count := n, twt_timer := t\<rparr>) e = suits_request s e"
  by (simp add: suits_request_def suits_suggestion_def)

text \<open>When a session may begin with a response.\<close>

definition accepted :: "twt_setup_frame \<Rightarrow> twt \<Rightarrow> bool" where
  "accepted f s \<longleftrightarrow> setup_command (twt_el f) = SETUP_ACCEPT \<and> validate_unsupported (auto_config s) f = 0"

lemma process_keeps:
  assumes "rsi_mgmt_process_twt_setup_resp f s = Some s'"
  shows "same_env s s'" "working s \<Longrightarrow> armed s'"
    "\<lbrakk>\<not> session_active s; session_active s'\<rbrakk> \<Longrightarrow>
       accepted f s \<and> suits_request s (twt_el f) \<and> active_flow_id s' = twt_flow_id (twt_el f)"
proof -
  define s1 where "s1 = (if in_progress s then s\<lparr>retry_count := 0, twt_timer := None\<rparr> else s)"
  obtain r s2 where j: "judge_response f s1 = Some (r, s2)"
    using assms by (auto simp: rsi_mgmt_process_twt_setup_resp_def Let_def s1_def split: option.splits)
  have b: "branch_ok f s1 r s2" by (rule judge_branches [OF j])
  have e1: "same_env s s1" by (simp add: s1_def)
  have e2: "same_env s s2" using b same_env_trans [OF e1] by (auto simp: branch_ok_def)
  have s1: "session_active s1 = session_active s" "auto_config s1 = auto_config s" "suits_request s1 e = suits_request s e" for e
    by (simp_all add: s1_def suits_request_cong)
  have res: "(case r of
      DONE teardown \<Rightarrow> map_option (\<lambda>s3. s3\<lparr>in_progress := False\<rparr>) (if teardown then tear_down (twt_el f) s2 else Some s2)
    | ON again \<Rightarrow>
        (let s3 = (if session_active s2 then report_session (twt_el f) s2 else s2)
         in Some (if again then s3 else s3\<lparr>in_progress := False\<rparr>))) = Some s'"
    using assms j by (simp add: rsi_mgmt_process_twt_setup_resp_def Let_def flip: s1_def split: outcome.splits)
  have *: "same_env s s' \<and> (working s \<longrightarrow> armed s') \<and>
     (\<not> session_active s \<and> session_active s' \<longrightarrow>
       accepted f s \<and> suits_request s (twt_el f) \<and> active_flow_id s' = twt_flow_id (twt_el f))"
  proof (cases r)
    case (DONE teardown)
    have "session_active s2 = session_active s" using b s1(1) DONE by (auto simp: branch_ok_def same_session_def)
    moreover obtain s3 where "s' = s3\<lparr>in_progress := False\<rparr>" "(if teardown then tear_down (twt_el f) s2 else Some s2) = Some s3"
      using res DONE by auto
    ultimately show ?thesis
      using tear_down_keeps [of "twt_el f" s2 s3] same_env_trans [OF e2] e2 by (auto simp: armed_def split: if_split_asm)
  next
    case (ON again)
    have s': "session_active s' = session_active s2" "active_flow_id s' = active_flow_id s2" "same_env s2 s'"
        "\<not> again \<Longrightarrow> \<not> in_progress s'" "again \<Longrightarrow> twt_timer s' = twt_timer s2"
      using res ON by (auto simp: Let_def report_session_def split: if_splits)
    have "armed s'" if "working s"
      using b s'(4,5) same_env_working [OF e1 that] ON by (cases again) (auto simp: armed_def branch_ok_def)
    moreover have "same_env s s'" by (rule same_env_trans [OF e2 s'(3)])
    moreover have "accepted f s \<and> suits_request s (twt_el f) \<and> active_flow_id s' = twt_flow_id (twt_el f)"
      if "\<not> session_active s" "session_active s'"
      using b s1 s'(1,2) that by (auto simp: branch_ok_def same_session_def accepted_def)
    ultimately show ?thesis by blast
  qed
  show "same_env s s'" "working s \<Longrightarrow> armed s'"
    "\<lbrakk>\<not> session_active s; session_active s'\<rbrakk> \<Longrightarrow>
       accepted f s \<and> suits_request s (twt_el f) \<and> active_flow_id s' = twt_flow_id (twt_el f)" using * by blast+
qed

section \<open>Every event\<close>

text \<open>
  The facts about one event: the environment stays as it was, a driver that works keeps its timer armed, and a
  session begins only with a response that was agreed on.
\<close>

definition agreed :: "ptr \<Rightarrow> twt \<Rightarrow> bool" where
  "agreed p s \<longleftrightarrow>
     (let f = setup_at p
      in action_category f = WLAN_CATEGORY_S1G \<and> action_type f = WLAN_S1G_TWT_SETUP \<and> setup_command (twt_el f) = SETUP_ACCEPT \<and>
         validate_unsupported (auto_config s) f = 0 \<and> (in_progress s \<or> ap_support_twt s) \<and>
         (in_progress s \<or> cfg_enable (config s) \<noteq> 0 \<longrightarrow> suits_request s (twt_el f)))"

definition event_ok :: "(ptr \<Rightarrow> 3 word \<Rightarrow> bool) \<Rightarrow> twt \<Rightarrow> twt \<Rightarrow> bool" where
  "event_ok begins s s' \<longleftrightarrow>
     same_env s s' \<and> (working s \<and> armed s \<longrightarrow> armed s') \<and>
     (\<not> session_active s \<and> session_active s' \<longrightarrow> (\<exists>p. begins p (active_flow_id s')))"

definition session_begins :: "twt_event \<Rightarrow> twt \<Rightarrow> ptr \<Rightarrow> 3 word \<Rightarrow> bool" where
  "session_begins ev s p flow \<longleftrightarrow> ev = Action_Frame p \<and> agreed p s \<and> flow = twt_flow_id (twt_el (setup_at p))"

lemma event_quiet:
  assumes "same_env s s'" "in_progress s' = in_progress s \<and> twt_timer s' = twt_timer s \<or> in_progress s' \<and> twt_timer s' \<noteq> None \<or> \<not> in_progress s'"
    "session_active s' \<Longrightarrow> session_active s"
  shows "event_ok b s s'"
  using assms by (auto simp: event_ok_def armed_def)

lemma setup_event:
  assumes "map_option snd (send_twt_setup_frame None s1) = Some s'" "same_env s s1" "same_session s s1"
    "in_progress s1 = in_progress s" "twt_timer s1 = twt_timer s"
  shows "event_ok b s s'"
proof -
  obtain st where st: "send_twt_setup_frame None s1 = Some (st, s')" using assms(1) by auto
  show ?thesis
    using same_env_trans [OF assms(2) setup_keeps(1) [OF st]] setup_keeps(2,3) [OF st] assms(3-5)
    by (intro event_quiet) (auto simp: same_session_def)
qed

lemma teardown_event:
  assumes "user_teardown s1 = Some s'" "same_env s s1" "same_session s s1" "in_progress s1 = in_progress s" "twt_timer s1 = twt_timer s"
  shows "event_ok b s s'"
proof -
  obtain st s2 where st: "send_twt_teardown_frame (cfg_flow_id (config s1)) (cfg_negotiation (config s1)) s1 = Some (st, s2)"
    and s': "s' = (snd (end_session (cfg_flow_id (config s2)) s2))\<lparr>current_status := TEARDOWN_SUCC\<rparr>"
    using assms(1) by (auto simp: user_teardown_def)
  note t = teardown_keeps [OF st] and e = end_keeps [where s = s2 and flow = "cfg_flow_id (config s2)"]
  have "same_env s s'" unfolding s' using same_env_trans [OF assms(2) same_env_trans [OF t(1) e(1)]] by simp
  then show ?thesis
    using t(2,3) e(2,3) assms(3-5) by (intro event_quiet) (auto simp: s' same_talk_def same_session_def)
qed

lemma config_event:
  assumes "twt_config_cmd u s = Some s'"
  shows "event_ok b s s'"
proof -
  consider st where "s' = s\<lparr>current_status := st\<rparr>" | "s' = s\<lparr>config := u\<rparr>"
    | "map_option snd (send_twt_setup_frame None (s\<lparr>config := u\<rparr>)) = Some s'" | "user_teardown (s\<lparr>config := u\<rparr>) = Some s'"
    using assms by (fastforce simp: twt_config_cmd_def process_twt_setup_cmd_def split: if_split_asm)
  then show ?thesis
  proof cases
    case 3
    then show ?thesis by (rule setup_event) (simp_all add: same_session_def)
  next
    case 4
    then show ?thesis by (rule teardown_event) (simp_all add: same_session_def)
  qed (auto intro!: event_quiet)
qed

lemma auto_config_event:
  assumes "twt_auto_config sel s = Some s'"
  shows "event_ok b s s'"
proof -
  obtain status u where u: "use_case_based_twt_params sel (config s) = Some (status, u)"
    using assms by (auto simp: twt_auto_config_def split: option.splits)
  define s1 where "s1 = (if status = - 1 then s\<lparr>config := u, current_status := AUTO_CONFIG_FAIL\<rparr> else s\<lparr>config := u\<rparr>)\<lparr>user_auto_config := sel\<rparr>"
  have k: "same_env s s1" "same_session s s1" "in_progress s1 = in_progress s" "twt_timer s1 = twt_timer s"
    by (simp_all add: s1_def same_session_def)
  have "s' = s1 \<or> map_option snd (send_twt_setup_frame None (s1\<lparr>auto_config := True, retry_count := 0\<rparr>)) = Some s' \<or> user_teardown s1 = Some s'"
    using assms u by (auto simp: twt_auto_config_def s1_def Let_def split: if_split_asm)
  then show ?thesis
  proof (elim disjE)
    assume "s' = s1"
    then show ?thesis using k by (intro event_quiet) (auto simp: same_session_def)
  next
    assume "map_option snd (send_twt_setup_frame None (s1\<lparr>auto_config := True, retry_count := 0\<rparr>)) = Some s'"
    then show ?thesis by (rule setup_event) (use k in \<open>simp_all add: same_session_def\<close>)
  next
    assume "user_teardown s1 = Some s'"
    then show ?thesis by (rule teardown_event) (use k in simp_all)
  qed
qed

lemma timer_event:
  assumes "twt_step Timer_Expires s = Some s'"
  shows "event_ok b s s'"
proof (cases "twt_timer s = None")
  case True
  then show ?thesis using assms by (intro event_quiet) auto
next
  case pending: False
  let ?s = "s\<lparr>twt_timer := None\<rparr>"
  show ?thesis
  proof (cases "retry_count s < retry_limit (config s)")
    case True
    then obtain st where st: "send_twt_setup_frame None ?s = Some (st, s')"
      using assms pending by (auto simp: twt_setup_timer_callback_def)
    have "same_env s s'" "session_active s' = session_active s"
      using setup_keeps(1,2) [OF st] by (simp_all add: same_env_def same_session_def)
    moreover have "armed s'" if "working s"
    proof -
      have "working ?s" by (rule same_env_working [OF _ that]) simp
      then show ?thesis using st by (elim setup_works [of _ None]) (auto simp: armed_def setup_sent_fields)
    qed
    ultimately show ?thesis by (simp add: event_ok_def)
  next
    case False
    then have "s' = restore_ps (?s\<lparr>retry_count := 0, in_progress := False, current_status := SETUP_FAIL_MAX_RETRIES_REACHED, twt_timer := None\<rparr>)"
      using assms pending by (auto simp: twt_setup_timer_callback_def)
    then show ?thesis by (intro event_quiet) (auto simp: restore_ps_def split: if_splits)
  qed
qed

lemma setup_at_category [simp]: "action_category (setup_at p) = p 0"
  by (simp add: setup_at_def)

lemma process_event:
  assumes "rsi_mgmt_process_twt_setup_resp (setup_at p) s = Some s'" "p 0 = WLAN_CATEGORY_S1G" "action_type (setup_at p) = WLAN_S1G_TWT_SETUP"
    "in_progress s \<or> ap_support_twt s"
  shows "event_ok (session_begins (Action_Frame p) s) s s'"
proof -
  note k = process_keeps [OF assms(1)]
  have "session_begins (Action_Frame p) s p (active_flow_id s')" if "\<not> session_active s" "session_active s'"
    using k(3) [OF that] assms(2-4) by (simp add: session_begins_def agreed_def accepted_def Let_def)
  then show ?thesis using k(1,2) unfolding event_ok_def by blast
qed

lemma refusal_event:
  assumes "send_twt_teardown_frame flow neg s = Some (st, s')"
  shows "event_ok b s s'" "event_ok b s (s'\<lparr>current_status := c\<rparr>)"
  using teardown_keeps [OF assms] by (auto intro!: event_quiet simp: same_talk_def same_session_def)

lemma begin_event:
  assumes "setup_command (twt_el (setup_at p)) = SETUP_ACCEPT" "validate_unsupported (auto_config s) (setup_at p) = 0"
    "p 0 = WLAN_CATEGORY_S1G" "action_type (setup_at p) = WLAN_S1G_TWT_SETUP" "ap_support_twt s" "cfg_enable (config s) = 0" "\<not> in_progress s"
    "session_active s1 = session_active (snd (begin_session (twt_el (setup_at p)) s))"
    "active_flow_id s1 = active_flow_id (snd (begin_session (twt_el (setup_at p)) s))" "same_env s s1" "\<not> in_progress s1"
  shows "event_ok (session_begins (Action_Frame p) s) s s1"
proof -
  have "session_begins (Action_Frame p) s p (active_flow_id s1)" if "\<not> session_active s" "session_active s1"
    using begin_keeps(3) [where e = "twt_el (setup_at p)" and s = s] assms(1-9) that
    by (simp add: session_begins_def agreed_def Let_def)
  then show ?thesis using assms(10,11) unfolding event_ok_def armed_def by blast
qed

lemma unsolicited_event:
  assumes "unsolicited_accept (setup_at p) s = Some s'" "p 0 = WLAN_CATEGORY_S1G" "action_type (setup_at p) = WLAN_S1G_TWT_SETUP"
    "ap_support_twt s" "\<not> in_progress s" "setup_command (twt_el (setup_at p)) = SETUP_ACCEPT"
  shows "event_ok (session_begins (Action_Frame p) s) s s'"
proof -
  let ?f = "setup_at p"
  let ?e = "twt_el ?f"
  let ?s1 = "(snd (begin_session ?e s))\<lparr>current_status := UNSOL_SESSION_SUCC\<rparr>"
  let ?refusal = "send_twt_teardown_frame (ucast (twt_flow_id ?e)) (ucast (negotiation_type ?e)) s"
  consider "rsi_mgmt_process_twt_setup_resp ?f s = Some s'"
    | "cfg_enable (config s) = 0" "validate_unsupported (auto_config s) ?f = 0"
      "s' = (if session_active ?s1 then report_session ?e ?s1 else ?s1)"
    | st s2 where "?refusal = Some (st, s2)" "s' = s2 \<or> s' = s2\<lparr>current_status := SETUP_UNSUPPORTED_RSP\<rparr>"
    using assms(1) unfolding unsolicited_accept_def Let_def by (auto split: if_split_asm)
  then show ?thesis
  proof cases
    case 1
    then show ?thesis by (rule process_event) (use assms in simp_all)
  next
    case 2
    have f: "session_active s' = session_active (snd (begin_session ?e s))" "active_flow_id s' = active_flow_id (snd (begin_session ?e s))"
        "same_env (snd (begin_session ?e s)) s'" "in_progress s' = in_progress (snd (begin_session ?e s))"
      unfolding 2(3) by (simp_all add: report_session_def)
    have "same_env s s'" by (rule same_env_trans [OF begin_keeps(1) f(3)])
    moreover have "\<not> in_progress s'" using f(4) begin_keeps(2) [where s = s and e = ?e] assms(5) by (simp add: same_talk_def)
    ultimately show ?thesis
      by (intro begin_event [OF assms(6) 2(2) assms(2,3,4) 2(1) assms(5) f(1,2)])
  next
    case 3
    then show ?thesis using refusal_event [OF 3(1)] by auto
  qed
qed

lemma teardown_received_event: "event_ok b s (twt_teardown_received flags s)"
proof -
  have "event_ok b s ((snd (end_session flow s))\<lparr>current_status := AP_TEARDOWN_SUCC\<rparr>)" for flow
    using end_keeps [where s = s and flow = flow] by (intro event_quiet) (auto simp: same_talk_def)
  moreover have "event_ok b s s" by (rule event_quiet) auto
  ultimately show ?thesis by (simp add: twt_teardown_received_def)
qed

lemma restore_event: "event_ok b s s' \<Longrightarrow> event_ok b s (restore_ps s')"
  by (auto simp: event_ok_def restore_ps_def armed_def)

lemma action_event:
  assumes "twt_action_frame p s = Some s'"
  shows "event_ok (session_begins (Action_Frame p) s) s s'"
proof -
  consider "s' = s" | s1 where "p 0 = WLAN_CATEGORY_S1G" "action_type (setup_at p) = WLAN_S1G_TWT_SETUP" "in_progress s"
      "rsi_mgmt_process_twt_setup_resp (setup_at p) s = Some s1" "s' = restore_ps s1"
    | "p 0 = WLAN_CATEGORY_S1G" "action_type (setup_at p) = WLAN_S1G_TWT_SETUP" "ap_support_twt s" "\<not> in_progress s"
      "setup_command (twt_el (setup_at p)) = SETUP_ACCEPT" "unsolicited_accept (setup_at p) s = Some s'"
    | "s' = twt_teardown_received (p 2) s"
    using assms by (auto simp: twt_action_frame_def Let_def split: if_split_asm)
  then show ?thesis
  proof cases
    case 1
    then show ?thesis by (auto intro: event_quiet)
  next
    case 2
    have "event_ok (session_begins (Action_Frame p) s) s s1" using 2(4,1,2) by (rule process_event) (simp add: 2(3))
    then show ?thesis unfolding 2(5) by (rule restore_event)
  next
    case 3
    then show ?thesis by (intro unsolicited_event)
  next
    case 4
    then show ?thesis by (simp add: teardown_received_event)
  qed
qed

lemma step_ok:
  assumes "twt_step ev s = Some s'"
  shows "event_ok (session_begins ev s) s s'"
proof (cases ev)
  case (User_Config u)
  then show ?thesis using assms by (auto intro: config_event)
next
  case (Auto_Config sel)
  then show ?thesis using assms by (auto intro: auto_config_event)
next
  case (Reschedule flow act d)
  then consider st where "s' = s\<lparr>current_status := st\<rparr>" | st where "send_twt_information_frame flow act d s = Some (st, s')"
    using assms by (auto simp: reschedule_twt_def split: if_split_asm)
  then show ?thesis
  proof cases
    case 1
    then show ?thesis by (auto intro: event_quiet)
  next
    case 2
    show ?thesis using information_keeps [OF 2] by (intro event_quiet) (auto simp: same_talk_def same_session_def)
  qed
next
  case Timer_Expires
  then show ?thesis using timer_event assms by simp
next
  case (Action_Frame p)
  then show ?thesis using assms action_event by simp
next
  case Connected
  then consider "s' = s" | "map_option snd (send_twt_setup_frame None s) = Some s'"
    using assms by (auto simp: twt_connected_def split: if_split_asm)
  then show ?thesis
  proof cases
    case 1
    then show ?thesis by (auto intro: event_quiet)
  next
    case 2
    then show ?thesis by (rule setup_event) (simp_all add: same_session_def)
  qed
next
  case (Associated he r)
  then show ?thesis using assms by (cases r) (auto simp: twt_associated_def Let_def intro!: event_quiet split: if_splits)
next
  case Disassociated
  then show ?thesis using assms by (auto intro!: event_quiet)
next
  case Station_Removed
  then show ?thesis using assms by (auto simp: twt_station_removed_def intro!: event_quiet split: if_splits)
next
  case (Info_Confirm t)
  then show ?thesis using assms by (auto simp: info_frame_confirmed_def intro!: event_quiet split: if_splits)
qed

lemma run_armed: "\<lbrakk>twt_run evs s = Some s'; working s; armed s\<rbrakk> \<Longrightarrow> working s' \<and> armed s'"
proof (induction evs arbitrary: s)
  case (Cons ev evs)
  then obtain s1 where s1: "twt_step ev s = Some s1" "twt_run evs s1 = Some s'" by (auto split: option.splits)
  have "working s1" "armed s1" using step_ok [OF s1(1)] Cons.prems(2,3) same_env_working by (auto simp: event_ok_def)
  then show ?case by (rule Cons.IH [OF s1(2)])
qed simp

section \<open>What holds of the negotiation\<close>

text \<open>C11. As long as memory suffices and the station interface is there, a negotiation in progress always has its timer pending, whatever the user, the access point and the connection do in whatever order: it cannot be left waiting for nothing.\<close>

theorem twt_timer_armed:
  assumes "working s" "\<not> in_progress s" "twt_run evs s = Some s'" "in_progress s'"
  shows "twt_timer s' \<noteq> None"
  using run_armed [OF assms(3,1)] assms(2,4) by (simp add: armed_def)

lemma ticks:
  assumes "working s" "twt_timer s \<noteq> None" "cfg_enable (config s) \<noteq> 0" "unat (retry_limit (config s)) - unat (retry_count s) = k"
  shows "\<exists>s' ds. twt_run (replicate (Suc k) Timer_Expires) s = Some s' \<and> \<not> in_progress s' \<and>
           current_status s' = SETUP_FAIL_MAX_RETRIES_REACHED \<and> mgmt_queue (cmds s') = mgmt_queue (cmds s) @ ds \<and> length ds = k \<and>
           (\<forall>d \<in> set ds. \<exists>i n. drop i d = setup_frame (sta_bssid s) (mac_addr (cmds s)) n (configured_request (config s)))"
  using assms
proof (induction k arbitrary: s)
  case 0
  then have "\<not> retry_count s < retry_limit (config s)" by (simp add: word_less_nat_alt)
  then show ?case using 0 by (auto simp: twt_setup_timer_callback_def restore_ps_def)
next
  case (Suc k)
  let ?s = "s\<lparr>twt_timer := None\<rparr>"
  have more: "retry_count s < retry_limit (config s)" using Suc.prems(4) by (simp add: word_less_nat_alt)
  have "working ?s" by (rule same_env_working [OF _ Suc.prems(1)]) simp
  then obtain s1 d i n where s1: "send_twt_setup_frame None ?s = Some (0, setup_sent s1 d)"
      "drop i d = setup_frame (sta_bssid ?s) (mac_addr (cmds ?s)) n (setup_element (config ?s) None)"
      "mgmt_queue (cmds s1) = mgmt_queue (cmds ?s)" "retry_count s1 = retry_count ?s"
      "config s1 = (if cfg_enable (config ?s) = 0 then default_config (config ?s) else config ?s)"
    by (rule setup_works)
  let ?t = "setup_sent s1 d"
  have step: "twt_step Timer_Expires s = Some ?t" using Suc.prems(2) more s1(1) by (auto simp: twt_setup_timer_callback_def)
  have env: "same_env s ?t" using setup_keeps(1) [OF s1(1)] by (simp add: same_env_def)
  have c: "config ?t = config s" using s1(5) Suc.prems(3) by (simp add: setup_sent_fields)
  have "unat (retry_count s + 1) = Suc (unat (retry_count s))"
    using more unat_u8_bound [of "retry_limit (config s)"] by (simp add: word_less_nat_alt unat_word_ariths)
  then have r: "unat (retry_limit (config ?t)) - unat (retry_count ?t) = k"
    using Suc.prems(4) s1(4) c by (simp add: setup_sent_fields)
  obtain s' ds where s': "twt_run (replicate (Suc k) Timer_Expires) ?t = Some s'" "\<not> in_progress s'"
      "current_status s' = SETUP_FAIL_MAX_RETRIES_REACHED" "mgmt_queue (cmds s') = mgmt_queue (cmds ?t) @ ds" "length ds = k"
      "\<forall>d \<in> set ds. \<exists>i n. drop i d = setup_frame (sta_bssid ?t) (mac_addr (cmds ?t)) n (configured_request (config ?t))"
    using Suc.IH [OF same_env_working [OF env Suc.prems(1)] _ _ r] Suc.prems(3) c by (auto simp: setup_sent_fields)
  have first: "drop i d = setup_frame (sta_bssid s) (mac_addr (cmds s)) n (configured_request (config s))"
    using s1(2) Suc.prems(3) by (simp add: setup_element_def)
  have "twt_run (replicate (Suc (Suc k)) Timer_Expires) s = Some s'" using step s'(1) by simp
  moreover have "mgmt_queue (cmds s') = mgmt_queue (cmds s) @ d # ds" using s'(4) s1(3) by (simp add: setup_sent_fields)
  moreover have "\<forall>d' \<in> set (d # ds). \<exists>i n. drop i d' = setup_frame (sta_bssid s) (mac_addr (cmds s)) n (configured_request (config s))"
    using first s'(6) env unfolding c by (auto simp: same_env_def)
  ultimately show ?case using s'(2,3,5) by (intro exI [of _ s'] exI [of _ "d # ds"]) simp
qed

text \<open>C29. With memory, the interface and a silent access point a negotiation comes to an end: after one expiry of the timer for each retry that is left, each of which sends exactly one request for the configured parameters, and one more, it is over and reported as failed.\<close>

theorem twt_negotiation_ends:
  assumes "working s" "twt_timer s \<noteq> None" "cfg_enable (config s) \<noteq> 0"
  shows "\<exists>s' ds. twt_run (replicate (Suc (unat (retry_limit (config s)) - unat (retry_count s))) Timer_Expires) s = Some s' \<and>
           \<not> in_progress s' \<and> current_status s' = SETUP_FAIL_MAX_RETRIES_REACHED \<and> mgmt_queue (cmds s') = mgmt_queue (cmds s) @ ds \<and>
           length ds = unat (retry_limit (config s)) - unat (retry_count s) \<and>
           (\<forall>d \<in> set ds. \<exists>i n. drop i d = setup_frame (sta_bssid s) (mac_addr (cmds s)) n (configured_request (config s)))"
  by (rule ticks [OF assms refl])

text \<open>C12. A session begins only with a frame of the access point that accepts it, that the driver supports, and that suits what was asked for: if a negotiation is in progress or configured, the tolerances of a suggestion hold and the parameters of a demand are met exactly. The session then has the flow number of that frame.\<close>

theorem twt_session_agreed:
  assumes "twt_step ev s = Some s'" "\<not> session_active s" "session_active s'"
  shows "\<exists>p. ev = Action_Frame p \<and> agreed p s \<and> active_flow_id s' = twt_flow_id (twt_el (setup_at p))"
  using step_ok [OF assms(1)] assms(2,3) by (auto simp: event_ok_def session_begins_def)

section \<open>What goes wrong\<close>

definition stuck :: "twt \<Rightarrow> bool" where
  "stuck s \<longleftrightarrow> \<not> session_active s \<and> in_progress s \<and> twt_timer s = None"

lemma stuck_run:
  assumes "stuck s" "\<forall>ev \<in> set evs. ev = Timer_Expires \<or> (\<exists>u. ev = User_Config u)"
  shows "\<exists>s'. twt_run evs s = Some s' \<and> stuck s' \<and> cmds s' = cmds s"
  using assms
proof (induction evs arbitrary: s)
  case (Cons ev evs)
  have "\<exists>s1. twt_step ev s = Some s1 \<and> stuck s1 \<and> cmds s1 = cmds s"
    using Cons.prems by (auto simp: stuck_def twt_config_cmd_def process_twt_setup_cmd_def)
  then obtain s1 where s1: "twt_step ev s = Some s1" "stuck s1" "cmds s1 = cmds s" by blast
  then show ?case using Cons.IH [OF s1(2)] Cons.prems(2) by auto
qed simp

text \<open>C32. When memory runs out while a request is repeated, the negotiation hangs: the timer is not armed again, and from then on every configuration the user sends, for a setup or a teardown, is refused without a frame being sent.\<close>

theorem twt_stuck:
  assumes "latest_vif s = Some (Some n)" "\<not> mgmt_alloc (cmds s) (mgmt_allocs (cmds s))"
    "\<not> session_active s" "in_progress s" "twt_timer s \<noteq> None" "retry_count s < retry_limit (config s)"
    "\<forall>ev \<in> set evs. ev = Timer_Expires \<or> (\<exists>u. ev = User_Config u)"
  shows "\<exists>s'. twt_run (Timer_Expires # evs) s = Some s' \<and> in_progress s' \<and> twt_timer s' = None \<and>
           mgmt_queue (cmds s') = mgmt_queue (cmds s)"
proof -
  let ?s = "s\<lparr>twt_timer := None\<rparr>"
  obtain s1 where s1: "alloc_frame (next_seq ?s n) = (False, s1)" "stuck s1" "mgmt_queue (cmds s1) = mgmt_queue (cmds s)"
    using assms(2-4) by (simp add: alloc_frame_def alloc_skb_def next_seq_def stuck_def)
  have v: "latest_vif ?s = Some (Some n)" using assms(1) by (auto simp: latest_vif_def split: if_split_asm)
  then have "twt_step Timer_Expires s = Some s1"
    using s1(1) assms(5,6) by (auto simp: twt_setup_timer_callback_def send_twt_setup_frame_def)
  then show ?thesis using stuck_run [OF s1(2) assms(7)] s1(3) by (auto simp: stuck_def)
qed

lemma small_shift:
  assumes "unat (w :: 'a::len word) < 1024"
  shows "drop_bit 10 w = 0"
proof -
  have "unat (drop_bit 10 w) = unat w div 2 ^ 10" unfolding unat_drop_bit_eq by (rule drop_bit_eq_div)
  also have "\<dots> = 0" by (rule div_less) (use assms in simp)
  finally show ?thesis by (simp only: unat_eq_zero)
qed

lemma small_drop:
  assumes "response_interval e < 1024" "validate_unsupported auto f = 0" "twt_el f = e"
  shows "drop_bit 10 (response_interval e) = 0" "drop_bit 10 (response_duration e) = 0"
proof -
  have "\<not> response_interval e < ucast (response_duration e)"
    using assms(2,3) by (auto simp: validate_unsupported_def Let_def split: if_split_asm)
  then have "unat (response_duration e) < 1024"
    using assms(1) unat_u32_bound [of "response_duration e"] by (simp add: word_less_nat_alt unat_ucast)
  then show "drop_bit 10 (response_duration e) = 0" by (rule small_shift)
  show "drop_bit 10 (response_interval e) = 0" using assms(1) by (intro small_shift) (simp add: word_less_nat_alt)
qed

text \<open>C31. The access point can crash the host: while parameters chosen automatically are negotiated, any supported response that agrees in the flags and proposes a wake interval below 1024 microseconds is rounded down to an interval of zero milliseconds, by which the driver then divides.\<close>

theorem twt_response_crashes:
  assumes "in_progress s" "auto_config s" "req_type (config s) = SETUP_SUGGEST"
    "p 0 = WLAN_CATEGORY_S1G" "action_type (setup_at p) = WLAN_S1G_TWT_SETUP" "twt_el (setup_at p) = e"
    "setup_command e = SETUP_ACCEPT \<or> setup_command e = SETUP_ALTERNATE \<or> setup_command e = SETUP_DICTATE"
    "validate_unsupported True (setup_at p) = 0" "same_flags (config s) e" "response_interval e < 1024"
  shows "twt_step (Action_Frame p) s = None"
proof -
  have "flow_type e = 0" using assms(6,8) by (auto simp: validate_unsupported_def Let_def split: if_split_asm)
  then have m: "does_twt_response_match (user_auto_config s) (config s) e = None"
    using small_drop [OF assms(10,8,6)] by (simp add: does_twt_response_match_def Let_def div64_def)
  let ?s = "s\<lparr>retry_count := 0, twt_timer := None\<rparr>"
  have "on_suggestion e ?s = None"
    using assms(2,7,9) m by (auto simp: on_suggestion_def suits_suggestion_def Let_def)
  then have "judge_response (setup_at p) ?s = None"
    using assms(2,3,6,8) by (simp add: judge_response_def Let_def)
  then have "rsi_mgmt_process_twt_setup_resp (setup_at p) s = None"
    using assms(1) by (simp add: rsi_mgmt_process_twt_setup_resp_def Let_def)
  then show ?thesis using assms(1,4,5) by (simp add: twt_action_frame_def Let_def)
qed

section \<open>Concrete runs\<close>

definition example_twt :: twt where
  "example_twt =
     \<lparr>cmds = (example_mgmt 1)\<lparr>mac_addr := [2, 0, 0, 0, 0, 9]\<rparr>, pm = example_power, hal = example_probe_hal, buf_addr = 128, room = 128,
      nvifs = 1, seq_nums = [Some 7, None, None], sta_bssid = [2, 0, 0, 0, 0, 1], he_connected = True, ap_support_twt = True,
      session_active = False, active_flow_id = 0, in_progress = False, retry_count = 0, demand_resp_retry = 0,
      current_status = TEARDOWN_ERR_NOACTIVE_SESS, config = example_config,
      status_to_app = \<lparr>app_flow_id = 0, app_wake_duration = 0, app_duration_unit = 0, app_implicit = 0, app_triggered = 0, app_un_announced = 0,
        app_int_exp = 0, app_mantissa = 0, app_req_type = 0\<rparr>,
      ap_info_frames = False, rescheduling = False, user_auto_config = example_selection, auto_config = True, ps_disabled = False,
      twt_timer = None\<rparr>"

text \<open>The same driver with a request under way, and an acceptance of an element as it arrives.\<close>

definition example_waiting :: twt where
  "example_waiting = example_twt\<lparr>in_progress := True, retry_count := 1, twt_timer := Some 10000\<rparr>"

definition example_element :: "u16 \<Rightarrow> 5 word \<Rightarrow> twt_element" where
  "example_element m e = blank_request\<lparr>twt_req := 0, setup_command := SETUP_ACCEPT, implicit_twt := 1, twt_flow_id := 3, wi_exp := e,
     nom_min_wake_duration := 1, wake_interval_mantissa := m\<rparr>"

definition example_answer :: "u16 \<Rightarrow> 5 word \<Rightarrow> twt_setup_frame" where
  "example_answer m e = \<lparr>action_category = WLAN_CATEGORY_S1G, action_type = WLAN_S1G_TWT_SETUP, dialog_token = 1, twt_el = example_element m e\<rparr>"

definition example_arrives :: "u16 \<Rightarrow> 5 word \<Rightarrow> ptr" where
  "example_arrives m e = ptr_of (\<lambda>_. 0) (setup_bytes (example_answer m e))"

lemma example_arrives_reads: "setup_at (example_arrives m e) = example_answer m e" "example_arrives m e 0 = WLAN_CATEGORY_S1G"
proof -
  show *: "setup_at (example_arrives m e) = example_answer m e"
    by (simp add: example_arrives_def example_answer_def setup_at_def element_at_def setup_bytes_def element_bytes_def ptr_of_def ptr_add_def
        get_le16_def get_le32_def put_le16_def put_le32_def le16_join le32_join element_fields Let_def)
  show "example_arrives m e 0 = WLAN_CATEGORY_S1G"
    using arg_cong [OF *, of action_category] by (simp add: example_answer_def)
qed

lemma example_fields:
  "mgmt_alloc (cmds example_twt) = (\<lambda>_. True)" "mac_addr (cmds example_twt) = [2, 0, 0, 0, 0, 9]" "hal example_twt = example_probe_hal"
  "room example_twt = 128" "latest_vif example_twt = Some (Some 7)" "sta_bssid example_twt = [2, 0, 0, 0, 0, 1]" "he_connected example_twt"
  "ap_support_twt example_twt" "config example_twt = example_config" "\<not> in_progress example_twt" "\<not> session_active example_twt"
  "auto_config example_twt" "cfg_enable example_config = 1" "retry_limit example_config = 3" "req_type example_config = SETUP_SUGGEST"
  by (simp_all add: example_twt_def example_mgmt_def latest_vif_def example_config_def)

lemma example_working: "working example_twt" "working example_waiting"
proof -
  show w: "working example_twt"
    unfolding working_def example_fields
    by (simp add: example_probe_hal_def rsi_get_vif_def example_vif_def is_ap_kind_def)
  show "working example_waiting" by (rule same_env_working [OF _ w]) (simp add: example_waiting_def)
qed

lemma example_waiting_fields:
  "in_progress example_waiting" "twt_timer example_waiting = Some 10000" "config example_waiting = example_config" "auto_config example_waiting"
  "\<not> session_active example_waiting" "retry_count example_waiting = 1" "latest_vif example_waiting = Some (Some 7)" "ps_disabled example_waiting = False"
  "cmds example_waiting = cmds example_twt"
  using example_fields by (simp_all add: example_waiting_def latest_vif_def example_twt_def)

lemma twt_timer_armed_witness:
  "\<exists>s'. twt_run [Connected] example_twt = Some s' \<and> in_progress s' \<and> twt_timer s' \<noteq> None"
proof -
  obtain s1 d where "send_twt_setup_frame None example_twt = Some (0, setup_sent s1 d)" using example_working(1) by (rule setup_works)
  then have run: "twt_run [Connected] example_twt = Some (setup_sent s1 d)" "in_progress (setup_sent s1 d)"
    by (simp_all add: twt_connected_def example_fields setup_sent_fields)
  then show ?thesis using twt_timer_armed [OF example_working(1) example_fields(10) run] by blast
qed

lemma twt_negotiation_ends_witness:
  "\<exists>s' ds. twt_run (replicate 3 Timer_Expires) example_waiting = Some s' \<and> \<not> in_progress s' \<and> mgmt_queue (cmds s') = ds \<and> length ds = 2"
proof -
  have n: "Suc (unat (retry_limit (config example_waiting)) - unat (retry_count example_waiting)) = 3"
    by (simp add: example_waiting_fields example_fields)
  have q: "mgmt_queue (cmds example_waiting) = []" by (simp add: example_waiting_fields example_twt_def example_mgmt_def)
  show ?thesis
    using twt_negotiation_ends [OF example_working(2)] n q by (auto simp: example_waiting_fields example_fields)
qed

lemma twt_session_agreed_witness:
  "\<exists>s'. twt_step (Action_Frame (example_arrives 512 10)) (example_waiting\<lparr>config := example_config\<lparr>req_type := SETUP_REQUEST\<rparr>\<rparr>) = Some s' \<and>
     session_active s' \<and> active_flow_id s' = 3"
proof -
  let ?p = "example_arrives 512 10" and ?s = "example_waiting\<lparr>config := example_config\<lparr>req_type := SETUP_REQUEST\<rparr>\<rparr>"
  have "\<exists>s'. twt_step (Action_Frame ?p) ?s = Some s' \<and> session_active s'"
    by (simp add: twt_action_frame_def example_arrives_reads example_waiting_fields rsi_mgmt_process_twt_setup_resp_def judge_response_def
        validate_unsupported_def example_answer_def example_element_def blank_request_def response_interval_def response_duration_def
        wake_interval_us_def wake_duration_us_def on_request_def accept_session_def begin_session_def alloc_frame_def alloc_skb_def
        example_fields queue_internal_def report_session_def restore_ps_def Let_def)
  then obtain s' where s': "twt_step (Action_Frame ?p) ?s = Some s'" "session_active s'" by blast
  then show ?thesis using twt_session_agreed [OF s'(1) _ s'(2)]
    by (auto simp: example_waiting_fields example_arrives_reads example_answer_def example_element_def)
qed

lemma twt_stuck_witness:
  "\<exists>s'. twt_run [Timer_Expires, User_Config example_config, Timer_Expires]
           (example_waiting\<lparr>cmds := (cmds example_twt)\<lparr>mgmt_alloc := (\<lambda>_. False)\<rparr>\<rparr>) = Some s' \<and> in_progress s' \<and> twt_timer s' = None"
  using twt_stuck [of "example_waiting\<lparr>cmds := (cmds example_twt)\<lparr>mgmt_alloc := (\<lambda>_. False)\<rparr>\<rparr>" 7 "[User_Config example_config, Timer_Expires]"]
    example_waiting_fields(7)
  by (auto simp: example_waiting_fields example_fields latest_vif_def split: if_split_asm)

lemma twt_response_crashes_witness: "twt_step (Action_Frame (example_arrives 512 0)) example_waiting = None"
proof (rule twt_response_crashes [where e = "example_element 512 0"])
  show "validate_unsupported True (setup_at (example_arrives 512 0)) = 0" "response_interval (example_element 512 0) < 1024"
    by (simp_all add: example_arrives_reads validate_unsupported_def example_answer_def example_element_def blank_request_def
        response_interval_def response_duration_def wake_interval_us_def wake_duration_us_def)
  show "same_flags (config example_waiting) (example_element 512 0)"
    by (simp add: same_flags_def same_flag_def example_waiting_fields example_config_def example_element_def blank_request_def)
qed (simp_all add: example_waiting_fields example_fields example_arrives_reads example_answer_def example_element_def)

end
