(* ===== verification/Spec2Isabelle.thy ===== *)
theory Spec2Isabelle
  imports Firmware Tx_Path Power_Save Bringup Rx_Path Vifs Twt
begin

text \<open>
  The host driver of the SiLabs 917 radio co-processor (the kernel modules under src/rsi/), modelled in HOL.

  \<^bold>\<open>The program.\<close> The driver connects mac80211, the wireless stack of Linux, with a device on SDIO or USB
  that runs the lower half of the protocols. It loads the device's firmware through its boot
  loader, brings the device up by a dialogue of command frames and confirmations, queues and
  schedules what is to be transmitted, takes the received buffers apart and hands frames to mac80211, and
  tells the device what mac80211 decides (keys, channels, stations, power save). One half knows
  the bus (sdio, usb), the other (hal, core, mgmt, ps, mac80211, main) reaches it through the table
  \<open>rsi_host_intf_ops\<close>. The model follows the default build: Wi-Fi alone, without \<open>CONFIG_STA_PLUS_AP\<close>,
  \<open>CONFIG_RSI_COEX_MODE\<close>, \<open>CONFIG_RSI_11K\<close>, \<open>CONFIG_RSI_WOW\<close> and \<open>CONFIG_RSI_P2P\<close>, and a kernel of version 6 or later; \<open>CONFIG_TWT_SUPPORT\<close>
  is modelled in theories of its own.

  \<^bold>\<open>Conventions.\<close> Kernel integers are words of their width, a C status is an \<open>int\<close>, memory the code reads
  through a pointer is a function from offsets to bytes (\<open>ptr\<close>), so that reading behind its
  end gives a byte of which nothing is known. State is passed explicitly, one record per component. What the
  environment decides (the bus, the allocator, the file system, mac80211) is a function of the
  model that says what the n-th call returns; the theorems hold for every such function. Fields
  described as ghosts only record what happened. A result None stands for a loop that does not
  return or for a kernel that dies, as the theory says. Logging, locks (unless a
  property is about them) and the freeing of temporary buffers are left out.

  \<^bold>\<open>The parts, and the theories that model them.\<close>

  \<^item> \<open>Rsi_Prelude\<close>: integer types, pointers, little-endian fields, and the lemmas on bytes and words that
    everything else uses. The collection \<open>rsi_defs\<close> holds small definitions.

  \<^item> The bus. \<open>Host_Intf\<close> is the table \<open>rsi_host_intf_ops\<close> (rsi/rsi_main.h) with the locale \<open>host_intf\<close>, its
    contract. \<open>Sdio_Bus\<close> (rsi_91x_sdio.c, rsi_91x_sdio_ops.c) and \<open>Usb_Bus\<close> (rsi_91x_usb.c) provide it: register and
    block access, the 64 KB window to the device's memory, packets, bulk load, reset. \<open>Sdio_Irq\<close>
    (rsi_91x_sdio_ops.c) has the flow control and the interrupt handler. Shown: a bulk load that
    reports success has written the whole image in place, the cached answers of the flow control are those of the last
    reading and at most four, the interrupt handler returns when the device falls quiet; and, as errors, what
    a dead bus and the unbalanced locking do.

  \<^item> The boot loader. \<open>Bootloader\<close>, \<open>Hal_Init\<close> (second half of rsi_91x_hal.c): the command dialogue under a timer, the upgrade of
    the flash in alternating buffers, the direct load, the operating modes. \<open>Firmware\<close> puts
    them on the buses by interpreting the locale \<open>boot_loader\<close>. Shown: every command and every load returns,
    a successful upgrade refines the abstract boot loader (the chunks of the image in order,
    then the end of file), a direct load writes exactly the sections of the image.

  \<^item> Transmission. \<open>Dot11\<close> (socket buffers, the kernel's 802.11 tests), \<open>Tx_Sched\<close> (rsi_91x_core.c: choice of the
    queue, the loop that empties the queues, the entry of a frame), \<open>Tx_Loop\<close> (its properties), \<open>Hal_Tx\<close>
    (first half of rsi_91x_hal.c: descriptors and send functions), \<open>Tx_Path\<close> (the scheduler over these
    functions, by interpreting the locale \<open>tx_sender\<close>). Shown: packets leave each queue in order and
    none is lost, every packet is settled exactly once but for data frames whose descriptor is rejected, which are
    released twice, the loop empties all queues when the device accepts, the descriptor of a data frame gives back
    header size, length and queue as long as the length has 12 bits.

  \<^item> Power save. \<open>Power_Save\<close> (rsi_91x_ps.c, parts of rsi_91x_mgmt.c): the power-save state, and the interleaved
    threads that agree with the device when it may sleep. Shown for every interleaving, with sleep
    entries and exits in any order: nobody holds access to a sleeping device, and sleep is acknowledged only without an intention to transmit.

  \<^item> Command frames and bring-up. \<open>Mgmt_Frames\<close> (rsi_91x_mgmt.c, rsi_mgmt.h, rsi_boot_params.h: the layout of
    the commands), \<open>Fsm\<close> (\<open>rsi_handle_card_ready\<close>, \<open>rsi_handle_ta_confirm\<close>, \<open>rsi_mgmt_pkt_recv\<close>), \<open>Bringup\<close> (its
    properties). Shown, for runs of received messages and restarts outside RF evaluation: the commands sent are exactly those
    the state stands for; the bring-up completes when the device confirms each step, stray confirmations change
    nothing, and the frame that loads a key carries it in its place. The commands announce their length.

  \<^item> Reception. \<open>Keys\<close> (rsi_91x_mac80211.c: keys, packet numbers), \<open>Rx_Frame\<close> (rsi_91x_mac80211.c, rsi_91x_main.c: one received
    frame), \<open>Rx_Path\<close> (rsi_91x_main.c and the receive threads: buffers with many packets; here
    the state machine, power save and the receive half are one world, through the table \<open>driver_ops\<close>). Shown:
    no group frame is accepted twice, a buffer of several data packets is handled as these packets one after the
    other, so that unprotected ones are delivered whole and in order, subframes of an unprotected
    A-MSDU get their header; and the packets that end reception or crash the kernel.

  \<^item> What mac80211 asks for (rsi_91x_mac80211.c with the commands of rsi_91x_mgmt.c). \<open>Rates\<close>: the table of rates of a
    connection, the rate mask. \<open>Channel\<close>: band, channel, transmit power, antenna, queue parameters. \<open>Probe\<close>, \<open>Scan\<close>:
    probe requests, the background scan and the scan channel by channel, beside whatever other threads do
    (\<open>scan_env\<close>). \<open>Stations\<close>: the station table, its notifications, aggregation. \<open>Vifs\<close>: interfaces, associations, the entry of
    frames. Shown: outside 802.11ax the rate table holds the negotiated rates without a gap and names the moderate one, a change of band reprograms
    the baseband, data is held back off the channel of the connection as far as there is memory for the command, a scan visits the channels it was asked to in order and then
    reports, the station table refines a finite set of addresses, every callback keeps the tables well formed, an
    association sends its commands in order when there is memory, and removing an added interface restores the table; and, as errors,
    the order of notifications, a scan that ends unreported, a lock given back that was not taken, interfaces that
    stay in the table.

  \<^item> Target wake time, which is compiled with \<open>CONFIG_TWT_SUPPORT\<close> only. \<open>Twt_Frames\<close> (rsi_91x_mgmt.c, rsi_main.h): the frames as
    bytes and the arithmetic of durations and intervals. \<open>Twt\<close> (rsi_91x_mgmt.c, the commands of rsi_91x_nlsock.c): the negotiation
    as a step function on events of the user, the access point, the timer and the connection. Shown: the fields of the setup frame
    are read where they were written, derived parameters can be kept, a negotiation always has its timer and ends when nobody
    answers, a session begins only with a response that was agreed on; and, as errors, a response that
    crashes the host and a negotiation that hangs.

  \<^bold>\<open>Bounds and fuel.\<close> No definition runs on fuel. Loops that may not end are \<open>partial_function (option)\<close>
    (the polling of the boot loader, the outer loop of the interrupt handler, the burst loop, the
    search for the country element of a beacon), and their returning is a theorem of its own, or
    its exact condition is. Other loops are functions with a termination proof.

  \<^bold>\<open>Not modelled.\<close> Coexistence (rsi_91x_coex.c), radio measurement (rsi_91x_rrm.c and the measurement commands), wake on wireless
  LAN and the GPIO handshake are not part of the default build. The capability elements of rsi_91x_he.c and the regulatory
  tables are data handed to mac80211. Remain-on-channel, the regulatory notifier, the elements of multiple-BSSID beacons
  and the commands of the manufacturing and diagnostic tools (gain table, baseband registers, master operations, statistics) stand
  beside the parts modelled here and are left out for their size. Card reset and clock set-up are
  commands to the MMC core only. Registration with the kernel, Bluetooth and ZigBee sockets, debugfs, netlink
  and the packet error test are input and output, and the command-line programs under src/apps/ are not
  part of the driver.
\<close>

end
